(* ===== verification/Prelude.thy ===== *)
theory Prelude
  imports Main "HOL-Library.Word" "HOL-Library.Char_ord" "HOL-Library.List_Lexorder"
    "HOL-Library.AList" "HOL-Library.Multiset"
begin

text \<open>
  Shared vocabulary of the development: the model's names for Go's basic types, the slice and
  search primitives of the Go library the components use, the lemma collections
  \<open>slice_simps\<close> and \<open>bounded_intros\<close>, and the interface \<open>bounded_store\<close> behind the package
  invariant that every store is bounded.

  A Go string and a Go byte slice are both a list of 8-bit characters; \<open><\<close> on them is the
  bytewise lexicographic order Go uses. A \<open>uint64\<close> is a 64-bit word.
\<close>

type_synonym bytes = string
type_synonym u64 = "64 word"
type_synonym u32 = "32 word"

named_theorems slice_simps \<open>rewriting of Go slice expressions\<close>
named_theorems bounded_intros \<open>a store stays within its bound\<close>

abbreviation newline :: char where
  "newline \<equiv> CHR 0x0A"

abbreviation blank :: char where
  "blank \<equiv> CHR 0x20"

abbreviation tabulator :: char where
  "tabulator \<equiv> CHR 0x09"

text \<open>The Go slice expression \<open>xs[a:b]\<close>, for bounds the caller has checked.\<close>

definition go_slice :: "'a list \<Rightarrow> nat \<Rightarrow> nat \<Rightarrow> 'a list" where
  "go_slice xs a b = take (b - a) (drop a xs)"

text \<open>\<open>bytes.IndexByte\<close>: the first position of a byte.\<close>

fun IndexByte :: "bytes \<Rightarrow> char \<Rightarrow> nat option" where
  "IndexByte [] c = None"
| "IndexByte (x # xs) c = (if x = c then Some 0 else map_option Suc (IndexByte xs c))"

text \<open>\<open>bytes.HasPrefix\<close> and \<open>bytes.Index\<close>: the first position at which a literal occurs.\<close>

fun HasPrefix :: "'a list \<Rightarrow> 'a list \<Rightarrow> bool" where
  "HasPrefix xs [] = True"
| "HasPrefix [] (y # ys) = False"
| "HasPrefix (x # xs) (y # ys) = (x = y \<and> HasPrefix xs ys)"

fun Index :: "'a list \<Rightarrow> 'a list \<Rightarrow> nat option" where
  "Index [] ys = (if ys = [] then Some 0 else None)"
| "Index (x # xs) ys = (if HasPrefix (x # xs) ys then Some 0 else map_option Suc (Index xs ys))"

text \<open>Result types: an error value on the left.\<close>

abbreviation Ok :: "'a \<Rightarrow> 'e + 'a" where
  "Ok \<equiv> Inr"

abbreviation Error :: "'e \<Rightarrow> 'e + 'a" where
  "Error \<equiv> Inl"

fun is_ok :: "'e + 'a \<Rightarrow> bool" where
  "is_ok (Inr _) = True"
| "is_ok (Inl _) = False"

lemma is_okD: "is_ok r \<Longrightarrow> \<exists>x. r = Inr x"
  by (cases r) auto

section \<open>Slices\<close>

lemma slice_length [slice_simps]: "length (go_slice xs a b) = min (b - a) (length xs - a)"
  by (simp add: go_slice_def min_def)

lemma slice_full [simp]: "go_slice xs 0 (length xs) = xs"
  by (simp add: go_slice_def)

lemma slice_empty [simp]: "go_slice xs a a = []"
  by (simp add: go_slice_def)

lemma slice_from_zero [slice_simps]: "go_slice xs 0 b = take b xs"
  by (simp add: go_slice_def)

lemma slice_to_end [slice_simps]: "go_slice xs a (length xs) = drop a xs"
  by (simp add: go_slice_def)

lemma take_slice_drop:
  assumes "a \<le> b"
  shows "take a xs @ go_slice xs a b @ drop b xs = xs"
proof -
  have "go_slice xs a b @ drop b xs = drop a xs"
    using assms append_take_drop_id [of "b - a" "drop a xs"] by (simp add: go_slice_def)
  then show ?thesis by simp
qed

lemma slice_append:
  assumes "a \<le> b" "b \<le> c"
  shows "go_slice xs a b @ go_slice xs b c = go_slice xs a c"
proof -
  have "take (b - a + (c - b)) (drop a xs)
      = take (b - a) (drop a xs) @ take (c - b) (drop (b - a) (drop a xs))"
    by (rule take_add)
  then show ?thesis
    using assms by (simp add: go_slice_def)
qed

lemma slice_nth [slice_simps]:
  assumes "i < b - a" "b \<le> length xs"
  shows "go_slice xs a b ! i = xs ! (a + i)"
  using assms by (simp add: go_slice_def)

section \<open>Searching\<close>

lemma IndexByte_None: "IndexByte xs c = None \<longleftrightarrow> c \<notin> set xs"
  by (induction xs) auto

lemma IndexByte_Some:
  "IndexByte xs c = Some i \<Longrightarrow> i < length xs \<and> xs ! i = c \<and> c \<notin> set (take i xs)"
  by (induction xs arbitrary: i) (auto split: if_splits)

lemma HasPrefix_iff: "HasPrefix xs ys \<longleftrightarrow> take (length ys) xs = ys"
  by (induction xs ys rule: HasPrefix.induct) auto

lemma HasPrefix_append: "HasPrefix xs ys \<longleftrightarrow> (\<exists>zs. xs = ys @ zs)"
  by (induction xs ys rule: HasPrefix.induct) auto

lemma Index_Some:
  "Index xs ys = Some i \<Longrightarrow>
     i + length ys \<le> length xs \<and> take (length ys) (drop i xs) = ys \<and>
     (\<forall>j < i. take (length ys) (drop j xs) \<noteq> ys)"
proof (induction xs arbitrary: i)
  case Nil
  then show ?case by (auto split: if_splits)
next
  case (Cons x xs)
  show ?case
  proof (cases "HasPrefix (x # xs) ys")
    case True
    with Cons.prems have "i = 0" by simp
    moreover from True obtain zs where "x # xs = ys @ zs" by (auto simp: HasPrefix_append)
    then have "length (x # xs) = length ys + length zs" by simp
    ultimately show ?thesis using True by (simp add: HasPrefix_iff)
  next
    case False
    with Cons.prems obtain k where k: "Index xs ys = Some k" "i = Suc k" by auto
    have "\<forall>j < i. take (length ys) (drop j (x # xs)) \<noteq> ys"
    proof (intro allI impI)
      fix j assume "j < i"
      with False Cons.IH [OF k(1)] k(2) show "take (length ys) (drop j (x # xs)) \<noteq> ys"
        by (cases j) (auto simp: HasPrefix_iff)
    qed
    with Cons.IH [OF k(1)] k(2) show ?thesis by simp
  qed
qed

lemma Index_None: "Index xs ys = None \<Longrightarrow> take (length ys) (drop j xs) \<noteq> ys"
proof (induction xs arbitrary: j)
  case Nil
  then show ?case by (auto split: if_splits)
next
  case (Cons x xs)
  then show ?case by (cases j) (auto simp: HasPrefix_iff split: if_splits)
qed

lemma Index_drop_None_ge:
  assumes "Index (drop k xs) ys = None" "k \<le> j"
  shows "take (length ys) (drop j xs) \<noteq> ys"
  using Index_None [OF assms(1), of "j - k"] assms(2) by simp

section \<open>Text the messages and identifiers are made of\<close>

definition digit :: "nat \<Rightarrow> char" where
  "digit n = char_of (48 + n)"

text \<open>\<^verbatim>\<open>%d\<close> of a natural number.\<close>

fun decimal :: "nat \<Rightarrow> string" where
  "decimal n = (if n < 10 then [digit n] else decimal (n div 10) @ [digit (n mod 10)])"

declare decimal.simps [simp del]

text \<open>\<open>strings.TrimSpace\<close>: the UTF-8 encodings of the white space runes, at either end.\<close>

definition white_space :: "bytes list" where
  "white_space = [
     [CHR 0x09], [CHR 0x0A], [CHR 0x0B], [CHR 0x0C], [CHR 0x0D], [CHR 0x20],
     [CHR 0xC2, CHR 0x85], [CHR 0xC2, CHR 0xA0], [CHR 0xE1, CHR 0x9A, CHR 0x80],
     [CHR 0xE2, CHR 0x80, CHR 0x80], [CHR 0xE2, CHR 0x80, CHR 0x81], [CHR 0xE2, CHR 0x80, CHR 0x82],
     [CHR 0xE2, CHR 0x80, CHR 0x83], [CHR 0xE2, CHR 0x80, CHR 0x84], [CHR 0xE2, CHR 0x80, CHR 0x85],
     [CHR 0xE2, CHR 0x80, CHR 0x86], [CHR 0xE2, CHR 0x80, CHR 0x87], [CHR 0xE2, CHR 0x80, CHR 0x88],
     [CHR 0xE2, CHR 0x80, CHR 0x89], [CHR 0xE2, CHR 0x80, CHR 0x8A], [CHR 0xE2, CHR 0x80, CHR 0xA8],
     [CHR 0xE2, CHR 0x80, CHR 0xA9], [CHR 0xE2, CHR 0x80, CHR 0xAF], [CHR 0xE2, CHR 0x81, CHR 0x9F],
     [CHR 0xE3, CHR 0x80, CHR 0x80]]"

function trim_with :: "bytes list \<Rightarrow> bytes \<Rightarrow> bytes" where
  "trim_with encodings s =
     (case find (\<lambda>e. e \<noteq> [] \<and> HasPrefix s e) encodings of
        None \<Rightarrow> s
      | Some e \<Rightarrow> trim_with encodings (drop (length e) s))"
  by pat_completeness auto
termination
  by (relation "measure (\<lambda>(_, s). length s)")
    (auto simp: find_Some_iff HasPrefix_append)

declare trim_with.simps [simp del]

definition TrimSpace :: "bytes \<Rightarrow> bytes" where
  "TrimSpace s = rev (trim_with (map rev white_space) (rev (trim_with white_space s)))"

section \<open>Bounded stores\<close>

text \<open>
  The contract every capped store of the package follows: adding one element never takes the
  store over its bound. What a client gains is that no sequence of additions does.
\<close>

locale bounded_store =
  fixes size_of :: "'s \<Rightarrow> nat"
    and add :: "'x \<Rightarrow> 's \<Rightarrow> 's"
    and bound :: nat
  assumes add_bounded: "size_of s \<le> bound \<Longrightarrow> size_of (add x s) \<le> bound"
begin

lemma all_adds_bounded: "size_of s \<le> bound \<Longrightarrow> size_of (fold add xs s) \<le> bound"
  by (induction xs arbitrary: s) (auto intro: add_bounded)

end

section \<open>Association lists\<close>

lemma map_of_update [simp]: "map_of (AList.update k v xs) = (map_of xs)(k \<mapsto> v)"
  by (rule update_conv')

lemma map_of_delete [simp]: "map_of (AList.delete k xs) = (map_of xs)(k := None)"
  by (rule delete_conv')

end
