(* ===== verification/Errors.thy ===== *)
theory Errors
  imports Prelude
begin

text \<open>
  Error values of the workspace package (\<^verbatim>\<open>internal/workspace/errors.go\<close> and the conflict
  type of \<^verbatim>\<open>workspace.go\<close>): stable codes, coded errors wrapping a cause, conflicts, and
  \<open>ErrorCode\<close>, which reads the outermost code of a chain. Message texts are kept as the
  constant part of the format string.
\<close>

datatype ObjectKind =
    ObjectRegularText
  | ObjectBinary
  | ObjectSymlink
  | ObjectDirectory
  | ObjectMissing

datatype error_code =
    CodeCommitPreconditionChanged
  | CodeCommitRecoveryRequired
  | CodeWorkspaceEpochChanged
  | CodePreparedRevisionChanged
  | CodePlanRevisionChanged
  | CodePlanStateInvalid
  | CodePlanNotFound
  | CodeHandleUnknown
  | CodeHandleExpired
  | CodePlanValidationConflicts
  | CodeProvisionalNotAccepted
  | CodeInvariantNotProven
  | CodeProviderUnavailable
  | CodeWorkspaceBusy
  | CodeDocumentNotFound
  | CodeCopySourceChanged
  | CodeCreateTargetExists
  | CodeMoveSourceMissing
  | CodeMoveTargetExists
  | CodeCopySourceMissing
  | CodeCopySourceTooLarge
  | CodeTransferUnsupported

fun code_text :: "error_code \<Rightarrow> string" where
  "code_text CodeCommitPreconditionChanged = ''commit_precondition_changed''"
| "code_text CodeCommitRecoveryRequired = ''commit_recovery_required''"
| "code_text CodeWorkspaceEpochChanged = ''workspace_epoch_changed''"
| "code_text CodePreparedRevisionChanged = ''prepared_revision_changed''"
| "code_text CodePlanRevisionChanged = ''plan_revision_changed''"
| "code_text CodePlanStateInvalid = ''plan_state_invalid''"
| "code_text CodePlanNotFound = ''plan_not_found''"
| "code_text CodeHandleUnknown = ''handle_unknown''"
| "code_text CodeHandleExpired = ''handle_expired''"
| "code_text CodePlanValidationConflicts = ''plan_validation_conflicts''"
| "code_text CodeProvisionalNotAccepted = ''provisional_not_accepted''"
| "code_text CodeInvariantNotProven = ''invariant_not_proven''"
| "code_text CodeProviderUnavailable = ''provider_unavailable''"
| "code_text CodeWorkspaceBusy = ''workspace_busy''"
| "code_text CodeDocumentNotFound = ''document_not_found''"
| "code_text CodeCopySourceChanged = ''copy_source_changed''"
| "code_text CodeCreateTargetExists = ''create_target_exists''"
| "code_text CodeMoveSourceMissing = ''move_source_missing''"
| "code_text CodeMoveTargetExists = ''move_target_exists''"
| "code_text CodeCopySourceMissing = ''copy_source_missing''"
| "code_text CodeCopySourceTooLarge = ''copy_source_too_large''"
| "code_text CodeTransferUnsupported = ''transfer_source_unsupported''"

datatype ConflictCode =
    ConflictWorkspaceIDRequired
  | ConflictWorkspaceIDMismatch
  | ConflictRevisionRequired
  | ConflictWorkspaceEpoch
  | ConflictDocumentChanged
  | ConflictDocumentDeleted
  | ConflictTargetDeleted
  | ConflictSymbolAmbiguous
  | ConflictSymbolMoved
  | ConflictSymbolSignatureChanged
  | ConflictFormatOnlyRelocation
  | ConflictOther string

record Conflict =
  cf_Code :: ConflictCode
  cf_Path :: string
  cf_Expected :: string
  cf_Current :: string
  cf_Detail :: string

datatype go_error =
    PlainError string
  | WrappedError string go_error
  | CodedError error_code "go_error option"
  | ConflictError Conflict
  | DocumentNotFoundError string
  | NotRegularTextError string string ObjectKind
  | SymlinkEscapeError string string string

type_synonym 'a result = "go_error + 'a"

definition Coded :: "error_code \<Rightarrow> go_error option \<Rightarrow> go_error" where
  "Coded code err = CodedError code err"

definition Codedf :: "error_code \<Rightarrow> string \<Rightarrow> go_error" where
  "Codedf code format = CodedError code (Some (PlainError format))"

fun ErrorCode :: "go_error \<Rightarrow> error_code option" where
  "ErrorCode (CodedError code _) = Some code"
| "ErrorCode (WrappedError _ err) = ErrorCode err"
| "ErrorCode _ = None"

text \<open>\<open>errors.As\<close> with a conflict target: the first conflict of the chain.\<close>

fun as_conflict :: "go_error \<Rightarrow> Conflict option" where
  "as_conflict (ConflictError c) = Some c"
| "as_conflict (WrappedError _ err) = as_conflict err"
| "as_conflict (CodedError _ (Some err)) = as_conflict err"
| "as_conflict _ = None"

lemma ErrorCode_Coded [simp]: "ErrorCode (Coded c e) = Some c"
  by (simp add: Coded_def)

lemma ErrorCode_Codedf [simp]: "ErrorCode (Codedf c m) = Some c"
  by (simp add: Codedf_def)

lemma code_text_inject: "code_text c = code_text d \<longleftrightarrow> c = d"
  by (cases c; cases d) simp_all

end
