(* ===== verification/Text_Spans.thy ===== *)
theory Text_Spans
  imports Prelude
begin

text \<open>
  Byte spans of a document: the splice and the narrowest changed span of
  \<^verbatim>\<open>internal/workspace/text.go\<close> and \<^verbatim>\<open>plan_preview.go\<close>, the literal matcher behind search
  and literal edits, and line windows (\<^verbatim>\<open>internal/handlers/lines.go\<close>).
  The literal matcher of the code does not return on an empty literal; its model is a
  \<^theory_text>\<open>partial_function\<close> and its termination on every literal the callers pass is a lemma.
\<close>

section \<open>Splices\<close>

definition splice :: "bytes \<Rightarrow> nat \<Rightarrow> nat \<Rightarrow> bytes \<Rightarrow> bytes" where
  "splice content start end replacement = take start content @ replacement @ drop end content"

definition rangeMatches :: "(bytes \<Rightarrow> string) \<Rightarrow> bytes \<Rightarrow> int \<Rightarrow> int \<Rightarrow> string \<Rightarrow> bool" where
  "rangeMatches hashBytes content start end expectedSHA256 =
     (if start < 0 \<or> end < start \<or> end > int (length content) then False
      else hashBytes (go_slice content (nat start) (nat end)) = expectedSHA256)"

section \<open>The narrowest changed span\<close>

function prefix_loop :: "bytes \<Rightarrow> bytes \<Rightarrow> nat \<Rightarrow> nat" where
  "prefix_loop before after prefix =
     (if prefix < length before \<and> prefix < length after \<and> before ! prefix = after ! prefix
      then prefix_loop before after (Suc prefix) else prefix)"
  by pat_completeness auto
termination
  by (relation "measure (\<lambda>(b, a, p). length b - p)") auto

function suffix_loop :: "bytes \<Rightarrow> bytes \<Rightarrow> nat \<Rightarrow> nat \<Rightarrow> nat" where
  "suffix_loop before after prefix suffix =
     (if suffix < length before - prefix \<and> suffix < length after - prefix \<and>
         before ! (length before - 1 - suffix) = after ! (length after - 1 - suffix)
      then suffix_loop before after prefix (Suc suffix) else suffix)"
  by pat_completeness auto
termination
  by (relation "measure (\<lambda>(b, a, p, s). length b - s)") auto

declare prefix_loop.simps [simp del] suffix_loop.simps [simp del]

definition changedSpan :: "bytes \<Rightarrow> bytes \<Rightarrow> nat \<times> nat \<times> bytes" where
  "changedSpan before after =
     (let prefix = prefix_loop before after 0;
          suffix = suffix_loop before after prefix 0
      in (prefix, length before - suffix, go_slice after prefix (length after - suffix)))"

text \<open>
  \<open>exactDiff\<close>: the patch quotes the span that differs when the caller replaced the whole file.
  The model keeps the four quantities the patch text prints instead of the text.
\<close>

record BytePatch =
  patch_Start :: nat
  patch_End :: nat
  patch_Old :: bytes
  patch_New :: bytes

record ExactDiff =
  diff_Path :: string
  diff_BeforeSHA256 :: string
  diff_AfterSHA256 :: string
  diff_Before :: bytes
  diff_After :: bytes
  diff_Patch :: BytePatch

definition exactDiff ::
  "(bytes \<Rightarrow> string) \<Rightarrow> string \<Rightarrow> bytes \<Rightarrow> bytes \<Rightarrow> nat \<Rightarrow> nat \<Rightarrow> bytes \<Rightarrow> ExactDiff" where
  "exactDiff hashBytes path before after start end replacement =
     (let (s, e, r) = (if start = 0 \<and> end = length before \<and> length replacement = length after
                       then changedSpan before after else (start, end, replacement))
      in \<lparr> diff_Path = path, diff_BeforeSHA256 = hashBytes before, diff_AfterSHA256 = hashBytes after,
           diff_Before = before, diff_After = after,
           diff_Patch = \<lparr> patch_Start = s, patch_End = e, patch_Old = go_slice before s e, patch_New = r \<rparr> \<rparr>)"

section \<open>Literal matches\<close>

partial_function (option) matchRanges_loop ::
  "bytes \<Rightarrow> bytes \<Rightarrow> nat \<Rightarrow> (nat \<times> nat) list \<Rightarrow> (nat \<times> nat) list option" where
  "matchRanges_loop content literal offset result =
     (if int offset \<le> int (length content) - int (length literal) then
        (case Index (drop offset content) literal of
           None \<Rightarrow> Some result
         | Some index \<Rightarrow>
             matchRanges_loop content literal (offset + index + length literal)
               (result @ [(offset + index, offset + index + length literal)]))
      else Some result)"

declare matchRanges_loop.simps [code]

text \<open>
  \<open>expression\<close> is a compiled regular expression by its \<open>FindAllIndex\<close>: the spans it reports in a
  document, which are passed on as they are.
\<close>

definition matchRanges ::
  "bytes \<Rightarrow> bytes \<Rightarrow> (bytes \<Rightarrow> (nat \<times> nat) list) option \<Rightarrow> (nat \<times> nat) list option" where
  "matchRanges content literal expression =
     (case expression of
        Some FindAllIndex \<Rightarrow> Some (FindAllIndex content)
      | None \<Rightarrow> matchRanges_loop content literal 0 [])"

section \<open>Line windows\<close>

datatype line_error =
    LineBelowOne
  | LineBefore int int
  | LineOutside int
  | EndBeforeStart
  | StartPastEnd int nat

fun skip_lines :: "bytes \<Rightarrow> nat \<Rightarrow> nat \<Rightarrow> nat option" where
  "skip_lines content 0 start = Some start"
| "skip_lines content (Suc n) start =
     (case IndexByte (drop start content) newline of
        None \<Rightarrow> None
      | Some index \<Rightarrow> skip_lines content n (start + index + 1))"

fun end_line_loop :: "bytes \<Rightarrow> bool \<Rightarrow> nat \<Rightarrow> nat \<Rightarrow> nat" where
  "end_line_loop content includeNewline 0 end = end"
| "end_line_loop content includeNewline (Suc n) end =
     (case IndexByte (drop end content) newline of
        None \<Rightarrow> length content
      | Some index \<Rightarrow>
          if n = 0 then (if includeNewline then end + index + 1 else end + index)
          else end_line_loop content includeNewline n (end + index + 1))"

definition lineSpan :: "bytes \<Rightarrow> int \<Rightarrow> int \<Rightarrow> bool \<Rightarrow> line_error + (nat \<times> nat)" where
  "lineSpan content first final includeNewline =
     (if first < 1 then Error LineBelowOne
      else if final < first then Error (LineBefore final first)
      else case skip_lines content (nat (first - 1)) 0 of
             None \<Rightarrow> Error (LineOutside first)
           | Some start \<Rightarrow>
               if start \<ge> length content \<and> \<not> (start = length content \<and> first = 1)
               then Error (LineOutside first)
               else Ok (start, end_line_loop content includeNewline (nat (final - first + 1)) start))"

definition lineCount :: "bytes \<Rightarrow> nat" where
  "lineCount content =
     (if content = [] then 0
      else count_list content newline + (if last content \<noteq> newline then 1 else 0))"

definition lineByteRange :: "bytes \<Rightarrow> int \<Rightarrow> line_error + (nat \<times> nat)" where
  "lineByteRange content line = lineSpan content line line False"

definition capLines :: "bytes \<Rightarrow> int \<Rightarrow> bytes \<times> bool" where
  "capLines content limit =
     (if limit \<le> 0 \<or> int (lineCount content) \<le> limit then (content, False)
      else case lineSpan content 1 limit True of
             Inl _ \<Rightarrow> (content, False)
           | Inr (_, end) \<Rightarrow> (take end content, True))"

definition boundedLines :: "bytes \<Rightarrow> int \<Rightarrow> int \<Rightarrow> line_error + (bytes \<times> int \<times> int)" where
  "boundedLines content startLine0 endLine0 =
     (if startLine0 = 0 \<and> endLine0 = 0 then Ok (content, 0, 0)
      else
        let startLine = (if startLine0 = 0 then 1 else startLine0);
            endLine = (if endLine0 = 0 then startLine else endLine0);
            total = lineCount content
        in if endLine < startLine then Error EndBeforeStart
           else if startLine > int total then Error (StartPastEnd startLine total)
           else
             let endLine' = (if endLine > int total then int total else endLine)
             in case lineSpan content startLine endLine' True of
                  Inl e \<Rightarrow> Error e
                | Inr (start, end) \<Rightarrow> Ok (go_slice content start end, startLine, endLine'))"

section \<open>The changed span reconstructs the new document and is narrowest\<close>

lemma prefix_loop_spec:
  assumes "p \<le> length b" "p \<le> length a" "take p b = take p a"
  shows "p \<le> prefix_loop b a p \<and> prefix_loop b a p \<le> length b \<and> prefix_loop b a p \<le> length a \<and>
    take (prefix_loop b a p) b = take (prefix_loop b a p) a \<and>
    (prefix_loop b a p < length b \<longrightarrow> prefix_loop b a p < length a \<longrightarrow>
       b ! prefix_loop b a p \<noteq> a ! prefix_loop b a p)"
  using assms
proof (induction b a p rule: prefix_loop.induct)
  case (1 b a p)
  show ?case
  proof (cases "p < length b \<and> p < length a \<and> b ! p = a ! p")
    case True
    with "1.prems" have "take (Suc p) b = take (Suc p) a"
      by (simp add: take_Suc_conv_app_nth)
    with True "1.IH" show ?thesis by (subst (1 2 3 4 5 6 7 8 9) prefix_loop.simps) auto
  next
    case False
    then have "prefix_loop b a p = p" by (subst prefix_loop.simps) auto
    with False "1.prems" show ?thesis by auto
  qed
qed

lemma drop_last_split:
  assumes "s < length b"
  shows "drop (length b - Suc s) b = b ! (length b - 1 - s) # drop (length b - s) b"
  using Cons_nth_drop_Suc [of "length b - Suc s" b] assms by (simp add: Suc_diff_Suc)

lemma suffix_loop_spec:
  assumes "s \<le> length b - p" "s \<le> length a - p"
    and "drop (length b - s) b = drop (length a - s) a"
  shows "suffix_loop b a p s \<le> length b - p \<and> suffix_loop b a p s \<le> length a - p \<and>
    drop (length b - suffix_loop b a p s) b = drop (length a - suffix_loop b a p s) a \<and>
    (suffix_loop b a p s < length b - p \<longrightarrow> suffix_loop b a p s < length a - p \<longrightarrow>
       b ! (length b - 1 - suffix_loop b a p s) \<noteq> a ! (length a - 1 - suffix_loop b a p s))"
  using assms
proof (induction b a p s rule: suffix_loop.induct)
  case (1 b a p s)
  show ?case
  proof (cases "s < length b - p \<and> s < length a - p \<and>
      b ! (length b - 1 - s) = a ! (length a - 1 - s)")
    case True
    then have sl: "s < length b" "s < length a" by auto
    have "drop (length b - Suc s) b = drop (length a - Suc s) a"
      using True "1.prems"(3) drop_last_split [OF sl(1)] drop_last_split [OF sl(2)] by simp
    moreover have "suffix_loop b a p s = suffix_loop b a p (Suc s)"
      using True by (subst suffix_loop.simps) auto
    ultimately show ?thesis using True "1.IH" by simp
  next
    case False
    then have "suffix_loop b a p s = s" by (subst suffix_loop.simps) auto
    with False "1.prems" show ?thesis by auto
  qed
qed

lemma changedSpan_parts:
  assumes "changedSpan b a = (s, e, r)"
  obtains t where "e = length b - t" "r = go_slice a s (length a - t)"
    "s + t \<le> length b" "s + t \<le> length a" "take s b = take s a"
    "drop (length b - t) b = drop (length a - t) a"
    "s < length b \<longrightarrow> s < length a \<longrightarrow> b ! s \<noteq> a ! s"
    "s + t < length b \<longrightarrow> s + t < length a \<longrightarrow>
       b ! (length b - 1 - t) \<noteq> a ! (length a - 1 - t)"
proof -
  let ?t = "suffix_loop b a s 0"
  from assms have s: "s = prefix_loop b a 0"
    and e: "e = length b - ?t" and r: "r = go_slice a s (length a - ?t)"
    by (auto simp: changedSpan_def Let_def)
  from prefix_loop_spec [of 0 b a] s
  have p: "s \<le> length b" "s \<le> length a" "take s b = take s a"
      "s < length b \<longrightarrow> s < length a \<longrightarrow> b ! s \<noteq> a ! s" by auto
  from suffix_loop_spec [of 0 b s a]
  have q: "?t \<le> length b - s" "?t \<le> length a - s"
      "drop (length b - ?t) b = drop (length a - ?t) a"
      "?t < length b - s \<longrightarrow> ?t < length a - s \<longrightarrow>
         b ! (length b - 1 - ?t) \<noteq> a ! (length a - 1 - ?t)" by auto
  show thesis
    by (rule that [of ?t]) (use p q e r in auto)
qed

text \<open>
  The span and the bytes \<open>changedSpan\<close> returns are exact: replacing that span of the old
  document by those bytes gives the new document, for every pair of documents.
\<close>

theorem changedSpan_reconstructs:
  "case changedSpan before after of (start, end, replacement) \<Rightarrow>
     start \<le> end \<and> end \<le> length before \<and> splice before start end replacement = after"
proof -
  obtain s e r where cs: "changedSpan before after = (s, e, r)" by (cases "changedSpan before after")
  from cs obtain t where t: "e = length before - t" "r = go_slice after s (length after - t)"
      "s + t \<le> length before" "s + t \<le> length after" "take s before = take s after"
      "drop (length before - t) before = drop (length after - t) after"
    by (rule changedSpan_parts)
  have "take s after @ go_slice after s (length after - t) @ drop (length after - t) after = after"
    using t(4) by (intro take_slice_drop) simp
  with t cs show ?thesis by (simp add: splice_def)
qed

lemma common_prefix_le:
  assumes "take k b = take k a" "k \<le> length b" "k \<le> length a"
    and "s < length b \<longrightarrow> s < length a \<longrightarrow> b ! s \<noteq> a ! s"
  shows "k \<le> s"
proof (rule ccontr)
  assume "\<not> k \<le> s"
  then have "s < k" by simp
  then have "b ! s = a ! s" using assms(1) by (metis nth_take)
  with assms \<open>s < k\<close> show False by simp
qed

lemma common_suffix_le:
  fixes a b :: bytes
  assumes "drop (length b - k) b = drop (length a - k) a" "k \<le> length b" "k \<le> length a"
    and "t < k" "t < length b" "t < length a"
  shows "b ! (length b - 1 - t) = a ! (length a - 1 - t)"
proof -
  have nth: "drop (length xs - k) xs ! (k - 1 - t) = xs ! (length xs - 1 - t)"
    if "k \<le> length xs" for xs :: bytes
    using that assms(4) by simp
  show ?thesis using nth [of b] nth [of a] assms by simp
qed

text \<open>
  No other exact span is narrower: any start, end and bytes that also turn the old document
  into the new one replace at least as many bytes and insert at least as many.
\<close>

theorem changedSpan_narrowest:
  assumes "changedSpan before after = (start, end, replacement)"
    and "start' \<le> end'" "end' \<le> length before" "splice before start' end' replacement' = after"
  shows "end - start \<le> end' - start' \<and> length replacement \<le> length replacement'"
proof -
  obtain t where t: "end = length before - t" "replacement = go_slice after start (length after - t)"
      "start + t \<le> length before" "start + t \<le> length after"
      "take start before = take start after"
      "start < length before \<longrightarrow> start < length after \<longrightarrow> before ! start \<noteq> after ! start"
      "start + t < length before \<longrightarrow> start + t < length after \<longrightarrow>
         before ! (length before - 1 - t) \<noteq> after ! (length after - 1 - t)"
    using assms(1) by (rule changedSpan_parts)
  let ?t' = "length before - end'"
  from assms(2,3,4) have len: "length after = start' + length replacement' + ?t'"
    by (auto simp: splice_def)
  have pre: "take start' before = take start' after" and suf: "drop end' before = drop (length after - ?t') after"
    using assms by (auto simp: splice_def)
  have "start' \<le> start"
    by (rule common_prefix_le [OF pre _ _ t(6)]) (use assms(2,3) len in auto)
  moreover have "?t' \<le> t \<or> start + t = length before \<or> start + t = length after"
  proof (rule ccontr)
    assume "\<not> ?thesis"
    with t(3,4) have lt: "t < ?t'" "start + t < length before" "start + t < length after" by auto
    have "before ! (length before - 1 - t) = after ! (length after - 1 - t)"
      by (rule common_suffix_le [of before "length before - end'"])
        (use suf assms(3) len lt in auto)
    with t(7) lt show False by simp
  qed
  ultimately have "start' + ?t' \<le> start + t"
    using assms(2,3) len by auto
  then show ?thesis using t(1,2,3,4) len assms(2,3) by (auto simp: slice_length)
qed

theorem changedSpan_narrowest_witness:
  "changedSpan ''aXc'' ''aYYc'' = (1, 2, ''YY'') \<and> splice ''aXc'' 0 3 ''aYYc'' = ''aYYc'' \<and>
   (2::nat) - 1 \<le> 3 - 0 \<and> length ''YY'' \<le> length ''aYYc''"
proof -
  have c: "changedSpan ''aXc'' ''aYYc'' = (1, 2, ''YY'')"
    by (simp add: changedSpan_def prefix_loop.simps suffix_loop.simps go_slice_def)
  have s: "splice ''aXc'' 0 3 ''aYYc'' = ''aYYc''" by (simp add: splice_def)
  have "(2::nat) - 1 \<le> 3 - 0 \<and> length ''YY'' \<le> length ''aYYc''"
    by (rule changedSpan_narrowest [OF c _ _ s]) auto
  with c s show ?thesis by blast
qed

section \<open>Literal matching returns the leftmost disjoint occurrences\<close>

definition spans_from :: "bytes \<Rightarrow> bytes \<Rightarrow> nat \<Rightarrow> (nat \<times> nat) list \<Rightarrow> bool" where
  "spans_from content literal offset spans \<longleftrightarrow>
     (\<forall>(s, e) \<in> set spans. offset \<le> s \<and> e = s + length literal \<and> e \<le> length content \<and>
        go_slice content s e = literal) \<and>
     sorted_wrt (\<lambda>(s, e) (s', e'). e \<le> s') spans \<and>
     (\<forall>j \<ge> offset. take (length literal) (drop j content) = literal \<longrightarrow>
        (\<exists>(s, e) \<in> set spans. s \<le> j \<and> j < e))"

lemma spans_from_Nil:
  assumes "\<And>j. offset \<le> j \<Longrightarrow> take (length literal) (drop j content) \<noteq> literal"
  shows "spans_from content literal offset []"
  using assms by (auto simp: spans_from_def)

lemma spans_from_Cons:
  assumes "offset \<le> s" "s + length literal \<le> length content"
    and "take (length literal) (drop s content) = literal"
    and first: "\<And>j. offset \<le> j \<Longrightarrow> j < s \<Longrightarrow> take (length literal) (drop j content) \<noteq> literal"
    and rest: "spans_from content literal (s + length literal) spans"
  shows "spans_from content literal offset ((s, s + length literal) # spans)"
proof -
  have "\<exists>(s', e) \<in> set ((s, s + length literal) # spans). s' \<le> j \<and> j < e"
    if "offset \<le> j" and occ: "take (length literal) (drop j content) = literal" for j
  proof (cases "s + length literal \<le> j")
    case True
    with rest occ obtain s' e where "(s', e) \<in> set spans" "s' \<le> j" "j < e"
      unfolding spans_from_def by blast
    then show ?thesis by auto
  next
    case False
    with first [of j] that show ?thesis by (cases "s \<le> j") auto
  qed
  with assms show ?thesis by (fastforce simp: spans_from_def go_slice_def)
qed

lemma matchRanges_loop_returns:
  assumes "literal \<noteq> []"
  shows "\<exists>spans. matchRanges_loop content literal offset result = Some (result @ spans) \<and>
    spans_from content literal offset spans"
proof (induction "length content - offset" arbitrary: offset result rule: less_induct)
  case less
  show ?case
  proof (cases "int offset \<le> int (length content) - int (length literal)")
    case False
    have "take (length literal) (drop j content) \<noteq> literal" if "offset \<le> j" for j
    proof
      assume "take (length literal) (drop j content) = literal"
      then have "length literal \<le> length content - j" by (metis length_drop length_take min.cobounded1)
      with False that assms show False by (cases "length content - j") auto
    qed
    with False show ?thesis
      by (intro exI [of _ "[]"]) (simp add: matchRanges_loop.simps spans_from_Nil)
  next
    case True
    show ?thesis
    proof (cases "Index (drop offset content) literal")
      case None
      have "take (length literal) (drop j content) \<noteq> literal" if "offset \<le> j" for j
        by (rule Index_drop_None_ge [OF None that])
      with True None show ?thesis
        by (intro exI [of _ "[]"]) (simp add: matchRanges_loop.simps spans_from_Nil)
    next
      case (Some i)
      let ?s = "offset + i" and ?n = "length literal"
      note i = Index_Some [OF Some]
      from True have lt: "length content - (?s + ?n) < length content - offset"
        using i assms by (cases literal) auto
      from less [OF lt, of "result @ [(?s, ?s + ?n)]"] obtain spans where
        sp: "matchRanges_loop content literal (?s + ?n) (result @ [(?s, ?s + ?n)])
               = Some ((result @ [(?s, ?s + ?n)]) @ spans)"
          "spans_from content literal (?s + ?n) spans" by blast
      have "take ?n (drop j content) \<noteq> literal" if "offset \<le> j" "j < ?s" for j
        using i that by (auto dest: spec [of _ "j - offset"])
      moreover have "?s + ?n \<le> length content" "take ?n (drop ?s content) = literal"
        using i True by (auto simp: add.commute)
      ultimately have "spans_from content literal offset ((?s, ?s + ?n) # spans)"
        using sp(2) by (intro spans_from_Cons) auto
      moreover have "matchRanges_loop content literal offset result
          = Some (result @ (?s, ?s + ?n) # spans)"
        using True Some sp(1) by (subst matchRanges_loop.simps) simp
      ultimately show ?thesis by blast
    qed
  qed
qed

text \<open>
  C34. On every non-empty literal a literal search returns, and what it returns are exactly
  occurrences of the literal, in ascending order and disjoint, leaving out no occurrence that
  does not begin inside a reported one.
\<close>

theorem matchRanges_correct:
  assumes "literal \<noteq> []"
  shows "\<exists>spans. matchRanges content literal None = Some spans \<and>
    (\<forall>(s, e) \<in> set spans. e = s + length literal \<and> e \<le> length content \<and> go_slice content s e = literal) \<and>
    sorted_wrt (\<lambda>(s, e) (s', e'). e \<le> s') spans \<and>
    (\<forall>j. take (length literal) (drop j content) = literal \<longrightarrow> (\<exists>(s, e) \<in> set spans. s \<le> j \<and> j < e))"
proof -
  obtain spans where "matchRanges content literal None = Some spans" "spans_from content literal 0 spans"
    using matchRanges_loop_returns [OF assms, of content 0 "[]"] by (auto simp: matchRanges_def)
  then show ?thesis unfolding spans_from_def by (intro exI [of _ spans]) auto
qed

theorem matchRanges_correct_witness:
  "''aa'' \<noteq> [] \<and> matchRanges ''baaab'' ''aa'' None = Some [(1, 3)] \<and>
   (\<exists>spans. matchRanges ''baaab'' ''aa'' None = Some spans \<and>
     (\<forall>(s, e) \<in> set spans. e = s + length ''aa'' \<and> e \<le> length ''baaab'' \<and> go_slice ''baaab'' s e = ''aa''))"
proof -
  have "''aa'' \<noteq> []" by simp
  from matchRanges_correct [OF this, of "''baaab''"]
  have "\<exists>spans. matchRanges ''baaab'' ''aa'' None = Some spans \<and>
     (\<forall>(s, e) \<in> set spans. e = s + length ''aa'' \<and> e \<le> length ''baaab'' \<and> go_slice ''baaab'' s e = ''aa'')"
    by blast
  moreover have "matchRanges ''baaab'' ''aa'' None = Some [(1, 3)]"
    by (simp add: matchRanges_def matchRanges_loop.simps)
  ultimately show ?thesis by simp
qed

section \<open>Line windows agree with splitting the document into lines\<close>

text \<open>The reference: the lines of a document, each with its terminating newline if it has one.\<close>

fun keep_lines :: "bytes \<Rightarrow> bytes list" where
  "keep_lines [] = []"
| "keep_lines (c # cs) =
     (if c = newline then [c] # keep_lines cs
      else case keep_lines cs of [] \<Rightarrow> [[c]] | l # ls \<Rightarrow> (c # l) # ls)"

lemma concat_keep_lines [simp]: "concat (keep_lines cs) = cs"
  by (induction cs) (auto split: list.splits)

lemma keep_lines_eq_Nil [simp]: "keep_lines cs = [] \<longleftrightarrow> cs = []"
  by (cases cs) (auto split: list.splits)

lemma keep_lines_no_newline: "newline \<notin> set cs \<Longrightarrow> cs \<noteq> [] \<Longrightarrow> keep_lines cs = [cs]"
proof (induction cs)
  case Nil
  then show ?case by simp
next
  case (Cons c cs)
  then show ?case by (cases "cs = []") auto
qed

lemma keep_lines_split:
  "IndexByte cs newline = Some i \<Longrightarrow>
     keep_lines cs = take (Suc i) cs # keep_lines (drop (Suc i) cs)"
  by (induction cs arbitrary: i) (auto split: if_splits)

lemma lineCount_keep_lines: "lineCount cs = length (keep_lines cs)"
  by (induction cs) (auto simp: lineCount_def split: list.splits)

lemma skip_lines_spec:
  assumes "start \<le> length content"
  shows "skip_lines content n start =
    (let ls = keep_lines (drop start content)
     in if n < length ls \<or> n = 0 then Some (start + length (concat (take n ls)))
        else if n = length ls \<and> ls \<noteq> [] \<and> last content = newline then Some (length content)
        else None)"
  using assms
proof (induction n arbitrary: start)
  case 0
  then show ?case by simp
next
  case (Suc n)
  show ?case
  proof (cases "IndexByte (drop start content) newline")
    case None
    then have nn: "newline \<notin> set (drop start content)" by (simp add: IndexByte_None)
    show ?thesis
    proof (cases "drop start content = []")
      case True
      with None show ?thesis by simp
    next
      case False
      with nn have "keep_lines (drop start content) = [drop start content]"
        by (intro keep_lines_no_newline)
      moreover from False nn have "last content \<noteq> newline"
        by (metis last_drop last_in_set drop_eq_Nil linorder_not_le)
      ultimately show ?thesis using None by simp
    qed
  next
    case (Some i)
    note kl = keep_lines_split [OF Some]
    from IndexByte_Some [OF Some] have i: "start + Suc i \<le> length content" by auto
    have len: "length (take (Suc i) (drop start content)) = Suc i" using i by simp
    let ?rest = "keep_lines (drop (start + Suc i) content)"
    have kl': "keep_lines (drop start content) = take (Suc i) (drop start content) # ?rest"
      using kl by (simp add: add.commute)
    have step: "skip_lines content (Suc n) start = skip_lines content n (start + Suc i)"
      using Some by simp
    have edge: "last content = newline" if "?rest = []"
    proof -
      from that i have "start + Suc i = length content" by simp
      moreover have "content ! (start + i) = newline" using IndexByte_Some [OF Some] Suc.prems by simp
      ultimately show ?thesis by (metis add_Suc_right diff_Suc_1 last_conv_nth length_0_conv nat.distinct(1))
    qed
    show ?thesis
      unfolding step Suc.IH [OF i] kl'
      using len edge i by (auto simp: Let_def)
  qed
qed

lemma end_line_loop_spec:
  assumes "end \<le> length content"
  shows "end_line_loop content True n end =
    end + length (concat (take n (keep_lines (drop end content))))"
  using assms
proof (induction n arbitrary: "end")
  case 0
  then show ?case by simp
next
  case (Suc n)
  show ?case
  proof (cases "IndexByte (drop end content) newline")
    case None
    then have nn: "newline \<notin> set (drop end content)" by (simp add: IndexByte_None)
    show ?thesis
    proof (cases "drop end content = []")
      case True
      with None Suc.prems show ?thesis by simp
    next
      case False
      then have "end < length content" by simp
      with None show ?thesis using keep_lines_no_newline [OF nn False] by simp
    qed
  next
    case (Some i)
    from IndexByte_Some [OF Some] have i: "end + Suc i \<le> length content" by auto
    have kl: "keep_lines (drop end content)
        = take (Suc i) (drop end content) # keep_lines (drop (end + Suc i) content)"
      using keep_lines_split [OF Some] by (simp add: add.commute)
    show ?thesis using Some Suc.IH [OF i] i unfolding kl by auto
  qed
qed

lemma concat_take_length_le: "length (concat (take n ls)) \<le> length (concat ls)"
proof -
  have "length (concat ls) = length (concat (take n ls @ drop n ls))" by simp
  then show ?thesis unfolding concat_append by simp
qed

lemma drop_concat_take: "drop (length (concat (take n ls))) (concat ls) = concat (drop n ls)"
proof -
  have "concat ls = concat (take n ls) @ concat (drop n ls)"
    by (metis append_take_drop_id concat_append)
  then show ?thesis by simp
qed

lemma keep_lines_drop_lines:
  "keep_lines (drop (length (concat (take n (keep_lines cs)))) cs) = drop n (keep_lines cs)"
proof (induction n arbitrary: cs)
  case 0
  then show ?case by simp
next
  case (Suc n)
  show ?case
  proof (cases "IndexByte cs newline")
    case None
    then show ?thesis
      using keep_lines_no_newline [of cs] by (cases "cs = []") (auto simp: IndexByte_None)
  next
    case (Some i)
    from IndexByte_Some [OF Some] have "length (take (Suc i) cs) = Suc i" by simp
    with Suc.IH [of "drop (Suc i) cs"] show ?thesis
      by (simp add: keep_lines_split [OF Some] add.commute)
  qed
qed

lemma lineSpan_window:
  assumes "1 \<le> a" "a \<le> b" "b \<le> lineCount content"
  shows "\<exists>start end. lineSpan content (int a) (int b) True = Ok (start, end) \<and>
    go_slice content start end = concat (take (b - a + 1) (drop (a - 1) (keep_lines content)))"
proof -
  let ?ls = "keep_lines content"
  let ?start = "length (concat (take (a - 1) ?ls))"
  have len: "a - 1 < length ?ls" using assms by (simp add: lineCount_keep_lines)
  then have skip: "skip_lines content (nat (int a - 1)) 0 = Some ?start"
    using assms by (simp add: skip_lines_spec nat_diff_distrib)
  have rest: "keep_lines (drop ?start content) = drop (a - 1) ?ls"
    by (rule keep_lines_drop_lines)
  with len have lt: "?start < length content"
    by (metis drop_eq_Nil keep_lines_eq_Nil linorder_not_le)
  have "nat (int b - int a + 1) = Suc (b - a)" using assms by simp
  with lt have "lineSpan content (int a) (int b) True =
      Ok (?start, ?start + length (concat (take (b - a + 1) (drop (a - 1) ?ls))))"
    using assms skip rest by (simp add: lineSpan_def end_line_loop_spec del: end_line_loop.simps)
  moreover have "drop ?start content = concat (drop (a - 1) ?ls)"
    using drop_concat_take [of "a - 1" ?ls] by simp
  moreover have "take (length (concat (take m ls))) (concat ls) = concat (take m ls)"
    for m and ls :: "bytes list"
    by (metis append_take_drop_id append_eq_conv_conj concat_append)
  ultimately show ?thesis by (simp add: go_slice_def)
qed

text \<open>
  A line window is what splitting the document into lines gives: for a window that starts
  inside the document, \<open>boundedLines\<close> succeeds, clamps the end to the last line and returns
  exactly those lines, newlines included.
\<close>

theorem boundedLines_window:
  assumes "1 \<le> a" "a \<le> b" "a \<le> lineCount content"
  shows "boundedLines content (int a) (int b) =
    Ok (concat (take (min b (lineCount content) - a + 1) (drop (a - 1) (keep_lines content))),
        int a, int (min b (lineCount content)))"
proof -
  let ?b = "min b (lineCount content)"
  obtain start "end" where "lineSpan content (int a) (int ?b) True = Ok (start, end)"
    "go_slice content start end = concat (take (?b - a + 1) (drop (a - 1) (keep_lines content)))"
    using lineSpan_window [of a ?b content] assms by auto
  then show ?thesis using assms
    by (cases "lineCount content < b") (auto simp: boundedLines_def Let_def min_def)
qed

theorem boundedLines_window_witness:
  "(1::nat) \<le> 2 \<and> (2::nat) \<le> 9 \<and> (2::nat) \<le> lineCount [CHR ''a'', newline, CHR ''b''] \<and>
   boundedLines [CHR ''a'', newline, CHR ''b''] 2 9 = Ok (''b'', 2, 2)"
proof -
  have h: "(2::nat) \<le> lineCount [CHR ''a'', newline, CHR ''b'']" by (simp add: lineCount_def)
  show ?thesis
    using boundedLines_window [OF _ _ h, of 9] h by (simp add: lineCount_def)
qed

text \<open>
  Paging loses nothing: for every cut, the window up to a line followed by the window from
  the next line to the end is the whole document.
\<close>

theorem boundedLines_pages:
  assumes "1 \<le> k" "k < lineCount content"
    and "boundedLines content 1 (int k) = Ok (first, f1, l1)"
    and "boundedLines content (int k + 1) (int (lineCount content)) = Ok (second, f2, l2)"
  shows "first @ second = content \<and> f2 = l1 + 1"
proof -
  let ?ls = "keep_lines content"
  from assms(1,2) have first: "boundedLines content (int 1) (int k) = Ok (concat (take k ?ls), 1, int k)"
    by (subst boundedLines_window) (auto simp: min_def)
  have k1: "int k + 1 = int (k + 1)" by simp
  from assms(1,2) have second: "boundedLines content (int (k + 1)) (int (lineCount content))
      = Ok (concat (drop k ?ls), int (k + 1), int (lineCount content))"
    by (subst boundedLines_window) (auto simp: lineCount_keep_lines)
  have "concat (take k ?ls) @ concat (drop k ?ls) = content"
    by (metis append_take_drop_id concat_append concat_keep_lines)
  with first second assms(3,4) k1 show ?thesis by simp
qed

theorem boundedLines_pages_witness:
  "(1::nat) \<le> 1 \<and> boundedLines [CHR ''a'', newline, CHR ''b''] 1 1 = Ok ([CHR ''a'', newline], 1, 1) \<and>
   boundedLines [CHR ''a'', newline, CHR ''b''] 2 2 = Ok (''b'', 2, 2) \<and>
   [CHR ''a'', newline] @ ''b'' = [CHR ''a'', newline, CHR ''b''] \<and> (2::int) = 1 + 1"
proof -
  let ?c = "[CHR ''a'', newline, CHR ''b'']"
  have n: "lineCount ?c = 2" by (simp add: lineCount_def)
  have f: "boundedLines ?c 1 (int 1) = Ok ([CHR ''a'', newline], 1, 1)"
    by (simp add: boundedLines_def lineSpan_def lineCount_def go_slice_def)
  have s: "boundedLines ?c (int 1 + 1) (int (lineCount ?c)) = Ok (''b'', 2, 2)"
    by (simp add: boundedLines_def lineSpan_def lineCount_def go_slice_def numeral_2_eq_2)
  show ?thesis using boundedLines_pages [OF _ _ f s] f s n by simp
qed

end
