(* ===== verification/Plan_Types.thy ===== *)
theory Plan_Types
  imports Errors Text_Spans
begin

text \<open>
  The data a change plan is made of (\<^verbatim>\<open>internal/workspace/plan.go\<close>, \<^verbatim>\<open>prepare.go\<close>,
  \<^verbatim>\<open>invariant.go\<close>, \<^verbatim>\<open>pipeline.go\<close>, \<^verbatim>\<open>workspace.go\<close>), field by field. Instants are
  nanoseconds since the epoch, as \<open>time.Time.UnixNano\<close> gives them.
\<close>

type_synonym time = int

abbreviation second :: time where
  "second \<equiv> 1000000000"

abbreviation minute :: time where
  "minute \<equiv> 60 * second"

abbreviation hour :: time where
  "hour \<equiv> 60 * minute"

datatype OperationKind =
    OperationReplaceSymbol
  | OperationDeleteSymbol
  | OperationInsertBefore
  | OperationInsertAfter
  | OperationReplaceRange
  | OperationCreateFile
  | OperationMoveFile
  | OperationCopyFile
  | OperationDeleteFile
  | OperationReplaceMatches
  | OperationOther string

datatype PlanState =
    PlanOpen
  | PlanPreviewed
  | PlanPreparing
  | PlanFailed
  | PlanProvisional
  | PlanReady
  | PlanCommitting
  | PlanCommitted
  | PlanRecoveryRequired
  | PlanRollingBack
  | PlanRolledBack
  | PlanDiscarded
  | PlanConflicted
  | PlanExpired
  | PlanOther string

record DiskSnapshot =
  ds_Kind :: ObjectKind
  ds_Device :: u64
  ds_Inode :: u64
  ds_Size :: int
  ds_MTimeNS :: int
  ds_Mode :: u32
  ds_SymlinkTarget :: string

record RangeHandle =
  rh_Path :: string
  rh_Revision :: string
  rh_ByteStart :: int
  rh_ByteEnd :: int
  rh_ExpectedSHA256 :: string
  rh_BeforeSHA256 :: string
  rh_AfterSHA256 :: string
  rh_AnchorBytes :: int

record PlanSymbolLocator =
  sl_Path :: string
  sl_NamePath :: string

record PlanTarget =
  pt_Handle :: string
  pt_FileRange :: "RangeHandle option"
  pt_SymbolLocator :: "PlanSymbolLocator option"

record PlanOperation =
  op_OpID :: string
  op_Kind :: OperationKind
  op_Target :: "PlanTarget option"
  op_Content :: bytes
  op_Path :: string
  op_From :: string
  op_To :: string
  op_Revision :: string
  op_DestinationRevision :: string
  op_ExpectedSHA256 :: string
  op_DependsOn :: "string list"
  op_Indentation :: string
  op_DerivedFrom :: string

record PlanConflict =
  pc_OpID :: string
  pc_Code :: ConflictCode
  pc_Path :: string
  pc_Expected :: string
  pc_Current :: string
  pc_Message :: go_error

record PlanHunk =
  ph_OpID :: string
  ph_Path :: string
  ph_ByteStart :: int
  ph_ByteEnd :: int
  ph_StartLine :: nat
  ph_EndLine :: nat
  ph_Superseded :: bool

record PlanPreview =
  pv_PreviewRevision :: string
  pv_PlanRevision :: u64
  pv_Outcome :: string
  pv_NormalizedOrder :: "string list"
  pv_AffectedFiles :: "string list"
  pv_Diffs :: "ExactDiff list"
  pv_Conflicts :: "PlanConflict list"
  pv_Hunks :: "PlanHunk list"
  pv_CanonicalChanged :: bool

record Coverage =
  cov_Complete :: bool
  cov_FilesConsidered :: nat
  cov_FilesRead :: nat
  cov_BytesRead :: int
  cov_Skipped :: "string list"
  cov_SkippedCount :: nat
  cov_SymlinksSkipped :: nat
  cov_Capped :: bool
  cov_Semantic :: string

definition empty_coverage :: Coverage where
  "empty_coverage = \<lparr> cov_Complete = False, cov_FilesConsidered = 0, cov_FilesRead = 0, cov_BytesRead = 0,
     cov_Skipped = [], cov_SkippedCount = 0, cov_SymlinksSkipped = 0, cov_Capped = False, cov_Semantic = [] \<rparr>"

datatype InvariantKind =
    InvariantNoNewDiagnostics
  | InvariantTestsPass
  | InvariantNoReferences
  | InvariantSymbolExists
  | InvariantSymbolAbsent
  | InvariantAPICompatible
  | InvariantKindOther string

datatype InvariantEnforcement =
    InvariantUnset
  | InvariantRequired
  | InvariantAdvisory
  | InvariantEnforcementOther string

datatype InvariantStatus =
    InvariantPending
  | InvariantProven
  | InvariantViolated
  | InvariantUnknown

record InvariantScope =
  is_Paths :: "string list"
  is_Symbol :: "PlanSymbolLocator option"
  is_Severity :: string

record PlanInvariant =
  iv_ID :: string
  iv_Kind :: InvariantKind
  iv_Enforcement :: InvariantEnforcement
  iv_Scope :: InvariantScope
  iv_Status :: InvariantStatus
  iv_EvaluatedRevision :: string
  iv_Coverage :: Coverage
  iv_EvidenceIDs :: "string list"
  iv_Detail :: string
  iv_EvaluatedAt :: time

datatype VerificationStatus =
    VerificationPassed
  | VerificationFailed
  | VerificationSkipped
  | VerificationCancelled
  | VerificationTimedOut

record VerificationStage =
  vs_Stage :: string
  vs_Implementation :: "string list"
  vs_Mode :: string
  vs_Scope :: "string list"
  vs_StartedRevision :: string
  vs_Exit :: int
  vs_Writes :: "string list"
  vs_Output :: string
  vs_Status :: VerificationStatus
  vs_DurationMS :: int
  vs_Coverage :: Coverage
  vs_EvidenceIDs :: "string list"
  vs_TestScope :: string
  vs_TestVerdict :: string
  vs_ExecutedTests :: "string list"
  vs_Confidence :: string

record VerificationGap =
  vg_Dimension :: string
  vg_Detail :: string

record ToolDelta =
  td_Path :: string
  td_Before :: bytes
  td_After :: bytes
  td_BeforeExists :: bool
  td_AfterExists :: bool
  td_Classification :: string
  td_BeforeKind :: ObjectKind
  td_AfterKind :: ObjectKind
  td_BeforeMode :: u32
  td_AfterMode :: u32
  td_BeforeTarget :: string
  td_AfterTarget :: string

record PlanPreparation =
  pp_PreparedRevision :: string
  pp_ProviderEpoch :: u64
  pp_AffectedFiles :: "string list"
  pp_CanonicalChanged :: bool
  pp_CanonicalRevision :: string
  pp_JournalID :: string
  pp_Diagnostics :: string
  pp_DiskChecks :: string
  pp_IntermediateReports :: bool
  pp_SandboxBackend :: string
  pp_BaseRevision :: string
  pp_CanonicalFromRevision :: string
  pp_EvidencePaths :: string
  pp_Verification :: "VerificationStage list"
  pp_ToolDelta :: "ToolDelta list"
  pp_CommittedDiffs :: "ExactDiff list"
  pp_ProvisionalAccepted :: "string list"
  pp_MissingCoverage :: "VerificationGap list"

definition empty_preparation :: PlanPreparation where
  "empty_preparation = \<lparr> pp_PreparedRevision = [], pp_ProviderEpoch = 0, pp_AffectedFiles = [],
     pp_CanonicalChanged = False, pp_CanonicalRevision = [], pp_JournalID = [], pp_Diagnostics = [],
     pp_DiskChecks = [], pp_IntermediateReports = False, pp_SandboxBackend = [], pp_BaseRevision = [],
     pp_CanonicalFromRevision = [], pp_EvidencePaths = [], pp_Verification = [], pp_ToolDelta = [],
     pp_CommittedDiffs = [], pp_ProvisionalAccepted = [], pp_MissingCoverage = [] \<rparr>"

record PlanConflictReason =
  cr_Code :: error_code
  cr_Message :: go_error

record PlanEvent =
  ev_Action :: string
  ev_PlanRevision :: u64
  ev_Outcome :: string
  ev_At :: time

record PlanRecord =
  pr_PlanID :: string
  pr_WorkspaceID :: string
  pr_State :: PlanState
  pr_PlanRevision :: u64
  pr_BaseStateSeq :: u64
  pr_Operations :: "PlanOperation list"
  pr_Invariants :: "PlanInvariant list"
  pr_Preview :: "PlanPreview option"
  pr_Preparation :: "PlanPreparation option"
  pr_Conflict :: "PlanConflictReason option"
  pr_Events :: "PlanEvent list"
  pr_DroppedEvents :: nat
  pr_Compacted :: bool
  pr_CreatedAt :: time
  pr_UpdatedAt :: time

record PlanStageFile =
  sf_Path :: string
  sf_Before :: bytes
  sf_After :: bytes
  sf_BeforeExists :: bool
  sf_AfterExists :: bool
  sf_BeforeDisk :: DiskSnapshot
  sf_AfterDisk :: DiskSnapshot
  sf_Patch :: "BytePatch list"

record PlanStageRequest =
  sr_PlanID :: string
  sr_PlanRevision :: u64
  sr_Files :: "PlanStageFile list"
  sr_RequiresFormatter :: bool

datatype edit_mode =
    EditAdd
  | EditUpdate
  | EditRemove
  | EditReorder
  | EditReplaceAll
  | EditModeOther string

record PlanEdit =
  pe_Mode :: edit_mode
  pe_Operations :: "PlanOperation list"
  pe_OpIDs :: "string list"
  pe_Invariants :: "PlanInvariant list option"

end
