(* ===== verification/Operation_Order.thy ===== *)
theory Operation_Order
  imports Plan_Types
begin

text \<open>
  The order in which a plan's operations apply (\<open>orderOperations\<close>, \<open>implicitEdge\<close> and
  \<open>operationRange\<close> of \<^verbatim>\<open>internal/workspace/plan.go\<close>): declared dependencies and the order the
  operations' paths imply become edges, and a ready queue kept in declaration order emits the
  operations. The Go maps keyed by operation ID are association lists and functions; the ready
  queue is the list the code sorts by index after every push.
\<close>

definition operationRange :: "PlanOperation \<Rightarrow> string \<times> int \<times> bool" where
  "operationRange operation =
     (case op_Target operation of
        None \<Rightarrow> ([], 0, False)
      | Some target \<Rightarrow>
          (case pt_FileRange target of
             None \<Rightarrow> ([], 0, False)
           | Some handle \<Rightarrow> (rh_Path handle, rh_ByteStart handle, True)))"

definition implicitEdge :: "PlanOperation \<Rightarrow> PlanOperation \<Rightarrow> (string \<times> string) option" where
  "implicitEdge left right =
     (let (leftPath, leftStart, leftEdit) = operationRange left;
          (rightPath, rightStart, rightEdit) = operationRange right
      in if leftEdit \<and> rightEdit \<and> leftPath = rightPath \<and> leftStart < rightStart
         then Some (op_OpID right, op_OpID left)
         else if op_Kind left = OperationCreateFile \<and> op_Path left \<noteq> [] \<and> rightEdit \<and> rightPath = op_Path left
         then Some (op_OpID left, op_OpID right)
         else if leftEdit \<and> op_Kind right = OperationDeleteFile \<and> leftPath = op_Path right
         then Some (op_OpID left, op_OpID right)
         else if leftEdit \<and> (op_Kind right = OperationMoveFile \<or> op_Kind right = OperationCopyFile) \<and>
                 leftPath = op_From right
         then Some (op_OpID left, op_OpID right)
         else if op_Kind left = OperationCopyFile \<and> rightEdit \<and> rightPath = op_To left
         then Some (op_OpID left, op_OpID right)
         else None)"

text \<open>The zero value a Go map lookup yields for an operation ID it does not hold.\<close>

definition zero_operation :: PlanOperation where
  "zero_operation = \<lparr> op_OpID = [], op_Kind = OperationOther [], op_Target = None, op_Content = [],
     op_Path = [], op_From = [], op_To = [], op_Revision = [], op_DestinationRevision = [],
     op_ExpectedSHA256 = [], op_DependsOn = [], op_Indentation = [], op_DerivedFrom = [] \<rparr>"

definition by_id :: "PlanOperation list \<Rightarrow> string \<Rightarrow> PlanOperation" where
  "by_id operations i =
     (case map_of (rev (map (\<lambda>operation. (op_OpID operation, operation)) operations)) i of
        None \<Rightarrow> zero_operation
      | Some operation \<Rightarrow> operation)"

definition op_index :: "PlanOperation list \<Rightarrow> string \<Rightarrow> nat" where
  "op_index operations i =
     (case map_of (rev (zip (map op_OpID operations) [0..<length operations])) i of
        None \<Rightarrow> 0
      | Some k \<Rightarrow> k)"

text \<open>The edges in the order the two loops of the source add them.\<close>

definition dependency_edges :: "PlanOperation list \<Rightarrow> (string \<times> string) list" where
  "dependency_edges operations =
     concat (map (\<lambda>operation.
       concat (map (\<lambda>dependency.
         (let (dependencyPath, dependencyStart, dependencyEdit) = operationRange (by_id operations dependency);
              (operationPath, operationStart, operationEdit) = operationRange operation
          in if dependencyEdit \<and> operationEdit \<and> dependencyPath = operationPath \<and>
                dependencyStart \<noteq> operationStart
             then [] else [(dependency, op_OpID operation)])) (op_DependsOn operation))) operations)"

definition implicit_edges :: "PlanOperation list \<Rightarrow> (string \<times> string) list" where
  "implicit_edges operations =
     concat (map (\<lambda>i. concat (map (\<lambda>j.
       (if i = j then []
        else case implicitEdge (operations ! i) (operations ! j) of None \<Rightarrow> [] | Some e \<Rightarrow> [e]))
       [0..<length operations])) [0..<length operations])"

definition operation_edges :: "PlanOperation list \<Rightarrow> (string \<times> string) list" where
  "operation_edges operations = dependency_edges operations @ implicit_edges operations"

type_synonym successors = "(string \<times> string list) list"

definition successors_of :: "successors \<Rightarrow> string \<Rightarrow> string list" where
  "successors_of next i = (case map_of next i of None \<Rightarrow> [] | Some ts \<Rightarrow> ts)"

fun addEdge :: "string \<times> string \<Rightarrow> successors \<times> (string \<Rightarrow> int) \<Rightarrow> successors \<times> (string \<Rightarrow> int)" where
  "addEdge (before, after) (next, indegree) =
     (if after \<in> set (successors_of next before) then (next, indegree)
      else (AList.update before (successors_of next before @ [after]) next,
            indegree(after := indegree after + 1)))"

fun relax :: "(string \<Rightarrow> nat) \<Rightarrow> string list \<Rightarrow> (string \<Rightarrow> int) \<times> string list \<Rightarrow> (string \<Rightarrow> int) \<times> string list" where
  "relax index [] (indegree, ready) = (indegree, ready)"
| "relax index (target # targets) (indegree, ready) =
     (let indegree' = indegree(target := indegree target - 1)
      in relax index targets
           (indegree', if indegree' target = 0 then sort_key index (ready @ [target]) else ready))"

definition all_targets :: "successors \<Rightarrow> string set" where
  "all_targets next = set (concat (map snd next))"

lemma finite_all_targets [simp]: "finite (all_targets next)"
  by (simp add: all_targets_def)

lemma successors_in_all_targets: "set (successors_of next i) \<subseteq> all_targets next"
  by (cases "map_of next i") (force simp: successors_of_def all_targets_def dest: map_of_SomeD)+

lemma relax_measure:
  assumes "finite T" "set targets \<subseteq> T" "relax index targets (d, ready) = (d', ready')"
  shows "length ready' + (\<Sum>t\<in>T. nat (d' t)) \<le> length ready + (\<Sum>t\<in>T. nat (d t))"
  using assms
proof (induction targets arbitrary: d ready)
  case Nil
  then show ?case by simp
next
  case (Cons x xs)
  let ?d = "d(x := d x - 1)"
  have split: "(\<Sum>t\<in>T. nat (f t)) = nat (f x) + (\<Sum>t\<in>T - {x}. nat (f t))" for f :: "string \<Rightarrow> int"
    using Cons.prems by (intro sum.remove) auto
  have rest: "(\<Sum>t\<in>T - {x}. nat (?d t)) = (\<Sum>t\<in>T - {x}. nat (d t))"
    by (intro sum.cong) auto
  show ?case
  proof (cases "d x = 1")
    case True
    with Cons.prems have "relax index xs (?d, sort_key index (ready @ [x])) = (d', ready')"
      by (simp add: Let_def)
    with Cons.IH Cons.prems have "length ready' + (\<Sum>t\<in>T. nat (d' t))
        \<le> length ready + 1 + (\<Sum>t\<in>T. nat (?d t))" by force
    with True split [of d] split [of ?d] rest show ?thesis by simp
  next
    case False
    with Cons.prems have "relax index xs (?d, ready) = (d', ready')"
      by (simp add: Let_def split: if_splits)
    with Cons.IH Cons.prems have "length ready' + (\<Sum>t\<in>T. nat (d' t))
        \<le> length ready + (\<Sum>t\<in>T. nat (?d t))" by force
    with split [of d] split [of ?d] rest show ?thesis by simp
  qed
qed

function order_loop ::
  "(string \<Rightarrow> nat) \<Rightarrow> successors \<Rightarrow> (string \<Rightarrow> int) \<Rightarrow> string list \<Rightarrow> string list \<Rightarrow> string list" where
  "order_loop index next indegree [] ordered = ordered"
| "order_loop index next indegree (i # ready) ordered =
     order_loop index next (fst (relax index (successors_of next i) (indegree, ready)))
       (snd (relax index (successors_of next i) (indegree, ready))) (ordered @ [i])"
  by pat_completeness auto
termination
proof (relation "measure (\<lambda>(index, next, d, ready, ordered).
    length ready + (\<Sum>t\<in>all_targets next. nat (d t)))", goal_cases)
  case 1
  show ?case by simp
next
  case (2 index "next" indegree i ready ordered)
  show ?case
    using relax_measure [OF finite_all_targets successors_in_all_targets [of "next" i],
        of index indegree ready "fst (relax index (successors_of next i) (indegree, ready))"
          "snd (relax index (successors_of next i) (indegree, ready))"]
    by simp
qed

definition orderOperations :: "PlanOperation list \<Rightarrow> PlanOperation list result" where
  "orderOperations operations =
     (let ids = remdups (map op_OpID operations);
          index = op_index operations;
          (next, indegree) = fold addEdge (operation_edges operations) ([], \<lambda>_. 0);
          ready = sort_key index (filter (\<lambda>i. indegree i = 0) ids);
          ordered = map (by_id operations) (order_loop index next indegree ready [])
      in if length ordered \<noteq> length operations then Error (PlainError ''operation dependency cycle'')
         else Ok ordered)"

section \<open>The dependency graph\<close>

definition graph_ok :: "(string \<times> string) set \<Rightarrow> successors \<times> (string \<Rightarrow> int) \<Rightarrow> bool" where
  "graph_ok E g \<longleftrightarrow>
     (\<forall>i. set (successors_of (fst g) i) = {b. (i, b) \<in> E} \<and> distinct (successors_of (fst g) i)) \<and>
     (\<forall>y. snd g y = int (card {x. (x, y) \<in> E}))"

lemma successors_of_update [simp]:
  "successors_of (AList.update a ts next) i = (if i = a then ts else successors_of next i)"
  by (simp add: successors_of_def)

lemma addEdge_graph_ok:
  assumes "graph_ok E g" "finite E"
  shows "graph_ok (insert e E) (addEdge e g)"
proof -
  obtain a b "next" d where e: "e = (a, b)" and g: "g = (next, d)" by (cases e, cases g)
  show ?thesis
  proof (cases "(a, b) \<in> E")
    case True
    with assms e g show ?thesis by (auto simp: graph_ok_def insert_absorb)
  next
    case False
    have fin: "finite {x. (x, b) \<in> E}"
      using finite_imageI [OF assms(2), of fst] by (rule finite_subset [rotated]) force
    have "{x. (x, y) \<in> insert (a, b) E} = (if y = b then insert a {x. (x, b) \<in> E} else {x. (x, y) \<in> E})" for y
      by auto
    then have "int (card {x. (x, y) \<in> insert (a, b) E}) = (d(b := d b + 1)) y" for y
      using False fin assms(1) g by (simp add: graph_ok_def)
    moreover have "b \<notin> set (successors_of next a)"
      using False assms(1) g by (simp add: graph_ok_def)
    moreover have "set (successors_of next i) = {y. (i, y) \<in> E} \<and> distinct (successors_of next i)" for i
      using assms(1) g by (simp add: graph_ok_def)
    ultimately show ?thesis
      using e g unfolding graph_ok_def by auto
  qed
qed

lemma fold_addEdge_graph_ok:
  assumes "graph_ok E g" "finite E"
  shows "graph_ok (set es \<union> E) (fold addEdge es g)"
  using assms
proof (induction es arbitrary: E g)
  case Nil
  then show ?case by simp
next
  case (Cons e es)
  from Cons.IH [OF addEdge_graph_ok [OF Cons.prems]] Cons.prems show ?case
    by (simp add: Un_insert_right)
qed

lemma graph_of_edges: "graph_ok (set es) (fold addEdge es ([], \<lambda>_. 0))"
  using fold_addEdge_graph_ok [of "{}" "([], \<lambda>_. 0)" es] by (simp add: graph_ok_def successors_of_def)

section \<open>The ready queue\<close>

lemma relax_spec:
  assumes "distinct ts"
  shows "fst (relax index ts (d, r)) = (\<lambda>y. if y \<in> set ts then d y - 1 else d y) \<and>
    mset (snd (relax index ts (d, r))) = mset r + mset (filter (\<lambda>t. d t = 1) ts)"
  using assms
proof (induction ts arbitrary: d r)
  case Nil
  then show ?case by simp
next
  case (Cons t ts)
  define d2 where "d2 = d(t := d t - 1)"
  define r2 where "r2 = (if d2 t = 0 then sort_key index (r @ [t]) else r)"
  have d2: "d2 t = d t - 1" "\<And>x. x \<in> set ts \<Longrightarrow> d2 x = d x"
    using Cons.prems by (auto simp: d2_def)
  have same: "filter (\<lambda>x. d2 x = 1) ts = filter (\<lambda>x. d x = 1) ts"
    using d2(2) by (intro filter_cong) auto
  have step: "relax index (t # ts) (d, r) = relax index ts (d2, r2)"
    by (simp add: Let_def d2_def r2_def)
  have "mset r2 = mset r + (if d t = 1 then {#t#} else {#})"
    by (simp add: r2_def d2(1))
  moreover have "fst (relax index ts (d2, r2)) = (\<lambda>y. if y \<in> set ts then d2 y - 1 else d2 y)"
    and "mset (snd (relax index ts (d2, r2))) = mset r2 + mset (filter (\<lambda>x. d x = 1) ts)"
    using Cons.IH [of d2 r2] Cons.prems same by auto
  ultimately show ?case
    unfolding step using Cons.prems by (auto simp: fun_eq_iff d2_def)
qed

definition order_inv ::
  "(string \<times> string) set \<Rightarrow> string set \<Rightarrow> (string \<Rightarrow> int) \<Rightarrow> string list \<Rightarrow> string list \<Rightarrow> bool" where
  "order_inv E ids d ready ordered \<longleftrightarrow>
     distinct (ordered @ ready) \<and> set (ordered @ ready) \<subseteq> ids \<and>
     (\<forall>y \<in> ids. d y = int (card {x. (x, y) \<in> E \<and> x \<notin> set ordered})) \<and>
     (\<forall>y \<in> ids. y \<in> set (ordered @ ready) \<longleftrightarrow> d y = 0) \<and>
     (\<forall>xs y ys. ordered = xs @ y # ys \<longrightarrow> (\<forall>x. (x, y) \<in> E \<longrightarrow> x \<in> set xs))"

lemma waiting_count_step:
  assumes "finite E" "i \<notin> set ordered"
  shows "card {x. (x, y) \<in> E \<and> x \<notin> set ordered} =
    card {x. (x, y) \<in> E \<and> x \<notin> set (ordered @ [i])} + (if (i, y) \<in> E then 1 else 0)"
proof -
  let ?A = "{x. (x, y) \<in> E \<and> x \<notin> set ordered}"
  have fin: "finite ?A"
    using finite_imageI [OF assms(1), of fst] by (rule finite_subset [rotated]) force
  have eq: "{x. (x, y) \<in> E \<and> x \<notin> set (ordered @ [i])} = ?A - {i}" by auto
  show ?thesis
  proof (cases "(i, y) \<in> E")
    case True
    with assms(2) have "i \<in> ?A" by simp
    with fin have "card ?A = Suc (card (?A - {i}))" by (rule card.remove)
    with True eq show ?thesis by simp
  next
    case False
    then have "?A - {i} = ?A" by auto
    with False eq show ?thesis by simp
  qed
qed

lemma order_inv_step:
  assumes inv: "order_inv E ids d (i # ready) ordered"
    and E: "finite E" "\<forall>(x, y) \<in> E. y \<in> ids"
    and ts: "set ts = {y. (i, y) \<in> E}" "distinct ts"
  shows "order_inv E ids (fst (relax index ts (d, ready))) (snd (relax index ts (d, ready))) (ordered @ [i])"
proof -
  let ?d = "fst (relax index ts (d, ready))" and ?r = "snd (relax index ts (d, ready))"
  let ?new = "filter (\<lambda>t. d t = 1) ts"
  have d: "?d y = d y - (if (i, y) \<in> E then 1 else 0)" for y
    using relax_spec [OF ts(2), of index d ready] ts(1) by simp
  have mr: "mset ?r = mset (ready @ ?new)"
    using relax_spec [OF ts(2), of index d ready] by simp
  then have sr: "set ?r = set ready \<union> set ?new" by (metis set_append set_mset_mset)
  from inv have i: "i \<notin> set ordered" "i \<in> ids" and dist: "distinct (ordered @ i # ready)"
    and sub: "set (ordered @ i # ready) \<subseteq> ids"
    and cnt: "\<And>y. y \<in> ids \<Longrightarrow> d y = int (card {x. (x, y) \<in> E \<and> x \<notin> set ordered})"
    and zero: "\<And>y. y \<in> ids \<Longrightarrow> y \<in> set (ordered @ i # ready) \<longleftrightarrow> d y = 0"
    and topo: "\<forall>xs y ys. ordered = xs @ y # ys \<longrightarrow> (\<forall>x. (x, y) \<in> E \<longrightarrow> x \<in> set xs)"
    by (auto simp: order_inv_def)
  have new_ids: "set ?new \<subseteq> ids" using ts(1) E(2) by auto
  then have new_fresh: "set ?new \<inter> set (ordered @ i # ready) = {}" using zero by fastforce
  have pos: "d y \<ge> 1" if "y \<in> ids" "(i, y) \<in> E" for y
    using cnt [OF that(1)] waiting_count_step [OF E(1) i(1), of y] that(2) by simp
  have "distinct (ready @ ?new)" using dist ts(2) new_fresh by auto
  then have "distinct ?r" using mr by (metis distinct_count_atmost_1 set_mset_mset)
  then have c1: "distinct ((ordered @ [i]) @ ?r)" using sr dist new_fresh by auto
  have c2: "set ((ordered @ [i]) @ ?r) \<subseteq> ids" using sr sub new_ids by auto
  have c3: "\<forall>y \<in> ids. ?d y = int (card {x. (x, y) \<in> E \<and> x \<notin> set (ordered @ [i])})"
    using cnt d waiting_count_step [OF E(1) i(1)] by simp
  have c4: "\<forall>y \<in> ids. y \<in> set ((ordered @ [i]) @ ?r) \<longleftrightarrow> ?d y = 0"
  proof
    fix y assume y: "y \<in> ids"
    have "y \<in> set ((ordered @ [i]) @ ?r) \<longleftrightarrow> d y = 0 \<or> ((i, y) \<in> E \<and> d y = 1)"
      using zero [OF y] sr ts(1) by auto
    also have "\<dots> \<longleftrightarrow> ?d y = 0" using d [of y] pos [OF y] by auto
    finally show "y \<in> set ((ordered @ [i]) @ ?r) \<longleftrightarrow> ?d y = 0" .
  qed
  have fin: "finite {x. (x, i) \<in> E \<and> x \<notin> set ordered}"
    using finite_imageI [OF E(1), of fst] by (rule finite_subset [rotated]) force
  have "x \<in> set ordered" if "(x, i) \<in> E" for x
    using zero [OF i(2)] cnt [OF i(2)] fin that by auto
  then have "x \<in> set xs" if "ordered @ [i] = xs @ y # ys" "(x, y) \<in> E" for xs x y ys
    using topo that by (cases ys rule: rev_cases) auto
  then have c5: "\<forall>xs y ys. ordered @ [i] = xs @ y # ys \<longrightarrow> (\<forall>x. (x, y) \<in> E \<longrightarrow> x \<in> set xs)"
    by blast
  from c1 c2 c3 c4 c5 show ?thesis unfolding order_inv_def by blast
qed

lemma order_loop_inv:
  assumes "order_inv E ids d ready ordered" "finite E" "\<forall>(x, y) \<in> E. y \<in> ids"
    and "\<And>i. set (successors_of next i) = {y. (i, y) \<in> E} \<and> distinct (successors_of next i)"
  shows "\<exists>d'. order_inv E ids d' [] (order_loop index next d ready ordered)"
  using assms
proof (induction index "next" d ready ordered rule: order_loop.induct)
  case (1 index "next" d ordered)
  then show ?case by auto
next
  case (2 index "next" d i ready ordered)
  have "order_inv E ids (fst (relax index (successors_of next i) (d, ready)))
      (snd (relax index (successors_of next i) (d, ready))) (ordered @ [i])"
    using "2.prems" by (intro order_inv_step) auto
  from "2.IH" [OF this "2.prems"(2-4)] show ?case by simp
qed

section \<open>What the order guarantees\<close>

definition list_before :: "'a \<Rightarrow> 'a \<Rightarrow> 'a list \<Rightarrow> bool" where
  "list_before a b l \<longleftrightarrow> (\<exists>xs ys zs. l = xs @ a # ys @ b # zs)"

lemma takeWhile_position:
  assumes "distinct l" "l = xs @ a # ys @ b # zs"
  shows "length (takeWhile (\<lambda>j. j \<noteq> a) l) < length (takeWhile (\<lambda>j. j \<noteq> b) l)"
proof -
  have "takeWhile (\<lambda>j. j \<noteq> a) l = xs"
    using assms by (auto simp: takeWhile_append2 takeWhile_append)
  moreover have "takeWhile (\<lambda>j. j \<noteq> b) ((xs @ a # ys) @ b # zs) = xs @ a # ys"
    using assms by (subst takeWhile_append2) auto
  ultimately show ?thesis using assms(2) by simp
qed

lemma by_id_mem:
  assumes "distinct (map op_OpID ops)" "operation \<in> set ops"
  shows "by_id ops (op_OpID operation) = operation"
proof -
  let ?kv = "map (\<lambda>x. (op_OpID x, x)) ops"
  have "distinct (map fst (rev ?kv))" using assms(1) by (simp add: rev_map [symmetric] comp_def)
  moreover have "(op_OpID operation, operation) \<in> set (rev ?kv)" using assms(2) by auto
  ultimately have "map_of (rev ?kv) (op_OpID operation) = Some operation" by (rule map_of_is_SomeI)
  then show ?thesis by (simp add: by_id_def)
qed

lemma dependency_edges_target: "(x, y) \<in> set (dependency_edges ops) \<Longrightarrow> y \<in> op_OpID ` set ops"
  by (auto simp: dependency_edges_def Let_def split: if_splits prod.splits)

lemma implicitEdge_ids:
  "implicitEdge l r = Some (x, y) \<Longrightarrow> {x, y} = {op_OpID l, op_OpID r}"
  by (auto simp: implicitEdge_def Let_def split: if_splits prod.splits)

lemma implicit_edges_iff:
  "(x, y) \<in> set (implicit_edges ops) \<longleftrightarrow>
     (\<exists>i j. i < length ops \<and> j < length ops \<and> i \<noteq> j \<and> implicitEdge (ops ! i) (ops ! j) = Some (x, y))"
proof -
  have pair: "(x, y) \<in> set (if i = j then [] else case implicitEdge (ops ! i) (ops ! j) of None \<Rightarrow> [] | Some e \<Rightarrow> [e])
      \<longleftrightarrow> i \<noteq> j \<and> implicitEdge (ops ! i) (ops ! j) = Some (x, y)" for i j
    by (auto split: option.splits)
  have "(x, y) \<in> set (implicit_edges ops) \<longleftrightarrow> (\<exists>i\<in>{0..<length ops}. \<exists>j\<in>{0..<length ops}.
      (x, y) \<in> set (if i = j then [] else case implicitEdge (ops ! i) (ops ! j) of None \<Rightarrow> [] | Some e \<Rightarrow> [e]))"
    by (simp only: implicit_edges_def set_concat set_map set_upt image_image UN_iff)
  then show ?thesis unfolding pair Bex_def atLeastLessThan_iff by blast
qed

lemma implicit_edges_target: "(x, y) \<in> set (implicit_edges ops) \<Longrightarrow> y \<in> op_OpID ` set ops"
proof -
  assume "(x, y) \<in> set (implicit_edges ops)"
  then obtain i j where ij: "i < length ops" "j < length ops" and
    "implicitEdge (ops ! i) (ops ! j) = Some (x, y)" by (auto simp: implicit_edges_iff)
  then have "y = op_OpID (ops ! i) \<or> y = op_OpID (ops ! j)" by (blast dest: implicitEdge_ids)
  with ij show ?thesis by auto
qed

lemma operation_edges_target: "\<forall>(x, y) \<in> set (operation_edges ops). y \<in> op_OpID ` set ops"
  by (auto simp: operation_edges_def dest: dependency_edges_target implicit_edges_target)

text \<open>The emitted IDs and what the loop leaves: the shared lemma of the properties below.\<close>

lemma orderOperations_ids:
  assumes "distinct (map op_OpID ops)"
  obtains ids d where "order_inv (set (operation_edges ops)) (op_OpID ` set ops) d [] ids"
    "orderOperations ops = (if length ids \<noteq> length ops
        then Error (PlainError ''operation dependency cycle'') else Ok (map (by_id ops) ids))"
proof -
  let ?E = "set (operation_edges ops)" and ?index = "op_index ops"
  obtain "next" d where nd: "fold addEdge (operation_edges ops) ([], \<lambda>_. 0) = (next, d)"
    by (cases "fold addEdge (operation_edges ops) ([], \<lambda>_. 0)")
  with graph_of_edges [of "operation_edges ops"] have g: "graph_ok ?E (next, d)" by simp
  let ?ready = "sort_key ?index (filter (\<lambda>i. d i = 0) (remdups (map op_OpID ops)))"
  have "order_inv ?E (op_OpID ` set ops) d ?ready []"
    using g by (auto simp: order_inv_def graph_ok_def)
  moreover have "\<And>i. set (successors_of next i) = {y. (i, y) \<in> ?E} \<and> distinct (successors_of next i)"
    using g by (simp add: graph_ok_def)
  ultimately obtain d' where
    "order_inv ?E (op_OpID ` set ops) d' [] (order_loop ?index next d ?ready [])"
    using order_loop_inv [OF _ _ operation_edges_target] by blast
  then show thesis
    by (rule that) (simp add: orderOperations_def nd Let_def)
qed

lemma order_inv_full:
  assumes "order_inv E (op_OpID ` set ops) d [] ids" "distinct (map op_OpID ops)"
  shows "length ids = length ops \<longleftrightarrow> set ids = op_OpID ` set ops"
proof -
  from assms have d: "distinct ids" "set ids \<subseteq> op_OpID ` set ops" by (auto simp: order_inv_def)
  have "card (op_OpID ` set ops) = length ops"
    using distinct_card [OF assms(2)] by simp
  with d show ?thesis
    by (metis List.finite_set card_subset_eq distinct_card finite_imageI)
qed

lemma orderOperations_honours:
  assumes "distinct (map op_OpID ops)" "orderOperations ops = Ok ordered"
  shows "mset ordered = mset ops \<and>
    (\<forall>(a, b) \<in> set (operation_edges ops). list_before a b (map op_OpID ordered))"
proof -
  obtain ids d where inv: "order_inv (set (operation_edges ops)) (op_OpID ` set ops) d [] ids"
    and res: "orderOperations ops = (if length ids \<noteq> length ops
        then Error (PlainError ''operation dependency cycle'') else Ok (map (by_id ops) ids))"
    by (rule orderOperations_ids [OF assms(1)])
  from res assms(2) have ordered: "ordered = map (by_id ops) ids" and "length ids = length ops"
    by (auto split: if_splits)
  with order_inv_full [OF inv assms(1)] have full: "set ids = op_OpID ` set ops" by simp
  have dist: "distinct ids" using inv by (simp add: order_inv_def)
  have round: "op_OpID (by_id ops i) = i" if "i \<in> set ids" for i
    using that full by_id_mem [OF assms(1)] by auto
  then have names: "map op_OpID ordered = ids"
    unfolding ordered by (induction ids) auto
  have "set ordered = set ops"
    using full by_id_mem [OF assms(1)] unfolding ordered by force
  moreover have "distinct ordered" using dist names by (metis distinct_map)
  moreover have "distinct ops" using assms(1) by (simp add: distinct_map)
  ultimately have "mset ordered = mset ops" by (simp add: set_eq_iff_mset_eq_distinct)
  moreover have "list_before a b ids" if "(a, b) \<in> set (operation_edges ops)" for a b
  proof -
    from that operation_edges_target full have "b \<in> set ids" by fastforce
    then obtain xs zs where ids: "ids = xs @ b # zs" by (meson split_list)
    with inv that have "a \<in> set xs" unfolding order_inv_def by blast
    then obtain us vs where "xs = us @ a # vs" by (meson split_list)
    with ids show ?thesis unfolding list_before_def by (metis append.assoc append_Cons)
  qed
  ultimately show ?thesis using names by auto
qed


text \<open>
  Ordering fails exactly on a cycle: with distinct IDs, \<open>orderOperations\<close> succeeds if and only
  if every dependency names an operation of the plan and the edges are acyclic.
\<close>

theorem orderOperations_succeeds_iff:
  assumes "distinct (map op_OpID ops)"
  shows "is_ok (orderOperations ops) \<longleftrightarrow>
    acyclic (set (operation_edges ops)) \<and> fst ` set (operation_edges ops) \<subseteq> op_OpID ` set ops"
proof -
  let ?E = "set (operation_edges ops)"
  obtain ids d where inv: "order_inv ?E (op_OpID ` set ops) d [] ids"
    and res: "orderOperations ops = (if length ids \<noteq> length ops
        then Error (PlainError ''operation dependency cycle'') else Ok (map (by_id ops) ids))"
    by (rule orderOperations_ids [OF assms])
  have ok: "is_ok (orderOperations ops) \<longleftrightarrow> set ids = op_OpID ` set ops"
    using res order_inv_full [OF inv assms] by (simp split: if_splits)
  have closed: "y \<in> set ids \<longleftrightarrow> (\<forall>x. (x, y) \<in> ?E \<longrightarrow> x \<in> set ids)" if "y \<in> op_OpID ` set ops" for y
  proof -
    have "finite {x. (x, y) \<in> ?E \<and> x \<notin> set ids}"
      using finite_imageI [of ?E fst] by (rule finite_subset [rotated]) force+
    moreover have "y \<in> set ids \<longleftrightarrow> d y = 0" "d y = int (card {x. (x, y) \<in> ?E \<and> x \<notin> set ids})"
      using inv that by (auto simp: order_inv_def)
    ultimately show ?thesis by auto
  qed
  show ?thesis
  proof
    assume "is_ok (orderOperations ops)"
    with ok have full: "set ids = op_OpID ` set ops" by simp
    have pred: "x \<in> set ids" if "(x, y) \<in> ?E" for x y
      using that closed [of y] operation_edges_target full by fastforce
    have "\<exists>xs ys zs. ids = xs @ x # ys @ y # zs" if "(x, y) \<in> ?E" for x y
    proof -
      from that operation_edges_target full have "y \<in> set ids" by fastforce
      then obtain xs zs where "ids = xs @ y # zs" by (meson split_list)
      moreover from this inv that have "x \<in> set xs" unfolding order_inv_def by blast
      ultimately show ?thesis by (metis append.assoc append_Cons split_list)
    qed
    moreover have "distinct ids" using inv by (simp add: order_inv_def)
    ultimately have "?E \<subseteq> measure (\<lambda>i. length (takeWhile (\<lambda>j. j \<noteq> i) ids))"
      by (fastforce intro: takeWhile_position)
    then have "acyclic ?E" by (meson wf_acyclic wf_measure wf_subset)
    with pred full show "acyclic ?E \<and> fst ` ?E \<subseteq> op_OpID ` set ops" by auto
  next
    assume a: "acyclic ?E \<and> fst ` ?E \<subseteq> op_OpID ` set ops"
    then have wf: "wf ?E" by (simp add: finite_acyclic_wf)
    have "y \<in> op_OpID ` set ops \<longrightarrow> y \<in> set ids" for y
    proof (induction y rule: wf_induct_rule [OF wf])
      case (1 y)
      then show ?case using closed [of y] a by force
    qed
    moreover have "set ids \<subseteq> op_OpID ` set ops" using inv by (simp add: order_inv_def)
    ultimately show "is_ok (orderOperations ops)" using ok by blast
  qed
qed

text \<open>Two operations for the examples: an edit of one file at an offset, depending on others.\<close>

definition edit_at :: "string \<Rightarrow> string \<Rightarrow> int \<Rightarrow> string list \<Rightarrow> PlanOperation" where
  "edit_at i path start deps = zero_operation \<lparr> op_OpID := i, op_Kind := OperationReplaceRange,
     op_DependsOn := deps,
     op_Target := Some \<lparr> pt_Handle = [],
       pt_FileRange = Some \<lparr> rh_Path = path, rh_Revision = [], rh_ByteStart = start, rh_ByteEnd = start,
         rh_ExpectedSHA256 = [], rh_BeforeSHA256 = [], rh_AfterSHA256 = [], rh_AnchorBytes = 0 \<rparr>,
       pt_SymbolLocator = None \<rparr> \<rparr>"

lemma edit_at_order:
  "orderOperations [edit_at ''a'' ''f'' 3 [], edit_at ''b'' ''f'' 7 [''a'']]
     = Ok [edit_at ''b'' ''f'' 7 [''a''], edit_at ''a'' ''f'' 3 []]"
  by code_simp

lemma edit_at_cycle:
  "orderOperations [edit_at ''a'' ''f'' 3 [''b''], edit_at ''b'' ''g'' 7 [''a'']]
     = Error (PlainError ''operation dependency cycle'')"
  by code_simp


theorem orderOperations_succeeds_iff_witness:
  "\<not> (acyclic (set (operation_edges [edit_at ''a'' ''f'' 3 [''b''], edit_at ''b'' ''g'' 7 [''a'']])) \<and>
      fst ` set (operation_edges [edit_at ''a'' ''f'' 3 [''b''], edit_at ''b'' ''g'' 7 [''a'']]) \<subseteq> {''a'', ''b''})"
proof -
  let ?ops = "[edit_at ''a'' ''f'' 3 [''b''], edit_at ''b'' ''g'' 7 [''a'']]"
  have "distinct (map op_OpID ?ops)" by code_simp
  from orderOperations_succeeds_iff [OF this] edit_at_cycle show ?thesis
    by (simp add: edit_at_def)
qed

text \<open>
  Range edits of one file apply from its end toward its beginning, whatever was declared: in
  every order the code produces, the edit with the larger start comes first, so no edit shifts
  the offsets of one still to come.
\<close>

theorem orderOperations_edits_descend:
  assumes "distinct (map op_OpID ops)" "orderOperations ops = Ok ordered"
    and "left \<in> set ops" "right \<in> set ops"
    and "operationRange left = (path, s, True)" "operationRange right = (path, t, True)" "s < t"
  shows "list_before (op_OpID right) (op_OpID left) (map op_OpID ordered)"
proof -
  obtain i j where ij: "i < length ops" "ops ! i = left" "j < length ops" "ops ! j = right"
    using assms(3,4) by (auto simp: in_set_conv_nth)
  then have "i \<noteq> j" using assms(5-7) by auto
  moreover have "implicitEdge left right = Some (op_OpID right, op_OpID left)"
    using assms(5-7) by (simp add: implicitEdge_def)
  ultimately have "(op_OpID right, op_OpID left) \<in> set (implicit_edges ops)"
    using ij implicit_edges_iff by blast
  then have "(op_OpID right, op_OpID left) \<in> set (operation_edges ops)"
    by (simp add: operation_edges_def)
  with orderOperations_honours [OF assms(1,2)] show ?thesis by auto
qed

theorem orderOperations_edits_descend_witness:
  "operationRange (edit_at ''a'' ''f'' 3 []) = (''f'', 3, True) \<and>
   operationRange (edit_at ''b'' ''f'' 7 [''a'']) = (''f'', 7, True) \<and>
   list_before ''b'' ''a'' [''b'', ''a'']"
proof -
  let ?ops = "[edit_at ''a'' ''f'' 3 [], edit_at ''b'' ''f'' 7 [''a'']]"
  have d: "distinct (map op_OpID ?ops)" by code_simp
  have r: "operationRange (edit_at ''a'' ''f'' 3 []) = (''f'', 3, True)"
    "operationRange (edit_at ''b'' ''f'' 7 [''a'']) = (''f'', 7, True)"
    by (simp_all add: operationRange_def edit_at_def)
  have "list_before (op_OpID (edit_at ''b'' ''f'' 7 [''a''])) (op_OpID (edit_at ''a'' ''f'' 3 []))
      (map op_OpID [edit_at ''b'' ''f'' 7 [''a''], edit_at ''a'' ''f'' 3 []])"
    by (rule orderOperations_edits_descend [OF d edit_at_order _ _ r]) simp_all
  with r show ?thesis by (simp add: edit_at_def)
qed

end
