(* ===== verification/World.thy ===== *)
theory World
  imports Plan_Types
begin

text \<open>
  What an open workspace holds and touches, and the effects its code has on it.

  A \<open>world\<close> is the part of \<open>Workspace\<close> (\<^verbatim>\<open>internal/workspace/workspace.go\<close>) that plans, commits and
  recovery use, together with what outlives the process: the plan records, commit journals and
  native edit journals of the state directory and the canonical tree. Every call that can fail or be interrupted (a
  rename, a directory sync, the making of a directory, a call of the stager, a fault hook) takes
  one event of the script \<open>w_io\<close>: it takes effect, it fails without effect, or the process dies
  there without the effect. A process that dies right after an effect is a script whose next
  event is \<open>ICrash\<close>. Theorems quantify over every script, so they hold for every pattern of
  failures and every crash point.

  The state files are JSON encodings of records that are read back by the same code; the model
  keeps the records. \<open>w_resolve\<close> stands for \<open>confinedPath\<close> at the symbolic links the tree has, which
  a commit does not change under it.
\<close>

section \<open>Journals\<close>

datatype CommitJournalState =
    CommitJournalPrepared
  | CommitJournalApplying
  | CommitJournalCommitted
  | CommitJournalRecoveryRequired
  | CommitJournalRolledBack
  | CommitJournalOther string

datatype CommitPathProgress =
    CommitPathPending
  | CommitPathApplied
  | CommitPathRestored

record CommitJournalEntry =
  je_Path :: string
  je_Preimage :: bytes
  je_Postimage :: bytes
  je_Before :: DiskSnapshot
  je_After :: DiskSnapshot
  je_Progress :: CommitPathProgress

record CommitJournal =
  cj_WorkspaceID :: string
  cj_PlanID :: string
  cj_PlanRevision :: u64
  cj_PreparedRevision :: string
  cj_CompensatesPlanID :: string
  cj_CanonicalRevision :: string
  cj_State :: CommitJournalState
  cj_Entries :: "CommitJournalEntry list"
  cj_LastError :: "go_error option"
  cj_CreatedAt :: time
  cj_UpdatedAt :: time

text \<open>
  The journal of a native edit (\<open>journalRecord\<close> of \<^verbatim>\<open>text.go\<close>), with its images decoded. The file is
  written in place, so a process that dies in the write leaves one that does not decode.
\<close>

record journalRecord =
  jr_Version :: int
  jr_Path :: string
  jr_Mode :: u32
  jr_PreExists :: bool
  jr_PostExists :: bool
  jr_Preimage :: bytes
  jr_Postimage :: bytes

datatype native_journal = PartialJournal | CompleteJournal journalRecord

section \<open>The canonical tree\<close>

record node_meta =
  nm_Device :: u64
  nm_Inode :: u64
  nm_MTimeNS :: int
  nm_Mode :: u32

datatype fs_node =
    FileNode bytes node_meta
  | LinkNode string node_meta
  | DirNode node_meta
  | OtherNode node_meta

type_synonym tree = "string \<Rightarrow> fs_node option"

text \<open>\<open>utf8.Valid\<close>: the byte classes of the Unicode standard, table 3-7.\<close>

definition continuation_byte :: "char \<Rightarrow> bool" where
  "continuation_byte c = (let n = of_char c :: nat in 128 \<le> n \<and> n \<le> 191)"

fun utf8_valid :: "bytes \<Rightarrow> bool" where
  "utf8_valid [] = True"
| "utf8_valid (a # rest) =
     (let n = of_char a :: nat in
      if n < 128 then utf8_valid rest
      else if 194 \<le> n \<and> n \<le> 223 then
        (case rest of b # rest' \<Rightarrow> continuation_byte b \<and> utf8_valid rest' | _ \<Rightarrow> False)
      else if 224 \<le> n \<and> n \<le> 239 then
        (case rest of b # c # rest' \<Rightarrow>
           continuation_byte b \<and> (n = 224 \<longrightarrow> 160 \<le> (of_char b :: nat)) \<and>
           (n = 237 \<longrightarrow> (of_char b :: nat) \<le> 159) \<and> continuation_byte c \<and> utf8_valid rest'
         | _ \<Rightarrow> False)
      else if 240 \<le> n \<and> n \<le> 244 then
        (case rest of b # c # d # rest' \<Rightarrow>
           continuation_byte b \<and> (n = 240 \<longrightarrow> 144 \<le> (of_char b :: nat)) \<and>
           (n = 244 \<longrightarrow> (of_char b :: nat) \<le> 143) \<and> continuation_byte c \<and> continuation_byte d \<and>
           utf8_valid rest'
         | _ \<Rightarrow> False)
      else False)"

fun containsNUL :: "bytes \<Rightarrow> bool" where
  "containsNUL [] = False"
| "containsNUL (b # rest) = (of_char b = (0 :: nat) \<or> containsNUL rest)"

definition content_kind :: "bytes \<Rightarrow> ObjectKind" where
  "content_kind content =
     (if \<not> utf8_valid content \<or> containsNUL content then ObjectBinary else ObjectRegularText)"

lemma content_kind_cases:
  "content_kind content = ObjectRegularText \<or> content_kind content = ObjectBinary"
  by (simp add: content_kind_def)

lemma content_kind_not [simp]:
  "content_kind content \<noteq> ObjectMissing" "content_kind content \<noteq> ObjectSymlink"
  "content_kind content \<noteq> ObjectDirectory"
  by (simp_all add: content_kind_def)

lemmas content_kind_not_sym [simp] = content_kind_not [symmetric]

definition missing_snapshot :: DiskSnapshot where
  "missing_snapshot = \<lparr> ds_Kind = ObjectMissing, ds_Device = 0, ds_Inode = 0, ds_Size = 0,
     ds_MTimeNS = 0, ds_Mode = 0, ds_SymlinkTarget = [] \<rparr>"

definition diskSnapshot :: "node_meta \<Rightarrow> int \<Rightarrow> ObjectKind \<Rightarrow> string \<Rightarrow> DiskSnapshot" where
  "diskSnapshot meta bytes_size kind target = \<lparr> ds_Kind = kind, ds_Device = nm_Device meta,
     ds_Inode = nm_Inode meta, ds_Size = bytes_size, ds_MTimeNS = nm_MTimeNS meta, ds_Mode = nm_Mode meta,
     ds_SymlinkTarget = target \<rparr>"

text \<open>
  \<open>inspectPath\<close> on a tree that nobody changes between its two observations: the first attempt
  answers. A directory's size is not used by any caller and is left at zero.
\<close>

definition inspectPath :: "tree \<Rightarrow> string \<Rightarrow> (DiskSnapshot \<times> bytes) result" where
  "inspectPath files path =
     (case files path of
        None \<Rightarrow> Ok (missing_snapshot, [])
      | Some (LinkNode target meta) \<Rightarrow>
          Ok (diskSnapshot meta (int (length target)) ObjectSymlink target, target)
      | Some (DirNode meta) \<Rightarrow> Ok (diskSnapshot meta 0 ObjectDirectory [], [])
      | Some (FileNode content meta) \<Rightarrow>
          Ok (diskSnapshot meta (int (length content)) (content_kind content) [], content)
      | Some (OtherNode meta) \<Rightarrow> Error (PlainError ''unsupported filesystem object''))"

text \<open>Two objects that differ at most in inode, device and modification time.\<close>

fun same_object :: "fs_node option \<Rightarrow> fs_node option \<Rightarrow> bool" where
  "same_object None None = True"
| "same_object (Some (FileNode content meta)) (Some (FileNode content' meta')) =
     (content = content' \<and> nm_Mode meta = nm_Mode meta')"
| "same_object (Some (LinkNode target meta)) (Some (LinkNode target' meta')) =
     (target = target' \<and> nm_Mode meta = nm_Mode meta')"
| "same_object (Some (DirNode meta)) (Some (DirNode meta')) = (nm_Mode meta = nm_Mode meta')"
| "same_object (Some (OtherNode meta)) (Some (OtherNode meta')) = (nm_Mode meta = nm_Mode meta')"
| "same_object _ _ = False"

lemma same_object_refl [simp]: "same_object node node"
  by (cases node rule: option.exhaust; simp) (metis fs_node.exhaust same_object.simps(2-5))

section \<open>Worlds\<close>

datatype Kind = KindProject | KindDocuments | KindTransactionSandbox | KindOther string

record Identity =
  id_ID :: string
  id_Kind :: Kind
  id_Root :: string
  id_Epoch :: u64
  id_StateSeq :: u64

datatype io_event = IOk | IFail | ICrash

record world =
  w_identity :: Identity
  w_stateDir :: bool
  w_plans :: "(string \<times> PlanRecord) list"
  w_activePlans :: "string list"
  w_planRecords :: "(string \<times> PlanRecord) list"
  w_legacyPlans :: "PlanRecord list option"
  w_commitJournals :: "(string \<times> CommitJournal) list"
  w_native :: "(nat \<times> native_journal) list"
  w_files :: tree
  w_resolve :: "string \<Rightarrow> string result"
  w_now :: time
  w_ticks :: "time list"
  w_inode :: u64
  w_io :: "io_event list"

datatype 'a outcome = Done 'a | Fail go_error | Crashed

fun is_done :: "'a outcome \<Rightarrow> bool" where
  "is_done (Done x) = True"
| "is_done (Fail e) = False"
| "is_done Crashed = False"

type_synonym 'a io = "world \<Rightarrow> 'a outcome \<times> world"

definition io_return :: "'a \<Rightarrow> 'a io" where
  "io_return x w = (Done x, w)"

definition io_throw :: "go_error \<Rightarrow> 'a io" where
  "io_throw e w = (Fail e, w)"

definition io_bind :: "'a io \<Rightarrow> ('a \<Rightarrow> 'b io) \<Rightarrow> 'b io" where
  "io_bind m f w =
     (case m w of
        (Done x, w') \<Rightarrow> f x w'
      | (Fail e, w') \<Rightarrow> (Fail e, w')
      | (Crashed, w') \<Rightarrow> (Crashed, w'))"

text \<open>\<open>x, err := m\<close>: the caller goes on with the error in hand; only a crash ends it.\<close>

definition io_try :: "'a io \<Rightarrow> 'a result io" where
  "io_try m w =
     (case m w of
        (Done x, w') \<Rightarrow> (Done (Ok x), w')
      | (Fail e, w') \<Rightarrow> (Done (Error e), w')
      | (Crashed, w') \<Rightarrow> (Crashed, w'))"

definition io_get :: "(world \<Rightarrow> 'a) \<Rightarrow> 'a io" where
  "io_get f w = (Done (f w), w)"

definition io_update :: "(world \<Rightarrow> world) \<Rightarrow> unit io" where
  "io_update f w = (Done (), f w)"

fun io_lift :: "'a result \<Rightarrow> 'a io" where
  "io_lift (Inr x) = io_return x"
| "io_lift (Inl e) = io_throw e"

text \<open>One call into the environment.\<close>

definition io_call :: "unit io" where
  "io_call w =
     (case w_io w of
        [] \<Rightarrow> (Done (), w)
      | IOk # rest \<Rightarrow> (Done (), w\<lparr>w_io := rest\<rparr>)
      | IFail # rest \<Rightarrow> (Fail (PlainError ''i/o error''), w\<lparr>w_io := rest\<rparr>)
      | ICrash # rest \<Rightarrow> (Crashed, w\<lparr>w_io := rest\<rparr>))"

text \<open>\<open>time.Now\<close>: the clock is read and then moves by the next tick, which is never negative.\<close>

definition tick :: "world \<Rightarrow> world" where
  "tick w = w\<lparr>w_now := w_now w + (case w_ticks w of [] \<Rightarrow> 0 | d # _ \<Rightarrow> max 0 d), w_ticks := tl (w_ticks w)\<rparr>"

definition io_now :: "time io" where
  "io_now w = (Done (w_now w), tick w)"

lemma tick_fields [simp]:
  "w_identity (tick w) = w_identity w" "w_stateDir (tick w) = w_stateDir w" "w_plans (tick w) = w_plans w"
  "w_activePlans (tick w) = w_activePlans w" "w_planRecords (tick w) = w_planRecords w"
  "w_legacyPlans (tick w) = w_legacyPlans w" "w_commitJournals (tick w) = w_commitJournals w" "w_native (tick w) = w_native w"
  "w_files (tick w) = w_files w" "w_resolve (tick w) = w_resolve w" "w_inode (tick w) = w_inode w"
  "w_io (tick w) = w_io w"
  by (simp_all add: tick_def)

lemmas io_defs = io_return_def io_throw_def io_bind_def io_try_def io_get_def io_update_def

section \<open>File operations\<close>

definition commitModeMask :: u32 where
  "commitModeMask = 0x00D001FF"

definition permMask :: u32 where
  "permMask = 0x1FF"

definition new_meta :: "u32 \<Rightarrow> world \<Rightarrow> node_meta" where
  "new_meta mode w = \<lparr> nm_Device = 1, nm_Inode = w_inode w, nm_MTimeNS = w_now w, nm_Mode = mode \<rparr>"

definition put_node :: "string \<Rightarrow> (node_meta \<Rightarrow> fs_node) \<Rightarrow> u32 \<Rightarrow> world \<Rightarrow> world" where
  "put_node path mk mode w =
     w\<lparr>w_files := (w_files w)(path := Some (mk (new_meta mode w))), w_inode := w_inode w + 1\<rparr>"

definition clobberRefusal :: go_error where
  "clobberRefusal = Codedf CodeCommitPreconditionChanged ''path was created by another writer during the commit window''"

fun is_directory :: "fs_node option \<Rightarrow> bool" where
  "is_directory (Some (DirNode _)) = True"
| "is_directory _ = False"

text \<open>
  \<open>writeTempAndRename\<close> is one effect, the rename: everything before it touches only the temporary
  file, which is removed on failure. A rename never replaces a directory.
\<close>

definition writeTempAndRename :: "string \<Rightarrow> bytes \<Rightarrow> u32 \<Rightarrow> bool \<Rightarrow> unit io" where
  "writeTempAndRename path content mode replace =
     io_bind io_call (\<lambda>_. io_bind (io_get w_files) (\<lambda>files.
       if \<not> replace \<and> files path \<noteq> None then io_throw clobberRefusal
       else if is_directory (files path) then io_throw (PlainError ''is a directory'')
       else io_update (put_node path (FileNode content) mode)))"

definition syncDirectory :: "unit io" where
  "syncDirectory = io_call"

definition MkdirAll :: "unit io" where
  "MkdirAll = io_call"

definition atomicWriteFile :: "string \<Rightarrow> bytes \<Rightarrow> u32 \<Rightarrow> unit io" where
  "atomicWriteFile path content mode =
     io_bind (writeTempAndRename path content (and mode permMask) True) (\<lambda>_. syncDirectory)"

text \<open>\<open>os.Remove\<close>: \<open>Done False\<close> is the error \<open>os.ErrNotExist\<close>.\<close>

definition os_Remove :: "string \<Rightarrow> bool io" where
  "os_Remove path =
     io_bind io_call (\<lambda>_. io_bind (io_get w_files) (\<lambda>files.
       if is_directory (files path) then io_throw (PlainError ''directory not empty'')
       else io_bind (io_update (\<lambda>w. w\<lparr>w_files := (w_files w)(path := None)\<rparr>))
              (\<lambda>_. io_return (files path \<noteq> None))))"

text \<open>The mode of a new symbolic link: all permissions and the type bit.\<close>

definition symlinkMode :: u32 where
  "symlinkMode = 0x080001FF"

definition commitWrite :: "string \<Rightarrow> bytes \<Rightarrow> u32 \<Rightarrow> bool \<Rightarrow> unit io" where
  "commitWrite path content mode replace = writeTempAndRename path content (and mode commitModeMask) replace"

definition atomicSymlink :: "string \<Rightarrow> string \<Rightarrow> unit io" where
  "atomicSymlink path target =
     io_bind io_call (\<lambda>_. io_bind (io_get w_files) (\<lambda>files.
       if is_directory (files path) then io_throw (PlainError ''is a directory'')
       else io_update (put_node path (LinkNode target) symlinkMode)))"

definition commitSymlink :: "string \<Rightarrow> string \<Rightarrow> bool \<Rightarrow> unit io" where
  "commitSymlink path target replace =
     (if replace then atomicSymlink path target
      else io_bind io_call (\<lambda>_. io_bind (io_get w_files) (\<lambda>files.
             if files path \<noteq> None then io_throw clobberRefusal
             else io_update (put_node path (LinkNode target) symlinkMode))))"

section \<open>Reasoning about effects\<close>

text \<open>
  \<open>io_wp m Q w\<close>: running \<open>m\<close> from \<open>w\<close> ends in an outcome and a world that satisfy \<open>Q\<close>. The outcome
  may be a crash, so \<open>Q\<close> also says what a crash leaves behind.
\<close>

definition io_wp :: "'a io \<Rightarrow> ('a outcome \<Rightarrow> world \<Rightarrow> bool) \<Rightarrow> world \<Rightarrow> bool" where
  "io_wp m Q w = (case m w of (r, w') \<Rightarrow> Q r w')"

lemma wp_return [simp]: "io_wp (io_return x) Q w = Q (Done x) w"
  by (simp add: io_wp_def io_return_def)

lemma wp_throw [simp]: "io_wp (io_throw e) Q w = Q (Fail e) w"
  by (simp add: io_wp_def io_throw_def)

lemma wp_get [simp]: "io_wp (io_get f) Q w = Q (Done (f w)) w"
  by (simp add: io_wp_def io_get_def)

lemma wp_update [simp]: "io_wp (io_update f) Q w = Q (Done ()) (f w)"
  by (simp add: io_wp_def io_update_def)

lemma wp_now [simp]: "io_wp io_now Q w = Q (Done (w_now w)) (tick w)"
  by (simp add: io_wp_def io_now_def)

lemma wp_lift [simp]: "io_wp (io_lift r) Q w = (case r of Inl e \<Rightarrow> Q (Fail e) w | Inr x \<Rightarrow> Q (Done x) w)"
  by (cases r) simp_all

lemma wp_bind [simp]:
  "io_wp (io_bind m f) Q w =
     io_wp m (\<lambda>r w'. case r of Done x \<Rightarrow> io_wp (f x) Q w' | Fail e \<Rightarrow> Q (Fail e) w' | Crashed \<Rightarrow> Q Crashed w') w"
  by (simp add: io_wp_def io_bind_def split: prod.splits outcome.splits)

lemma wp_try [simp]:
  "io_wp (io_try m) Q w =
     io_wp m (\<lambda>r w'. case r of Done x \<Rightarrow> Q (Done (Ok x)) w' | Fail e \<Rightarrow> Q (Done (Error e)) w' | Crashed \<Rightarrow> Q Crashed w') w"
  by (simp add: io_wp_def io_try_def split: prod.splits outcome.splits)

lemma wp_if [simp]: "io_wp (if b then m else m') Q w = (if b then io_wp m Q w else io_wp m' Q w)"
  by simp

lemma wp_mono:
  assumes "io_wp m P w" "\<And>r w'. P r w' \<Longrightarrow> Q r w'"
  shows "io_wp m Q w"
  using assms by (auto simp: io_wp_def split: prod.splits)

lemma wp_bindI:
  assumes "io_wp m P w" "\<And>x w'. P (Done x) w' \<Longrightarrow> io_wp (f x) Q w'"
    and "\<And>e w'. P (Fail e) w' \<Longrightarrow> Q (Fail e) w'" "\<And>w'. P Crashed w' \<Longrightarrow> Q Crashed w'"
  shows "io_wp (io_bind m f) Q w"
  unfolding wp_bind using assms(1) by (rule wp_mono) (auto intro: assms(2-4) split: outcome.split)

lemma wp_tryI:
  assumes "io_wp m P w" "\<And>x w'. P (Done x) w' \<Longrightarrow> Q (Done (Ok x)) w'"
    and "\<And>e w'. P (Fail e) w' \<Longrightarrow> Q (Done (Error e)) w'" "\<And>w'. P Crashed w' \<Longrightarrow> Q Crashed w'"
  shows "io_wp (io_try m) Q w"
  unfolding wp_try using assms(1) by (rule wp_mono) (auto intro: assms(2-4) split: outcome.split)

lemma wp_bind_get: "io_wp (io_bind (io_get f) g) Q w = io_wp (g (f w)) Q w"
  by simp

lemma wp_bind_update: "io_wp (io_bind (io_update f) g) Q w = io_wp (g ()) Q (f w)"
  by simp

lemma wp_bind_now: "io_wp (io_bind io_now g) Q w = io_wp (g (w_now w)) Q (tick w)"
  by simp

lemmas wp_step = wp_bind_get wp_bind_update wp_bind_now wp_return wp_throw

lemma wp_conj: "io_wp m P w \<Longrightarrow> io_wp m Q w \<Longrightarrow> io_wp m (\<lambda>r w'. P r w' \<and> Q r w') w"
  by (auto simp: io_wp_def)

lemma wp_result: "io_wp m Q w \<Longrightarrow> m w = (r, w') \<Longrightarrow> Q r w'"
  by (simp add: io_wp_def)

text \<open>
  A frame is a relation between worlds that every step of a computation keeps, whatever its
  outcome. The closure rules are proved once for every reflexive and transitive relation.
\<close>

locale frame =
  fixes R :: "world \<Rightarrow> world \<Rightarrow> bool"
  assumes frame_refl [simp]: "R w w"
    and frame_trans: "R w w' \<Longrightarrow> R w' w'' \<Longrightarrow> R w w''"
begin

definition keeps :: "'a io \<Rightarrow> bool" where
  "keeps m = (\<forall>w. R w (snd (m w)))"

lemma keeps_return [intro, simp]: "keeps (io_return x)"
  by (simp add: keeps_def io_return_def)

lemma keeps_throw [intro, simp]: "keeps (io_throw e)"
  by (simp add: keeps_def io_throw_def)

lemma keeps_get [intro, simp]: "keeps (io_get f)"
  by (simp add: keeps_def io_get_def)

lemma keeps_lift [intro, simp]: "keeps (io_lift r)"
  by (cases r) auto

lemma keeps_update: "(\<And>w. R w (f w)) \<Longrightarrow> keeps (io_update f)"
  by (simp add: keeps_def io_update_def)

lemma keeps_bind [intro]: "keeps m \<Longrightarrow> (\<And>x. keeps (f x)) \<Longrightarrow> keeps (io_bind m f)"
  by (auto simp: keeps_def io_bind_def split: prod.splits outcome.splits)
    (metis frame_trans snd_conv)+

lemma keeps_try [intro]: "keeps m \<Longrightarrow> keeps (io_try m)"
  by (auto simp: keeps_def io_try_def split: prod.splits outcome.splits) (metis snd_conv)+

lemma keeps_if [intro]: "(b \<Longrightarrow> keeps m) \<Longrightarrow> (\<not> b \<Longrightarrow> keeps m') \<Longrightarrow> keeps (if b then m else m')"
  by simp

lemma keeps_option [intro]: "keeps m \<Longrightarrow> (\<And>x. keeps (f x)) \<Longrightarrow> keeps (case_option m f found)"
  by (cases found) auto

lemma keeps_sum [intro]: "(\<And>e. keeps (f e)) \<Longrightarrow> (\<And>x. keeps (g x)) \<Longrightarrow> keeps (case_sum f g r)"
  by (cases r) auto

lemma keeps_prod [intro]: "(\<And>x y. keeps (f x y)) \<Longrightarrow> keeps (case_prod f p)"
  by (cases p) auto

lemma keeps_Let [intro]: "(\<And>x. keeps (f x)) \<Longrightarrow> keeps (Let x f)"
  by simp

lemmas keeps_rules = keeps_bind keeps_try keeps_if keeps_option keeps_sum keeps_prod keeps_Let
  keeps_return keeps_throw keeps_get keeps_lift

lemma keepsD: "keeps m \<Longrightarrow> m w = (r, w') \<Longrightarrow> R w w'"
  by (metis keeps_def snd_conv)

lemma keeps_wp: "keeps m \<Longrightarrow> (\<And>r w'. R w w' \<Longrightarrow> Q r w') \<Longrightarrow> io_wp m Q w"
  by (simp add: io_wp_def keeps_def case_prod_beta)

lemma keepsI: "(\<And>w. io_wp m (\<lambda>_. R w) w) \<Longrightarrow> keeps m"
  by (simp add: io_wp_def keeps_def case_prod_beta)

end

text \<open>Keeping an invariant is the frame of an implication.\<close>

interpretation inv: frame "\<lambda>w w'. P w \<longrightarrow> P w'" for P
  by unfold_locales auto

lemma inv_wp: "inv.keeps P m \<Longrightarrow> P w \<Longrightarrow> io_wp m (\<lambda>_. P) w"
  by (rule inv.keeps_wp) auto

lemma io_call_cases:
  "io_wp io_call Q w \<longleftrightarrow>
     (case w_io w of
        [] \<Rightarrow> Q (Done ()) w
      | IOk # rest \<Rightarrow> Q (Done ()) (w\<lparr>w_io := rest\<rparr>)
      | IFail # rest \<Rightarrow> Q (Fail (PlainError ''i/o error'')) (w\<lparr>w_io := rest\<rparr>)
      | ICrash # rest \<Rightarrow> Q Crashed (w\<lparr>w_io := rest\<rparr>))"
  by (simp add: io_wp_def io_call_def split: list.splits io_event.splits)

text \<open>A small world to evaluate the model on.\<close>

definition sample_world :: "(string \<times> PlanRecord) list \<Rightarrow> (string \<times> fs_node) list \<Rightarrow> io_event list \<Rightarrow> world" where
  "sample_world plans files script = \<lparr> w_identity = \<lparr> id_ID = ''ws'', id_Kind = KindProject, id_Root = ''/r'',
       id_Epoch = 1, id_StateSeq = 1 \<rparr>,
     w_stateDir = True, w_plans = plans, w_activePlans = [], w_planRecords = plans, w_legacyPlans = None,
     w_commitJournals = [], w_native = [], w_files = map_of files, w_resolve = Ok, w_now = 10, w_ticks = [], w_inode = 7,
     w_io = script \<rparr>"

definition sample_meta :: node_meta where
  "sample_meta = \<lparr> nm_Device = 1, nm_Inode = 3, nm_MTimeNS = 4, nm_Mode = 0x1A4 \<rparr>"

end
