(* ===== verification/Plan_State.thy ===== *)
theory Plan_State
  imports Plan_Types
begin

text \<open>
  The life cycle of one plan record (\<^verbatim>\<open>internal/workspace/plan.go\<close>, \<^verbatim>\<open>plan_expiry.go\<close>,
  \<^verbatim>\<open>plan_recovery.go\<close>, \<^verbatim>\<open>pending.go\<close>): the transition table, the bounded event log, compaction, and
  the predicates retention and expiry decide by.
\<close>

section \<open>The transition table\<close>

fun planTransitions :: "PlanState \<Rightarrow> PlanState list" where
  "planTransitions PlanOpen = [PlanOpen, PlanPreviewed, PlanPreparing, PlanDiscarded, PlanExpired]"
| "planTransitions PlanPreviewed = [PlanOpen, PlanPreviewed, PlanPreparing, PlanDiscarded, PlanExpired]"
| "planTransitions PlanPreparing = [PlanConflicted, PlanFailed, PlanProvisional, PlanReady]"
| "planTransitions PlanConflicted = [PlanOpen, PlanPreparing, PlanRollingBack, PlanDiscarded]"
| "planTransitions PlanFailed = [PlanOpen, PlanPreparing, PlanRollingBack, PlanDiscarded, PlanExpired]"
| "planTransitions PlanProvisional = [PlanCommitting, PlanRollingBack, PlanFailed, PlanConflicted, PlanExpired]"
| "planTransitions PlanReady = [PlanCommitting, PlanRollingBack, PlanFailed, PlanConflicted, PlanExpired]"
| "planTransitions PlanCommitting = [PlanCommitted, PlanRecoveryRequired, PlanConflicted, PlanFailed]"
| "planTransitions PlanRollingBack = [PlanRolledBack, PlanFailed, PlanOpen]"
| "planTransitions PlanRecoveryRequired = [PlanRolledBack, PlanCommitted]"
| "planTransitions PlanCommitted = []"
| "planTransitions PlanRolledBack = []"
| "planTransitions PlanDiscarded = []"
| "planTransitions PlanExpired = [PlanOpen, PlanPreparing, PlanDiscarded]"
| "planTransitions (PlanOther _) = []"

definition canTransition :: "PlanState \<Rightarrow> PlanState \<Rightarrow> bool" where
  "canTransition from to = (to \<in> set (planTransitions from))"

definition illegalTransition :: go_error where
  "illegalTransition = Codedf CodePlanStateInvalid ''plan cannot move between these states''"

fun planTerminal :: "PlanState \<Rightarrow> bool" where
  "planTerminal PlanCommitted = True"
| "planTerminal PlanRolledBack = True"
| "planTerminal PlanDiscarded = True"
| "planTerminal PlanExpired = True"
| "planTerminal PlanFailed = True"
| "planTerminal PlanConflicted = True"
| "planTerminal _ = False"

fun planHoldsWork :: "PlanState \<Rightarrow> bool" where
  "planHoldsWork PlanPreparing = True"
| "planHoldsWork PlanProvisional = True"
| "planHoldsWork PlanReady = True"
| "planHoldsWork PlanCommitting = True"
| "planHoldsWork PlanRecoveryRequired = True"
| "planHoldsWork PlanRollingBack = True"
| "planHoldsWork _ = False"

section \<open>Events\<close>

definition planEventsHead :: nat where
  "planEventsHead = 8"

definition planEventsTail :: nat where
  "planEventsTail = 56"

definition recordPlanEventAt :: "string \<Rightarrow> string \<Rightarrow> time \<Rightarrow> PlanRecord \<Rightarrow> PlanRecord" where
  "recordPlanEventAt action outcome at plan =
     (let events = pr_Events plan @ [\<lparr> ev_Action = action, ev_PlanRevision = pr_PlanRevision plan,
                                       ev_Outcome = outcome, ev_At = at \<rparr>];
          excess = int (length events) - int (planEventsHead + planEventsTail)
      in if excess > 0
         then plan\<lparr> pr_UpdatedAt := at,
                pr_Events := take planEventsHead events @ drop (planEventsHead + nat excess) events,
                pr_DroppedEvents := pr_DroppedEvents plan + nat excess \<rparr>
         else plan\<lparr> pr_UpdatedAt := at, pr_Events := events \<rparr>)"

text \<open>The two searches below walk the log from its newest event.\<close>

fun restart_restored_in :: "PlanEvent list \<Rightarrow> bool" where
  "restart_restored_in [] = False"
| "restart_restored_in (event # older) =
     (if ev_Action event = ''provider_restart_restore'' \<and>
         ev_Outcome event = ''provider_buffers_discarded_reprepare_available'' then True
      else if ev_Action event = ''prepare'' \<or> ev_Action event = ''prepare_failed'' then False
      else restart_restored_in older)"

definition restartRestored :: "PlanRecord \<Rightarrow> bool" where
  "restartRestored plan = restart_restored_in (rev (pr_Events plan))"

fun last_activity_in :: "PlanEvent list \<Rightarrow> time \<Rightarrow> time" where
  "last_activity_in [] updated = updated"
| "last_activity_in (event # older) updated =
     (if ev_Action event \<noteq> ''provider_restart_restore'' then ev_At event
      else last_activity_in older updated)"

definition planLastActivity :: "PlanRecord \<Rightarrow> time" where
  "planLastActivity plan = last_activity_in (rev (pr_Events plan)) (pr_UpdatedAt plan)"

fun planExpirable :: "PlanRecord \<Rightarrow> bool" where
  "planExpirable plan =
     (case pr_State plan of
        PlanOpen \<Rightarrow> True
      | PlanPreviewed \<Rightarrow> True
      | PlanReady \<Rightarrow> True
      | PlanProvisional \<Rightarrow> True
      | PlanFailed \<Rightarrow> pr_Preparation plan \<noteq> None \<and> restartRestored plan
      | _ \<Rightarrow> False)"

section \<open>Compaction\<close>

definition compact_operation :: "PlanOperation \<Rightarrow> PlanOperation" where
  "compact_operation operation = operation\<lparr> op_Content := [], op_Target := None, op_DependsOn := [] \<rparr>"

definition compact_preparation :: "PlanPreparation \<Rightarrow> PlanPreparation" where
  "compact_preparation p = empty_preparation\<lparr>
     pp_PreparedRevision := pp_PreparedRevision p, pp_ProviderEpoch := pp_ProviderEpoch p,
     pp_AffectedFiles := pp_AffectedFiles p, pp_CanonicalChanged := pp_CanonicalChanged p,
     pp_CanonicalRevision := pp_CanonicalRevision p, pp_JournalID := pp_JournalID p,
     pp_Diagnostics := pp_Diagnostics p, pp_DiskChecks := pp_DiskChecks p,
     pp_BaseRevision := pp_BaseRevision p, pp_CanonicalFromRevision := pp_CanonicalFromRevision p,
     pp_ProvisionalAccepted := pp_ProvisionalAccepted p \<rparr>"

definition compactPlan :: "PlanRecord \<Rightarrow> PlanRecord" where
  "compactPlan plan = plan\<lparr> pr_Operations := map compact_operation (pr_Operations plan),
     pr_Preview := None, pr_Preparation := map_option compact_preparation (pr_Preparation plan),
     pr_Compacted := True \<rparr>"

section \<open>The life cycle as a transition system\<close>

text \<open>
  The contract of a guarded transition table: states it marks final have no way out, and every
  state the guard calls busy can leave. What follows for a client is that a run, once final,
  stays where it is, and that what a run reaches is reachable in the table.
\<close>

locale transition_table =
  fixes edges :: "'s \<Rightarrow> 's list"
    and final :: "'s \<Rightarrow> bool"
  assumes final_stuck: "final s \<Longrightarrow> edges s = []"
begin

inductive run :: "'s \<Rightarrow> 's list \<Rightarrow> 's \<Rightarrow> bool" where
  run_Nil: "run s [] s"
| run_Cons: "s' \<in> set (edges s) \<Longrightarrow> run s' path s'' \<Longrightarrow> run s (s' # path) s''"

lemma run_append: "run s xs s' \<Longrightarrow> run s' ys s'' \<Longrightarrow> run s (xs @ ys) s''"
  by (induction rule: run.induct) (auto intro: run.intros)

lemma run_from_final: "run s path s' \<Longrightarrow> final s \<Longrightarrow> path = [] \<and> s' = s"
  by (induction rule: run.induct) (auto dest: final_stuck)

text \<open>A run that leaves a set of states leaves it through one of its exits.\<close>

lemma run_meets:
  assumes "run s path s'" "s \<in> B" "s' \<notin> B" "\<forall>x \<in> B. set (edges x) \<subseteq> B \<union> A"
  shows "set path \<inter> A \<noteq> {}"
  using assms by (induction rule: run.induct) auto

end

definition planFinal :: "PlanState \<Rightarrow> bool" where
  "planFinal s = (s = PlanCommitted \<or> s = PlanRolledBack \<or> s = PlanDiscarded)"

interpretation plan_table: transition_table planTransitions planFinal
  by unfold_locales (auto simp: planFinal_def)

lemma canTransition_self: "canTransition s s \<longleftrightarrow> s = PlanOpen \<or> s = PlanPreviewed"
  by (cases s) (auto simp: canTransition_def)

lemma canTransition_to_committed:
  "canTransition s PlanCommitted \<longleftrightarrow> s = PlanCommitting \<or> s = PlanRecoveryRequired"
  by (cases s) (auto simp: canTransition_def)

lemma canTransition_to_committing:
  "canTransition s PlanCommitting \<longleftrightarrow> s = PlanReady \<or> s = PlanProvisional"
  by (cases s) (auto simp: canTransition_def)

lemma canTransition_to_prepared:
  "canTransition s PlanReady \<or> canTransition s PlanProvisional \<longleftrightarrow> s = PlanPreparing"
  by (cases s) (auto simp: canTransition_def)



section \<open>The event log is bounded\<close>

lemma recordPlanEventAt_bounded:
  assumes "length (pr_Events plan) \<le> planEventsHead + planEventsTail"
  shows "length (pr_Events (recordPlanEventAt action outcome at plan)) \<le> planEventsHead + planEventsTail"
  using assms by (auto simp: recordPlanEventAt_def Let_def planEventsHead_def planEventsTail_def)

interpretation event_log: bounded_store
  "\<lambda>plan. length (pr_Events plan)" "\<lambda>(action, outcome, at). recordPlanEventAt action outcome at" "planEventsHead + planEventsTail"
  by unfold_locales (auto intro: recordPlanEventAt_bounded split: prod.splits)

text \<open>What one more event leaves alone and what it counts.\<close>

lemma recordPlanEventAt_fields [simp]:
  "pr_PlanID (recordPlanEventAt a b t plan) = pr_PlanID plan"
  "pr_WorkspaceID (recordPlanEventAt a b t plan) = pr_WorkspaceID plan"
  "pr_State (recordPlanEventAt a b t plan) = pr_State plan"
  "pr_PlanRevision (recordPlanEventAt a b t plan) = pr_PlanRevision plan"
  "pr_Operations (recordPlanEventAt a b t plan) = pr_Operations plan"
  "pr_Invariants (recordPlanEventAt a b t plan) = pr_Invariants plan"
  "pr_Preview (recordPlanEventAt a b t plan) = pr_Preview plan"
  "pr_Preparation (recordPlanEventAt a b t plan) = pr_Preparation plan"
  "pr_Conflict (recordPlanEventAt a b t plan) = pr_Conflict plan"
  "pr_Compacted (recordPlanEventAt a b t plan) = pr_Compacted plan"
  "pr_UpdatedAt (recordPlanEventAt a b t plan) = t"
  "pr_Events (recordPlanEventAt a b t plan) \<noteq> []"
  by (auto simp: recordPlanEventAt_def Let_def planEventsHead_def planEventsTail_def)

lemma recordPlanEventAt_counts:
  assumes "length (pr_Events plan) \<le> planEventsHead + planEventsTail"
  shows "length (pr_Events (recordPlanEventAt a b t plan)) + pr_DroppedEvents (recordPlanEventAt a b t plan)
         = Suc (length (pr_Events plan) + pr_DroppedEvents plan)"
  using assms by (simp add: recordPlanEventAt_def Let_def planEventsHead_def planEventsTail_def)

lemma recordPlanEventAt_last:
  assumes "length (pr_Events plan) \<le> planEventsHead + planEventsTail"
  shows "last (pr_Events (recordPlanEventAt a b t plan))
           = \<lparr> ev_Action = a, ev_PlanRevision = pr_PlanRevision plan, ev_Outcome = b, ev_At = t \<rparr>"
  using assms by (auto simp: recordPlanEventAt_def Let_def planEventsHead_def planEventsTail_def)

lemma recordPlanEventAt_head:
  assumes "planEventsHead \<le> length (pr_Events plan)"
  shows "take planEventsHead (pr_Events (recordPlanEventAt a b t plan)) = take planEventsHead (pr_Events plan)"
  using assms by (simp add: recordPlanEventAt_def Let_def planEventsHead_def planEventsTail_def)

definition record_events :: "(string \<times> string \<times> time) list \<Rightarrow> PlanRecord \<Rightarrow> PlanRecord" where
  "record_events events plan = fold (\<lambda>(action, outcome, at). recordPlanEventAt action outcome at) events plan"

lemma record_events_counts:
  assumes "length (pr_Events plan) \<le> planEventsHead + planEventsTail"
  shows "length (pr_Events (record_events events plan)) + pr_DroppedEvents (record_events events plan)
         = length events + length (pr_Events plan) + pr_DroppedEvents plan"
  using assms
proof (induction events arbitrary: plan)
  case (Cons e events)
  obtain a b t where e: "e = (a, b, t)" by (cases e)
  have "length (pr_Events (recordPlanEventAt a b t plan)) \<le> planEventsHead + planEventsTail"
    using Cons.prems by (rule recordPlanEventAt_bounded)
  from Cons.IH [OF this] recordPlanEventAt_counts [OF Cons.prems, of a b t] show ?case
    by (simp add: record_events_def e)
qed (simp add: record_events_def)

lemma record_events_head:
  assumes "planEventsHead \<le> length (pr_Events plan)"
  shows "take planEventsHead (pr_Events (record_events events plan)) = take planEventsHead (pr_Events plan)"
  using assms
proof (induction events arbitrary: plan)
  case (Cons e events)
  obtain a b t where e: "e = (a, b, t)" by (cases e)
  have "planEventsHead \<le> length (pr_Events (recordPlanEventAt a b t plan))"
    using Cons.prems by (auto simp: recordPlanEventAt_def Let_def planEventsHead_def planEventsTail_def)
  from Cons.IH [OF this] recordPlanEventAt_head [OF Cons.prems, of a b t] show ?case
    by (simp add: record_events_def e)
qed (simp add: record_events_def)

text \<open>
  Whatever happens to a plan, its event log holds at most 64 events, the first eight it ever
  had stay, and no event disappears uncounted: kept and dropped events together are all that
  were recorded.
\<close>

theorem plan_events_bounded:
  assumes "planEventsHead \<le> length (pr_Events plan)" "length (pr_Events plan) \<le> planEventsHead + planEventsTail"
  shows "length (pr_Events (record_events events plan)) \<le> 64 \<and>
         take 8 (pr_Events (record_events events plan)) = take 8 (pr_Events plan) \<and>
         length (pr_Events (record_events events plan)) + pr_DroppedEvents (record_events events plan)
           = length events + length (pr_Events plan) + pr_DroppedEvents plan"
  using event_log.all_adds_bounded [OF assms(2), of events] record_events_head [OF assms(1), of events]
    record_events_counts [OF assms(2), of events]
  by (simp add: record_events_def planEventsHead_def planEventsTail_def)

definition sample_plan :: "PlanState \<Rightarrow> PlanRecord" where
  "sample_plan state = \<lparr> pr_PlanID = ''plan_1'', pr_WorkspaceID = ''ws'', pr_State = state, pr_PlanRevision = 1,
     pr_BaseStateSeq = 1, pr_Operations = [], pr_Invariants = [], pr_Preview = None, pr_Preparation = None,
     pr_Conflict = None,
     pr_Events = replicate 8 \<lparr> ev_Action = ''edit'', ev_PlanRevision = 1, ev_Outcome = ''ok'', ev_At = 5 \<rparr>,
     pr_DroppedEvents = 0, pr_Compacted = False, pr_CreatedAt = 0, pr_UpdatedAt = 5 \<rparr>"

theorem plan_events_bounded_witness:
  "length (pr_Events (record_events (replicate 100 (''edit'', ''ok'', 7)) (sample_plan PlanOpen))) \<le> 64 \<and>
   length (pr_Events (record_events (replicate 100 (''edit'', ''ok'', 7)) (sample_plan PlanOpen)))
     + pr_DroppedEvents (record_events (replicate 100 (''edit'', ''ok'', 7)) (sample_plan PlanOpen)) = 108"
  using plan_events_bounded [of "sample_plan PlanOpen" "replicate 100 (''edit'', ''ok'', 7)"]
  by (simp add: sample_plan_def planEventsHead_def planEventsTail_def)

section \<open>Compaction keeps what retention promises\<close>

lemma compact_preparation_idem: "compact_preparation (compact_preparation p) = compact_preparation p"
  by (simp add: compact_preparation_def empty_preparation_def)

lemma compactPlan_fields [simp]:
  "pr_PlanID (compactPlan plan) = pr_PlanID plan"
  "pr_WorkspaceID (compactPlan plan) = pr_WorkspaceID plan"
  "pr_State (compactPlan plan) = pr_State plan"
  "pr_PlanRevision (compactPlan plan) = pr_PlanRevision plan"
  "pr_UpdatedAt (compactPlan plan) = pr_UpdatedAt plan"
  "pr_Events (compactPlan plan) = pr_Events plan"
  "pr_Conflict (compactPlan plan) = pr_Conflict plan"
  "pr_Compacted (compactPlan plan)"
  by (simp_all add: compactPlan_def)

lemma compactPlan_idem: "compactPlan (compactPlan plan) = compactPlan plan"
  by (cases "pr_Preparation plan")
    (simp_all add: compactPlan_def compact_operation_def compact_preparation_idem)

lemma planExpirable_state:
  "planExpirable plan \<Longrightarrow> canTransition (pr_State plan) PlanExpired"
  by (auto simp: canTransition_def split: PlanState.splits)

lemma planExpirable_not_terminal_or_failed:
  "planExpirable plan \<Longrightarrow> \<not> planTerminal (pr_State plan) \<or> pr_State plan = PlanFailed"
  by (auto split: PlanState.splits)

end
