(* ===== verification/Plan_Invariants.thy ===== *)
theory Plan_Invariants
  imports Plan_State
begin

text \<open>
  Declared invariants and the evidence a commit is gated on
  (\<^verbatim>\<open>internal/workspace/invariant.go\<close>, the gap functions of \<^verbatim>\<open>prepare.go\<close> and
  \<open>acceptProvisionalGaps\<close> of \<^verbatim>\<open>commit.go\<close>). A refusal's text is kept to its
  constant part, and the quotes \<^verbatim>\<open>%q\<close> puts around a coverage name are left out.
\<close>

section \<open>Declaring\<close>

definition planInvariantLimit :: nat where
  "planInvariantLimit = 16"

fun invariant_kind_text :: "InvariantKind \<Rightarrow> string" where
  "invariant_kind_text InvariantNoNewDiagnostics = ''no_new_diagnostics''"
| "invariant_kind_text InvariantTestsPass = ''tests_pass''"
| "invariant_kind_text InvariantNoReferences = ''no_references''"
| "invariant_kind_text InvariantSymbolExists = ''symbol_exists''"
| "invariant_kind_text InvariantSymbolAbsent = ''symbol_absent''"
| "invariant_kind_text InvariantAPICompatible = ''api_compatible''"
| "invariant_kind_text (InvariantKindOther text) = text"

fun invariant_status_text :: "InvariantStatus \<Rightarrow> string" where
  "invariant_status_text InvariantPending = ''pending''"
| "invariant_status_text InvariantProven = ''proven''"
| "invariant_status_text InvariantViolated = ''violated''"
| "invariant_status_text InvariantUnknown = ''unknown''"

definition validateInvariantScope :: "PlanInvariant \<Rightarrow> go_error option" where
  "validateInvariantScope invariant =
     (case iv_Kind invariant of
        InvariantNoNewDiagnostics \<Rightarrow> None
      | InvariantTestsPass \<Rightarrow> None
      | InvariantAPICompatible \<Rightarrow> None
      | InvariantKindOther _ \<Rightarrow> Some (Codedf CodePlanValidationConflicts ''invariant has unknown kind'')
      | _ \<Rightarrow>
          (case is_Symbol (iv_Scope invariant) of
             None \<Rightarrow> Some (Codedf CodePlanValidationConflicts ''invariant needs scope.symbol with a path and a name_path'')
           | Some symbol \<Rightarrow>
               if TrimSpace (sl_Path symbol) = [] \<or> TrimSpace (sl_NamePath symbol) = []
               then Some (Codedf CodePlanValidationConflicts ''invariant needs scope.symbol with a path and a name_path'')
               else None))"

definition reset_answer :: "PlanInvariant \<Rightarrow> PlanInvariant" where
  "reset_answer invariant = invariant\<lparr> iv_Status := InvariantPending, iv_EvaluatedRevision := [],
     iv_Coverage := empty_coverage, iv_EvidenceIDs := [], iv_Detail := [], iv_EvaluatedAt := 0 \<rparr>"

text \<open>The loop of \<open>normalizeInvariants\<close>: position, identifiers seen, declarations left.\<close>

fun normalize_loop :: "nat \<Rightarrow> string list \<Rightarrow> PlanInvariant list \<Rightarrow> PlanInvariant list result" where
  "normalize_loop index seen [] = Ok []"
| "normalize_loop index seen (invariant # rest) =
     (let id = (if TrimSpace (iv_ID invariant) = [] then ''inv_'' @ decimal (index + 1) else TrimSpace (iv_ID invariant))
      in if id \<in> set seen then Error (Codedf CodePlanValidationConflicts ''invariant is declared twice'')
         else
           (case (case iv_Enforcement invariant of
                    InvariantUnset \<Rightarrow> Some InvariantRequired
                  | InvariantRequired \<Rightarrow> Some InvariantRequired
                  | InvariantAdvisory \<Rightarrow> Some InvariantAdvisory
                  | InvariantEnforcementOther _ \<Rightarrow> None) of
              None \<Rightarrow> Error (Codedf CodePlanValidationConflicts ''enforcement is required or advisory'')
            | Some enforcement \<Rightarrow>
                let declared = invariant\<lparr> iv_ID := id, iv_Enforcement := enforcement \<rparr>
                in (case validateInvariantScope declared of
                      Some e \<Rightarrow> Error e
                    | None \<Rightarrow>
                        (case normalize_loop (index + 1) (id # seen) rest of
                           Inl e \<Rightarrow> Error e
                         | Inr normalized \<Rightarrow> Ok (reset_answer declared # normalized)))))"

definition normalizeInvariants :: "PlanInvariant list \<Rightarrow> PlanInvariant list result" where
  "normalizeInvariants invariants =
     (if invariants = [] then Ok []
      else if length invariants > planInvariantLimit
      then Error (Codedf CodePlanValidationConflicts ''a plan may declare at most 16 invariants'')
      else normalize_loop 0 [] invariants)"

definition resetInvariantProofs :: "PlanInvariant list \<Rightarrow> PlanInvariant list" where
  "resetInvariantProofs invariants = map reset_answer invariants"

section \<open>Answering\<close>

definition provenAt :: "PlanInvariant \<Rightarrow> string \<Rightarrow> bool" where
  "provenAt invariant preparedRevision =
     (iv_Status invariant = InvariantProven \<and> preparedRevision \<noteq> [] \<and>
      iv_EvaluatedRevision invariant = preparedRevision)"

definition describe :: "PlanInvariant \<Rightarrow> string" where
  "describe invariant =
     (let detail = TrimSpace (iv_Detail invariant);
          text = (if detail = [] then invariant_status_text (iv_Status invariant) else detail)
      in iv_ID invariant @ '' ('' @ invariant_kind_text (iv_Kind invariant) @ ''): '' @ text)"

fun unprovenInvariants :: "PlanInvariant list \<Rightarrow> string \<Rightarrow> PlanInvariant list \<times> PlanInvariant list" where
  "unprovenInvariants [] preparedRevision = ([], [])"
| "unprovenInvariants (invariant # rest) preparedRevision =
     (case unprovenInvariants rest preparedRevision of (required, advisory) \<Rightarrow>
        if provenAt invariant preparedRevision then (required, advisory)
        else if iv_Enforcement invariant = InvariantAdvisory then (required, invariant # advisory)
        else (invariant # required, advisory))"

definition invariantGaps :: "PlanInvariant list \<Rightarrow> string \<Rightarrow> VerificationGap list" where
  "invariantGaps invariants preparedRevision =
     map (\<lambda>invariant. \<lparr> vg_Dimension = ''invariant:'' @ iv_ID invariant, vg_Detail = describe invariant \<rparr>)
       (snd (unprovenInvariants invariants preparedRevision))"

text \<open>\<open>answers\<close> is built by assignment in order, so the last answer for an identifier counts.\<close>

definition answers_of :: "PlanInvariant list \<Rightarrow> string \<Rightarrow> PlanInvariant option" where
  "answers_of evaluated = map_of (map (\<lambda>answer. (iv_ID answer, answer)) (rev evaluated))"

definition merge_answer :: "PlanInvariant option \<Rightarrow> string \<Rightarrow> time \<Rightarrow> PlanInvariant \<Rightarrow> PlanInvariant" where
  "merge_answer found preparedRevision at invariant =
     (case found of
        None \<Rightarrow> invariant\<lparr> iv_Status := InvariantUnknown, iv_EvaluatedRevision := preparedRevision,
                  iv_Detail := ''nothing evaluated this invariant'', iv_EvaluatedAt := at \<rparr>
      | Some answer \<Rightarrow> invariant\<lparr> iv_Status := iv_Status answer, iv_EvaluatedRevision := preparedRevision,
                  iv_Coverage := iv_Coverage answer, iv_EvidenceIDs := iv_EvidenceIDs answer,
                  iv_Detail := iv_Detail answer, iv_EvaluatedAt := at \<rparr>)"

definition mergeInvariantResults ::
  "PlanInvariant list \<Rightarrow> PlanInvariant list \<Rightarrow> string \<Rightarrow> time \<Rightarrow> PlanInvariant list" where
  "mergeInvariantResults declared evaluated preparedRevision at =
     map (\<lambda>invariant. merge_answer (answers_of evaluated (iv_ID invariant)) preparedRevision at invariant) declared"

section \<open>Gaps\<close>

fun verification_status_text :: "VerificationStatus \<Rightarrow> string" where
  "verification_status_text VerificationPassed = ''passed''"
| "verification_status_text VerificationFailed = ''failed''"
| "verification_status_text VerificationSkipped = ''skipped''"
| "verification_status_text VerificationCancelled = ''cancelled''"
| "verification_status_text VerificationTimedOut = ''timed_out''"

definition covered_stage :: "VerificationStage \<Rightarrow> bool" where
  "covered_stage stage =
     (vs_Status stage = VerificationPassed \<and>
      (cov_Semantic (vs_Coverage stage) = ''authoritative'' \<or> cov_Semantic (vs_Coverage stage) = ''corroborated''))"

fun join_comma :: "string list \<Rightarrow> string" where
  "join_comma [] = []"
| "join_comma [x] = x"
| "join_comma (x # y # rest) = x @ '', '' @ join_comma (y # rest)"

definition gap_detail :: "VerificationStage \<Rightarrow> string" where
  "gap_detail stage =
     ''status '' @ verification_status_text (vs_Status stage) @ '', semantic coverage '' @ cov_Semantic (vs_Coverage stage) @
     (if cov_Skipped (vs_Coverage stage) = [] then [] else '' ('' @ join_comma (cov_Skipped (vs_Coverage stage)) @ '')'')"

definition verificationGaps :: "VerificationStage list \<Rightarrow> VerificationGap list" where
  "verificationGaps stages =
     map (\<lambda>stage. \<lparr> vg_Dimension = vs_Stage stage, vg_Detail = gap_detail stage \<rparr>)
       (filter (\<lambda>stage. vs_Stage stage = ''diagnostics'' \<and> \<not> covered_stage stage) stages)"

definition PreparationGaps :: "PlanRecord \<Rightarrow> VerificationGap list" where
  "PreparationGaps plan =
     (case pr_Preparation plan of
        None \<Rightarrow> []
      | Some preparation \<Rightarrow> verificationGaps (pp_Verification preparation) @
          invariantGaps (pr_Invariants plan) (pp_PreparedRevision preparation))"

definition UnprovenRequiredInvariants :: "PlanRecord \<Rightarrow> PlanInvariant list" where
  "UnprovenRequiredInvariants plan =
     fst (unprovenInvariants (pr_Invariants plan)
           (case pr_Preparation plan of None \<Rightarrow> [] | Some preparation \<Rightarrow> pp_PreparedRevision preparation))"

definition acceptProvisionalGaps ::
  "PlanPreparation \<Rightarrow> PlanInvariant list \<Rightarrow> string \<Rightarrow> string list \<Rightarrow> PlanPreparation result" where
  "acceptProvisionalGaps preparation invariants preparedRevision accepted =
     (let found = verificationGaps (pp_Verification preparation) @ invariantGaps invariants preparedRevision;
          gaps = (if found = [] then [\<lparr> vg_Dimension = ''diagnostics'',
                                        vg_Detail = ''semantic coverage '' @ pp_Diagnostics preparation \<rparr>] else found)
      in if \<exists>gap \<in> set gaps. vg_Dimension gap \<notin> set accepted
         then Error (Codedf CodeProvisionalNotAccepted ''accept the incomplete evidence explicitly'')
         else Ok (preparation\<lparr> pp_MissingCoverage := gaps, pp_ProvisionalAccepted := map vg_Dimension gaps \<rparr>))"

section \<open>Facts\<close>

lemma reset_answer_fields [simp]:
  "iv_ID (reset_answer i) = iv_ID i" "iv_Kind (reset_answer i) = iv_Kind i"
  "iv_Enforcement (reset_answer i) = iv_Enforcement i" "iv_Scope (reset_answer i) = iv_Scope i"
  "iv_Status (reset_answer i) = InvariantPending" "iv_EvaluatedRevision (reset_answer i) = []"
  by (simp_all add: reset_answer_def)

lemma validateInvariantScope_reset [simp]:
  "validateInvariantScope (reset_answer i) = validateInvariantScope i"
  by (cases "iv_Kind i") (simp_all add: validateInvariantScope_def)

lemma reset_answer_not_proven [simp]: "\<not> provenAt (reset_answer i) revision"
  by (simp add: provenAt_def)

lemma unprovenInvariants_filter:
  "unprovenInvariants invariants revision =
     (filter (\<lambda>i. \<not> provenAt i revision \<and> iv_Enforcement i \<noteq> InvariantAdvisory) invariants,
      filter (\<lambda>i. \<not> provenAt i revision \<and> iv_Enforcement i = InvariantAdvisory) invariants)"
  by (induction invariants) auto

lemma merge_answer_fields [simp]:
  "iv_ID (merge_answer found revision at i) = iv_ID i"
  "iv_Enforcement (merge_answer found revision at i) = iv_Enforcement i"
  "iv_EvaluatedRevision (merge_answer found revision at i) = revision"
  "iv_Status (merge_answer found revision at i) =
     (case found of None \<Rightarrow> InvariantUnknown | Some answer \<Rightarrow> iv_Status answer)"
  by (simp_all add: merge_answer_def split: option.splits)

lemma merge_proven_iff:
  "provenAt (merge_answer found revision at i) revision' \<longleftrightarrow>
     revision' \<noteq> [] \<and> revision' = revision \<and> (\<exists>answer. found = Some answer \<and> iv_Status answer = InvariantProven)"
  by (auto simp: provenAt_def split: option.splits)

lemma normalize_loop_ok:
  assumes "normalize_loop index seen invariants = Ok normalized"
  shows "length normalized = length invariants \<and> distinct (map iv_ID normalized) \<and>
         set (map iv_ID normalized) \<inter> set seen = {} \<and>
         (\<forall>i \<in> set normalized. iv_Status i = InvariantPending \<and> iv_EvaluatedRevision i = [] \<and>
            iv_Enforcement i \<in> {InvariantRequired, InvariantAdvisory} \<and> validateInvariantScope i = None)"
  using assms
proof (induction index seen invariants arbitrary: normalized rule: normalize_loop.induct)
  case (2 index seen invariant rest)
  define name where "name = (if TrimSpace (iv_ID invariant) = [] then ''inv_'' @ decimal (index + 1)
    else TrimSpace (iv_ID invariant))"
  from "2.prems" obtain enforcement tail where
    step: "name \<notin> set seen" "enforcement \<in> {InvariantRequired, InvariantAdvisory}"
      "validateInvariantScope (invariant\<lparr> iv_ID := name, iv_Enforcement := enforcement \<rparr>) = None"
      "normalize_loop (index + 1) (name # seen) rest = Ok tail"
      "normalized = reset_answer (invariant\<lparr> iv_ID := name, iv_Enforcement := enforcement \<rparr>) # tail"
    and enforced: "(case iv_Enforcement invariant of InvariantUnset \<Rightarrow> Some InvariantRequired
        | InvariantRequired \<Rightarrow> Some InvariantRequired | InvariantAdvisory \<Rightarrow> Some InvariantAdvisory
        | InvariantEnforcementOther _ \<Rightarrow> None) = Some enforcement"
    unfolding normalize_loop.simps Let_def name_def [symmetric]
    by (auto split: if_splits option.splits sum.splits InvariantEnforcement.splits)
  note IH = "2.IH" [OF refl, folded name_def, OF step(1) enforced refl step(3,4)]
  from IH step show ?case by auto
qed simp

text \<open>
  What a plan stores as its invariants carries no answer: a declaration list is accepted only
  with at most sixteen entries, and then every stored invariant is pending, has an identifier of
  its own, is required or advisory, and has the scope its kind needs, whatever status the caller
  sent.
\<close>

theorem normalizeInvariants_pending:
  assumes "normalizeInvariants invariants = Ok normalized"
  shows "length normalized = length invariants \<and> length normalized \<le> 16 \<and> distinct (map iv_ID normalized) \<and>
    (\<forall>i \<in> set normalized. iv_Status i = InvariantPending \<and> \<not> provenAt i revision \<and>
       iv_Enforcement i \<in> {InvariantRequired, InvariantAdvisory} \<and> validateInvariantScope i = None)"
  using assms normalize_loop_ok [of 0 "[]" invariants normalized]
  by (fastforce simp: normalizeInvariants_def planInvariantLimit_def provenAt_def split: if_splits)

definition declared_invariant :: "string \<Rightarrow> InvariantEnforcement \<Rightarrow> InvariantStatus \<Rightarrow> PlanInvariant" where
  "declared_invariant name enforcement status = \<lparr> iv_ID = name, iv_Kind = InvariantTestsPass,
     iv_Enforcement = enforcement, iv_Scope = \<lparr> is_Paths = [], is_Symbol = None, is_Severity = [] \<rparr>,
     iv_Status = status, iv_EvaluatedRevision = ''prep_0'', iv_Coverage = empty_coverage,
     iv_EvidenceIDs = [], iv_Detail = [], iv_EvaluatedAt = 0 \<rparr>"

theorem normalizeInvariants_pending_witness:
  "\<exists>normalized. normalizeInvariants [declared_invariant ''tests'' InvariantUnset InvariantProven] = Ok normalized \<and>
     length normalized = 1 \<and> (\<forall>i \<in> set normalized. iv_Status i = InvariantPending)"
proof -
  have ok: "normalizeInvariants [declared_invariant ''tests'' InvariantUnset InvariantProven]
    = Ok [reset_answer (declared_invariant ''tests'' InvariantRequired InvariantPending)]"
    by code_simp
  from normalizeInvariants_pending [OF ok, of "''prep_0''"] ok show ?thesis by auto
qed

text \<open>
  Silence is not evidence: after an evaluation has been folded back, the required invariants
  that block a commit are exactly the required declarations for which the evaluator's last answer
  of that identifier is not a proof, and none of the proofs counts for another prepared revision.
\<close>

theorem invariant_gate:
  "set (fst (unprovenInvariants (mergeInvariantResults declared evaluated preparedRevision at) revision)) =
   (\<lambda>i. merge_answer (answers_of evaluated (iv_ID i)) preparedRevision at i) `
     {i \<in> set declared. iv_Enforcement i \<noteq> InvariantAdvisory \<and>
        \<not> (revision \<noteq> [] \<and> revision = preparedRevision \<and>
           (\<exists>answer. answers_of evaluated (iv_ID i) = Some answer \<and> iv_Status answer = InvariantProven))}"
  by (auto simp: unprovenInvariants_filter mergeInvariantResults_def merge_proven_iff image_iff)

text \<open>
  A provisional commit names every gap: \<open>acceptProvisionalGaps\<close> succeeds exactly when every
  dimension the preparation lacks was accepted by name, it then records all of them, and there is
  always at least one.
\<close>

theorem acceptProvisionalGaps_names_every_gap:
  "case acceptProvisionalGaps preparation invariants preparedRevision accepted of
     Inl e \<Rightarrow> ErrorCode e = Some CodeProvisionalNotAccepted
   | Inr prepared \<Rightarrow>
       pp_MissingCoverage prepared \<noteq> [] \<and>
       set (verificationGaps (pp_Verification preparation)) \<subseteq> set (pp_MissingCoverage prepared) \<and>
       set (invariantGaps invariants preparedRevision) \<subseteq> set (pp_MissingCoverage prepared) \<and>
       pp_ProvisionalAccepted prepared = map vg_Dimension (pp_MissingCoverage prepared) \<and>
       set (pp_ProvisionalAccepted prepared) \<subseteq> set accepted"
  by (auto simp: acceptProvisionalGaps_def Let_def)

end
