(* ===== verification/Plan_Store.thy ===== *)
theory Plan_Store
  imports World Plan_Invariants
begin

text \<open>
  The plan store of a workspace (\<^verbatim>\<open>internal/workspace/plan.go\<close>, \<^verbatim>\<open>plan_expiry.go\<close>,
  \<^verbatim>\<open>plan_recovery.go\<close> and the transitions of \<^verbatim>\<open>prepare.go\<close>): plans in memory, one durable record
  each, retention, expiry, and the operations that move a plan. An operation that holds \<open>plansMu\<close>
  throughout is one computation; \<open>PreviewPlan\<close>, which releases it while it builds the preview, is
  two.

  \<open>clonePlan\<close> and its kin copy values the caller could otherwise alias; values of the model are
  never aliased, so they are identities here.
\<close>

section \<open>Durable records\<close>

definition update_plan :: "string \<Rightarrow> PlanRecord \<Rightarrow> unit io" where
  "update_plan planID plan = io_update (\<lambda>w. w\<lparr>w_plans := AList.update planID plan (w_plans w)\<rparr>)"

definition delete_plan :: "string \<Rightarrow> unit io" where
  "delete_plan planID = io_update (\<lambda>w. w\<lparr>w_plans := AList.delete planID (w_plans w)\<rparr>)"

definition write_plan_record :: "string \<Rightarrow> PlanRecord \<Rightarrow> unit io" where
  "write_plan_record planID plan =
     io_bind MkdirAll (\<lambda>_. io_bind io_call (\<lambda>_.
     io_bind (io_update (\<lambda>w. w\<lparr>w_planRecords := AList.update planID plan (w_planRecords w)\<rparr>)) (\<lambda>_.
     syncDirectory)))"

definition remove_plan_record :: "string \<Rightarrow> unit io" where
  "remove_plan_record planID =
     io_bind io_call (\<lambda>_. io_update (\<lambda>w. w\<lparr>w_planRecords := AList.delete planID (w_planRecords w)\<rparr>))"

definition persistPlanLocked :: "string \<Rightarrow> unit io" where
  "persistPlanLocked planID =
     io_bind (io_get w_stateDir) (\<lambda>stateDir.
       if \<not> stateDir then io_return ()
       else io_bind (io_get (\<lambda>w. map_of (w_plans w) planID)) (\<lambda>found.
              case found of
                None \<Rightarrow> remove_plan_record planID
              | Some plan \<Rightarrow> write_plan_record planID plan))"

definition journal_open :: "CommitJournal \<Rightarrow> bool" where
  "journal_open journal =
     (cj_State journal \<noteq> CommitJournalCommitted \<and> cj_State journal \<noteq> CommitJournalRolledBack)"

definition journalRetainsPlan :: "world \<Rightarrow> string \<Rightarrow> bool" where
  "journalRetainsPlan w planID =
     (w_stateDir w \<and>
      (case map_of (w_commitJournals w) planID of None \<Rightarrow> False | Some journal \<Rightarrow> journal_open journal))"

section \<open>Retention\<close>

definition planRetainCount :: nat where
  "planRetainCount = 200"

definition planRetainAge :: time where
  "planRetainAge = 30 * 24 * hour"

definition planCompactAge :: time where
  "planCompactAge = hour"

text \<open>Newest first, ties by identifier: two stable sorts.\<close>

definition terminal_plans :: "world \<Rightarrow> PlanRecord list" where
  "terminal_plans w =
     sort_key (\<lambda>plan. - pr_UpdatedAt plan)
       (sort_key pr_PlanID (filter (\<lambda>plan. planTerminal (pr_State plan)) (map snd (w_plans w))))"

fun prune_loop :: "time \<Rightarrow> nat \<Rightarrow> nat \<Rightarrow> nat \<Rightarrow> PlanRecord list \<Rightarrow> (nat \<times> nat) io" where
  "prune_loop now kept dropped compacted [] = io_return (dropped, compacted)"
| "prune_loop now kept dropped compacted (plan # rest) =
     io_bind (io_get (\<lambda>w. journalRetainsPlan w (pr_PlanID plan))) (\<lambda>retained.
       if (kept \<ge> planRetainCount \<or> now - pr_UpdatedAt plan > planRetainAge) \<and> \<not> retained
       then io_bind (delete_plan (pr_PlanID plan)) (\<lambda>_.
            io_bind (persistPlanLocked (pr_PlanID plan)) (\<lambda>_.
            prune_loop now kept (dropped + 1) compacted rest))
       else if \<not> pr_Compacted plan \<and> now - pr_UpdatedAt plan > planCompactAge
       then io_bind (update_plan (pr_PlanID plan) (compactPlan plan)) (\<lambda>_.
            io_bind (persistPlanLocked (pr_PlanID plan)) (\<lambda>_.
            prune_loop now (kept + 1) dropped (compacted + 1) rest))
       else prune_loop now (kept + 1) dropped compacted rest)"

definition pruneTerminalPlansLocked :: "time \<Rightarrow> (nat \<times> nat) io" where
  "pruneTerminalPlansLocked now =
     io_bind (io_get w_stateDir) (\<lambda>stateDir.
       if \<not> stateDir then io_return (0, 0)
       else io_bind (io_get terminal_plans) (prune_loop now 0 0 0))"

definition finishPlanLocked :: "string \<Rightarrow> unit io" where
  "finishPlanLocked planID =
     io_bind (persistPlanLocked planID) (\<lambda>_.
     io_bind (io_get (\<lambda>w. map_of (w_plans w) planID)) (\<lambda>found.
       if (case found of None \<Rightarrow> False | Some plan \<Rightarrow> planTerminal (pr_State plan))
       then io_bind io_now (\<lambda>now. io_bind (pruneTerminalPlansLocked now) (\<lambda>_. io_return ()))
       else io_return ()))"

section \<open>Refusals\<close>

definition unknownPlan :: go_error where
  "unknownPlan = Codedf CodePlanNotFound ''no such plan in this workspace''"

definition planRevisionChanged :: go_error where
  "planRevisionChanged = Codedf CodePlanRevisionChanged ''plan revision changed''"

definition compactedPlan :: go_error where
  "compactedPlan = Codedf CodePlanStateInvalid ''plan was compacted by retention; create a new plan''"

definition record_event_now :: "string \<Rightarrow> string \<Rightarrow> PlanRecord \<Rightarrow> PlanRecord io" where
  "record_event_now action outcome plan = io_bind io_now (\<lambda>now. io_return (recordPlanEventAt action outcome now plan))"

section \<open>Operations\<close>

text \<open>
  \<open>normalizeOperations\<close> (which binds each operation to the tree's revisions) and the random plan
  identifier are arguments.
\<close>

definition CreatePlanWithInvariants ::
  "(PlanOperation list \<Rightarrow> PlanOperation list result) \<Rightarrow> string result \<Rightarrow> PlanOperation list \<Rightarrow> PlanInvariant list \<Rightarrow> PlanRecord io" where
  "CreatePlanWithInvariants normalizeOperations newPlanID operations invariants =
     io_bind (io_lift (normalizeOperations operations)) (\<lambda>normalized.
     io_bind (io_lift (normalizeInvariants invariants)) (\<lambda>declared.
     io_bind (io_lift newPlanID) (\<lambda>planID.
     io_bind io_now (\<lambda>now.
     io_bind (io_get w_identity) (\<lambda>identity.
       let plan = \<lparr> pr_PlanID = planID, pr_WorkspaceID = id_ID identity, pr_State = PlanOpen,
             pr_PlanRevision = 1, pr_BaseStateSeq = id_StateSeq identity, pr_Operations = normalized,
             pr_Invariants = declared, pr_Preview = None, pr_Preparation = None, pr_Conflict = None,
             pr_Events = [\<lparr> ev_Action = ''create'', ev_PlanRevision = 1, ev_Outcome = ''ok'', ev_At = now \<rparr>],
             pr_DroppedEvents = 0, pr_Compacted = False, pr_CreatedAt = now, pr_UpdatedAt = now \<rparr>
       in io_bind (update_plan planID plan) (\<lambda>_.
          io_bind (io_try (persistPlanLocked planID)) (\<lambda>persisted.
            case persisted of
              Inl e \<Rightarrow> io_bind (delete_plan planID) (\<lambda>_. io_throw e)
            | Inr _ \<Rightarrow> io_return plan)))))))"

definition InspectPlan :: "string \<Rightarrow> u64 \<Rightarrow> PlanRecord io" where
  "InspectPlan planID expected =
     io_bind (io_get (\<lambda>w. map_of (w_plans w) planID)) (\<lambda>found.
       case found of
         None \<Rightarrow> io_throw unknownPlan
       | Some plan \<Rightarrow>
           if expected \<noteq> 0 \<and> pr_PlanRevision plan \<noteq> expected then io_throw planRevisionChanged
           else io_return plan)"

text \<open>
  \<open>applyPlanEdit\<close>. In mode update the map of updates loses each entry as it is used, so a second
  operation with the same identifier is not touched; what is left over is an unknown identifier.
\<close>

fun apply_updates :: "(string \<times> PlanOperation) list \<Rightarrow> PlanOperation list \<Rightarrow> PlanOperation list \<times> (string \<times> PlanOperation) list" where
  "apply_updates updates [] = ([], updates)"
| "apply_updates updates (operation # rest) =
     (case map_of updates (op_OpID operation) of
        None \<Rightarrow> (case apply_updates updates rest of (operations, left) \<Rightarrow> (operation # operations, left))
      | Some update \<Rightarrow>
          (case apply_updates (AList.delete (op_OpID update) updates) rest of
             (operations, left) \<Rightarrow> (update # operations, left)))"

fun apply_reorder :: "(string \<times> PlanOperation) list \<Rightarrow> string list \<Rightarrow> PlanOperation list result" where
  "apply_reorder byID [] = Ok []"
| "apply_reorder byID (name # rest) =
     (case map_of byID name of
        None \<Rightarrow> Error (PlainError ''reorder contains an unknown or duplicate op_id'')
      | Some operation \<Rightarrow>
          (case apply_reorder (AList.delete name byID) rest of
             Inl e \<Rightarrow> Error e
           | Inr reordered \<Rightarrow> Ok (operation # reordered)))"

definition operations_by_id :: "PlanOperation list \<Rightarrow> (string \<times> PlanOperation) list" where
  "operations_by_id operations = fold (\<lambda>operation. AList.update (op_OpID operation) operation) operations []"

definition applyPlanEdit :: "PlanOperation list \<Rightarrow> PlanEdit \<Rightarrow> PlanOperation list result" where
  "applyPlanEdit operations edit =
     (case pe_Mode edit of
        EditAdd \<Rightarrow> Ok (operations @ pe_Operations edit)
      | EditUpdate \<Rightarrow>
          (case apply_updates (operations_by_id (pe_Operations edit)) operations of
             (updated, left) \<Rightarrow>
               if left \<noteq> [] then Error (PlainError ''update names an unknown op_id'') else Ok updated)
      | EditRemove \<Rightarrow> Ok (filter (\<lambda>operation. op_OpID operation \<notin> set (pe_OpIDs edit)) operations)
      | EditReorder \<Rightarrow>
          if length (pe_OpIDs edit) \<noteq> length operations
          then Error (PlainError ''reorder must name every op_id exactly once'')
          else apply_reorder (operations_by_id operations) (pe_OpIDs edit)
      | EditReplaceAll \<Rightarrow> Ok (pe_Operations edit)
      | EditModeOther _ \<Rightarrow> Error (PlainError ''unknown plan edit mode''))"

definition EditPlan ::
  "(PlanOperation list \<Rightarrow> PlanOperation list result) \<Rightarrow> string \<Rightarrow> u64 \<Rightarrow> PlanEdit \<Rightarrow> PlanRecord io" where
  "EditPlan normalizeOperations planID expected edit =
     io_bind (io_get (\<lambda>w. map_of (w_plans w) planID)) (\<lambda>found.
       case found of
         None \<Rightarrow> io_throw unknownPlan
       | Some plan \<Rightarrow>
           if \<not> canTransition (pr_State plan) PlanOpen then io_throw illegalTransition
           else if pr_Compacted plan then io_throw compactedPlan
           else if expected = 0 \<or> pr_PlanRevision plan \<noteq> expected then io_throw planRevisionChanged
           else
             io_bind (io_lift (applyPlanEdit (pr_Operations plan) edit)) (\<lambda>operations.
             io_bind (io_lift (normalizeOperations operations)) (\<lambda>normalized.
             io_bind (case pe_Invariants edit of
                        None \<Rightarrow> io_return (pr_Invariants plan)
                      | Some declared \<Rightarrow> io_lift (normalizeInvariants declared)) (\<lambda>invariants.
             io_bind (record_event_now ''edit'' ''ok''
                        (plan\<lparr> pr_Operations := normalized, pr_Invariants := resetInvariantProofs invariants,
                               pr_State := PlanOpen, pr_PlanRevision := pr_PlanRevision plan + 1,
                               pr_Preview := None, pr_Preparation := None, pr_Conflict := None \<rparr>)) (\<lambda>edited.
             io_bind (update_plan planID edited) (\<lambda>_.
             io_bind (persistPlanLocked planID) (\<lambda>_.
             io_return edited)))))))"

definition DiscardPlan :: "string \<Rightarrow> u64 \<Rightarrow> PlanRecord io" where
  "DiscardPlan planID expected =
     io_bind (io_get (\<lambda>w. map_of (w_plans w) planID)) (\<lambda>found.
       case found of
         None \<Rightarrow> io_throw unknownPlan
       | Some plan \<Rightarrow>
           if expected = 0 \<or> pr_PlanRevision plan \<noteq> expected then io_throw planRevisionChanged
           else if \<not> canTransition (pr_State plan) PlanDiscarded then io_throw illegalTransition
           else
             io_bind (record_event_now ''discard'' ''ok'' (plan\<lparr> pr_State := PlanDiscarded \<rparr>)) (\<lambda>discarded.
             io_bind (update_plan planID discarded) (\<lambda>_.
             io_bind (finishPlanLocked planID) (\<lambda>_.
             io_return discarded))))"

definition previewable :: "PlanState \<Rightarrow> bool" where
  "previewable state = (state = PlanOpen \<or> state = PlanPreviewed)"

definition preview_read :: "string \<Rightarrow> u64 \<Rightarrow> PlanRecord io" where
  "preview_read planID expected =
     io_bind (io_get (\<lambda>w. map_of (w_plans w) planID)) (\<lambda>found.
       case found of
         None \<Rightarrow> io_throw unknownPlan
       | Some plan \<Rightarrow>
           if \<not> previewable (pr_State plan)
           then io_throw (PlainError ''plan cannot be previewed in its current state'')
           else if expected = 0 \<or> pr_PlanRevision plan \<noteq> expected then io_throw planRevisionChanged
           else io_return plan)"

definition preview_store :: "string \<Rightarrow> u64 \<Rightarrow> PlanPreview \<Rightarrow> PlanRecord io" where
  "preview_store planID expected preview =
     io_bind (io_get (\<lambda>w. map_of (w_plans w) planID)) (\<lambda>found.
       case found of
         None \<Rightarrow> io_throw (PlainError ''plan changed while preview was being built'')
       | Some current \<Rightarrow>
           if pr_PlanRevision current \<noteq> expected \<or> \<not> previewable (pr_State current)
           then io_throw (PlainError ''plan changed while preview was being built'')
           else
             io_bind (record_event_now ''preview'' (pv_Outcome preview)
                        (current\<lparr> pr_Preview := Some preview, pr_State := PlanPreviewed \<rparr>)) (\<lambda>previewed.
             io_bind (update_plan planID previewed) (\<lambda>_.
             io_bind (persistPlanLocked planID) (\<lambda>_.
             io_return previewed))))"

text \<open>\<open>buildPreview\<close> reads the tree as it is when it runs.\<close>

definition PreviewPlan :: "(tree \<Rightarrow> PlanRecord \<Rightarrow> PlanPreview) \<Rightarrow> string \<Rightarrow> u64 \<Rightarrow> PlanRecord io" where
  "PreviewPlan buildPreview planID expected =
     io_bind (preview_read planID expected) (\<lambda>plan.
     io_bind (io_get w_files) (\<lambda>files.
     preview_store planID expected (buildPreview files plan)))"

definition transitionPlanWithConflict ::
  "string \<Rightarrow> u64 \<Rightarrow> PlanState \<Rightarrow> string \<Rightarrow> string \<Rightarrow> PlanPreparation option \<Rightarrow> PlanConflictReason option \<Rightarrow> PlanRecord io" where
  "transitionPlanWithConflict planID expected state action outcome preparation conflict =
     io_bind (io_get (\<lambda>w. map_of (w_plans w) planID)) (\<lambda>found.
       case found of
         None \<Rightarrow> io_throw unknownPlan
       | Some previous \<Rightarrow>
           if expected = 0 \<or> pr_PlanRevision previous \<noteq> expected then io_throw planRevisionChanged
           else if \<not> canTransition (pr_State previous) state then io_throw illegalTransition
           else if pr_Compacted previous \<and> \<not> planTerminal state then io_throw compactedPlan
           else
             io_bind (record_event_now action outcome
                        (previous\<lparr> pr_State := state, pr_Preparation := preparation, pr_Conflict := conflict \<rparr>)) (\<lambda>plan.
             io_bind (update_plan planID plan) (\<lambda>_.
             io_bind (io_try (finishPlanLocked planID)) (\<lambda>finished.
               case finished of
                 Inl e \<Rightarrow> io_bind (update_plan planID previous) (\<lambda>_. io_throw e)
               | Inr _ \<Rightarrow> io_return plan))))"

definition transitionPlan ::
  "string \<Rightarrow> u64 \<Rightarrow> PlanState \<Rightarrow> string \<Rightarrow> string \<Rightarrow> PlanPreparation option \<Rightarrow> PlanRecord io" where
  "transitionPlan planID expected state action outcome preparation =
     transitionPlanWithConflict planID expected state action outcome preparation None"

definition conflictPlan :: "string \<Rightarrow> u64 \<Rightarrow> string \<Rightarrow> PlanPreparation option \<Rightarrow> go_error \<Rightarrow> PlanRecord io" where
  "conflictPlan planID expected action preparation cause =
     (let code = (case ErrorCode cause of None \<Rightarrow> CodeCommitPreconditionChanged | Some code \<Rightarrow> code)
      in transitionPlanWithConflict planID expected PlanConflicted action (code_text code) preparation
           (Some \<lparr> cr_Code = code, cr_Message = cause \<rparr>))"

definition recordInvariants :: "string \<Rightarrow> u64 \<Rightarrow> PlanInvariant list \<Rightarrow> unit io" where
  "recordInvariants planID expected invariants =
     io_bind (io_get (\<lambda>w. map_of (w_plans w) planID)) (\<lambda>found.
       case found of
         None \<Rightarrow> io_throw unknownPlan
       | Some previous \<Rightarrow>
           if expected = 0 \<or> pr_PlanRevision previous \<noteq> expected then io_throw planRevisionChanged
           else
             io_bind (update_plan planID (previous\<lparr> pr_Invariants := invariants \<rparr>)) (\<lambda>_.
             io_bind (io_try (persistPlanLocked planID)) (\<lambda>persisted.
               case persisted of
                 Inl e \<Rightarrow> io_bind (update_plan planID previous) (\<lambda>_. io_throw e)
               | Inr _ \<Rightarrow> io_return ())))"

section \<open>Expiry\<close>

fun expire_loop :: "time \<Rightarrow> time \<Rightarrow> (string \<Rightarrow> time option) \<Rightarrow> (string \<times> PlanRecord) list \<Rightarrow> PlanRecord list \<Rightarrow> (PlanRecord list \<times> go_error option) io" where
  "expire_loop now ttl activity [] expired = io_return (expired, None)"
| "expire_loop now ttl activity ((name, previous) # rest) expired =
     (let changed = planLastActivity previous;
          recent = (case activity name of None \<Rightarrow> changed | Some used \<Rightarrow> max changed used)
      in if \<not> planExpirable previous \<or> now - recent \<le> ttl
         then expire_loop now ttl activity rest expired
         else
           let plan = recordPlanEventAt ''expire'' ''idle'' now (previous\<lparr> pr_State := PlanExpired \<rparr>)
           in io_bind (update_plan name plan) (\<lambda>_.
              io_bind (io_try (persistPlanLocked name)) (\<lambda>persisted.
                case persisted of
                  Inl e \<Rightarrow> io_bind (update_plan name previous) (\<lambda>_. io_return (expired, Some e))
                | Inr _ \<Rightarrow> expire_loop now ttl activity rest (expired @ [plan]))))"

definition expireIdlePlansLocked :: "time \<Rightarrow> time \<Rightarrow> (string \<Rightarrow> time option) \<Rightarrow> (PlanRecord list \<times> go_error option) io" where
  "expireIdlePlansLocked now ttl activity =
     (if ttl \<le> 0 then io_return ([], None)
      else io_bind (io_get w_plans) (\<lambda>plans. expire_loop now ttl activity plans []))"

definition release_plan :: "string \<Rightarrow> unit io" where
  "release_plan planID = io_update (\<lambda>w. w\<lparr>w_activePlans := removeAll planID (w_activePlans w)\<rparr>)"

fun release_plans :: "string list \<Rightarrow> unit io" where
  "release_plans [] = io_return ()"
| "release_plans (name # rest) = io_bind (release_plan name) (\<lambda>_. release_plans rest)"

definition ExpireIdlePlans :: "time \<Rightarrow> time \<Rightarrow> (string \<Rightarrow> time option) \<Rightarrow> (PlanRecord list \<times> go_error option) io" where
  "ExpireIdlePlans now ttl activity =
     io_bind (expireIdlePlansLocked now ttl activity) (\<lambda>(expired, err).
     io_bind (if err = None \<and> expired \<noteq> []
              then io_bind (io_try (pruneTerminalPlansLocked now)) (\<lambda>pruned.
                     io_return (case pruned of Inl e \<Rightarrow> Some e | Inr _ \<Rightarrow> None))
              else io_return err) (\<lambda>err.
     io_bind (release_plans (map pr_PlanID expired)) (\<lambda>_.
     io_return (expired, err))))"

section \<open>Opening\<close>

fun loadPlanRecords :: "string \<Rightarrow> (string \<times> PlanRecord) list \<Rightarrow> unit io" where
  "loadPlanRecords workspace [] = io_return ()"
| "loadPlanRecords workspace ((name, plan) # rest) =
     (if pr_WorkspaceID plan \<noteq> workspace then io_throw (PlainError ''plan belongs to another workspace'')
      else if pr_PlanID plan \<noteq> name then io_throw (PlainError ''plan record holds another plan'')
      else io_bind (update_plan name plan) (\<lambda>_. loadPlanRecords workspace rest))"

fun loadLegacyPlans :: "string \<Rightarrow> PlanRecord list \<Rightarrow> unit io" where
  "loadLegacyPlans workspace plans =
     (if \<exists>plan \<in> set plans. pr_WorkspaceID plan \<noteq> workspace
      then io_throw (PlainError ''plan belongs to another workspace'')
      else io_update (\<lambda>w. w\<lparr>w_plans := fold (\<lambda>plan. AList.update (pr_PlanID plan) plan) plans (w_plans w)\<rparr>))"

text \<open>What a restart makes of a plan whose process died; \<open>None\<close> leaves it alone.\<close>

definition restart_plan :: "time \<Rightarrow> PlanRecord \<Rightarrow> PlanRecord option" where
  "restart_plan now plan =
     (case pr_State plan of
        PlanReady \<Rightarrow> Some (recordPlanEventAt ''provider_restart_restore'' ''provider_buffers_discarded_reprepare_available'' now
                             (plan\<lparr> pr_State := PlanFailed \<rparr>))
      | PlanProvisional \<Rightarrow> Some (recordPlanEventAt ''provider_restart_restore'' ''provider_buffers_discarded_reprepare_available'' now
                             (plan\<lparr> pr_State := PlanFailed \<rparr>))
      | PlanPreparing \<Rightarrow> Some (recordPlanEventAt ''provider_restart_restore'' ''incomplete_provider_operation_discarded'' now
                             (plan\<lparr> pr_State := PlanFailed, pr_Preparation := None \<rparr>))
      | PlanRollingBack \<Rightarrow> Some (recordPlanEventAt ''provider_restart_restore'' ''incomplete_provider_operation_discarded'' now
                             (plan\<lparr> pr_State := PlanFailed, pr_Preparation := None \<rparr>))
      | PlanCommitting \<Rightarrow> Some (recordPlanEventAt ''commit_restart_detected'' ''recovery_required'' now
                             (plan\<lparr> pr_State := PlanRecoveryRequired \<rparr>))
      | _ \<Rightarrow> None)"

fun restart_loop :: "(string \<times> PlanRecord) list \<Rightarrow> string list io" where
  "restart_loop [] = io_return []"
| "restart_loop ((name, plan) # rest) =
     io_bind (io_get w_now) (\<lambda>now.
       case restart_plan now plan of
         None \<Rightarrow> restart_loop rest
       | Some restored \<Rightarrow>
           io_bind io_now (\<lambda>_.
           io_bind (update_plan name restored) (\<lambda>_.
           io_bind (restart_loop rest) (\<lambda>changed.
           io_return (name # changed)))))"

fun persist_all :: "string list \<Rightarrow> unit io" where
  "persist_all [] = io_return ()"
| "persist_all (name # rest) = io_bind (persistPlanLocked name) (\<lambda>_. persist_all rest)"

definition loadPlans :: "time \<Rightarrow> unit io" where
  "loadPlans idleTTL =
     io_bind (io_get (\<lambda>w. w)) (\<lambda>w.
       if \<not> w_stateDir w then io_return ()
       else
         let workspace = id_ID (w_identity w);
             legacy = (case w_legacyPlans w of None \<Rightarrow> [] | Some plans \<Rightarrow> plans)
         in io_bind (loadLegacyPlans workspace legacy) (\<lambda>_.
            io_bind (loadPlanRecords workspace (w_planRecords w)) (\<lambda>_.
            io_bind (io_get w_plans) (\<lambda>plans.
            io_bind (restart_loop plans) (\<lambda>restored.
            io_bind io_now (\<lambda>now.
            io_bind (expireIdlePlansLocked now idleTTL (\<lambda>_. None)) (\<lambda>(expired, err).
              case err of
                Some e \<Rightarrow> io_throw e
              | None \<Rightarrow>
                  io_bind io_now (\<lambda>now.
                  io_bind (pruneTerminalPlansLocked now) (\<lambda>_.
                  io_bind (persist_all (sort (remdups (map pr_PlanID legacy @ restored @ map pr_PlanID expired)))) (\<lambda>_.
                  if legacy = [] then io_return ()
                  else io_bind io_call (\<lambda>_. io_update (\<lambda>w. w\<lparr>w_legacyPlans := None\<rparr>))))))))))))"

definition RecoverablePreparedPlan :: "world \<Rightarrow> string \<Rightarrow> PlanRecord option" where
  "RecoverablePreparedPlan w reference =
     find (\<lambda>plan. pr_State plan = PlanFailed \<and>
             (case pr_Preparation plan of
                None \<Rightarrow> False
              | Some preparation \<Rightarrow> pr_PlanID plan = reference \<or> pp_PreparedRevision preparation = reference) \<and>
             restartRestored plan)
       (map snd (w_plans w))"

end
