(* ===== verification/Plan_Lifecycle.thy ===== *)
theory Plan_Lifecycle
  imports Plan_Store
begin

text \<open>
  What the operations of the plan store guarantee: every move of a plan follows the transition
  table, retention forgets only finished plans that no open journal needs, an edit is guarded by
  the plan revision and drops every answer about the old bytes, and opening a workspace leaves no
  plan in the middle of an operation.
\<close>

section \<open>Frames\<close>

text \<open>Writing durable plan records changes nothing else.\<close>

definition persist_step :: "world \<Rightarrow> world \<Rightarrow> bool" where
  "persist_step w w' = (w'\<lparr>w_planRecords := [], w_io := []\<rparr> = w\<lparr>w_planRecords := [], w_io := []\<rparr>)"

lemma persist_step_fields:
  "persist_step w w' \<Longrightarrow> w_plans w' = w_plans w \<and> w_commitJournals w' = w_commitJournals w \<and>
     w_files w' = w_files w \<and> w_stateDir w' = w_stateDir w \<and> w_identity w' = w_identity w \<and>
     w_activePlans w' = w_activePlans w \<and> w_resolve w' = w_resolve w \<and> w_now w' = w_now w \<and>
     w_inode w' = w_inode w"
  by (cases w; cases w') (simp add: persist_step_def)

interpretation persist: frame persist_step
  by unfold_locales (simp_all add: persist_step_def)

lemma persist_io_call [intro, simp]: "persist.keeps io_call"
  by (rule persist.keepsI) (simp add: io_call_cases persist_step_def split: list.splits io_event.splits)

lemma persist_persistPlanLocked [intro, simp]: "persist.keeps (persistPlanLocked planID)"
proof -
  have "persist.keeps (io_update (\<lambda>w. w\<lparr>w_planRecords := f w\<rparr>))" for f
    by (rule persist.keeps_update) (simp add: persist_step_def)
  then show ?thesis
    unfolding persistPlanLocked_def write_plan_record_def remove_plan_record_def MkdirAll_def syncDirectory_def
    by (intro persist.keeps_rules persist_io_call)
qed

lemmas persist_wp = persist.keeps_wp [OF persist_persistPlanLocked]

text \<open>A legal move of the whole store.\<close>

definition state_path :: "PlanState \<Rightarrow> PlanState \<Rightarrow> bool" where
  "state_path s s' = (\<exists>path. plan_table.run s path s')"

lemma state_path_refl [simp, intro]: "state_path s s"
  unfolding state_path_def by (blast intro: plan_table.run_Nil)

lemma state_path_trans: "state_path s s' \<Longrightarrow> state_path s' s'' \<Longrightarrow> state_path s s''"
  unfolding state_path_def by (blast intro: plan_table.run_append)

lemma state_path_step [intro]: "canTransition s s' \<Longrightarrow> state_path s s'"
  unfolding state_path_def canTransition_def by (blast intro: plan_table.run.intros)

definition store_wf :: "world \<Rightarrow> bool" where
  "store_wf w = (distinct (map fst (w_plans w)) \<and> (\<forall>(name, plan) \<in> set (w_plans w). pr_PlanID plan = name))"

fun plan_move :: "PlanRecord option \<Rightarrow> PlanRecord option \<Rightarrow> bool" where
  "plan_move None after = (after = None)"
| "plan_move (Some plan) None = (\<exists>s. state_path (pr_State plan) s \<and> planTerminal s)"
| "plan_move (Some plan) (Some plan') =
     (state_path (pr_State plan) (pr_State plan') \<and> pr_WorkspaceID plan' = pr_WorkspaceID plan)"

lemma plan_move_refl [simp, intro]: "plan_move found found"
  by (cases found) auto

lemma plan_move_trans: "plan_move a b \<Longrightarrow> plan_move b c \<Longrightarrow> plan_move a c"
  by (cases a; cases b; cases c) (auto intro: state_path_trans)

definition plans_legal :: "world \<Rightarrow> world \<Rightarrow> bool" where
  "plans_legal w w' =
     (store_wf w \<longrightarrow> store_wf w' \<and> (\<forall>name. plan_move (map_of (w_plans w) name) (map_of (w_plans w') name)))"

interpretation legal: frame plans_legal
  by unfold_locales (auto simp: plans_legal_def intro: plan_move_trans)

lemma legal_same_plans: "w_plans w' = w_plans w \<Longrightarrow> plans_legal w w'"
  by (simp add: plans_legal_def store_wf_def)

lemma legal_of_persist [intro]: "persist.keeps m \<Longrightarrow> legal.keeps m"
  unfolding persist.keeps_def legal.keeps_def
  by (blast intro: legal_same_plans dest: persist_step_fields)

section \<open>Updating one plan\<close>

lemma store_wf_update:
  assumes "store_wf w" "pr_PlanID plan = name"
  shows "store_wf (w\<lparr>w_plans := AList.update name plan (w_plans w)\<rparr>)"
proof -
  have "(k, p) \<in> set (AList.update name plan (w_plans w)) \<Longrightarrow> pr_PlanID p = k" for k p
  proof -
    assume "(k, p) \<in> set (AList.update name plan (w_plans w))"
    moreover have "distinct (map fst (AList.update name plan (w_plans w)))"
      using assms(1) by (simp add: store_wf_def distinct_update)
    ultimately have "map_of (AList.update name plan (w_plans w)) k = Some p" by (rule map_of_is_SomeI [rotated])
    then have "k = name \<and> p = plan \<or> map_of (w_plans w) k = Some p" by (auto split: if_splits)
    then show ?thesis using assms by (auto simp: store_wf_def dest!: map_of_SomeD)
  qed
  then show ?thesis using assms(1) by (auto simp: store_wf_def distinct_update)
qed

lemma store_wf_delete: "store_wf w \<Longrightarrow> store_wf (w\<lparr>w_plans := AList.delete name (w_plans w)\<rparr>)"
  by (auto simp: store_wf_def distinct_map_filter AList.delete_eq)

lemma store_wf_lookup: "store_wf w \<Longrightarrow> map_of (w_plans w) name = Some plan \<Longrightarrow> pr_PlanID plan = name"
  by (auto simp: store_wf_def dest: map_of_SomeD)

lemma legal_update:
  assumes "map_of (w_plans w) name = Some plan" "plan_move (Some plan) (Some plan')"
    and "pr_PlanID plan' = pr_PlanID plan"
  shows "plans_legal w (w\<lparr>w_plans := AList.update name plan' (w_plans w)\<rparr>)"
  using assms by (auto simp: plans_legal_def store_wf_lookup intro!: store_wf_update)

lemma legal_delete:
  assumes "map_of (w_plans w) name = Some plan" "planTerminal (pr_State plan)"
  shows "plans_legal w (w\<lparr>w_plans := AList.delete name (w_plans w)\<rparr>)"
  using assms by (auto simp: plans_legal_def intro!: store_wf_delete)

section \<open>Retention\<close>

lemma terminal_plans_props:
  assumes "store_wf w"
  shows "distinct (map pr_PlanID (terminal_plans w)) \<and>
    (\<forall>plan \<in> set (terminal_plans w). map_of (w_plans w) (pr_PlanID plan) = Some plan \<and> planTerminal (pr_State plan))"
proof -
  have "map pr_PlanID (map snd (w_plans w)) = map fst (w_plans w)"
    using assms by (auto simp: store_wf_def)
  then have "distinct (map pr_PlanID (filter P (map snd (w_plans w))))" for P
    using assms by (metis distinct_map_filter store_wf_def)
  then have "distinct (map pr_PlanID (terminal_plans w))"
    by (simp add: terminal_plans_def distinct_map)
  moreover have "map_of (w_plans w) (pr_PlanID plan) = Some plan" if "plan \<in> set (map snd (w_plans w))" for plan
    using that assms by (force simp: store_wf_def)
  ultimately show ?thesis by (auto simp: terminal_plans_def)
qed

text \<open>The loop acts on each plan of its list once, and only on those.\<close>

lemma prune_loop_legal:
  assumes "distinct (map pr_PlanID plans)"
    and "\<forall>plan \<in> set plans. map_of (w_plans w) (pr_PlanID plan) = Some plan \<and> planTerminal (pr_State plan)"
  shows "io_wp (prune_loop now kept dropped compacted plans) (\<lambda>_. plans_legal w) w"
  using assms
proof (induction plans arbitrary: w kept dropped compacted)
  case (Cons plan rest)
  let ?del = "w\<lparr>w_plans := AList.delete (pr_PlanID plan) (w_plans w)\<rparr>"
  let ?cmp = "w\<lparr>w_plans := AList.update (pr_PlanID plan) (compactPlan plan) (w_plans w)\<rparr>"
  have plan: "map_of (w_plans w) (pr_PlanID plan) = Some plan" "planTerminal (pr_State plan)"
    using Cons.prems by auto
  have go: "io_wp (persistPlanLocked (pr_PlanID plan))
      (\<lambda>r w'. case r of Done _ \<Rightarrow> io_wp (prune_loop now k d c rest) (\<lambda>_. plans_legal w) w'
                      | Fail _ \<Rightarrow> plans_legal w w' | Crashed \<Rightarrow> plans_legal w w') v"
    if v: "plans_legal w v" "\<forall>p \<in> set rest. map_of (w_plans v) (pr_PlanID p) = Some p" for k d c v
  proof (rule persist_wp)
    fix r w' assume step: "persist_step v w'"
    then have same: "w_plans w' = w_plans v" by (simp add: persist_step_fields)
    have legal: "plans_legal w w'" using v(1) legal_same_plans [OF same] by (blast intro: legal.frame_trans)
    have "io_wp (prune_loop now k d c rest) (\<lambda>_. plans_legal w') w'"
      using v(2) same Cons.prems by (intro Cons.IH) auto
    then have "io_wp (prune_loop now k d c rest) (\<lambda>_. plans_legal w) w'"
      by (rule wp_mono) (use legal in \<open>blast intro: legal.frame_trans\<close>)
    then show "case r of Done _ \<Rightarrow> io_wp (prune_loop now k d c rest) (\<lambda>_. plans_legal w) w'
                      | Fail _ \<Rightarrow> plans_legal w w' | Crashed \<Rightarrow> plans_legal w w'"
      using legal by (simp split: outcome.splits)
  qed
  have other: "\<forall>p \<in> set rest. pr_PlanID p \<noteq> pr_PlanID plan" using Cons.prems(1) by simp (metis imageI)
  have del: "plans_legal w ?del" using plan by (rule legal_delete)
  have cmp: "plans_legal w ?cmp" using plan by (intro legal_update) (auto simp: compactPlan_def)
  show ?case
    using go [OF del] go [OF cmp] Cons other
    by (simp add: delete_plan_def update_plan_def)
qed simp

lemma legal_prune [intro, simp]: "legal.keeps (pruneTerminalPlansLocked now)"
proof (rule legal.keepsI)
  fix w
  have "store_wf w \<Longrightarrow> io_wp (prune_loop now 0 0 0 (terminal_plans w)) (\<lambda>_. plans_legal w) w"
    using terminal_plans_props by (intro prune_loop_legal) auto
  moreover have "\<not> store_wf w \<Longrightarrow> plans_legal w w'" for w' by (simp add: plans_legal_def)
  ultimately show "io_wp (pruneTerminalPlansLocked now) (\<lambda>_. plans_legal w) w"
    unfolding pruneTerminalPlansLocked_def by (cases "store_wf w") (simp, simp add: io_wp_def)
qed

lemma legal_io_call [intro, simp]: "legal.keeps io_call"
  by (rule legal_of_persist) simp

lemma legal_persist [intro, simp]: "legal.keeps (persistPlanLocked planID)"
  by (rule legal_of_persist) simp

lemma legal_now [intro, simp]: "legal.keeps io_now"
  by (rule legal.keepsI) (simp add: legal_same_plans)

lemma legal_finish [intro, simp]: "legal.keeps (finishPlanLocked planID)"
  unfolding finishPlanLocked_def by (intro legal.keeps_rules legal_persist legal_now legal_prune)

text \<open>Putting the previous record back after a failed write is legal whatever retention did.\<close>

lemma legal_restore:
  assumes "map_of (w_plans w) name = Some previous" "plans_legal w w'"
  shows "plans_legal w (w'\<lparr>w_plans := AList.update name previous (w_plans w')\<rparr>)"
  using assms by (auto simp: plans_legal_def store_wf_lookup intro!: store_wf_update)

section \<open>Every operation moves plans along the table\<close>

lemma legal_tick [simp]: "plans_legal (tick w) = plans_legal w"
  by (intro ext) (simp add: plans_legal_def store_wf_def)

text \<open>
  The shape every guarded move has: look the plan up, replace it by a record the table allows, go
  on. What follows the replacement keeps the store legal with respect to the world before it.
\<close>

lemma legal_inv [intro]: "legal.keeps m \<Longrightarrow> inv.keeps (plans_legal w) m"
  unfolding inv.keeps_def legal.keeps_def by (blast intro: legal.frame_trans)

lemma legal_move:
  assumes "map_of (w_plans w) planID = Some plan" "plan_move (Some plan) (Some plan')"
    and "pr_PlanID plan' = pr_PlanID plan" "inv.keeps (plans_legal w) m"
  shows "io_wp (io_bind (update_plan planID plan') (\<lambda>_. m)) (\<lambda>_. plans_legal w) w"
  using inv_wp [OF assms(4) legal_update [OF assms(1-3)]] by (simp add: update_plan_def)

lemma legal_put_back:
  "map_of (w_plans w) planID = Some previous \<Longrightarrow> inv.keeps (plans_legal w) (update_plan planID previous)"
  unfolding update_plan_def by (rule inv.keeps_update) (blast intro: legal_restore)

lemmas legal_rules = legal.keeps_rules legal_persist legal_now legal_prune legal_finish legal_io_call

text \<open>Introduction rules for the guards and the event an operation records on its way to a move.\<close>

lemma legal_guarded:
  assumes "\<And>w plan. map_of (w_plans w) planID = Some plan \<Longrightarrow> io_wp (f plan) (\<lambda>_. plans_legal w) w"
  shows "legal.keeps (io_bind (io_get (\<lambda>w. map_of (w_plans w) planID)) (case_option (io_throw e) f))"
  by (rule legal.keepsI) (auto simp: assms split: option.split)

lemma legal_wp_if:
  "(b \<Longrightarrow> io_wp m (\<lambda>_. plans_legal w) w) \<Longrightarrow> (\<not> b \<Longrightarrow> io_wp m' (\<lambda>_. plans_legal w) w) \<Longrightarrow>
     io_wp (if b then m else m') (\<lambda>_. plans_legal w) w"
  by simp

lemma legal_wp_throw: "io_wp (io_throw e) (\<lambda>_. plans_legal w) w"
  by simp

lemma legal_wp_event:
  "(\<And>now. io_wp (f (recordPlanEventAt action outcome now plan)) (\<lambda>_. plans_legal (tick w)) (tick w)) \<Longrightarrow>
     io_wp (io_bind (record_event_now action outcome plan) f) (\<lambda>_. plans_legal w) w"
  by (simp add: record_event_now_def)

lemma legal_wp_lift:
  "(\<And>x. io_wp (f x) (\<lambda>_. plans_legal w) w) \<Longrightarrow> io_wp (io_bind (io_lift r) f) (\<lambda>_. plans_legal w) w"
  by (cases r) auto

lemma legal_wp_choice:
  "(\<And>x. io_wp (f x) (\<lambda>_. plans_legal w) w) \<Longrightarrow>
     io_wp (io_bind (case_option (io_return y) (\<lambda>z. io_lift (g z)) choice) f) (\<lambda>_. plans_legal w) w"
  using legal_wp_lift by (cases choice) auto

lemmas legal_wp_rules = legal_wp_if legal_wp_throw legal_wp_event legal_wp_lift
lemmas legal_inv_rules = inv.keeps_rules legal_put_back legal_inv [OF legal_finish] legal_inv [OF legal_persist]

lemma legal_transition [intro, simp]:
  "legal.keeps (transitionPlanWithConflict planID expected state action outcome preparation conflict)"
  unfolding transitionPlanWithConflict_def
  by (rule legal_guarded, intro legal_wp_rules, rule legal_move, simp, force, simp)
    (intro legal_inv_rules, simp)

lemma legal_transitionPlan [intro, simp]: "legal.keeps (transitionPlan planID expected state action outcome preparation)"
  by (simp add: transitionPlan_def)

lemma legal_conflictPlan [intro, simp]: "legal.keeps (conflictPlan planID expected action preparation cause)"
  by (simp add: conflictPlan_def Let_def)

lemma legal_InspectPlan [intro, simp]: "legal.keeps (InspectPlan planID expected)"
  unfolding InspectPlan_def by (intro legal_rules)

lemma legal_recordInvariants [intro, simp]: "legal.keeps (recordInvariants planID expected invariants)"
  unfolding recordInvariants_def
  by (rule legal_guarded, intro legal_wp_rules, rule legal_move, assumption, simp, simp)
    (intro legal_inv_rules)

lemma legal_DiscardPlan [intro, simp]: "legal.keeps (DiscardPlan planID expected)"
  unfolding DiscardPlan_def
  by (rule legal_guarded, intro legal_wp_rules, rule legal_move, simp, force, simp)
    (intro legal_inv_rules)

lemma legal_PreviewPlan [intro, simp]: "legal.keeps (PreviewPlan buildPreview planID expected)"
proof -
  have "legal.keeps (preview_store planID expected preview)" for preview
    unfolding preview_store_def
    by (rule legal_guarded, intro legal_wp_rules, rule legal_move, simp,
        force simp: previewable_def canTransition_def, simp) (intro legal_inv_rules)
  then show ?thesis unfolding PreviewPlan_def preview_read_def by (intro legal_rules)
qed

lemma legal_EditPlan [intro, simp]: "legal.keeps (EditPlan normalizeOperations planID expected edit)"
  unfolding EditPlan_def
  by (rule legal_guarded, intro legal_wp_rules legal_wp_choice, rule legal_move, simp, force, simp)
    (intro legal_inv_rules)


section \<open>Expiry\<close>

lemma legal_expire_loop:
  assumes "\<forall>(name, plan) \<in> set plans. map_of (w_plans w) name = Some plan" "distinct (map fst plans)"
  shows "io_wp (expire_loop now ttl activity plans expired) (\<lambda>_. plans_legal w) w"
  using assms
proof (induction plans arbitrary: w expired)
  case (Cons entry rest)
  obtain name previous where entry: "entry = (name, previous)" by (cases entry)
  let ?plan = "recordPlanEventAt ''expire'' ''idle'' now (previous\<lparr>pr_State := PlanExpired\<rparr>)"
  let ?w1 = "w\<lparr>w_plans := AList.update name ?plan (w_plans w)\<rparr>"
  have found: "map_of (w_plans w) name = Some previous" using Cons.prems(1) by (simp add: entry)
  have move: "plans_legal w ?w1" if "planExpirable previous"
    using found that planExpirable_state by (intro legal_update) auto
  have step: "io_wp (persistPlanLocked name)
      (\<lambda>r w'. case r of Done _ \<Rightarrow> io_wp (expire_loop now ttl activity rest (expired @ [?plan])) (\<lambda>_. plans_legal w) w'
        | Fail e \<Rightarrow> plans_legal w (w'\<lparr>w_plans := AList.update name previous (w_plans w')\<rparr>) | Crashed \<Rightarrow> plans_legal w w') ?w1"
    if "planExpirable previous"
  proof (rule persist_wp)
    fix r w' assume "persist_step ?w1 w'"
    then have same: "w_plans w' = w_plans ?w1" using persist_step_fields by blast
    have legal: "plans_legal w w'" using legal.frame_trans [OF move [OF that]] same by (simp add: legal_same_plans)
    have "io_wp (expire_loop now ttl activity rest (expired @ [?plan])) (\<lambda>_. plans_legal w') w'"
      using Cons.prems same by (intro Cons.IH) (force simp: entry)+
    then have "io_wp (expire_loop now ttl activity rest (expired @ [?plan])) (\<lambda>_. plans_legal w) w'"
      by (rule wp_mono) (blast intro: legal legal.frame_trans)
    then show "case r of Done _ \<Rightarrow> io_wp (expire_loop now ttl activity rest (expired @ [?plan])) (\<lambda>_. plans_legal w) w'
        | Fail e \<Rightarrow> plans_legal w (w'\<lparr>w_plans := AList.update name previous (w_plans w')\<rparr>) | Crashed \<Rightarrow> plans_legal w w'"
      using legal legal_restore [OF found legal] by (simp split: outcome.split)
  qed
  have skip: "io_wp (expire_loop now ttl activity rest expired) (\<lambda>_. plans_legal w) w"
    using Cons.prems by (intro Cons.IH) auto
  let ?recent = "case activity name of None \<Rightarrow> planLastActivity previous | Some used \<Rightarrow> max (planLastActivity previous) used"
  show ?case
  proof (cases "\<not> planExpirable previous \<or> now - ?recent \<le> ttl")
    case True
    then show ?thesis using skip by (simp only: entry expire_loop.simps Let_def if_True)
  next
    case False
    then have st: "planExpirable previous" by blast
    show ?thesis
      unfolding entry expire_loop.simps Let_def if_not_P [OF False] update_plan_def wp_bind wp_update wp_try
      by (simp only: outcome.case) (rule wp_mono [OF step [OF st]], simp split: outcome.splits)
  qed
qed simp

lemma legal_expire [intro, simp]: "legal.keeps (expireIdlePlansLocked now ttl activity)"
proof (rule legal.keepsI)
  fix w
  show "io_wp (expireIdlePlansLocked now ttl activity) (\<lambda>_. plans_legal w) w"
  proof (cases "store_wf w")
    case True
    then have "io_wp (expire_loop now ttl activity (w_plans w) []) (\<lambda>_. plans_legal w) w"
      by (intro legal_expire_loop) (auto simp: store_wf_def)
    then show ?thesis by (simp add: expireIdlePlansLocked_def)
  qed (simp add: io_wp_def plans_legal_def split: prod.splits)
qed

lemma legal_release [intro, simp]: "legal.keeps (release_plan planID)" "legal.keeps (release_plans names)"
proof -
  show one: "legal.keeps (release_plan planID)" for planID
    unfolding release_plan_def by (rule legal.keeps_update) (simp add: legal_same_plans)
  show "legal.keeps (release_plans names)"
    by (induction names) (auto intro: one legal.keeps_bind)
qed

lemma legal_ExpireIdlePlans [intro, simp]: "legal.keeps (ExpireIdlePlans now ttl activity)"
  unfolding ExpireIdlePlans_def by (intro legal_rules legal_expire legal_release)

section \<open>Editing\<close>

lemma io_lift_Done: "io_lift r w = (Done x, w') \<longleftrightarrow> r = Ok x \<and> w' = w"
  by (cases r) (auto simp: io_return_def io_throw_def)

lemma io_bind_Done:
  "io_bind m f w = (Done y, w'') \<longleftrightarrow> (\<exists>x w'. m w = (Done x, w') \<and> f x w' = (Done y, w''))"
  by (auto simp: io_bind_def split: prod.splits outcome.splits)

lemma persist_Done:
  assumes "persistPlanLocked planID w = (Done (), w')" "map_of (w_plans w) planID = Some plan"
  shows "w_plans w' = w_plans w \<and> (w_stateDir w \<longrightarrow> map_of (w_planRecords w') planID = Some plan)"
proof -
  have "w_planRecords (snd (io_call v)) = w_planRecords v" for v
    by (simp add: io_call_def split: list.splits io_event.splits)
  then have call: "io_call v = (Done (), v') \<Longrightarrow> w_planRecords v' = w_planRecords v" for v v'
    by (metis snd_conv)
  have "w_plans w' = w_plans w"
    using persist.keepsD [OF persist_persistPlanLocked assms(1)] by (simp add: persist_step_fields)
  moreover have "map_of (w_planRecords w') planID = Some plan" if "w_stateDir w"
    using assms that
    by (auto simp: persistPlanLocked_def write_plan_record_def io_bind_Done io_get_def io_update_def
        MkdirAll_def syncDirectory_def io_return_def dest!: call)
  ultimately show ?thesis by simp
qed

text \<open>
  An edit is guarded and forgets: it succeeds only on the exact revision the caller named, in
  a state the table lets return to OPEN and on a record retention has not compacted. It then makes
  the next revision, open, with no preview, preparation or conflict and with no invariant proven
  about any revision, the same record in memory and on disk.
\<close>

theorem EditPlan_guarded:
  assumes "EditPlan normalizeOperations planID expected edit w = (Done plan', w')"
  shows "\<exists>plan. map_of (w_plans w) planID = Some plan \<and> expected \<noteq> 0 \<and> pr_PlanRevision plan = expected \<and>
    canTransition (pr_State plan) PlanOpen \<and> \<not> pr_Compacted plan \<and>
    map_of (w_plans w') planID = Some plan' \<and> (w_stateDir w \<longrightarrow> map_of (w_planRecords w') planID = Some plan') \<and>
    pr_State plan' = PlanOpen \<and> pr_PlanRevision plan' = expected + 1 \<and>
    pr_Preview plan' = None \<and> pr_Preparation plan' = None \<and> pr_Conflict plan' = None \<and>
    (\<forall>i \<in> set (pr_Invariants plan'). \<not> provenAt i revision)"
proof -
  from assms obtain plan where plan: "map_of (w_plans w) planID = Some plan" "expected \<noteq> 0"
    "pr_PlanRevision plan = expected" "canTransition (pr_State plan) PlanOpen" "\<not> pr_Compacted plan"
    by (auto simp: EditPlan_def io_bind_Done io_get_def io_throw_def split: option.splits if_splits)
  from assms plan obtain normalized invariants where
    edited: "plan' = recordPlanEventAt ''edit'' ''ok'' (w_now w)
      (plan\<lparr> pr_Operations := normalized, pr_Invariants := resetInvariantProofs invariants, pr_State := PlanOpen,
        pr_PlanRevision := pr_PlanRevision plan + 1, pr_Preview := None, pr_Preparation := None, pr_Conflict := None \<rparr>)"
    and stored: "persistPlanLocked planID ((tick w)\<lparr>w_plans := AList.update planID plan' (w_plans w)\<rparr>) = (Done (), w')"
    by (auto simp: EditPlan_def io_bind_Done io_get_def io_throw_def io_lift_Done record_event_now_def io_now_def
        io_return_def update_plan_def io_update_def split: option.splits if_splits)
  from persist_Done [OF stored] show ?thesis
    using plan edited by (auto simp: resetInvariantProofs_def)
qed

lemma done_world: "is_done (fst run) \<Longrightarrow> \<exists>x w'. run = (Done x, w')"
  by (cases run, cases "fst run") auto

theorem EditPlan_guarded_witness:
  "\<exists>plan' w'. EditPlan Ok ''plan_1'' 1 \<lparr> pe_Mode = EditAdd, pe_Operations = [], pe_OpIDs = [], pe_Invariants = None \<rparr>
      (sample_world [(''plan_1'', sample_plan PlanFailed)] [] [IOk, IOk, IOk]) = (Done plan', w') \<and>
     pr_PlanRevision plan' = 2 \<and> map_of (w_planRecords w') ''plan_1'' = Some plan'"
proof -
  let ?w = "sample_world [(''plan_1'', sample_plan PlanFailed)] [] [IOk, IOk, IOk]"
  let ?edit = "\<lparr> pe_Mode = EditAdd, pe_Operations = [], pe_OpIDs = [], pe_Invariants = None \<rparr>"
  have "is_done (fst (EditPlan Ok ''plan_1'' 1 ?edit ?w))" by code_simp
  from done_world [OF this] obtain plan' w' where run: "EditPlan Ok ''plan_1'' 1 ?edit ?w = (Done plan', w')" by blast
  from EditPlan_guarded [OF run, of "[]"] have "pr_PlanRevision plan' = 2" "map_of (w_planRecords w') ''plan_1'' = Some plan'"
    by (auto simp: sample_world_def)
  with run show ?thesis by blast
qed

section \<open>What retention forgets\<close>

lemma prune_loop_others:
  "name \<notin> pr_PlanID ` set plans \<Longrightarrow>
     inv.keeps (\<lambda>w. map_of (w_plans w) name = found) (prune_loop now kept dropped compacted plans)"
proof (induction plans arbitrary: kept dropped compacted)
  case (Cons plan rest)
  have persist: "inv.keeps (\<lambda>w. map_of (w_plans w) name = found) (persistPlanLocked n)" for n
    using persist_persistPlanLocked unfolding inv.keeps_def persist.keeps_def
    by (metis persist_step_fields)
  have "inv.keeps (\<lambda>w. map_of (w_plans w) name = found) (delete_plan (pr_PlanID plan))"
    "inv.keeps (\<lambda>w. map_of (w_plans w) name = found) (update_plan (pr_PlanID plan) p)" for p
    using Cons.prems by (auto simp: delete_plan_def update_plan_def intro!: inv.keeps_update)
  then show ?case using Cons by (auto intro!: inv.keeps_rules persist)
qed simp

text \<open>A plan of the list is kept, kept compacted, or dropped; only an unneeded one is dropped.\<close>

definition pruned_to :: "world \<Rightarrow> world \<Rightarrow> PlanRecord \<Rightarrow> bool" where
  "pruned_to w w' plan =
     (case map_of (w_plans w') (pr_PlanID plan) of
        None \<Rightarrow> \<not> journalRetainsPlan w (pr_PlanID plan)
      | Some p \<Rightarrow> p = plan \<or> p = compactPlan plan)"

definition kept_unneeded :: "world \<Rightarrow> world \<Rightarrow> PlanRecord list \<Rightarrow> PlanRecord list" where
  "kept_unneeded w w' plans =
     filter (\<lambda>plan. map_of (w_plans w') (pr_PlanID plan) \<noteq> None \<and> \<not> journalRetainsPlan w (pr_PlanID plan)) plans"

lemma journalRetainsPlan_cong:
  "w_commitJournals w' = w_commitJournals w \<Longrightarrow> w_stateDir w' = w_stateDir w \<Longrightarrow> journalRetainsPlan w' = journalRetainsPlan w"
  by (intro ext) (simp add: journalRetainsPlan_def)

definition prune_post :: "world \<Rightarrow> time \<Rightarrow> nat \<Rightarrow> PlanRecord list \<Rightarrow> (nat \<times> nat) outcome \<Rightarrow> world \<Rightarrow> bool" where
  "prune_post v now kept plans r w' =
     ((\<forall>plan \<in> set plans. pruned_to v w' plan) \<and>
      (is_done r \<longrightarrow> length (kept_unneeded v w' plans) \<le> planRetainCount - kept \<and>
         (\<forall>plan \<in> set (kept_unneeded v w' plans). now - pr_UpdatedAt plan \<le> planRetainAge)))"

lemma prune_loop_result:
  assumes "distinct (map pr_PlanID plans)"
    and "\<forall>plan \<in> set plans. map_of (w_plans w) (pr_PlanID plan) = Some plan"
    and "w_commitJournals w = w_commitJournals v" "w_stateDir w = w_stateDir v"
  shows "io_wp (prune_loop now kept dropped compacted plans) (prune_post v now kept plans) w"
  using assms
proof (induction plans arbitrary: w kept dropped compacted)
  case Nil
  then show ?case by (simp add: prune_post_def kept_unneeded_def)
next
  case (Cons plan rest)
  note retained = journalRetainsPlan_cong [OF Cons.prems(3,4)]
  have fresh: "pr_PlanID plan \<notin> pr_PlanID ` set rest" using Cons.prems(1) by simp
  have tail: "io_wp (prune_loop now k d c rest) (\<lambda>r w'. prune_post v now k rest r w' \<and>
      map_of (w_plans w') (pr_PlanID plan) = map_of (w_plans u) (pr_PlanID plan)) u"
    if "\<forall>p \<in> set rest. map_of (w_plans u) (pr_PlanID p) = Some p"
      "w_commitJournals u = w_commitJournals v" "w_stateDir u = w_stateDir v" for k d c u
    using that Cons.prems(1)
    by (intro wp_conj Cons.IH inv_wp [OF prune_loop_others [OF fresh]]) auto
  have after: "io_wp (persistPlanLocked (pr_PlanID plan))
      (\<lambda>r w'. case r of Done _ \<Rightarrow> io_wp (prune_loop now k d c rest) (prune_post v now kept (plan # rest)) w'
         | Fail e \<Rightarrow> prune_post v now kept (plan # rest) (Fail e) w'
         | Crashed \<Rightarrow> prune_post v now kept (plan # rest) Crashed w') u"
    if u: "\<forall>p \<in> set rest. map_of (w_plans u) (pr_PlanID p) = Some p"
      "w_commitJournals u = w_commitJournals v" "w_stateDir u = w_stateDir v"
      and mine: "\<And>w'. map_of (w_plans w') (pr_PlanID plan) = map_of (w_plans u) (pr_PlanID plan) \<Longrightarrow> pruned_to v w' plan"
      and post: "\<And>r w'. prune_post v now k rest r w' \<Longrightarrow>
          map_of (w_plans w') (pr_PlanID plan) = map_of (w_plans u) (pr_PlanID plan) \<Longrightarrow> prune_post v now kept (plan # rest) r w'"
    for k d c u
  proof (rule persist_wp)
    fix r w' assume "persist_step u w'"
    then have same: "w_plans w' = w_plans u" "w_commitJournals w' = w_commitJournals v" "w_stateDir w' = w_stateDir v"
      using u persist_step_fields by force+
    have "io_wp (prune_loop now k d c rest) (prune_post v now kept (plan # rest)) w'"
      by (rule wp_mono [OF tail]) (use u same post in auto)
    moreover have "prune_post v now kept (plan # rest) r' w'" if "\<not> is_done r'" for r'
      using that u same mine [of w'] by (auto simp: prune_post_def pruned_to_def)
    ultimately show "case r of Done _ \<Rightarrow> io_wp (prune_loop now k d c rest) (prune_post v now kept (plan # rest)) w'
         | Fail e \<Rightarrow> prune_post v now kept (plan # rest) (Fail e) w'
         | Crashed \<Rightarrow> prune_post v now kept (plan # rest) Crashed w'"
      by (simp split: outcome.splits)
  qed
  have others: "\<forall>p \<in> set rest. pr_PlanID p \<noteq> pr_PlanID plan" using fresh by (metis imageI)
  have rest: "\<forall>p \<in> set rest. map_of (w_plans w) (pr_PlanID p) = Some p" using Cons.prems(2) by simp
  let ?due = "kept \<ge> planRetainCount \<or> now - pr_UpdatedAt plan > planRetainAge"
  consider (drop) "?due" "\<not> journalRetainsPlan v (pr_PlanID plan)"
    | (compact) "\<not> ?due \<or> journalRetainsPlan v (pr_PlanID plan)" "\<not> pr_Compacted plan" "now - pr_UpdatedAt plan > planCompactAge"
    | (keep) "\<not> ?due \<or> journalRetainsPlan v (pr_PlanID plan)" "pr_Compacted plan \<or> now - pr_UpdatedAt plan \<le> planCompactAge"
    by linarith
  then show ?case
  proof cases
    case drop
    let ?u = "w\<lparr>w_plans := AList.delete (pr_PlanID plan) (w_plans w)\<rparr>"
    have "io_wp (prune_loop now kept dropped compacted (plan # rest)) (prune_post v now kept (plan # rest)) w
        = io_wp (persistPlanLocked (pr_PlanID plan))
      (\<lambda>r w'. case r of Done _ \<Rightarrow> io_wp (prune_loop now kept (Suc dropped) compacted rest) (prune_post v now kept (plan # rest)) w'
         | Fail e \<Rightarrow> prune_post v now kept (plan # rest) (Fail e) w'
         | Crashed \<Rightarrow> prune_post v now kept (plan # rest) Crashed w') ?u"
      using drop by (simp add: retained delete_plan_def)
    also have "\<dots>"
      by (rule after) (use rest others Cons.prems drop in
          \<open>auto simp: pruned_to_def prune_post_def kept_unneeded_def\<close>)
    finally show ?thesis by simp
  next
    case compact
    let ?u = "w\<lparr>w_plans := AList.update (pr_PlanID plan) (compactPlan plan) (w_plans w)\<rparr>"
    have "io_wp (prune_loop now kept dropped compacted (plan # rest)) (prune_post v now kept (plan # rest)) w
        = io_wp (persistPlanLocked (pr_PlanID plan))
      (\<lambda>r w'. case r of Done _ \<Rightarrow> io_wp (prune_loop now (Suc kept) dropped (Suc compacted) rest) (prune_post v now kept (plan # rest)) w'
         | Fail e \<Rightarrow> prune_post v now kept (plan # rest) (Fail e) w'
         | Crashed \<Rightarrow> prune_post v now kept (plan # rest) Crashed w') ?u"
      using compact by (auto simp: retained update_plan_def)
    also have "\<dots>"
      by (rule after) (use rest others Cons.prems compact in
          \<open>auto simp: pruned_to_def prune_post_def kept_unneeded_def\<close>)
    finally show ?thesis by simp
  next
    case keep
    have "io_wp (prune_loop now (Suc kept) dropped compacted rest) (prune_post v now kept (plan # rest)) w"
      by (rule wp_mono [OF tail]) (use rest Cons.prems keep in \<open>auto simp: pruned_to_def prune_post_def kept_unneeded_def\<close>)
    then show ?thesis using keep by (auto simp: retained)
  qed
qed



section \<open>Opening\<close>

definition settled :: "PlanState \<Rightarrow> bool" where
  "settled s = (s \<notin> {PlanReady, PlanProvisional, PlanPreparing, PlanRollingBack, PlanCommitting})"

definition all_settled :: "world \<Rightarrow> bool" where
  "all_settled w = (\<forall>name plan. map_of (w_plans w) name = Some plan \<longrightarrow> settled (pr_State plan))"

lemma settled_update [intro]: "settled (pr_State plan) \<Longrightarrow> inv.keeps all_settled (update_plan name plan)"
  unfolding update_plan_def by (rule inv.keeps_update) (auto simp: all_settled_def)

lemma settled_delete [intro]: "inv.keeps all_settled (delete_plan name)"
  unfolding delete_plan_def by (rule inv.keeps_update) (auto simp: all_settled_def)

lemma settled_of_persist [intro]: "persist.keeps m \<Longrightarrow> inv.keeps all_settled m"
  unfolding inv.keeps_def persist.keeps_def all_settled_def by (metis persist_step_fields)

lemma settled_prune_loop:
  "\<forall>plan \<in> set plans. settled (pr_State plan) \<Longrightarrow> inv.keeps all_settled (prune_loop now kept dropped compacted plans)"
proof (induction plans arbitrary: kept dropped compacted)
  case (Cons plan rest)
  then show ?case
    by (auto intro!: inv.keeps_rules settled_update settled_delete settled_of_persist [OF persist_persistPlanLocked] Cons.IH)
qed simp

lemma settled_prune [intro]: "inv.keeps all_settled (pruneTerminalPlansLocked now)"
proof -
  have "\<forall>plan \<in> set (terminal_plans w). settled (pr_State plan)" for w
    by (auto simp: terminal_plans_def settled_def)
  then have "inv.keeps all_settled (io_bind (io_get terminal_plans) (prune_loop now 0 0 0))"
    using settled_prune_loop unfolding inv.keeps_def by (auto simp: io_bind_def io_get_def)
  then show ?thesis unfolding pruneTerminalPlansLocked_def
    by - (rule inv.keeps_bind [OF inv.keeps_get], rule inv.keeps_if, rule inv.keeps_return)
qed

lemma settled_expire_loop:
  "\<forall>(name, plan) \<in> set plans. settled (pr_State plan) \<Longrightarrow> inv.keeps all_settled (expire_loop now ttl activity plans expired)"
proof (induction plans arbitrary: expired)
  case (Cons entry rest)
  obtain name previous where entry: "entry = (name, previous)" by (cases entry)
  have "settled (pr_State previous)" using Cons.prems by (simp add: entry)
  then show ?case unfolding entry expire_loop.simps Let_def
    by (intro inv.keeps_rules settled_update settled_of_persist [OF persist_persistPlanLocked] Cons.IH)
      (use Cons.prems in \<open>auto simp: settled_def\<close>)
qed simp

lemma settled_expire:
  assumes "store_wf w" "all_settled w"
  shows "io_wp (expireIdlePlansLocked now ttl activity) (\<lambda>_. all_settled) w"
proof -
  have "\<forall>(name, plan) \<in> set (w_plans w). settled (pr_State plan)"
    using assms by (auto simp: all_settled_def store_wf_def)
  then have "io_wp (expire_loop now ttl activity (w_plans w) []) (\<lambda>_. all_settled) w"
    using assms(2) by (intro inv_wp settled_expire_loop)
  then show ?thesis using assms(2) by (simp add: expireIdlePlansLocked_def)
qed

lemma restart_plan_settled:
  "(case restart_plan now plan of None \<Rightarrow> settled (pr_State plan)
      | Some restored \<Rightarrow> settled (pr_State restored) \<and> canTransition (pr_State plan) (pr_State restored) \<and>
          pr_PlanID restored = pr_PlanID plan \<and> pr_WorkspaceID restored = pr_WorkspaceID plan)"
  by (cases "pr_State plan") (simp_all add: restart_plan_def canTransition_def settled_def)

lemma restart_loop_settles:
  assumes "distinct (map fst plans)" "\<forall>(name, plan) \<in> set plans. map_of (w_plans w) name = Some plan"
    and "\<forall>name plan. map_of (w_plans w) name = Some plan \<longrightarrow> name \<notin> fst ` set plans \<longrightarrow> settled (pr_State plan)"
  shows "io_wp (restart_loop plans) (\<lambda>_ w'. all_settled w' \<and> plans_legal w w') w"
  using assms
proof (induction plans arbitrary: w)
  case Nil
  then show ?case by (simp add: all_settled_def)
next
  case (Cons entry rest)
  obtain name plan where entry: "entry = (name, plan)" by (cases entry)
  have found: "map_of (w_plans w) name = Some plan" using Cons.prems(2) by (simp add: entry)
  show ?case
  proof (cases "restart_plan (w_now w) plan")
    case None
    then have "settled (pr_State plan)"
      using restart_plan_settled [where now = "w_now w" and plan = plan] by simp
    then have "settled (pr_State p)" if "map_of (w_plans w) n = Some p" "n \<notin> fst ` set rest" for n p
      using that found Cons.prems(3) by (cases "n = name") (auto simp: entry)
    then have "io_wp (restart_loop rest) (\<lambda>_ w'. all_settled w' \<and> plans_legal w w') w"
      using Cons.prems by (intro Cons.IH) auto
    with None show ?thesis by (simp add: entry)
  next
    case (Some restored)
    let ?u = "(tick w)\<lparr>w_plans := AList.update name restored (w_plans w)\<rparr>"
    have restored: "settled (pr_State restored)" "plan_move (Some plan) (Some restored)" "pr_PlanID restored = pr_PlanID plan"
      using restart_plan_settled [where now = "w_now w" and plan = plan] Some by auto
    have legal: "plans_legal w ?u"
      using legal_update [of "tick w" name plan restored] found restored by simp
    have "settled (pr_State p)" if "map_of (w_plans ?u) n = Some p" "n \<notin> fst ` set rest" for n p
      using that restored(1) Cons.prems(3) by (cases "n = name") (auto simp: entry)
    moreover have "name \<notin> fst ` set rest" using Cons.prems(1) by (simp add: entry)
    then have "n \<noteq> name" if "(n, p) \<in> set rest" for n p using that by (metis fst_conv imageI)
    then have "\<forall>(n, p) \<in> set rest. map_of (w_plans ?u) n = Some p" using Cons.prems(2) by (auto simp: entry)
    ultimately have "io_wp (restart_loop rest) (\<lambda>_ w'. all_settled w' \<and> plans_legal ?u w') ?u"
      using Cons.prems(1) by (intro Cons.IH) (simp_all add: entry)
    then have "io_wp (restart_loop rest) (\<lambda>_ w'. all_settled w' \<and> plans_legal w w') ?u"
      by (rule wp_mono) (blast intro: legal legal.frame_trans)
    then have "io_wp (io_bind (restart_loop rest) (\<lambda>changed. io_return (name # changed)))
        (\<lambda>_ w'. all_settled w' \<and> plans_legal w w') ?u"
      by (rule wp_bindI) simp_all
    then show ?thesis
      by (simp only: entry restart_loop.simps wp_step Some option.case update_plan_def tick_fields)
  qed
qed

lemma loadPlanRecords_wf:
  "store_wf w \<Longrightarrow> io_wp (loadPlanRecords workspace records) (\<lambda>_. store_wf) w"
proof (induction records arbitrary: w)
  case (Cons entry rest)
  obtain name plan where entry: "entry = (name, plan)" by (cases entry)
  then show ?case using Cons store_wf_update [OF Cons.prems, of plan name]
    by (auto simp: update_plan_def)
qed simp

lemma loadLegacyPlans_wf:
  assumes "store_wf w"
  shows "io_wp (loadLegacyPlans workspace plans) (\<lambda>_. store_wf) w"
proof -
  have "store_wf (u\<lparr>w_plans := fold (\<lambda>plan. AList.update (pr_PlanID plan) plan) plans (w_plans u)\<rparr>)" if "store_wf u" for u
    using that
  proof (induction plans arbitrary: u)
    case (Cons plan rest)
    from Cons.IH [OF store_wf_update [OF Cons.prems refl, of plan]] show ?case by simp
  qed (simp add: store_wf_def)
  then show ?thesis using assms by simp
qed

lemma settled_persist_all [intro]: "inv.keeps all_settled (persist_all names)"
  by (induction names) (auto intro!: inv.keeps_rules settled_of_persist [OF persist_persistPlanLocked])

lemma all_settled_cong: "w_plans w' = w_plans w \<Longrightarrow> all_settled w' = all_settled w"
  by (simp add: all_settled_def)

lemma store_wf_cong: "w_plans w' = w_plans w \<Longrightarrow> store_wf w' = store_wf w"
  by (simp add: store_wf_def)

text \<open>The part of \<open>loadPlans\<close> after the records are in memory.\<close>

lemma load_tail_settles:
  assumes "store_wf w" and tail: "\<And>restored x. inv.keeps all_settled (f restored x)"
  shows "io_wp (io_bind (io_get w_plans) (\<lambda>plans. io_bind (restart_loop plans) (\<lambda>restored. io_bind io_now (\<lambda>now.
      io_bind (expireIdlePlansLocked now ttl (\<lambda>_. None)) (f restored)))))
    (\<lambda>r w'. is_done r \<longrightarrow> all_settled w') w"
proof -
  have "io_wp (restart_loop (w_plans w)) (\<lambda>_ w'. all_settled w' \<and> plans_legal w w') w"
    using assms by (intro restart_loop_settles) (auto simp: store_wf_def dest: map_of_SomeD intro: rev_image_eqI)
  moreover have "io_wp (io_bind (expireIdlePlansLocked now ttl (\<lambda>_. None)) (f restored))
      (\<lambda>r w'. is_done r \<longrightarrow> all_settled w') (tick w')"
    if "all_settled w'" "plans_legal w w'" for now restored w'
  proof (rule wp_bindI [OF settled_expire])
    show "store_wf (tick w')" "all_settled (tick w')"
      using that assms by (auto simp: plans_legal_def store_wf_def all_settled_def)
    show "io_wp (f restored x) (\<lambda>r w'. is_done r \<longrightarrow> all_settled w') u" if "all_settled u" for x u
      by (rule wp_mono [OF inv_wp [OF tail that]]) simp
  qed simp_all
  ultimately show ?thesis
    unfolding wp_step by - (rule wp_bindI, assumption, unfold wp_step, blast, simp_all)
qed

text \<open>
  C30. A restart leaves nothing half done: after a workspace has loaded its plans, no plan is
  preparing, prepared, rolling back or committing. What the dead process held is FAILED, and a
  commit it was in the middle of is RECOVERY_REQUIRED.
\<close>

theorem loadPlans_settles:
  assumes "loadPlans idleTTL w = (Done (), w')" "w_plans w = []" "w_stateDir w"
    and "map_of (w_plans w') name = Some plan"
  shows "pr_State plan \<notin> {PlanReady, PlanProvisional, PlanPreparing, PlanRollingBack, PlanCommitting}"
proof -
  have wf: "store_wf w" using assms(2) by (simp add: store_wf_def)
  have tail: "inv.keeps all_settled (case_prod (\<lambda>expired err. case err of Some e \<Rightarrow> io_throw e
      | None \<Rightarrow> io_bind io_now (\<lambda>now. io_bind (pruneTerminalPlansLocked now) (\<lambda>_.
          io_bind (persist_all (names restored expired)) (\<lambda>_. if legacy = [] then io_return ()
            else io_bind io_call (\<lambda>_. io_update (\<lambda>w. w\<lparr>w_legacyPlans := None\<rparr>)))))) x)" for restored x names legacy
  proof -
    have "inv.keeps all_settled io_now" "inv.keeps all_settled (io_update (\<lambda>w. w\<lparr>w_legacyPlans := None\<rparr>))"
      "inv.keeps all_settled io_call"
      by (auto simp: inv.keeps_def io_now_def io_update_def all_settled_def io_call_def split: list.splits io_event.splits)
    then show ?thesis by (intro inv.keeps_rules settled_prune settled_persist_all)
  qed
  have head: "io_wp (io_bind (loadLegacyPlans workspace legacy) (\<lambda>_. io_bind (loadPlanRecords workspace records) (\<lambda>_. m)))
      (\<lambda>r w'. is_done r \<longrightarrow> all_settled w') w"
    if m: "\<And>v. store_wf v \<Longrightarrow> io_wp m (\<lambda>r w'. is_done r \<longrightarrow> all_settled w') v" for m workspace legacy records
  proof -
    have "io_wp (io_bind (loadPlanRecords workspace records) (\<lambda>_. m)) (\<lambda>r w'. is_done r \<longrightarrow> all_settled w') u"
      if "store_wf u" for u
      by (rule wp_bindI [OF loadPlanRecords_wf [OF that]]) (simp_all add: m)
    then show ?thesis using loadLegacyPlans_wf [OF wf, of workspace legacy]
      by - (rule wp_bindI, assumption, simp_all del: wp_bind)
  qed
  have "io_wp (loadPlans idleTTL) (\<lambda>r w'. is_done r \<longrightarrow> all_settled w') w"
    unfolding loadPlans_def wp_step Let_def if_not_P [OF iffD2 [OF not_not assms(3)]]
    by (rule head, rule load_tail_settles, assumption, rule tail)
  from wp_result [OF this assms(1)] assms(4) show ?thesis by (auto simp: all_settled_def settled_def)
qed

theorem loadPlans_settles_witness:
  "\<exists>w' plan. loadPlans hour ((sample_world [(''plan_1'', sample_plan PlanCommitting)] [] [])\<lparr>w_plans := []\<rparr>) = (Done (), w') \<and>
     map_of (w_plans w') ''plan_1'' = Some plan \<and> pr_State plan \<noteq> PlanCommitting"
proof -
  let ?w = "(sample_world [(''plan_1'', sample_plan PlanCommitting)] [] [])\<lparr>w_plans := []\<rparr>"
  have "fst (loadPlans hour ?w) = Done ()" "map_of (w_plans (snd (loadPlans hour ?w))) ''plan_1'' \<noteq> None"
    by code_simp+
  then obtain w' plan where run: "loadPlans hour ?w = (Done (), w')" "map_of (w_plans w') ''plan_1'' = Some plan"
    by (metis not_None_eq prod.collapse)
  from loadPlans_settles [OF run(1) _ _ run(2)] run show ?thesis
    by (auto simp: sample_world_def)
qed

section \<open>A transition that cannot be made durable\<close>


section \<open>Plans do not touch the tree\<close>

definition canonical_same :: "world \<Rightarrow> world \<Rightarrow> bool" where
  "canonical_same w w' =
     (w_files w' = w_files w \<and> w_commitJournals w' = w_commitJournals w \<and> w_identity w' = w_identity w \<and>
      w_resolve w' = w_resolve w \<and> w_stateDir w' = w_stateDir w \<and> w_inode w' = w_inode w)"

interpretation canon: frame canonical_same
  by unfold_locales (auto simp: canonical_same_def)

lemma canon_of_persist [intro]: "persist.keeps m \<Longrightarrow> canon.keeps m"
  unfolding persist.keeps_def canon.keeps_def canonical_same_def by (blast dest: persist_step_fields)

lemma canon_basic [intro, simp]:
  "canon.keeps io_call" "canon.keeps io_now" "canon.keeps (persistPlanLocked planID)"
  "canon.keeps (update_plan planID plan)" "canon.keeps (delete_plan planID)" "canon.keeps (release_plan planID)"
  "canon.keeps (record_event_now action outcome plan)"
proof -
  show "canon.keeps io_call" "canon.keeps (persistPlanLocked planID)" by (rule canon_of_persist, simp)+
  show now: "canon.keeps io_now" by (rule canon.keepsI) (simp add: canonical_same_def)
  show "canon.keeps (update_plan planID plan)" "canon.keeps (delete_plan planID)" "canon.keeps (release_plan planID)"
    unfolding update_plan_def delete_plan_def release_plan_def
    by (rule canon.keeps_update, simp add: canonical_same_def)+
  show "canon.keeps (record_event_now action outcome plan)"
    unfolding record_event_now_def by (intro canon.keeps_rules now)
qed

lemmas canon_rules = canon.keeps_rules canon_basic

lemma canon_prune [intro, simp]: "canon.keeps (pruneTerminalPlansLocked now)"
proof -
  have "canon.keeps (prune_loop now kept dropped compacted plans)" for kept dropped compacted plans
    by (induction plans arbitrary: kept dropped compacted) (auto intro!: canon_rules)
  then show ?thesis unfolding pruneTerminalPlansLocked_def by (intro canon_rules)
qed

lemma canon_store [intro, simp]:
  "canon.keeps (finishPlanLocked planID)"
  "canon.keeps (transitionPlanWithConflict planID expected state action outcome preparation conflict)"
  "canon.keeps (transitionPlan planID expected state action outcome preparation)"
  "canon.keeps (conflictPlan planID expected action preparation cause)"
  "canon.keeps (InspectPlan planID expected)"
  "canon.keeps (recordInvariants planID expected invariants)"
  "canon.keeps (PreviewPlan buildPreview planID expected)"
proof -
  show finish: "canon.keeps (finishPlanLocked planID)" for planID
    unfolding finishPlanLocked_def by (intro canon_rules canon_prune)
  show transition: "canon.keeps (transitionPlanWithConflict planID expected state action outcome preparation conflict)"
    for planID expected state action outcome preparation conflict
    unfolding transitionPlanWithConflict_def by (intro canon_rules finish)
  show "canon.keeps (transitionPlan planID expected state action outcome preparation)"
    unfolding transitionPlan_def by (rule transition)
  show "canon.keeps (conflictPlan planID expected action preparation cause)"
    unfolding conflictPlan_def Let_def by (rule transition)
  show "canon.keeps (InspectPlan planID expected)" unfolding InspectPlan_def by (intro canon_rules)
  show "canon.keeps (recordInvariants planID expected invariants)"
    unfolding recordInvariants_def by (intro canon_rules)
  show "canon.keeps (PreviewPlan buildPreview planID expected)"
    unfolding PreviewPlan_def preview_read_def preview_store_def by (intro canon_rules)
qed

end
