(* ===== verification/Stage_Request.thy ===== *)
theory Stage_Request
  imports World Plan_State
begin

text \<open>
  The write set of a plan (\<open>planStageRequest\<close> of \<^verbatim>\<open>internal/workspace/commit.go\<close>): one file per diff of
  the preview, with the object found on disk before it and the object the plan means to leave
  behind, adjusted by the operations that create, delete and move files.
\<close>

definition after_snapshot :: "DiskSnapshot \<Rightarrow> bytes \<Rightarrow> DiskSnapshot" where
  "after_snapshot before after =
     (let carried = before\<lparr> ds_Device := 0, ds_Inode := 0, ds_MTimeNS := 0, ds_Size := int (length after) \<rparr>;
          created = (if ds_Kind carried = ObjectMissing
                     then missing_snapshot\<lparr> ds_Kind := ObjectRegularText, ds_Size := int (length after), ds_Mode := 0x1A4 \<rparr>
                     else carried)
      in if ds_Kind created = ObjectSymlink then created\<lparr> ds_SymlinkTarget := after \<rparr> else created)"

fun stage_diffs :: "tree \<Rightarrow> (string \<Rightarrow> string result) \<Rightarrow> ExactDiff list \<Rightarrow> PlanStageFile list result" where
  "stage_diffs files resolve [] = Ok []"
| "stage_diffs files resolve (diff # rest) =
     (case resolve (diff_Path diff) of
        Inl e \<Rightarrow> Error e
      | Inr absolute \<Rightarrow>
          (case inspectPath files absolute of
             Inl e \<Rightarrow> Error e
           | Inr (beforeDisk, beforeBytes) \<Rightarrow>
               if beforeBytes \<noteq> diff_Before diff
               then Error (Codedf CodeCommitPreconditionChanged ''content no longer matches preview'')
               else
                 (case stage_diffs files resolve rest of
                    Inl e \<Rightarrow> Error e
                  | Inr staged \<Rightarrow>
                      Ok (\<lparr> sf_Path = diff_Path diff, sf_Before = beforeBytes, sf_After = diff_After diff,
                            sf_BeforeExists = (ds_Kind beforeDisk \<noteq> ObjectMissing), sf_AfterExists = True,
                            sf_BeforeDisk = beforeDisk, sf_AfterDisk = after_snapshot beforeDisk (diff_After diff),
                            sf_Patch = [] \<rparr> # staged))))"

text \<open>\<open>byPath\<close> holds the position of the last file with a path.\<close>

definition file_for :: "PlanStageFile list \<Rightarrow> string \<Rightarrow> nat option" where
  "file_for staged path = find (\<lambda>i. sf_Path (staged ! i) = path) (rev [0..<length staged])"

definition update_file :: "string \<Rightarrow> (PlanStageFile \<Rightarrow> PlanStageFile) \<Rightarrow> PlanStageFile list \<Rightarrow> PlanStageFile list" where
  "update_file path change staged =
     (case file_for staged path of None \<Rightarrow> staged | Some i \<Rightarrow> staged[i := change (staged ! i)])"

definition removed_file :: "PlanStageFile \<Rightarrow> PlanStageFile" where
  "removed_file file = file\<lparr> sf_AfterExists := False, sf_AfterDisk := missing_snapshot \<rparr>"

definition created_file :: "PlanStageFile \<Rightarrow> PlanStageFile" where
  "created_file file = file\<lparr> sf_AfterExists := True,
     sf_AfterDisk := missing_snapshot\<lparr> ds_Kind := ObjectRegularText, ds_Size := int (length (sf_After file)), ds_Mode := 0x1A4 \<rparr> \<rparr>"

definition moved_file :: "DiskSnapshot \<Rightarrow> PlanStageFile \<Rightarrow> PlanStageFile" where
  "moved_file source file =
     (let disk = source\<lparr> ds_Device := 0, ds_Inode := 0, ds_MTimeNS := 0, ds_Size := int (length (sf_After file)) \<rparr>
      in file\<lparr> sf_AfterExists := True,
           sf_AfterDisk := (if ds_Kind disk = ObjectSymlink then disk\<lparr> ds_SymlinkTarget := sf_After file \<rparr> else disk) \<rparr>)"

definition stage_operation :: "PlanOperation \<Rightarrow> PlanStageFile list \<Rightarrow> PlanStageFile list" where
  "stage_operation operation staged =
     (case op_Kind operation of
        OperationCreateFile \<Rightarrow> update_file (op_Path operation) created_file staged
      | OperationDeleteFile \<Rightarrow> update_file (op_Path operation) removed_file staged
      | OperationMoveFile \<Rightarrow>
          (case file_for staged (op_From operation) of
             None \<Rightarrow> staged
           | Some i \<Rightarrow>
               update_file (op_To operation) (moved_file (sf_BeforeDisk (staged ! i)))
                 (staged[i := removed_file (staged ! i)]))
      | _ \<Rightarrow> staged)"

definition planStageRequest :: "tree \<Rightarrow> (string \<Rightarrow> string result) \<Rightarrow> PlanRecord \<Rightarrow> PlanStageRequest result" where
  "planStageRequest files resolve plan =
     (case pr_Preview plan of
        None \<Rightarrow> Error (PlainError ''plan has no successful preview'')
      | Some preview \<Rightarrow>
          if pv_Outcome preview \<noteq> ''ok'' then Error (PlainError ''plan has no successful preview'')
          else
            (case stage_diffs files resolve (pv_Diffs preview) of
               Inl e \<Rightarrow> Error e
             | Inr staged \<Rightarrow>
                 Ok \<lparr> sr_PlanID = pr_PlanID plan, sr_PlanRevision = pr_PlanRevision plan,
                      sr_Files = sort_key sf_Path (fold stage_operation (pr_Operations plan) staged),
                      sr_RequiresFormatter = (\<exists>operation \<in> set (pr_Operations plan). op_Indentation operation = ''formatter'') \<rparr>))"

section \<open>The write set is the tree's\<close>

definition staged_from :: "tree \<Rightarrow> (string \<Rightarrow> string result) \<Rightarrow> PlanStageFile \<Rightarrow> bool" where
  "staged_from files resolve file =
     (\<exists>absolute. resolve (sf_Path file) = Ok absolute \<and> inspectPath files absolute = Ok (sf_BeforeDisk file, sf_Before file))"

lemma stage_diffs_from:
  "stage_diffs files resolve diffs = Ok staged \<Longrightarrow>
     (\<forall>f \<in> set staged. staged_from files resolve f) \<and> map sf_Path staged = map diff_Path diffs \<and>
     map sf_After staged = map diff_After diffs"
  by (induction diffs arbitrary: staged)
    (fastforce simp: staged_from_def split: sum.splits prod.splits if_splits)+

text \<open>What the operations leave of the write set: its paths, its new bytes and its preimages.\<close>

definition same_base :: "PlanStageFile list \<Rightarrow> PlanStageFile list \<Rightarrow> bool" where
  "same_base staged staged' =
     (map (\<lambda>f. (sf_Path f, sf_After f, sf_Before f, sf_BeforeDisk f)) staged' =
      map (\<lambda>f. (sf_Path f, sf_After f, sf_Before f, sf_BeforeDisk f)) staged)"

lemma same_base_update:
  assumes "\<And>f. sf_Path (change f) = sf_Path f \<and> sf_Before (change f) = sf_Before f \<and>
    sf_BeforeDisk (change f) = sf_BeforeDisk f \<and> sf_After (change f) = sf_After f"
  shows "same_base staged (staged[i := change (staged ! i)])" "same_base staged (update_file path change staged)"
proof -
  show step: "same_base staged (staged[i := change (staged ! i)])" for i
    by (cases "i < length staged") (simp_all add: same_base_def map_update assms list_update_same_conv list_update_beyond)
  then show "same_base staged (update_file path change staged)"
    by (auto simp: update_file_def same_base_def split: option.splits)
qed

lemma same_base_trans: "same_base a b \<Longrightarrow> same_base b c \<Longrightarrow> same_base a c"
  by (simp add: same_base_def)

lemma same_base_operation: "same_base staged (stage_operation operation staged)"
proof -
  note defs = created_file_def removed_file_def moved_file_def Let_def
  have "same_base staged (update_file p created_file staged)" "same_base staged (update_file p removed_file staged)"
    "same_base staged (staged[i := removed_file (staged ! i)])" for p i
    by (rule same_base_update; simp add: defs)+
  moreover have "same_base l (update_file p (moved_file d) l)" for l p d
    by (rule same_base_update) (simp add: defs)
  ultimately show ?thesis
    by (auto simp: stage_operation_def intro: same_base_trans split: OperationKind.splits option.splits)
      (simp_all add: same_base_def)
qed

lemma same_base_fold: "same_base staged (fold stage_operation ops staged)"
proof (induction ops arbitrary: staged)
  case (Cons op ops)
  then show ?case using same_base_operation same_base_trans by fastforce
qed (simp add: same_base_def)

lemma same_base_facts:
  assumes "same_base staged staged'"
  shows "map sf_Path staged' = map sf_Path staged" "map sf_After staged' = map sf_After staged"
    "\<forall>f \<in> set staged. staged_from files resolve f \<Longrightarrow> f \<in> set staged' \<Longrightarrow> staged_from files resolve f"
proof -
  let ?key = "\<lambda>f. (sf_Path f, sf_After f, sf_Before f, sf_BeforeDisk f)"
  have keys: "map ?key staged' = map ?key staged" using assms by (simp add: same_base_def)
  show "map sf_Path staged' = map sf_Path staged" using arg_cong [OF keys, of "map fst"] by (simp add: comp_def)
  show "map sf_After staged' = map sf_After staged" using arg_cong [OF keys, of "map (fst \<circ> snd)"] by (simp add: comp_def)
  assume all: "\<forall>f \<in> set staged. staged_from files resolve f" and f: "f \<in> set staged'"
  from f have "?key f \<in> set (map ?key staged')" by simp
  then obtain g where "g \<in> set staged" "?key g = ?key f" unfolding keys by auto
  then show "staged_from files resolve f" using all by (auto simp: staged_from_def)
qed

text \<open>
  A write set describes the tree it was built on: every file of the request names a path of
  the preview's diffs, in order of path, with the bytes and the disk object the tree really holds
  as its preimage, so a plan whose base has moved is refused instead of staged.
\<close>

theorem planStageRequest_describes_tree:
  assumes "planStageRequest files resolve plan = Ok request"
  shows "(\<forall>f \<in> set (sr_Files request). staged_from files resolve f) \<and> sorted (map sf_Path (sr_Files request)) \<and>
    (\<exists>preview. pr_Preview plan = Some preview \<and> pv_Outcome preview = ''ok'' \<and>
       mset (map sf_Path (sr_Files request)) = mset (map diff_Path (pv_Diffs preview)))"
proof -
  from assms obtain preview staged where p: "pr_Preview plan = Some preview" "pv_Outcome preview = ''ok''"
    "stage_diffs files resolve (pv_Diffs preview) = Ok staged"
    "sr_Files request = sort_key sf_Path (fold stage_operation (pr_Operations plan) staged)"
    by (auto simp: planStageRequest_def split: option.splits if_splits sum.splits)
  note base = same_base_facts [OF same_base_fold [of staged "pr_Operations plan"]]
  have "\<forall>f \<in> set (sr_Files request). staged_from files resolve f"
    using base(3) stage_diffs_from [OF p(3)] p(4) by auto
  moreover have "mset (map sf_Path (sr_Files request)) = mset (map diff_Path (pv_Diffs preview))"
    unfolding p(4) mset_map mset_sort using base(1) stage_diffs_from [OF p(3)] by (metis mset_map)
  ultimately show ?thesis using p by (auto simp: sorted_sort_key)
qed

definition sample_preview :: "ExactDiff list \<Rightarrow> PlanPreview" where
  "sample_preview diffs = \<lparr> pv_PreviewRevision = ''preview_0'', pv_PlanRevision = 1, pv_Outcome = ''ok'',
     pv_NormalizedOrder = [], pv_AffectedFiles = map diff_Path diffs, pv_Diffs = diffs, pv_Conflicts = [],
     pv_Hunks = [], pv_CanonicalChanged = False \<rparr>"

theorem planStageRequest_describes_tree_witness:
  "\<exists>request. planStageRequest (map_of [(''/r/b'', FileNode ''old'' sample_meta)]) Ok
       ((sample_plan PlanPreviewed)\<lparr> pr_Preview := Some (sample_preview
          [exactDiff (\<lambda>_. []) ''/r/b'' ''old'' ''new'' 0 3 ''new'', exactDiff (\<lambda>_. []) ''/r/a'' [] ''x'' 0 0 ''x'']) \<rparr>) = Ok request \<and>
     sorted (map sf_Path (sr_Files request)) \<and> length (sr_Files request) = 2"
proof -
  let ?run = "planStageRequest (map_of [(''/r/b'', FileNode ''old'' sample_meta)]) Ok
       ((sample_plan PlanPreviewed)\<lparr> pr_Preview := Some (sample_preview
          [exactDiff (\<lambda>_. []) ''/r/b'' ''old'' ''new'' 0 3 ''new'', exactDiff (\<lambda>_. []) ''/r/a'' [] ''x'' 0 0 ''x'']) \<rparr>)"
  have "is_ok ?run" "length (sr_Files (projr ?run)) = 2" by code_simp+
  then obtain request where run: "?run = Ok request" "length (sr_Files request) = 2" by (cases ?run) auto
  from planStageRequest_describes_tree [OF run(1)] run show ?thesis by blast
qed

end
