(* ===== verification/Plan_Prepare.thy ===== *)
theory Plan_Prepare
  imports Plan_Lifecycle Stage_Request
begin

text \<open>
  Preparing, rolling back and reopening a plan (\<^verbatim>\<open>internal/workspace/prepare.go\<close>). A \<open>PlanStager\<close> is
  its answers: the provider epoch, what \<open>PreparationMetadata\<close> and \<open>PreparedRequest\<close> return when the
  stager has them. \<open>Stage\<close>, \<open>Commit\<close> and \<open>Rollback\<close> are calls into the environment that succeed or
  fail. The plan record a refusal carries beside its error for reporting is left out.
\<close>

section \<open>Stagers\<close>

record VerificationResult =
  vr_Stages :: "VerificationStage list"
  vr_ToolDelta :: "ToolDelta list"

record PlanStager =
  st_Epoch :: u64
  st_metadata :: "(string \<times> string \<times> string) option"
  st_prepared :: "(PlanStageRequest \<times> VerificationResult) option"

definition stager_call :: "unit io" where
  "stager_call = io_call"

definition noProvider :: go_error where
  "noProvider = Coded CodeProviderUnavailable (Some (PlainError ''requires a provider''))"

section \<open>The prepare lease\<close>

definition acquirePrepareLease :: "string \<Rightarrow> u64 \<Rightarrow> PlanRecord option io" where
  "acquirePrepareLease planID expected =
     io_bind (io_get (\<lambda>w. planID \<in> set (w_activePlans w))) (\<lambda>held.
       if held
       then io_bind (io_try (InspectPlan planID expected)) (\<lambda>inspected.
              case inspected of
                Inr current \<Rightarrow>
                  if pr_State current = PlanReady \<or> pr_State current = PlanProvisional
                  then io_return (Some current)
                  else io_throw (Codedf CodeWorkspaceBusy ''transaction is already preparing'')
              | Inl _ \<Rightarrow> io_throw (Codedf CodeWorkspaceBusy ''transaction is already preparing''))
       else io_bind (io_update (\<lambda>w. w\<lparr>w_activePlans := planID # w_activePlans w\<rparr>)) (\<lambda>_. io_return None))"

definition current_preview :: "(tree \<Rightarrow> PlanRecord \<Rightarrow> PlanPreview) \<Rightarrow> string \<Rightarrow> u64 \<Rightarrow> PlanRecord \<Rightarrow> PlanRecord io" where
  "current_preview buildPreview planID expected plan =
     (if (case pr_Preview plan of None \<Rightarrow> True | Some preview \<Rightarrow> pv_PlanRevision preview \<noteq> expected)
      then PreviewPlan buildPreview planID expected
      else io_return plan)"

definition previewed_ok :: "PlanRecord \<Rightarrow> bool" where
  "previewed_ok plan = (case pr_Preview plan of None \<Rightarrow> False | Some preview \<Rightarrow> pv_Outcome preview = ''ok'')"

definition previewedPlan :: "(tree \<Rightarrow> PlanRecord \<Rightarrow> PlanPreview) \<Rightarrow> string \<Rightarrow> u64 \<Rightarrow> PlanRecord io" where
  "previewedPlan buildPreview planID expected =
     io_bind (InspectPlan planID expected) (\<lambda>plan.
       if \<not> canTransition (pr_State plan) PlanPreparing then io_throw illegalTransition
       else if pr_Compacted plan then io_throw compactedPlan
       else if pr_Operations plan = [] then io_throw (Codedf CodePlanStateInvalid ''plan declares no operations'')
       else
         io_bind (current_preview buildPreview planID expected plan) (\<lambda>plan.
         if previewed_ok plan then io_return plan
         else io_throw (Coded CodePlanValidationConflicts (Some (PlainError ''preview found conflicts'')))))"

section \<open>What a preparation records\<close>

fun hex_digit :: "nat \<Rightarrow> char" where
  "hex_digit n = (if n < 10 then char_of (48 + n) else char_of (87 + n))"

definition hex_bytes :: "bytes \<Rightarrow> string" where
  "hex_bytes content = concat (map (\<lambda>c. let n = of_char c :: nat in [hex_digit (n div 16), hex_digit (n mod 16)]) content)"

definition bool_text :: "bool \<Rightarrow> string" where
  "bool_text b = (if b then ''true'' else ''false'')"

definition prepared_hash :: "(bytes \<Rightarrow> string) \<Rightarrow> string \<Rightarrow> PlanStageFile list \<Rightarrow> string" where
  "prepared_hash hashBytes seed files =
     fold (\<lambda>f hash. hashBytes (hash @ '':'' @ sf_Path f @ '':'' @ bool_text (sf_AfterExists f) @ '':'' @ hex_bytes (sf_After f)))
       files (hashBytes seed)"

text \<open>The preview is present when this runs; \<open>preview\<close> is what \<open>plan.Preview\<close> points to.\<close>

definition preparationFor ::
  "(bytes \<Rightarrow> string) \<Rightarrow> PlanPreview \<Rightarrow> PlanStageRequest \<Rightarrow> PlanStager \<Rightarrow> PlanPreparation \<times> PlanState" where
  "preparationFor hashBytes preview request stager =
     (let (backend, baseRevision, evidencePaths) =
            (case st_metadata stager of None \<Rightarrow> ([], pv_PreviewRevision preview, ''canonical'') | Some metadata \<Rightarrow> metadata);
          diskChecks = (if st_metadata stager = None then ''unavailable_buffer_backed_prepare'' else ''sandbox_manifest_verified'');
          (preparedRequest, stages, toolDelta) =
            (case st_prepared stager of
               None \<Rightarrow> (request, [], [])
             | Some (candidate, result) \<Rightarrow> (candidate, vr_Stages result, vr_ToolDelta result));
          seed = pv_PreviewRevision preview @ '':'' @ decimal (unat (st_Epoch stager)) @ '':'' @ backend @ '':'' @ baseRevision;
          status = fold (\<lambda>stage found. if vs_Stage stage = ''diagnostics'' then cov_Semantic (vs_Coverage stage) else found)
                     stages ''suppressed''
      in (empty_preparation\<lparr> pp_PreparedRevision := ''prep_'' @ prepared_hash hashBytes seed (sr_Files preparedRequest),
            pp_ProviderEpoch := st_Epoch stager, pp_AffectedFiles := pv_AffectedFiles preview,
            pp_Diagnostics := status, pp_DiskChecks := diskChecks, pp_SandboxBackend := backend,
            pp_BaseRevision := baseRevision, pp_EvidencePaths := evidencePaths,
            pp_Verification := stages, pp_ToolDelta := toolDelta \<rparr>,
          if verificationGaps stages \<noteq> [] then PlanProvisional else PlanReady))"

text \<open>The evaluator answers about a plan and a preparation, or there is none.\<close>

type_synonym evaluator = "(PlanRecord \<Rightarrow> PlanPreparation \<Rightarrow> PlanInvariant list) option"

definition evaluateInvariants :: "evaluator \<Rightarrow> string \<Rightarrow> u64 \<Rightarrow> PlanRecord \<Rightarrow> PlanPreparation \<Rightarrow> PlanInvariant list io" where
  "evaluateInvariants evaluator planID expected plan preparation =
     io_bind io_now (\<lambda>now.
       let answers = (case evaluator of None \<Rightarrow> [] | Some evaluate \<Rightarrow> evaluate plan preparation);
           merged = mergeInvariantResults (pr_Invariants plan) answers (pp_PreparedRevision preparation) now
       in io_bind (recordInvariants planID expected merged) (\<lambda>_. io_return merged))"

section \<open>Prepare\<close>

definition failed_prepare :: "string \<Rightarrow> u64 \<Rightarrow> go_error \<Rightarrow> 'a io" where
  "failed_prepare planID expected cause =
     io_bind (io_try (transitionPlan planID expected PlanFailed ''prepare_failed'' ''error'' None)) (\<lambda>_. io_throw cause)"

text \<open>The state the evaluation of the declared invariants allows.\<close>

definition prepare_decide ::
  "evaluator \<Rightarrow> string \<Rightarrow> u64 \<Rightarrow> PlanRecord \<Rightarrow> PlanPreparation \<Rightarrow> PlanState \<Rightarrow> PlanState result io" where
  "prepare_decide evaluator planID expected plan prepared target =
     (if pr_Invariants plan = [] then io_return (Ok target)
      else io_bind (io_try (evaluateInvariants evaluator planID expected plan prepared)) (\<lambda>evaluated.
             io_return (case evaluated of
                          Inl e \<Rightarrow> Error e
                        | Inr invariants \<Rightarrow>
                            (case unprovenInvariants invariants (pp_PreparedRevision prepared) of
                               (required, advisory) \<Rightarrow>
                                 Ok (if required \<noteq> [] \<or> advisory \<noteq> [] then PlanProvisional else target)))))"

text \<open>After the bytes are staged: evaluate, decide, record.\<close>

definition prepare_staged ::
  "(bytes \<Rightarrow> string) \<Rightarrow> evaluator \<Rightarrow> PlanStager \<Rightarrow> string \<Rightarrow> u64 \<Rightarrow> PlanRecord \<Rightarrow> PlanPreview \<Rightarrow> PlanStageRequest \<Rightarrow> PlanRecord io" where
  "prepare_staged hashBytes evaluator stager planID expected plan preview request =
     (case preparationFor hashBytes preview request stager of (prepared, target) \<Rightarrow>
        io_bind (prepare_decide evaluator planID expected plan prepared target) (\<lambda>decided.
          case decided of
            Inl e \<Rightarrow> failed_prepare planID expected e
          | Inr state \<Rightarrow>
              io_bind (io_try (transitionPlan planID expected state ''prepare'' (pp_Diagnostics prepared) (Some prepared))) (\<lambda>moved.
                case moved of
                  Inr result \<Rightarrow> io_return result
                | Inl e \<Rightarrow> io_bind (io_try stager_call) (\<lambda>_. failed_prepare planID expected e))))"

text \<open>From the request on: stage the bytes, and roll the stager back when that fails.\<close>

definition prepare_request ::
  "(bytes \<Rightarrow> string) \<Rightarrow> evaluator \<Rightarrow> PlanStager \<Rightarrow> string \<Rightarrow> u64 \<Rightarrow> PlanRecord \<Rightarrow> PlanStageRequest result \<Rightarrow> PlanRecord io" where
  "prepare_request hashBytes evaluator stager planID expected plan staged =
     (case staged of
        Inl e \<Rightarrow> failed_prepare planID expected e
      | Inr request \<Rightarrow>
          io_bind (io_try stager_call) (\<lambda>stage.
            case stage of
              Inl e \<Rightarrow> io_bind (io_try stager_call) (\<lambda>_. failed_prepare planID expected e)
            | Inr _ \<Rightarrow>
                (case pr_Preview plan of
                   None \<Rightarrow> failed_prepare planID expected (PlainError ''plan has no successful preview'')
                 | Some preview \<Rightarrow> prepare_staged hashBytes evaluator stager planID expected plan preview request)))"

text \<open>Everything between the lease and its release.\<close>

definition prepare_leased ::
  "(bytes \<Rightarrow> string) \<Rightarrow> (tree \<Rightarrow> PlanRecord \<Rightarrow> PlanPreview) \<Rightarrow> evaluator \<Rightarrow> PlanStager \<Rightarrow> string \<Rightarrow> u64 \<Rightarrow> PlanRecord io" where
  "prepare_leased hashBytes buildPreview evaluator stager planID expected =
     io_bind (previewedPlan buildPreview planID expected) (\<lambda>plan.
     io_bind (transitionPlan planID expected PlanPreparing ''prepare_started'' ''pending'' None) (\<lambda>_.
     io_bind (io_get (\<lambda>w. planStageRequest (w_files w) (w_resolve w) plan))
       (prepare_request hashBytes evaluator stager planID expected plan)))"

definition PreparePlan ::
  "(bytes \<Rightarrow> string) \<Rightarrow> (tree \<Rightarrow> PlanRecord \<Rightarrow> PlanPreview) \<Rightarrow> evaluator \<Rightarrow> PlanStager option \<Rightarrow> string \<Rightarrow> u64 \<Rightarrow> PlanRecord io" where
  "PreparePlan hashBytes buildPreview evaluator provider planID expected =
     (case provider of
        None \<Rightarrow> io_throw noProvider
      | Some stager \<Rightarrow>
          io_bind (acquirePrepareLease planID expected) (\<lambda>prepared.
            case prepared of
              Some plan \<Rightarrow> io_return plan
            | None \<Rightarrow>
                io_bind (io_try (prepare_leased hashBytes buildPreview evaluator stager planID expected)) (\<lambda>result.
                  case result of
                    Inr plan \<Rightarrow> io_return plan
                  | Inl e \<Rightarrow> io_bind (release_plan planID) (\<lambda>_. io_throw e))))"

section \<open>Rolling back and reopening\<close>

definition leave_prepared ::
  "string \<Rightarrow> string \<Rightarrow> string \<Rightarrow> u64 \<Rightarrow> (PlanRecord \<Rightarrow> PlanRecord io) \<Rightarrow> PlanRecord io" where
  "leave_prepared action outcome planID expected body =
     io_bind (InspectPlan planID expected) (\<lambda>plan.
       if \<not> canTransition (pr_State plan) PlanRollingBack then io_throw illegalTransition
       else io_bind (transitionPlan planID expected PlanRollingBack action outcome (pr_Preparation plan)) (\<lambda>_. body plan))"

definition finish_leave :: "string \<Rightarrow> u64 \<Rightarrow> PlanState \<Rightarrow> string \<Rightarrow> PlanRecord io" where
  "finish_leave planID expected state action =
     io_bind (io_try (transitionPlan planID expected state action ''ok'' None)) (\<lambda>result.
     io_bind (release_plan planID) (\<lambda>_. io_lift result))"

definition stager_rollback :: "string \<Rightarrow> u64 \<Rightarrow> string \<Rightarrow> unit io" where
  "stager_rollback planID expected action =
     io_bind (io_try stager_call) (\<lambda>rolled.
       case rolled of
         Inr _ \<Rightarrow> io_return ()
       | Inl e \<Rightarrow> io_bind (io_try (transitionPlan planID expected PlanFailed action ''error'' None)) (\<lambda>_. io_throw e))"

definition RollbackPlan :: "PlanStager option \<Rightarrow> string \<Rightarrow> u64 \<Rightarrow> PlanRecord io" where
  "RollbackPlan provider planID expected =
     (case provider of
        None \<Rightarrow> io_throw noProvider
      | Some _ \<Rightarrow>
          leave_prepared ''rollback_started'' ''pending'' planID expected (\<lambda>plan.
            io_bind (stager_rollback planID expected ''rollback_failed'') (\<lambda>_.
            finish_leave planID expected PlanRolledBack ''rollback'')))"

definition ReopenPlan :: "PlanStager option \<Rightarrow> string \<Rightarrow> u64 \<Rightarrow> PlanRecord io" where
  "ReopenPlan provider planID expected =
     (case provider of
        None \<Rightarrow> io_throw noProvider
      | Some _ \<Rightarrow>
          leave_prepared ''reopen_started'' ''pending'' planID expected (\<lambda>plan.
            io_bind (stager_rollback planID expected ''reopen_failed'') (\<lambda>_.
            io_bind (recordInvariants planID expected (resetInvariantProofs (pr_Invariants plan))) (\<lambda>_.
            finish_leave planID expected PlanOpen ''reopen''))))"

definition ReopenPlanWithoutSandbox :: "string \<Rightarrow> u64 \<Rightarrow> PlanRecord io" where
  "ReopenPlanWithoutSandbox planID expected =
     leave_prepared ''reopen_started'' ''sandbox_gone'' planID expected (\<lambda>plan.
       io_bind (recordInvariants planID expected (resetInvariantProofs (pr_Invariants plan))) (\<lambda>_.
       finish_leave planID expected PlanOpen ''reopen''))"

section \<open>Preparing moves plans and nothing else\<close>

lemma canon_prepare [intro, simp]:
  "canon.keeps (acquirePrepareLease planID expected)" "canon.keeps (previewedPlan buildPreview planID expected)"
  "canon.keeps stager_call" "canon.keeps (failed_prepare planID expected cause :: 'a io)"
  "canon.keeps (evaluateInvariants evaluator planID expected plan preparation)"
proof -
  have lease: "canon.keeps (io_update (\<lambda>w. w\<lparr>w_activePlans := f w\<rparr>))" for f
    by (rule canon.keeps_update) (simp add: canonical_same_def)
  show "canon.keeps (acquirePrepareLease planID expected)"
    unfolding acquirePrepareLease_def by (intro canon_rules canon_store lease)
  show "canon.keeps (previewedPlan buildPreview planID expected)"
    unfolding previewedPlan_def current_preview_def by (intro canon_rules canon_store)
  show "canon.keeps stager_call" by (simp add: stager_call_def)
  show "canon.keeps (failed_prepare planID expected cause :: 'a io)"
    unfolding failed_prepare_def by (intro canon_rules canon_store)
  show "canon.keeps (evaluateInvariants evaluator planID expected plan preparation)"
    unfolding evaluateInvariants_def by (intro canon_rules canon_store)
qed

lemma canon_prepare_leased [intro, simp]:
  "canon.keeps (prepare_leased hashBytes buildPreview evaluator stager planID expected)"
  unfolding prepare_leased_def prepare_request_def prepare_staged_def prepare_decide_def by (intro canon_rules canon_store canon_prepare)

lemma legal_stager_call [intro, simp]: "legal.keeps stager_call"
  by (simp add: stager_call_def)

lemma legal_prepare [intro, simp]:
  "legal.keeps (acquirePrepareLease planID expected)" "legal.keeps (previewedPlan buildPreview planID expected)"
  "legal.keeps (failed_prepare planID expected cause :: 'a io)"
  "legal.keeps (evaluateInvariants evaluator planID expected plan preparation)"
proof -
  have lease: "legal.keeps (io_update (\<lambda>w. w\<lparr>w_activePlans := f w\<rparr>))" for f
    by (rule legal.keeps_update) (simp add: legal_same_plans)
  show "legal.keeps (acquirePrepareLease planID expected)"
    unfolding acquirePrepareLease_def by (intro legal_rules legal_InspectPlan lease)
  show "legal.keeps (previewedPlan buildPreview planID expected)"
    unfolding previewedPlan_def current_preview_def by (intro legal_rules legal_InspectPlan legal_PreviewPlan)
  show "legal.keeps (failed_prepare planID expected cause :: 'a io)"
    unfolding failed_prepare_def by (intro legal_rules legal_transitionPlan)
  show "legal.keeps (evaluateInvariants evaluator planID expected plan preparation)"
    unfolding evaluateInvariants_def by (intro legal_rules legal_recordInvariants)
qed

lemma legal_prepare_leased [intro, simp]:
  "legal.keeps (prepare_leased hashBytes buildPreview evaluator stager planID expected)"
  unfolding prepare_leased_def prepare_request_def prepare_staged_def prepare_decide_def by (intro legal_rules legal_prepare legal_transitionPlan legal_stager_call)

lemma legal_PreparePlan [intro, simp]:
  "legal.keeps (PreparePlan hashBytes buildPreview evaluator provider planID expected)"
  unfolding PreparePlan_def by (intro legal_rules legal_prepare legal_prepare_leased legal_release)

lemma legal_leave [intro, simp]:
  "legal.keeps (RollbackPlan provider planID expected)" "legal.keeps (ReopenPlan provider planID expected)"
  "legal.keeps (ReopenPlanWithoutSandbox planID expected)"
  unfolding RollbackPlan_def ReopenPlan_def ReopenPlanWithoutSandbox_def leave_prepared_def finish_leave_def stager_rollback_def
  by (intro legal_rules legal_InspectPlan legal_transitionPlan legal_stager_call legal_recordInvariants legal_release)+


section \<open>What READY means\<close>

lemma io_try_Done:
  "io_try m w = (Done r, w') \<longleftrightarrow>
     (\<exists>x. r = Ok x \<and> m w = (Done x, w')) \<or> (\<exists>e. r = Error e \<and> m w = (Fail e, w'))"
  by (auto simp: io_try_def split: prod.splits outcome.splits)

lemma transition_Done:
  assumes "transitionPlan planID expected state action outcome preparation w = (Done plan', w')"
  shows "\<exists>plan now. map_of (w_plans w) planID = Some plan \<and> pr_PlanRevision plan = expected \<and>
    canTransition (pr_State plan) state \<and>
    plan' = recordPlanEventAt action outcome now
      (plan\<lparr> pr_State := state, pr_Preparation := preparation, pr_Conflict := None \<rparr>) \<and>
    (\<not> planTerminal state \<longrightarrow> map_of (w_plans w') planID = Some plan')"
proof -
  from assms obtain plan where plan: "map_of (w_plans w) planID = Some plan" "pr_PlanRevision plan = expected"
    "canTransition (pr_State plan) state" "expected \<noteq> 0" "\<not> (pr_Compacted plan \<and> \<not> planTerminal state)"
    by (auto simp: transitionPlan_def transitionPlanWithConflict_def io_bind_Done io_get_def io_throw_def
        split: option.splits if_splits)
  let ?plan = "recordPlanEventAt action outcome (w_now w)
      (plan\<lparr> pr_State := state, pr_Preparation := preparation, pr_Conflict := None \<rparr>)"
  let ?w = "(tick w)\<lparr>w_plans := AList.update planID ?plan (w_plans w)\<rparr>"
  from assms plan have "plan' = ?plan \<and> finishPlanLocked planID ?w = (Done (), w')"
    unfolding transitionPlan_def transitionPlanWithConflict_def
    by (auto simp: io_bind_Done io_get_def io_throw_def io_return_def record_event_now_def io_now_def update_plan_def
        io_update_def io_try_Done)
  moreover have "map_of (w_plans w') planID = Some ?plan" if "\<not> planTerminal state" "finishPlanLocked planID ?w = (Done (), w')"
  proof -
    from that(2) obtain v where v: "persistPlanLocked planID ?w = (Done (), v)"
      "(case map_of (w_plans v) planID of None \<Rightarrow> False | Some p \<Rightarrow> planTerminal (pr_State p)) \<or> w' = v"
      by (auto simp: finishPlanLocked_def io_bind_Done io_get_def io_return_def split: if_splits)
    from persist_Done [OF v(1)] v(2) that(1) show ?thesis by simp
  qed
  ultimately show ?thesis using plan by blast
qed

lemma recordInvariants_Done:
  assumes "recordInvariants planID expected invariants w = (Done (), w')"
  shows "\<exists>plan. map_of (w_plans w') planID = Some plan \<and> pr_Invariants plan = invariants"
proof -
  from assms obtain previous where found: "map_of (w_plans w) planID = Some previous"
    by (auto simp: recordInvariants_def io_bind_Done io_get_def io_throw_def split: option.splits)
  let ?w = "w\<lparr>w_plans := AList.update planID (previous\<lparr> pr_Invariants := invariants \<rparr>) (w_plans w)\<rparr>"
  from assms found have "persistPlanLocked planID ?w = (Done (), w')"
    by (auto simp: recordInvariants_def io_bind_Done io_get_def io_throw_def io_return_def update_plan_def io_update_def io_try_Done
        split: if_splits)
  from persist_Done [OF this] show ?thesis by simp
qed

lemma failed_prepare_not_Done [simp]: "failed_prepare planID expected cause w \<noteq> (Done x, w')"
  by (auto simp: failed_prepare_def io_bind_def io_throw_def split: prod.splits outcome.splits)

lemma stager_call_plans: "w_plans (snd (stager_call w)) = w_plans w"
  by (simp add: stager_call_def io_call_def split: list.splits io_event.splits)

lemma previewedPlan_Done:
  assumes "previewedPlan buildPreview planID expected w = (Done plan, w')"
  shows "map_of (w_plans w') planID = Some plan \<and> (\<exists>preview. pr_Preview plan = Some preview \<and> pv_Outcome preview = ''ok'')"
proof -
  have preview: "map_of (w_plans v') planID = Some p" if "PreviewPlan buildPreview planID expected v = (Done p, v')" for v v' p
  proof -
    from that obtain preview where "preview_store planID expected preview v = (Done p, v')"
      by (auto simp: PreviewPlan_def preview_read_def io_bind_Done io_get_def io_throw_def io_return_def
          split: option.split_asm if_split_asm)
    then obtain u where "persistPlanLocked planID u = (Done (), v')" "map_of (w_plans u) planID = Some p"
      by (cases "map_of (w_plans v) planID")
        (auto simp: preview_store_def io_bind_Done io_get_def io_throw_def io_return_def
          record_event_now_def io_now_def update_plan_def io_update_def split: if_split_asm)
    from persist_Done [OF this] this(2) show ?thesis by simp
  qed
  have inspect: "map_of (w_plans v) planID = Some p \<and> v' = v" if "InspectPlan planID expected v = (Done p, v')" for v v' p
    using that by (cases "map_of (w_plans v) planID")
      (auto simp: InspectPlan_def io_bind_Done io_get_def io_throw_def io_return_def split: if_split_asm)
  from assms obtain p v where p: "InspectPlan planID expected w = (Done p, v)"
    and rest: "current_preview buildPreview planID expected p v = (Done plan, w')" and ok: "previewed_ok plan"
    by (auto simp: previewedPlan_def io_bind_Done io_throw_def io_return_def split: if_split_asm)
  have "map_of (w_plans w') planID = Some plan"
    using rest preview inspect [OF p] by (auto simp: current_preview_def io_return_def split: if_split_asm)
  with ok show ?thesis by (auto simp: previewed_ok_def split: option.splits)
qed

lemma prepare_decide_Done:
  assumes "prepare_decide evaluator planID expected plan prepared target w = (Done (Ok state), w')"
    and "map_of (w_plans w) planID = Some stored" "pr_Invariants stored = pr_Invariants plan"
  shows "(state = target \<or> state = PlanProvisional) \<and>
    (state \<noteq> PlanProvisional \<longrightarrow> (\<exists>stored'. map_of (w_plans w') planID = Some stored' \<and>
       (\<forall>i \<in> set (pr_Invariants stored'). provenAt i (pp_PreparedRevision prepared))))"
proof (cases "pr_Invariants plan = []")
  case True
  with assms show ?thesis by (auto simp: prepare_decide_def io_return_def)
next
  case False
  with assms(1) obtain invariants where inv:
    "evaluateInvariants evaluator planID expected plan prepared w = (Done invariants, w')"
    "state = (if unprovenInvariants invariants (pp_PreparedRevision prepared) = ([], []) then target else PlanProvisional)"
    by (auto simp: prepare_decide_def io_bind_Done io_try_Done io_return_def split: prod.splits)
  then have "\<exists>stored'. map_of (w_plans w') planID = Some stored' \<and> pr_Invariants stored' = invariants"
    by (auto simp: evaluateInvariants_def Let_def io_bind_Done io_return_def dest!: recordInvariants_Done)
  with inv(2) show ?thesis
    by (auto simp: unprovenInvariants_filter filter_empty_conv)
qed

lemma preparationFor_facts:
  assumes "preparationFor hashBytes preview request stager = (prepared, target)"
  shows "target = (if verificationGaps (pp_Verification prepared) \<noteq> [] then PlanProvisional else PlanReady)"
  using assms by (auto simp: preparationFor_def Let_def empty_preparation_def split: prod.splits option.splits)

text \<open>
  C33. READY is earned: a preparation ends READY or PROVISIONAL, never anything else, and one that
  ends READY has a diagnostics stage nobody has to excuse and has every declared invariant proven
  about exactly the prepared revision.
\<close>

theorem prepared_ready_is_proven:
  assumes "prepare_leased hashBytes buildPreview evaluator stager planID expected w = (Done plan', w')"
  shows "pr_State plan' \<in> {PlanReady, PlanProvisional} \<and>
    (\<exists>preparation. pr_Preparation plan' = Some preparation \<and>
      (pr_State plan' = PlanReady \<longrightarrow> verificationGaps (pp_Verification preparation) = [] \<and>
         (\<forall>i \<in> set (pr_Invariants plan'). provenAt i (pp_PreparedRevision preparation))))"
proof -
  from assms obtain plan w1 p2 w2 where
    previewed: "previewedPlan buildPreview planID expected w = (Done plan, w1)"
    and preparing: "transitionPlan planID expected PlanPreparing ''prepare_started'' ''pending'' None w1 = (Done p2, w2)"
    and rest: "prepare_request hashBytes evaluator stager planID expected plan (planStageRequest (w_files w2) (w_resolve w2) plan) w2 = (Done plan', w')"
    by (auto simp: prepare_leased_def io_bind_Done io_get_def)
  from previewedPlan_Done [OF previewed] obtain preview where preview: "pr_Preview plan = Some preview" by blast
  from rest preview obtain request w3 where staged: "stager_call w2 = (Done (), w3)"
    and tail: "prepare_staged hashBytes evaluator stager planID expected plan preview request w3 = (Done plan', w')"
    by (cases "planStageRequest (w_files w2) (w_resolve w2) plan")
      (auto simp: prepare_request_def io_bind_Done io_try_Done)
  obtain prepared target where prepared: "preparationFor hashBytes preview request stager = (prepared, target)"
    by (cases "preparationFor hashBytes preview request stager")
  from tail prepared obtain decision w4 where decided: "prepare_decide evaluator planID expected plan prepared target w3 = (Done decision, w4)"
    and last: "(case decision of Inl e \<Rightarrow> failed_prepare planID expected e
      | Inr state \<Rightarrow> io_bind (io_try (transitionPlan planID expected state ''prepare'' (pp_Diagnostics prepared) (Some prepared))) (\<lambda>moved.
          case moved of Inr result \<Rightarrow> io_return result
            | Inl e \<Rightarrow> io_bind (io_try stager_call) (\<lambda>_. failed_prepare planID expected e))) w4 = (Done plan', w')"
    by (auto simp: prepare_staged_def io_bind_Done)
  from last obtain state where state: "decision = Ok state"
    and moved: "transitionPlan planID expected state ''prepare'' (pp_Diagnostics prepared) (Some prepared) w4 = (Done plan', w')"
    by (cases decision) (auto simp: io_bind_Done io_try_Done io_return_def)
  from transition_Done [OF preparing] previewedPlan_Done [OF previewed]
  have "map_of (w_plans w2) planID = Some p2" "pr_Invariants p2 = pr_Invariants plan" by auto
  moreover have "w_plans w3 = w_plans w2" using stager_call_plans [of w2] staged by simp
  ultimately have "map_of (w_plans w3) planID = Some p2" "pr_Invariants p2 = pr_Invariants plan" by simp_all
  note decided = prepare_decide_Done [OF decided [unfolded state] this]
  from transition_Done [OF moved] decided preparationFor_facts [OF prepared] show ?thesis
    by (auto split: if_splits)
qed

definition sample_stager :: PlanStager where
  "sample_stager = \<lparr> st_Epoch = 1, st_metadata = None, st_prepared = None \<rparr>"

definition sample_operation :: PlanOperation where
  "sample_operation = \<lparr> op_OpID = ''op'', op_Kind = OperationCreateFile, op_Target = None, op_Content = ''x'',
     op_Path = ''/r/a'', op_From = [], op_To = [], op_Revision = ''rev'', op_DestinationRevision = [],
     op_ExpectedSHA256 = [], op_DependsOn = [], op_Indentation = [], op_DerivedFrom = [] \<rparr>"

definition sample_build :: "tree \<Rightarrow> PlanRecord \<Rightarrow> PlanPreview" where
  "sample_build files plan = sample_preview [exactDiff (\<lambda>_. []) ''/r/a'' [] ''x'' 0 0 ''x'']"

theorem prepared_ready_is_proven_witness:
  "\<exists>plan' w'. prepare_leased (\<lambda>_. ''h'') sample_build None sample_stager ''plan_1'' 1
     (sample_world [(''plan_1'', (sample_plan PlanOpen)\<lparr> pr_Operations := [sample_operation] \<rparr>)] [] []) = (Done plan', w') \<and>
   pr_State plan' = PlanReady \<and> (\<exists>preparation. pr_Preparation plan' = Some preparation \<and> verificationGaps (pp_Verification preparation) = [])"
proof -
  let ?run = "prepare_leased (\<lambda>_. ''h'') sample_build None sample_stager ''plan_1'' 1
     (sample_world [(''plan_1'', (sample_plan PlanOpen)\<lparr> pr_Operations := [sample_operation] \<rparr>)] [] [])"
  have "case fst ?run of Done plan \<Rightarrow> pr_State plan = PlanReady | _ \<Rightarrow> False" by code_simp
  then obtain plan' w' where run: "?run = (Done plan', w')" "pr_State plan' = PlanReady"
    by (cases ?run) (auto split: outcome.splits)
  from prepared_ready_is_proven [OF run(1)] run show ?thesis by blast
qed

section \<open>An expired draft\<close>

text \<open>
  A plan that expired before it was ever previewed cannot be prepared again: its preparation is
  always refused because a preview is only built for OPEN and PREVIEWED plans, although the
  transition table lists EXPIRED to PREPARING and the refusal of an expired plan tells the caller
  to prepare it again.
\<close>

theorem expired_draft_not_preparable:
  assumes "map_of (w_plans w) planID = Some plan" "pr_State plan = PlanExpired" "pr_Preview plan = None"
  shows "canTransition (pr_State plan) PlanPreparing \<and>
    (\<exists>e. fst (previewedPlan buildPreview planID expected w) = Fail e)"
proof -
  let ?refused = "PlainError ''plan cannot be previewed in its current state''"
  have "PreviewPlan buildPreview planID expected w = (Fail ?refused, w)"
    using assms by (simp add: PreviewPlan_def preview_read_def previewable_def io_bind_def io_get_def io_throw_def)
  then have refused: "io_bind (current_preview buildPreview planID expected plan) f w = (Fail ?refused, w)" for f :: "PlanRecord \<Rightarrow> PlanRecord io"
    using assms(3) by (simp add: current_preview_def io_bind_def)
  have "InspectPlan planID expected w = (Done plan, w) \<or> (\<exists>e. InspectPlan planID expected w = (Fail e, w))"
    using assms(1) by (auto simp: InspectPlan_def io_bind_def io_get_def io_throw_def io_return_def)
  then have "\<exists>e. fst (previewedPlan buildPreview planID expected w) = Fail e"
    unfolding previewedPlan_def io_bind_def [of "InspectPlan _ _"]
    by (auto simp: io_throw_def refused split del: if_split split: if_split)
  then show ?thesis using assms(2) by (simp add: canTransition_def)
qed

theorem expired_draft_not_preparable_witness:
  "\<exists>e. fst (previewedPlan sample_build ''plan_1'' 1 (sample_world [(''plan_1'', sample_plan PlanExpired)] [] [])) = Fail e"
  using expired_draft_not_preparable [of "sample_world [(''plan_1'', sample_plan PlanExpired)] [] []" "''plan_1''"
      "sample_plan PlanExpired" sample_build 1]
  by (simp add: sample_world_def sample_plan_def)

end
