(* ===== verification/Commit.thy ===== *)
theory Commit
  imports Plan_Prepare
begin

text \<open>
  Applying a prepared plan through a durable write-ahead journal
  (\<^verbatim>\<open>internal/workspace/commit.go\<close>, \<open>persistCommitJournal\<close> and \<open>collectCommitJournals\<close> of \<^verbatim>\<open>recovery.go\<close>).

  A journal the code carries by pointer is passed and returned. The time stamp
  \<open>writeCommitJournal\<close> sets is kept in the durable journal, where retention reads it. The context
  and the fault hook are calls into the environment that may fail. Where the code appends the
  error of a failed clean-up to the error it returns, the model keeps the first.
\<close>

section \<open>Journals on disk\<close>

definition writeCommitJournal :: "string \<Rightarrow> CommitJournal \<Rightarrow> unit io" where
  "writeCommitJournal key journal =
     io_bind io_now (\<lambda>now.
     io_bind MkdirAll (\<lambda>_.
     io_bind io_call (\<lambda>_.
     io_bind (io_update (\<lambda>w. w\<lparr>w_commitJournals :=
                 AList.update key (journal\<lparr> cj_UpdatedAt := now \<rparr>) (w_commitJournals w)\<rparr>)) (\<lambda>_.
     syncDirectory))))"

definition fireCommitFault :: "unit io" where
  "fireCommitFault = io_call"

definition persistCommitJournal :: "string \<Rightarrow> CommitJournal \<Rightarrow> unit io" where
  "persistCommitJournal key journal =
     io_bind fireCommitFault (\<lambda>_. io_bind (writeCommitJournal key journal) (\<lambda>_. fireCommitFault))"

text \<open>Writes first, by path, then removals, by path.\<close>

definition commitEntryOrder :: "CommitJournalEntry list \<Rightarrow> nat list" where
  "commitEntryOrder entries =
     sort_key (\<lambda>i. ds_Kind (je_After (entries ! i)) = ObjectMissing)
       (sort_key (\<lambda>i. je_Path (entries ! i)) [0..<length entries])"

section \<open>Comparing the tree with an image\<close>

datatype snapshotMatch = matchExactSnapshot | matchJournalImage

definition stateMatchesImage :: "tree \<Rightarrow> string \<Rightarrow> DiskSnapshot \<Rightarrow> bytes \<Rightarrow> snapshotMatch \<Rightarrow> bool result" where
  "stateMatchesImage files path expected content match =
     (case inspectPath files path of
        Inl e \<Rightarrow> Error e
      | Inr (current, currentBytes) \<Rightarrow>
          Ok (case match of
                matchExactSnapshot \<Rightarrow> current = expected \<and> currentBytes = content
              | matchJournalImage \<Rightarrow>
                  ds_Kind current = ds_Kind expected \<and> ds_Mode current = ds_Mode expected \<and>
                  ds_Size current = ds_Size expected \<and> ds_SymlinkTarget current = ds_SymlinkTarget expected \<and>
                  currentBytes = content))"

abbreviation stateMatchesSnapshot :: "tree \<Rightarrow> string \<Rightarrow> DiskSnapshot \<Rightarrow> bytes \<Rightarrow> bool result" where
  "stateMatchesSnapshot files path expected content \<equiv> stateMatchesImage files path expected content matchExactSnapshot"

abbreviation stateMatchesJournalImage :: "tree \<Rightarrow> string \<Rightarrow> DiskSnapshot \<Rightarrow> bytes \<Rightarrow> bool result" where
  "stateMatchesJournalImage files path expected content \<equiv> stateMatchesImage files path expected content matchJournalImage"

section \<open>Making one entry durable\<close>

definition applyCommitEntry :: "string \<Rightarrow> CommitJournalEntry \<Rightarrow> unit io" where
  "applyCommitEntry path entry =
     io_bind (if ds_Kind (je_After entry) \<noteq> ObjectMissing then MkdirAll else io_return ()) (\<lambda>_.
       let replace = ds_Kind (je_Before entry) \<noteq> ObjectMissing
       in case ds_Kind (je_After entry) of
            ObjectMissing \<Rightarrow> io_bind (os_Remove path) (\<lambda>_. syncDirectory)
          | ObjectRegularText \<Rightarrow>
              io_bind (commitWrite path (je_Postimage entry) (ds_Mode (je_After entry)) replace) (\<lambda>_. syncDirectory)
          | ObjectBinary \<Rightarrow>
              io_bind (commitWrite path (je_Postimage entry) (ds_Mode (je_After entry)) replace) (\<lambda>_. syncDirectory)
          | ObjectSymlink \<Rightarrow>
              io_bind (commitSymlink path (ds_SymlinkTarget (je_After entry)) replace) (\<lambda>_. syncDirectory)
          | ObjectDirectory \<Rightarrow> io_throw (PlainError ''unsupported commit postimage kind''))"

type_synonym recheck = "tree \<Rightarrow> string \<Rightarrow> CommitJournalEntry \<Rightarrow> unit result"

definition changedBeforeCommit :: go_error where
  "changedBeforeCommit = Codedf CodeCommitPreconditionChanged ''changed before commit''"

definition recheckCommitEntry :: recheck where
  "recheckCommitEntry files absolute entry =
     (case stateMatchesSnapshot files absolute (je_Before entry) (je_Preimage entry) of
        Inl e \<Rightarrow> Error e
      | Inr matches \<Rightarrow> if matches then Ok () else Error changedBeforeCommit)"

text \<open>What precedes the write of one entry: the context, the fault hook, the path, the recheck.\<close>

definition ready_entry :: "recheck \<Rightarrow> CommitJournalEntry \<Rightarrow> string io" where
  "ready_entry recheck entry =
     io_bind io_call (\<lambda>_.
     io_bind fireCommitFault (\<lambda>_.
     io_bind (io_get (\<lambda>w. w_resolve w (je_Path entry))) (\<lambda>resolved.
     io_bind (io_lift resolved) (\<lambda>absolute.
     io_bind (io_get (\<lambda>w. recheck (w_files w) absolute entry)) (\<lambda>checked.
     io_bind (io_lift checked) (\<lambda>_.
     io_return absolute))))))"

definition mark_progress :: "nat \<Rightarrow> CommitPathProgress \<Rightarrow> CommitJournal \<Rightarrow> CommitJournal" where
  "mark_progress i progress journal =
     journal\<lparr> cj_Entries := (cj_Entries journal)[i := (cj_Entries journal ! i)\<lparr> je_Progress := progress \<rparr>] \<rparr>"

fun apply_loop ::
  "string \<Rightarrow> recheck \<Rightarrow> nat list \<Rightarrow> CommitJournal \<Rightarrow> bool \<Rightarrow> (bool \<times> go_error option \<times> CommitJournal) io" where
  "apply_loop key recheck [] journal written = io_return (written, None, journal)"
| "apply_loop key recheck (i # rest) journal written =
     io_bind (io_try (ready_entry recheck (cj_Entries journal ! i))) (\<lambda>ready.
       case ready of
         Inl e \<Rightarrow> io_return (written, Some e, journal)
       | Inr absolute \<Rightarrow>
           io_bind (io_try (io_bind (applyCommitEntry absolute (cj_Entries journal ! i)) (\<lambda>_. fireCommitFault))) (\<lambda>applied.
             case applied of
               Inl e \<Rightarrow> io_return (True, Some e, journal)
             | Inr _ \<Rightarrow>
                 let journal' = mark_progress i CommitPathApplied journal
                 in io_bind (io_try (persistCommitJournal key journal')) (\<lambda>persisted.
                      case persisted of
                        Inl e \<Rightarrow> io_return (True, Some e, journal')
                      | Inr _ \<Rightarrow> apply_loop key recheck rest journal' True)))"

definition applyJournalEntries ::
  "string \<Rightarrow> CommitJournal \<Rightarrow> recheck \<Rightarrow> (bool \<times> go_error option \<times> CommitJournal) io" where
  "applyJournalEntries key journal recheck =
     apply_loop key recheck (commitEntryOrder (cj_Entries journal)) journal False"

definition journal_entry :: "PlanStageFile \<Rightarrow> CommitJournalEntry" where
  "journal_entry f = \<lparr> je_Path = sf_Path f, je_Preimage = sf_Before f, je_Postimage = sf_After f,
     je_Before = sf_BeforeDisk f, je_After = sf_AfterDisk f, je_Progress = CommitPathPending \<rparr>"

definition newCommitJournal :: "string \<Rightarrow> u64 \<Rightarrow> string \<Rightarrow> PlanStageFile list \<Rightarrow> CommitJournal io" where
  "newCommitJournal planID planRevision preparedRevision files =
     io_bind io_now (\<lambda>now. io_bind (io_get w_identity) (\<lambda>identity.
       io_return \<lparr> cj_WorkspaceID = id_ID identity, cj_PlanID = planID, cj_PlanRevision = planRevision,
         cj_PreparedRevision = preparedRevision, cj_CompensatesPlanID = [], cj_CanonicalRevision = [],
         cj_State = CommitJournalPrepared,
         cj_Entries = map journal_entry files,
         cj_LastError = None, cj_CreatedAt = now, cj_UpdatedAt = now \<rparr>))"

text \<open>\<open>recordCanonicalCommit\<close>: the part of it in this world is the state sequence.\<close>

definition recordCanonicalCommit :: "Identity io" where
  "recordCanonicalCommit =
     io_bind (io_update (\<lambda>w. w\<lparr>w_identity := (w_identity w)\<lparr> id_StateSeq := id_StateSeq (w_identity w) + 1 \<rparr>\<rparr>))
       (\<lambda>_. io_get w_identity)"

definition wsrev :: "u64 \<Rightarrow> string" where
  "wsrev seq = ''wsrev_'' @ decimal (unat seq)"

definition sealCommittedJournal :: "string \<Rightarrow> CommitJournal \<Rightarrow> (CommitJournal \<times> unit result) io" where
  "sealCommittedJournal key journal =
     io_bind recordCanonicalCommit (\<lambda>identity.
       let journal' = journal\<lparr> cj_State := CommitJournalCommitted, cj_CanonicalRevision := wsrev (id_StateSeq identity) \<rparr>
       in io_bind (io_try (persistCommitJournal key journal')) (\<lambda>persisted. io_return (journal', persisted)))"

section \<open>Journal retention\<close>

definition commitJournalRetention :: time where
  "commitJournalRetention = 7 * 24 * hour"

definition commitJournalRetainCount :: nat where
  "commitJournalRetainCount = 64"

definition finished_journals :: "world \<Rightarrow> (string \<times> CommitJournal) list" where
  "finished_journals w =
     sort_key (\<lambda>(key, journal). - cj_UpdatedAt journal)
       (filter (\<lambda>(key, journal). cj_WorkspaceID journal = id_ID (w_identity w) \<and> \<not> journal_open journal) (w_commitJournals w))"

definition remove_journal :: "string \<Rightarrow> unit io" where
  "remove_journal key =
     io_bind io_call (\<lambda>_. io_update (\<lambda>w. w\<lparr>w_commitJournals := AList.delete key (w_commitJournals w)\<rparr>))"

fun collect_loop :: "time \<Rightarrow> nat \<Rightarrow> (string \<times> CommitJournal) list \<Rightarrow> unit io" where
  "collect_loop cutoff index [] = io_return ()"
| "collect_loop cutoff index ((key, journal) # rest) =
     (if index < commitJournalRetainCount \<and> cutoff \<le> cj_UpdatedAt journal
      then collect_loop cutoff (index + 1) rest
      else io_bind (io_try (remove_journal key)) (\<lambda>_. collect_loop cutoff (index + 1) rest))"

definition collectCommitJournals :: "unit io" where
  "collectCommitJournals =
     io_bind (io_get w_stateDir) (\<lambda>stateDir.
       if \<not> stateDir then io_return ()
       else io_bind (io_get finished_journals) (\<lambda>finished.
            io_bind io_now (\<lambda>now. collect_loop (now - commitJournalRetention) 0 finished)))"

section \<open>Refusing, aborting and failing\<close>

fun commitAbortsAsConflict :: "go_error \<Rightarrow> bool" where
  "commitAbortsAsConflict e =
     (case ErrorCode e of
        Some CodeCommitPreconditionChanged \<Rightarrow> True
      | Some CodeWorkspaceEpochChanged \<Rightarrow> True
      | _ \<Rightarrow> False)"

definition commit_refuse :: "string \<Rightarrow> u64 \<Rightarrow> PlanPreparation \<Rightarrow> go_error \<Rightarrow> PlanRecord io" where
  "commit_refuse planID expected preparation cause =
     io_bind (io_try (if commitAbortsAsConflict cause
                      then conflictPlan planID expected ''commit_refused'' (Some preparation) cause
                      else transitionPlan planID expected PlanFailed ''commit_refused'' ''error'' (Some preparation)))
       (\<lambda>_. io_throw cause)"

definition commit_abort :: "string \<Rightarrow> u64 \<Rightarrow> PlanPreparation \<Rightarrow> CommitJournal \<Rightarrow> go_error \<Rightarrow> PlanRecord io" where
  "commit_abort planID expected preparation journal cause =
     io_bind (io_try (writeCommitJournal planID
                (journal\<lparr> cj_State := CommitJournalRolledBack, cj_LastError := Some cause \<rparr>))) (\<lambda>_.
     commit_refuse planID expected preparation cause)"

definition markCommitRecovery :: "PlanRecord \<Rightarrow> string \<Rightarrow> CommitJournal \<Rightarrow> go_error \<Rightarrow> PlanRecord io" where
  "markCommitRecovery plan key journal cause =
     io_bind (io_try (writeCommitJournal key
                (journal\<lparr> cj_State := CommitJournalRecoveryRequired, cj_LastError := Some cause \<rparr>))) (\<lambda>_.
     io_bind (io_try (transitionPlan (pr_PlanID plan) (pr_PlanRevision plan) PlanRecoveryRequired ''commit_failed'' ''error''
                (pr_Preparation plan))) (\<lambda>_.
     io_throw cause))"

definition commit_fail :: "PlanRecord \<Rightarrow> u64 \<Rightarrow> PlanPreparation \<Rightarrow> CommitJournal \<Rightarrow> bool \<Rightarrow> go_error \<Rightarrow> PlanRecord io" where
  "commit_fail plan expected preparation journal written cause =
     (if \<not> written then commit_abort (pr_PlanID plan) expected preparation journal cause
      else markCommitRecovery plan (pr_PlanID plan) journal cause)"

section \<open>The phases of a commit\<close>

definition admitCommit :: "PlanRecord \<Rightarrow> string \<Rightarrow> PlanStager \<Rightarrow> string list \<Rightarrow> PlanPreparation result" where
  "admitCommit plan preparedRevision stager accepted =
     (if pr_State plan = PlanExpired then Error (Codedf CodePlanStateInvalid ''plan expired'')
      else
        (case pr_Preparation plan of
           None \<Rightarrow> Error (Codedf CodePlanStateInvalid ''only a READY plan commits'')
         | Some preparation \<Rightarrow>
             if pr_State plan \<noteq> PlanReady \<and> pr_State plan \<noteq> PlanProvisional
             then Error (Codedf CodePlanStateInvalid ''only a READY plan commits'')
             else if preparedRevision = [] then Error (Codedf CodePreparedRevisionChanged ''apply names the preparation it commits'')
             else if pp_PreparedRevision preparation \<noteq> preparedRevision
             then Error (Codedf CodePreparedRevisionChanged ''is not the preparation of this plan'')
             else if pp_ProviderEpoch preparation \<noteq> st_Epoch stager \<and> st_prepared stager = None
             then Error (Coded CodeWorkspaceEpochChanged None)
             else if fst (unprovenInvariants (pr_Invariants plan) preparedRevision) \<noteq> []
             then Error (Codedf CodeInvariantNotProven ''plan requires invariants that are not proven'')
             else if pr_State plan = PlanProvisional
             then acceptProvisionalGaps preparation (pr_Invariants plan) preparedRevision accepted
             else Ok preparation))"

definition stageWriteSet ::
  "(tree \<Rightarrow> PlanRecord \<Rightarrow> PlanPreview) \<Rightarrow> PlanRecord \<Rightarrow> u64 \<Rightarrow> string \<Rightarrow> PlanStager \<Rightarrow> (PlanStageRequest \<times> CommitJournal) io" where
  "stageWriteSet buildPreview plan expected preparedRevision stager =
     io_bind (io_get (\<lambda>w. buildPreview (w_files w) plan)) (\<lambda>fresh.
       if pv_Outcome fresh \<noteq> ''ok''
       then io_throw (Codedf CodeCommitPreconditionChanged ''the canonical bytes moved and the plan no longer applies'')
       else if map_option pv_PreviewRevision (pr_Preview plan) \<noteq> Some (pv_PreviewRevision fresh)
       then io_throw (Coded CodeCommitPreconditionChanged (Some (PlainError ''the canonical bytes moved after this plan was prepared'')))
       else
         io_bind (io_get (\<lambda>w. planStageRequest (w_files w) (w_resolve w) plan)) (\<lambda>staged.
         io_bind (io_lift staged) (\<lambda>canonical.
           let request = (case st_prepared stager of None \<Rightarrow> canonical | Some (prepared, _) \<Rightarrow> prepared)
           in io_bind (newCommitJournal (pr_PlanID plan) expected preparedRevision (sr_Files request)) (\<lambda>journal.
              io_bind (io_get w_stateDir) (\<lambda>stateDir.
                if \<not> stateDir then io_throw (PlainError ''commit journal state directory is required'')
                else io_bind (persistCommitJournal (pr_PlanID plan) journal) (\<lambda>_. io_return (request, journal)))))))"

fun recheck_all :: "recheck \<Rightarrow> CommitJournalEntry list \<Rightarrow> unit io" where
  "recheck_all recheck [] = io_return ()"
| "recheck_all recheck (entry # rest) =
     io_bind (io_get (\<lambda>w. w_resolve w (je_Path entry))) (\<lambda>resolved.
     io_bind (io_lift resolved) (\<lambda>absolute.
     io_bind (io_get (\<lambda>w. recheck (w_files w) absolute entry)) (\<lambda>checked.
     io_bind (io_lift checked) (\<lambda>_.
     recheck_all recheck rest))))"

text \<open>The journal comes back with the error, because the abort writes it as it stands.\<close>

definition revalidate :: "PlanRecord \<Rightarrow> u64 \<Rightarrow> PlanPreparation \<Rightarrow> CommitJournal \<Rightarrow> (CommitJournal \<times> unit result) io" where
  "revalidate plan expected preparation journal =
     io_bind (io_try (io_bind (transitionPlan (pr_PlanID plan) expected PlanCommitting ''commit_started'' ''pending'' (Some preparation))
                (\<lambda>_. recheck_all recheckCommitEntry (cj_Entries journal)))) (\<lambda>checked.
       case checked of
         Inl e \<Rightarrow> io_return (journal, Error e)
       | Inr _ \<Rightarrow>
           let applying = journal\<lparr> cj_State := CommitJournalApplying \<rparr>
           in io_bind (io_try (persistCommitJournal (pr_PlanID plan) applying)) (\<lambda>persisted.
                io_return (applying, persisted)))"

definition committedDiffs :: "(bytes \<Rightarrow> string) \<Rightarrow> PlanStageFile list \<Rightarrow> ExactDiff list" where
  "committedDiffs hashBytes files =
     map (\<lambda>f. let before = (if sf_BeforeExists f then sf_Before f else []);
                  after = (if sf_AfterExists f then sf_After f else [])
              in exactDiff hashBytes (sf_Path f) before after 0 (length before) after) files"

text \<open>
  \<open>complete\<close>, from its end: the plan's receipt, the sealing of the journal, the provider. The
  result says whether the provider view was committed, which decides the clean-up.
\<close>

definition commit_receipt :: "PlanRecord \<Rightarrow> u64 \<Rightarrow> PlanPreparation \<Rightarrow> (PlanRecord result \<times> bool) io" where
  "commit_receipt plan expected final =
     io_bind (io_try (transitionPlan (pr_PlanID plan) expected PlanCommitted ''commit'' ''ok'' (Some final))) (\<lambda>moved.
       case moved of
         Inl e \<Rightarrow>
           io_bind (io_try (transitionPlan (pr_PlanID plan) expected PlanRecoveryRequired ''commit_receipt_failed'' ''error'' (Some final)))
             (\<lambda>_. io_return (Error (Codedf CodeCommitRecoveryRequired ''plan record could not be marked COMMITTED''), True))
       | Inr result \<Rightarrow> io_bind collectCommitJournals (\<lambda>_. io_return (Ok result, True)))"

definition commit_seal ::
  "PlanRecord \<Rightarrow> u64 \<Rightarrow> PlanPreparation \<Rightarrow> PlanStageRequest \<Rightarrow> CommitJournal \<Rightarrow> bool \<Rightarrow> (PlanRecord result \<times> bool) io" where
  "commit_seal plan expected receipt request journal written =
     io_bind (sealCommittedJournal (pr_PlanID plan) journal) (\<lambda>(sealed, persisted).
       case persisted of
         Inl e \<Rightarrow> io_bind (io_try (commit_fail plan expected receipt sealed written e)) (\<lambda>r. io_return (r, True))
       | Inr _ \<Rightarrow>
           commit_receipt plan expected
             (receipt\<lparr> pp_CanonicalChanged := (sr_Files request \<noteq> []),
                pp_CanonicalRevision := cj_CanonicalRevision sealed, pp_JournalID := pr_PlanID plan \<rparr>))"

definition commit_complete ::
  "(bytes \<Rightarrow> string) \<Rightarrow> PlanRecord \<Rightarrow> u64 \<Rightarrow> PlanPreparation \<Rightarrow> PlanStageRequest \<Rightarrow> CommitJournal \<Rightarrow> bool \<Rightarrow> (PlanRecord result \<times> bool) io" where
  "commit_complete hashBytes plan expected preparation request journal written =
     io_bind (io_try stager_call) (\<lambda>resync.
       case resync of
         Inl e \<Rightarrow> io_bind (io_try (commit_fail plan expected preparation journal written e)) (\<lambda>r. io_return (r, False))
       | Inr _ \<Rightarrow>
           io_bind (io_get w_identity) (\<lambda>identity.
             commit_seal plan expected
               (preparation\<lparr> pp_CanonicalFromRevision := wsrev (id_StateSeq identity),
                  pp_CommittedDiffs := committedDiffs hashBytes (sr_Files request) \<rparr>)
               request journal written))"

text \<open>\<open>CommitPlan\<close> after admission, from its end: apply, revalidate, stage.\<close>

definition commit_apply ::
  "(bytes \<Rightarrow> string) \<Rightarrow> PlanRecord \<Rightarrow> u64 \<Rightarrow> PlanPreparation \<Rightarrow> PlanStageRequest \<Rightarrow> CommitJournal \<Rightarrow> (PlanRecord result \<times> bool) io" where
  "commit_apply hashBytes plan expected preparation request applying =
     io_bind (applyJournalEntries (pr_PlanID plan) applying recheckCommitEntry) (\<lambda>(written, failed, applied).
       case failed of
         Some e \<Rightarrow> io_bind (io_try (commit_fail plan expected preparation applied written e)) (\<lambda>r. io_return (r, False))
       | None \<Rightarrow> commit_complete hashBytes plan expected preparation request applied written)"

definition commit_staged ::
  "(bytes \<Rightarrow> string) \<Rightarrow> PlanRecord \<Rightarrow> u64 \<Rightarrow> PlanPreparation \<Rightarrow> PlanStageRequest \<times> CommitJournal \<Rightarrow> (PlanRecord result \<times> bool) io" where
  "commit_staged hashBytes plan expected preparation staged =
     io_bind (revalidate plan expected preparation (snd staged)) (\<lambda>(applying, validated).
       case validated of
         Inl e \<Rightarrow> io_bind (io_try (commit_abort (pr_PlanID plan) expected preparation applying e)) (\<lambda>r. io_return (r, False))
       | Inr _ \<Rightarrow> commit_apply hashBytes plan expected preparation (fst staged) applying)"

definition commit_admitted ::
  "(bytes \<Rightarrow> string) \<Rightarrow> (tree \<Rightarrow> PlanRecord \<Rightarrow> PlanPreview) \<Rightarrow> PlanRecord \<Rightarrow> u64 \<Rightarrow> string \<Rightarrow> PlanStager \<Rightarrow> PlanPreparation \<Rightarrow> (PlanRecord result \<times> bool) io" where
  "commit_admitted hashBytes buildPreview plan expected preparedRevision stager preparation =
     io_bind (io_try (stageWriteSet buildPreview plan expected preparedRevision stager)) (\<lambda>staged.
       case staged of
         Inl e \<Rightarrow> io_bind (io_try (commit_refuse (pr_PlanID plan) expected preparation e)) (\<lambda>r. io_return (r, False))
       | Inr write_set \<Rightarrow> commit_staged hashBytes plan expected preparation write_set)"

text \<open>\<open>finish\<close>: roll the stager back unless its own commit succeeded, and release the lease.\<close>

definition commit_finish :: "string \<Rightarrow> bool \<Rightarrow> unit io" where
  "commit_finish planID stagerCommitted =
     io_bind (if stagerCommitted then io_return (Ok ()) else io_try stager_call) (\<lambda>_. release_plan planID)"

definition CommitPlan ::
  "(bytes \<Rightarrow> string) \<Rightarrow> (tree \<Rightarrow> PlanRecord \<Rightarrow> PlanPreview) \<Rightarrow> string list \<Rightarrow> PlanStager option \<Rightarrow> string \<Rightarrow> u64 \<Rightarrow> string \<Rightarrow> PlanRecord io" where
  "CommitPlan hashBytes buildPreview accepted provider planID expected preparedRevision =
     (case provider of
        None \<Rightarrow> io_throw noProvider
      | Some stager \<Rightarrow>
          io_bind (InspectPlan planID expected) (\<lambda>plan.
            if pr_State plan = PlanCommitted \<and> map_option pp_PreparedRevision (pr_Preparation plan) = Some preparedRevision
            then io_return plan
            else
              io_bind (io_lift (admitCommit plan preparedRevision stager accepted)) (\<lambda>preparation.
              io_bind (commit_admitted hashBytes buildPreview plan expected preparedRevision stager preparation) (\<lambda>(result, stagerCommitted).
              io_bind (commit_finish (pr_PlanID plan) stagerCommitted) (\<lambda>_.
              io_lift result)))))"

end
