(* ===== verification/Recovery.thy ===== *)
theory Recovery
  imports Commit
begin

text \<open>
  Startup recovery and durable undo (\<^verbatim>\<open>internal/workspace/recovery.go\<close>), the legacy prepared
  transaction of \<^verbatim>\<open>commit.go\<close>, and the question whether a workspace still holds work
  (\<^verbatim>\<open>pending.go\<close>). Journals whose file cannot be decoded are outside the model: their load fails
  closed before anything is read from them.
\<close>

section \<open>Closing journals\<close>

definition recoveryConflict :: "string \<Rightarrow> CommitJournal \<Rightarrow> go_error \<Rightarrow> 'a io" where
  "recoveryConflict key journal cause =
     io_bind (io_try (writeCommitJournal key
                (journal\<lparr> cj_State := CommitJournalRecoveryRequired, cj_LastError := Some cause \<rparr>)))
       (\<lambda>_. io_throw (Coded CodeCommitRecoveryRequired (Some cause)))"

text \<open>The two reconciliations of a plan with a closed journal.\<close>

definition reconcilable :: "u64 \<Rightarrow> PlanRecord option \<Rightarrow> PlanRecord option" where
  "reconcilable revision found =
     (case found of
        None \<Rightarrow> None
      | Some plan \<Rightarrow>
          if pr_PlanRevision plan = revision \<and> (pr_State plan = PlanCommitting \<or> pr_State plan = PlanRecoveryRequired)
          then Some plan else None)"

definition markPlanRecovered :: "string \<Rightarrow> u64 \<Rightarrow> unit io" where
  "markPlanRecovered planID revision =
     io_bind (io_get (\<lambda>w. map_of (w_plans w) planID)) (\<lambda>found.
       case reconcilable revision found of
         None \<Rightarrow> io_return ()
       | Some plan \<Rightarrow>
           if \<not> canTransition (pr_State plan) PlanRolledBack then io_throw illegalTransition
           else
             io_bind (record_event_now ''startup_recovery'' ''preimages_restored''
                        (plan\<lparr> pr_State := PlanRolledBack, pr_Preparation := None, pr_Conflict := None \<rparr>)) (\<lambda>recovered.
             io_bind (update_plan planID recovered) (\<lambda>_.
             finishPlanLocked planID)))"

definition markPlanCommitted :: "CommitJournal \<Rightarrow> unit io" where
  "markPlanCommitted journal =
     io_bind (io_get (\<lambda>w. map_of (w_plans w) (cj_PlanID journal))) (\<lambda>found.
       case reconcilable (cj_PlanRevision journal) found of
         None \<Rightarrow> io_return ()
       | Some plan \<Rightarrow>
           if \<not> canTransition (pr_State plan) PlanCommitted then io_throw illegalTransition
           else
             let preparation = (case pr_Preparation plan of None \<Rightarrow> empty_preparation | Some preparation \<Rightarrow> preparation)
             in io_bind (record_event_now ''startup_reconcile'' ''committed_journal_found''
                  (plan\<lparr> pr_State := PlanCommitted, pr_Conflict := None,
                     pr_Preparation := Some (preparation\<lparr> pp_CanonicalChanged := True,
                       pp_CanonicalRevision := cj_CanonicalRevision journal, pp_JournalID := cj_PlanID journal \<rparr>) \<rparr>)) (\<lambda>committed.
                io_bind (update_plan (cj_PlanID journal) committed) (\<lambda>_.
                finishPlanLocked (cj_PlanID journal))))"

section \<open>Restoring preimages\<close>

fun validate_entries :: "(string \<Rightarrow> string result) \<Rightarrow> string list \<Rightarrow> CommitJournalEntry list \<Rightarrow> unit result" where
  "validate_entries resolve seen [] = Ok ()"
| "validate_entries resolve seen (entry # rest) =
     (if je_Path entry = [] then Error (PlainError ''journal contains an empty path'')
      else if je_Path entry \<in> set seen then Error (PlainError ''journal contains duplicate path'')
      else (case resolve (je_Path entry) of
              Inl e \<Rightarrow> Error e
            | Inr _ \<Rightarrow> validate_entries resolve (je_Path entry # seen) rest))"

definition validateRecoveryJournal :: "(string \<Rightarrow> string result) \<Rightarrow> CommitJournal \<Rightarrow> unit result" where
  "validateRecoveryJournal resolve journal = validate_entries resolve [] (cj_Entries journal)"

definition inverse_entry :: "CommitJournalEntry \<Rightarrow> CommitJournalEntry" where
  "inverse_entry entry = entry\<lparr> je_After := je_Before entry, je_Postimage := je_Preimage entry \<rparr>"

definition image_check :: "bool result \<Rightarrow> string \<Rightarrow> unit io" where
  "image_check matched failure =
     io_bind (io_lift matched) (\<lambda>matches. if matches then io_return () else io_throw (PlainError failure))"

definition restore_entry :: "string \<Rightarrow> CommitJournalEntry \<Rightarrow> unit io" where
  "restore_entry absolute entry =
     io_bind (io_get (\<lambda>w. stateMatchesJournalImage (w_files w) absolute (je_After entry) (je_Postimage entry))) (\<lambda>matched.
     io_bind (image_check matched ''matches neither journal preimage nor postimage'') (\<lambda>_.
     io_bind fireCommitFault (\<lambda>_.
     io_bind (io_get (\<lambda>w. stateMatchesJournalImage (w_files w) absolute (je_After entry) (je_Postimage entry))) (\<lambda>matched.
     io_bind (image_check matched ''changed during recovery'') (\<lambda>_.
     io_bind (applyCommitEntry absolute (inverse_entry entry)) (\<lambda>_.
     io_bind fireCommitFault (\<lambda>_.
     io_bind (io_get (\<lambda>w. stateMatchesJournalImage (w_files w) absolute (je_Before entry) (je_Preimage entry))) (\<lambda>matched.
     image_check matched ''did not reach its exact preimage''))))))))"

definition recover_entry :: "CommitJournalEntry \<Rightarrow> unit io" where
  "recover_entry entry =
     io_bind (io_get (\<lambda>w. w_resolve w (je_Path entry))) (\<lambda>resolved.
     io_bind (io_lift resolved) (\<lambda>absolute.
     io_bind (io_get (\<lambda>w. stateMatchesJournalImage (w_files w) absolute (je_Before entry) (je_Preimage entry))) (\<lambda>matched.
     io_bind (io_lift matched) (\<lambda>matchesPreimage.
     if matchesPreimage then io_return () else restore_entry absolute entry))))"

fun recover_loop :: "string \<Rightarrow> nat list \<Rightarrow> CommitJournal \<Rightarrow> CommitJournal io" where
  "recover_loop key [] journal = io_return journal"
| "recover_loop key (i # rest) journal =
     io_bind (io_try (recover_entry (cj_Entries journal ! i))) (\<lambda>recovered.
       case recovered of
         Inl e \<Rightarrow> recoveryConflict key journal e
       | Inr _ \<Rightarrow>
           io_bind (io_try (persistCommitJournal key (mark_progress i CommitPathRestored journal))) (\<lambda>persisted.
             case persisted of
               Inl e \<Rightarrow> recoveryConflict key (mark_progress i CommitPathRestored journal) e
             | Inr _ \<Rightarrow> recover_loop key rest (mark_progress i CommitPathRestored journal)))"

definition close_recovered :: "string \<Rightarrow> CommitJournal \<Rightarrow> unit io" where
  "close_recovered key journal =
     io_bind (io_try (persistCommitJournal key journal)) (\<lambda>persisted.
       case persisted of
         Inl e \<Rightarrow> recoveryConflict key journal e
       | Inr _ \<Rightarrow> markPlanRecovered (cj_PlanID journal) (cj_PlanRevision journal))"

definition recoverCommitJournal :: "string \<Rightarrow> CommitJournal \<Rightarrow> unit io" where
  "recoverCommitJournal key journal =
     io_bind (io_get (\<lambda>w. validateRecoveryJournal (w_resolve w) journal)) (\<lambda>validated.
       case validated of
         Inl e \<Rightarrow> recoveryConflict key journal e
       | Inr _ \<Rightarrow>
           io_bind (recover_loop key (rev (commitEntryOrder (cj_Entries journal))) journal) (\<lambda>restored.
           close_recovered key (restored\<lparr> cj_State := CommitJournalRolledBack, cj_LastError := None \<rparr>)))"

text \<open>One journal of the directory, by its state.\<close>

definition recover_journal :: "string \<Rightarrow> CommitJournal \<Rightarrow> unit io" where
  "recover_journal key journal =
     (case cj_State journal of
        CommitJournalCommitted \<Rightarrow> markPlanCommitted journal
      | CommitJournalRolledBack \<Rightarrow> markPlanRecovered (cj_PlanID journal) (cj_PlanRevision journal)
      | CommitJournalPrepared \<Rightarrow>
          close_recovered key (journal\<lparr> cj_State := CommitJournalRolledBack,
            cj_LastError := (case cj_LastError journal of
                               None \<Rightarrow> Some (PlainError ''commit interrupted before any canonical write'')
                             | Some e \<Rightarrow> Some e) \<rparr>)
      | CommitJournalApplying \<Rightarrow> recoverCommitJournal key journal
      | CommitJournalRecoveryRequired \<Rightarrow> recoverCommitJournal key journal
      | CommitJournalOther _ \<Rightarrow> io_throw (Codedf CodeCommitRecoveryRequired ''journal has unknown state''))"

fun recover_journals :: "(string \<times> CommitJournal) list \<Rightarrow> unit io" where
  "recover_journals [] = io_return ()"
| "recover_journals ((key, journal) # rest) =
     io_bind (io_get (\<lambda>w. id_ID (w_identity w))) (\<lambda>workspace.
       if cj_WorkspaceID journal \<noteq> workspace
       then io_throw (Codedf CodeCommitRecoveryRequired ''journal belongs to another workspace'')
       else io_bind (recover_journal key journal) (\<lambda>_. recover_journals rest))"

definition recoverCommitJournals :: "unit io" where
  "recoverCommitJournals =
     io_bind (io_get w_stateDir) (\<lambda>stateDir.
       if \<not> stateDir then io_return ()
       else io_bind (io_get (\<lambda>w. sort_key (\<lambda>(key, journal). key @ ''.json'') (w_commitJournals w))) (\<lambda>journals.
            io_bind (recover_journals journals) (\<lambda>_. collectCommitJournals)))"

section \<open>Undo\<close>

definition compensationPrefix :: string where
  "compensationPrefix = ''undo_''"

record CompensationResult =
  cn_TransactionID :: string
  cn_CompensatesPlanID :: string
  cn_State :: CommitJournalState
  cn_CanonicalRevision :: string
  cn_JournalID :: string

definition swap_entry :: "CommitJournalEntry \<Rightarrow> CommitJournalEntry" where
  "swap_entry entry = \<lparr> je_Path = je_Path entry, je_Preimage = je_Postimage entry, je_Postimage = je_Preimage entry,
     je_Before = je_After entry, je_After = je_Before entry, je_Progress = CommitPathPending \<rparr>"

definition compensationJournal :: "time \<Rightarrow> CommitJournal \<Rightarrow> CommitJournal" where
  "compensationJournal now source = \<lparr> cj_WorkspaceID = cj_WorkspaceID source, cj_PlanID = compensationPrefix @ cj_PlanID source,
     cj_PlanRevision = cj_PlanRevision source, cj_PreparedRevision = cj_PreparedRevision source,
     cj_CompensatesPlanID = cj_PlanID source, cj_CanonicalRevision = [], cj_State = CommitJournalPrepared,
     cj_Entries = map swap_entry (cj_Entries source), cj_LastError = None, cj_CreatedAt = now, cj_UpdatedAt = now \<rparr>"

definition compensationStageRequest :: "CommitJournal \<Rightarrow> PlanStageRequest" where
  "compensationStageRequest journal = \<lparr> sr_PlanID = cj_PlanID journal, sr_PlanRevision = cj_PlanRevision journal,
     sr_Files = map (\<lambda>entry. \<lparr> sf_Path = je_Path entry, sf_Before = je_Preimage entry, sf_After = je_Postimage entry,
        sf_BeforeExists = (ds_Kind (je_Before entry) \<noteq> ObjectMissing),
        sf_AfterExists = (ds_Kind (je_After entry) \<noteq> ObjectMissing),
        sf_BeforeDisk = je_Before entry, sf_AfterDisk = je_After entry, sf_Patch = [] \<rparr>) (cj_Entries journal),
     sr_RequiresFormatter = False \<rparr>"

definition compensationSource :: "world \<Rightarrow> string \<Rightarrow> CommitJournal result" where
  "compensationSource w planID =
     (case map_of (w_plans w) planID of
        None \<Rightarrow> Error (PlainError ''committed transaction is not available for compensation'')
      | Some plan \<Rightarrow>
          if pr_State plan \<noteq> PlanCommitted \<or> map_option pp_JournalID (pr_Preparation plan) \<noteq> Some planID
          then Error (PlainError ''committed transaction is not available for compensation'')
          else
            (case map_of (w_commitJournals w) planID of
               None \<Rightarrow> Error (PlainError ''no such journal'')
             | Some source \<Rightarrow>
                 if cj_State source \<noteq> CommitJournalCommitted \<or> cj_WorkspaceID source \<noteq> id_ID (w_identity w) \<or>
                    cj_PlanID source \<noteq> planID \<or> cj_PlanRevision source \<noteq> pr_PlanRevision plan
                 then Error (PlainError ''committed transaction journal does not match the plan'')
                 else Ok source))"

definition recheckCompensationEntry :: recheck where
  "recheckCompensationEntry files absolute entry =
     (case stateMatchesJournalImage files absolute (je_Before entry) (je_Preimage entry) of
        Inl e \<Rightarrow> Error e
      | Inr matches \<Rightarrow>
          if matches then Ok () else Error (Codedf CodeCommitPreconditionChanged ''changed during compensation''))"

definition revalidateCompensation :: "CommitJournal \<Rightarrow> unit io" where
  "revalidateCompensation journal = recheck_all recheckCompensationEntry (cj_Entries journal)"

definition compensationFailure :: "string \<Rightarrow> CommitJournal \<Rightarrow> bool \<Rightarrow> go_error \<Rightarrow> 'a io" where
  "compensationFailure key journal written cause =
     io_bind (io_try (writeCommitJournal key
                (journal\<lparr> cj_State := (if written then CommitJournalRecoveryRequired else CommitJournalRolledBack),
                          cj_LastError := Some cause \<rparr>)))
       (\<lambda>_. io_throw cause)"

text \<open>
  A transaction whose journal is durable and applying: apply it, finalize it with the provider,
  seal it. The flag of the result says whether the provider committed.
\<close>

definition transaction_seal ::
  "string \<Rightarrow> CommitJournal \<Rightarrow> bool \<Rightarrow> (bool \<Rightarrow> CommitJournal \<Rightarrow> go_error \<Rightarrow> CommitJournal io) \<Rightarrow> (CommitJournal result \<times> bool) io" where
  "transaction_seal key journal written failure =
     io_bind (sealCommittedJournal key journal) (\<lambda>(sealed, persisted).
       case persisted of
         Inl e \<Rightarrow> io_bind (io_try (failure written sealed e)) (\<lambda>r. io_return (r, True))
       | Inr _ \<Rightarrow> io_bind collectCommitJournals (\<lambda>_. io_return (Ok sealed, True)))"

definition transaction_finalize ::
  "string \<Rightarrow> CommitJournal \<Rightarrow> bool \<Rightarrow> unit io \<Rightarrow> (bool \<Rightarrow> CommitJournal \<Rightarrow> go_error \<Rightarrow> CommitJournal io) \<Rightarrow> (CommitJournal result \<times> bool) io" where
  "transaction_finalize key journal written finalize failure =
     io_bind (io_try finalize) (\<lambda>finalized.
       case finalized of
         Inl e \<Rightarrow> io_bind (io_try (failure written journal e)) (\<lambda>r. io_return (r, False))
       | Inr _ \<Rightarrow> transaction_seal key journal written failure)"

definition transaction_apply ::
  "string \<Rightarrow> CommitJournal \<Rightarrow> recheck \<Rightarrow> unit io \<Rightarrow> (bool \<Rightarrow> CommitJournal \<Rightarrow> go_error \<Rightarrow> CommitJournal io) \<Rightarrow> (CommitJournal result \<times> bool) io" where
  "transaction_apply key journal recheck finalize failure =
     io_bind (applyJournalEntries key journal recheck) (\<lambda>(written, failed, applied).
       case failed of
         Some e \<Rightarrow> io_bind (io_try (failure written applied e)) (\<lambda>r. io_return (r, False))
       | None \<Rightarrow> transaction_finalize key applied written finalize failure)"

text \<open>
  \<open>CompensatePlan\<close> after it took its lease: stage the inverse view, make the journal durable, mark
  it applying, and run the transaction.
\<close>

definition compensate_leased :: "string \<Rightarrow> CommitJournal \<Rightarrow> (CommitJournal result \<times> bool) io" where
  "compensate_leased key journal =
     io_bind (io_try (io_bind stager_call (\<lambda>_. persistCommitJournal key journal))) (\<lambda>prepared.
       case prepared of
         Inl e \<Rightarrow> io_return (Error e, False)
       | Inr _ \<Rightarrow>
           let applying = journal\<lparr> cj_State := CommitJournalApplying \<rparr>;
               failure = (\<lambda>written journal cause. compensationFailure key journal written cause)
           in io_bind (io_try (persistCommitJournal key applying)) (\<lambda>persisted.
                case persisted of
                  Inl e \<Rightarrow> io_bind (io_try (failure False applying e)) (\<lambda>r. io_return (r, False))
                | Inr _ \<Rightarrow> transaction_apply key applying recheckCompensationEntry stager_call failure))"

definition compensation_result :: "string \<Rightarrow> CommitJournal \<Rightarrow> CompensationResult" where
  "compensation_result planID journal = \<lparr> cn_TransactionID = compensationPrefix @ planID, cn_CompensatesPlanID = planID,
     cn_State = cj_State journal, cn_CanonicalRevision = cj_CanonicalRevision journal, cn_JournalID = compensationPrefix @ planID \<rparr>"

definition compensate_run :: "string \<Rightarrow> CommitJournal \<Rightarrow> CompensationResult io" where
  "compensate_run planID journal =
     io_bind (io_get (\<lambda>w. compensationPrefix @ planID \<in> set (w_activePlans w))) (\<lambda>active.
       if active then io_throw (Codedf CodeWorkspaceBusy ''transaction is already active'')
       else
         io_bind (io_update (\<lambda>w. w\<lparr>w_activePlans := (compensationPrefix @ planID) # w_activePlans w\<rparr>)) (\<lambda>_.
         io_bind (compensate_leased (compensationPrefix @ planID) journal) (\<lambda>(result, stagerCommitted).
         io_bind (commit_finish (compensationPrefix @ planID) stagerCommitted) (\<lambda>_.
         io_bind (io_lift result) (\<lambda>sealed.
         io_return (compensation_result planID sealed))))))"

definition CompensatePlan :: "PlanStager option \<Rightarrow> string \<Rightarrow> CompensationResult io" where
  "CompensatePlan provider planID =
     (case provider of
        None \<Rightarrow> io_throw noProvider
      | Some stager \<Rightarrow>
          io_bind (io_get (\<lambda>w. compensationSource w planID)) (\<lambda>found.
          io_bind (io_lift found) (\<lambda>source.
          io_bind (io_get (\<lambda>w. map_of (w_commitJournals w) (compensationPrefix @ planID))) (\<lambda>existing.
            if map_option cj_State existing = Some CommitJournalCommitted
            then io_return (compensation_result planID (the existing))
            else
              io_bind io_now (\<lambda>now.
                let journal = compensationJournal now source
                in io_bind (io_get (\<lambda>w. validateRecoveryJournal (w_resolve w) journal)) (\<lambda>validated.
                   io_bind (io_lift validated) (\<lambda>_.
                   io_bind (revalidateCompensation journal) (\<lambda>_.
                   compensate_run planID journal))))))))"

section \<open>Prepared transactions\<close>

fun validate_writes :: "tree \<Rightarrow> (string \<Rightarrow> string result) \<Rightarrow> string list \<Rightarrow> PlanStageFile list \<Rightarrow> unit result" where
  "validate_writes files resolve seen [] = Ok ()"
| "validate_writes files resolve seen (f # rest) =
     (if sf_Path f = [] \<or> sf_Path f \<in> set seen then Error (PlainError ''invalid prepared write path'')
      else (case resolve (sf_Path f) of
              Inl e \<Rightarrow> Error e
            | Inr absolute \<Rightarrow>
                (case stateMatchesSnapshot files absolute (sf_BeforeDisk f) (sf_Before f) of
                   Inl e \<Rightarrow> Error e
                 | Inr matches \<Rightarrow>
                     if \<not> matches then Error changedBeforeCommit
                     else validate_writes files resolve (sf_Path f # seen) rest)))"

definition validatePreparedWrites :: "tree \<Rightarrow> (string \<Rightarrow> string result) \<Rightarrow> PlanStageFile list \<Rightarrow> unit result" where
  "validatePreparedWrites files resolve writes = validate_writes files resolve [] writes"

definition transactionFailure :: "string \<Rightarrow> CommitJournal \<Rightarrow> bool \<Rightarrow> go_error \<Rightarrow> CommitJournal io" where
  "transactionFailure key journal written cause =
     io_bind (io_try (persistCommitJournal key
                (journal\<lparr> cj_State := (if written then CommitJournalRecoveryRequired else CommitJournalRolledBack),
                          cj_LastError := Some cause \<rparr>)))
       (\<lambda>_. io_throw (if written then Coded CodeCommitRecoveryRequired (Some cause) else cause))"

definition CommitPreparedTransaction :: "string \<Rightarrow> string \<Rightarrow> PlanStageFile list \<Rightarrow> bool \<Rightarrow> Identity io" where
  "CommitPreparedTransaction transactionID operationID files hasFinalize =
     (if transactionID = [] \<or> operationID = []
      then io_throw (PlainError ''legacy transaction requires transaction and operation IDs'')
      else if files = [] then io_get w_identity
      else
        io_bind (io_get (\<lambda>w. validatePreparedWrites (w_files w) (w_resolve w) files)) (\<lambda>validated.
        io_bind (io_lift validated) (\<lambda>_.
        io_bind (newCommitJournal transactionID 1 (''legacy:'' @ operationID) files) (\<lambda>journal.
        io_bind (io_get w_stateDir) (\<lambda>stateDir.
          if \<not> stateDir then io_throw (PlainError ''commit journal state directory is required'')
          else
            io_bind (persistCommitJournal transactionID journal) (\<lambda>_.
            let applying = journal\<lparr> cj_State := CommitJournalApplying \<rparr>
            in io_bind (persistCommitJournal transactionID applying) (\<lambda>_.
               io_bind (transaction_apply transactionID applying recheckCommitEntry
                          (if hasFinalize then stager_call else io_return ())
                          (\<lambda>written journal cause. transactionFailure transactionID journal written cause)) (\<lambda>(result, _).
               io_bind (io_lift result) (\<lambda>_.
               io_get w_identity)))))))))"

section \<open>Work that must not be dropped\<close>

definition hex_char :: "char \<Rightarrow> bool" where
  "hex_char c = (let n = of_char c :: nat in 48 \<le> n \<and> n \<le> 57 \<or> 97 \<le> n \<and> n \<le> 102 \<or> 65 \<le> n \<and> n \<le> 70)"

definition validID :: "string \<Rightarrow> bool" where
  "validID name = (HasPrefix name ''ws_'' \<and> length name = 35 \<and> list_all hex_char (drop 3 name))"

definition PersistedWorkPending :: "world \<Rightarrow> bool" where
  "PersistedWorkPending w =
     (w_stateDir w \<and> validID (id_ID (w_identity w)) \<and>
      (list_ex (\<lambda>(key, journal). journal_open journal) (w_commitJournals w) \<or>
       list_ex (\<lambda>(key, plan). pr_State plan = PlanCommitting \<or> pr_State plan = PlanRecoveryRequired) (w_planRecords w)))"

definition Busy :: "world \<Rightarrow> bool" where
  "Busy w = (w_activePlans w \<noteq> [] \<or> list_ex (\<lambda>(key, plan). planHoldsWork (pr_State plan)) (w_plans w) \<or> PersistedWorkPending w)"

end
