(* ===== verification/Commit_Safety.thy ===== *)
theory Commit_Safety
  imports Commit
begin

text \<open>
  What a commit leaves behind, whatever fails and wherever the process dies. The argument is the
  write-ahead one: no path of the tree is changed before a durable journal holds its exact
  preimage, every change is a postimage of that journal, and the journal is closed as committed
  only when every postimage is in place. The loop that applies a journal is shared by plan
  commits, prepared transactions and compensations, which differ in the recheck they run before
  each write; the lemmas about it are stated once, for every recheck.
\<close>

section \<open>Images\<close>

text \<open>What a journal says about the tree, without the progress marks.\<close>

definition entry_images :: "CommitJournalEntry \<Rightarrow> CommitJournalEntry" where
  "entry_images entry = entry\<lparr> je_Progress := CommitPathPending \<rparr>"

definition images :: "CommitJournal \<Rightarrow> CommitJournalEntry list" where
  "images journal = map entry_images (cj_Entries journal)"

lemma entry_images_fields [simp]:
  "je_Path (entry_images e) = je_Path e" "je_Preimage (entry_images e) = je_Preimage e"
  "je_Postimage (entry_images e) = je_Postimage e" "je_Before (entry_images e) = je_Before e"
  "je_After (entry_images e) = je_After e" "entry_images (entry_images e) = entry_images e"
  "entry_images (e\<lparr> je_Progress := progress \<rparr>) = entry_images e"
  by (simp_all add: entry_images_def)

lemma images_simps [simp]:
  "images (journal\<lparr> cj_State := state \<rparr>) = images journal"
  "images (journal\<lparr> cj_LastError := e \<rparr>) = images journal"
  "images (journal\<lparr> cj_UpdatedAt := now \<rparr>) = images journal"
  "images (journal\<lparr> cj_CanonicalRevision := revision \<rparr>) = images journal"
  "length (images journal) = length (cj_Entries journal)"
  by (simp_all add: images_def)

lemma images_mark [simp]: "images (mark_progress i progress journal) = images journal"
proof (cases "i < length (cj_Entries journal)")
  case True
  then show ?thesis
    by (simp add: images_def mark_progress_def map_update) (metis list_update_id nth_map)
qed (simp add: images_def mark_progress_def list_update_beyond linorder_not_less)

lemma mark_progress_state [simp]: "cj_State (mark_progress i progress journal) = cj_State journal"
  by (simp add: mark_progress_def)

text \<open>The object an applied entry leaves at its path.\<close>

definition holds_post :: "CommitJournalEntry \<Rightarrow> fs_node option \<Rightarrow> bool" where
  "holds_post entry node =
     (case ds_Kind (je_After entry) of
        ObjectMissing \<Rightarrow> node = None
      | ObjectSymlink \<Rightarrow>
          (case node of
             Some (LinkNode target meta) \<Rightarrow> target = ds_SymlinkTarget (je_After entry) \<and> nm_Mode meta = symlinkMode
           | _ \<Rightarrow> False)
      | ObjectDirectory \<Rightarrow> False
      | _ \<Rightarrow>
          (case node of
             Some (FileNode content meta) \<Rightarrow>
               content = je_Postimage entry \<and> nm_Mode meta = and (ds_Mode (je_After entry)) commitModeMask
           | _ \<Rightarrow> False))"

lemma holds_post_images [simp]: "holds_post (entry_images e) = holds_post e"
  unfolding fun_eq_iff holds_post_def entry_images_fields by simp

lemma exact_matches_image:
  "stateMatchesSnapshot files path expected content = Ok True \<Longrightarrow>
   stateMatchesJournalImage files path expected content = Ok True"
  by (auto simp: stateMatchesImage_def split: sum.splits prod.splits)

lemma matches_same_object:
  assumes "stateMatchesJournalImage files path expected content = Ok True"
    and "stateMatchesJournalImage files' path expected content = Ok True"
  shows "same_object (files path) (files' path)"
proof (cases "files path")
  case None
  then show ?thesis using assms
    by (auto simp: stateMatchesImage_def inspectPath_def missing_snapshot_def diskSnapshot_def
        split: option.split_asm fs_node.split_asm)
next
  case (Some node)
  then show ?thesis using assms
    by (cases node) (auto simp: stateMatchesImage_def inspectPath_def missing_snapshot_def diskSnapshot_def
        split: option.split_asm fs_node.split_asm)
qed

lemma same_object_matches:
  assumes "same_object (files path) (files' path)"
    and "stateMatchesJournalImage files path expected content = Ok True"
  shows "stateMatchesJournalImage files' path expected content = Ok True"
proof (cases "files path")
  case None
  then show ?thesis using assms
    by (cases "files' path") (auto simp: stateMatchesImage_def inspectPath_def)
next
  case (Some node)
  then obtain node' where "files' path = Some node'" using assms(1) by (cases "files' path"; cases node) auto
  then show ?thesis using assms Some
    by (cases node; cases node') (auto simp: stateMatchesImage_def inspectPath_def diskSnapshot_def)
qed

section \<open>Frames\<close>

text \<open>Everything but the application of an entry leaves the tree alone.\<close>

definition tree_same :: "world \<Rightarrow> world \<Rightarrow> bool" where
  "tree_same w w' = (w_files w' = w_files w \<and> w_resolve w' = w_resolve w \<and> w_stateDir w' = w_stateDir w)"

interpretation tree: frame tree_same
  by unfold_locales (auto simp: tree_same_def)

lemma tree_of_canon: "canon.keeps m \<Longrightarrow> tree.keeps m"
  by (auto simp: canon.keeps_def tree.keeps_def canonical_same_def tree_same_def)

lemma tree_update_journals [intro, simp]: "tree.keeps (io_update (\<lambda>w. w\<lparr>w_commitJournals := f w\<rparr>))"
  by (rule tree.keeps_update) (simp add: tree_same_def)

lemma canon_calls [intro, simp]:
  "canon.keeps MkdirAll" "canon.keeps syncDirectory" "canon.keeps fireCommitFault"
  by (simp_all add: MkdirAll_def syncDirectory_def fireCommitFault_def)

lemmas tree_basic = tree.keeps_rules canon_basic [THEN tree_of_canon] canon_calls [THEN tree_of_canon]
  canon_store [THEN tree_of_canon] canon_prepare [THEN tree_of_canon] tree_update_journals

lemma tree_journal [intro, simp]:
  "tree.keeps (writeCommitJournal key journal)" "tree.keeps (persistCommitJournal key journal)"
  "tree.keeps (remove_journal key)"
  unfolding persistCommitJournal_def writeCommitJournal_def remove_journal_def by (intro tree_basic)+

lemma tree_collect [intro, simp]: "tree.keeps collectCommitJournals"
proof -
  have "tree.keeps (collect_loop cutoff index journals)" for cutoff index journals
    by (induction cutoff index journals rule: collect_loop.induct) (auto intro!: tree_basic tree_journal)
  then show ?thesis unfolding collectCommitJournals_def by (intro tree_basic)
qed

lemma tree_commit_parts [intro, simp]:
  "tree.keeps (commit_refuse planID expected preparation cause)"
  "tree.keeps (commit_abort planID expected preparation journal cause)"
  "tree.keeps (markCommitRecovery plan key journal cause)"
  "tree.keeps (commit_fail plan expected preparation journal written cause)"
  "tree.keeps (commit_finish planID stagerCommitted)"
  "tree.keeps (ready_entry recheck entry)"
  unfolding commit_fail_def commit_abort_def commit_refuse_def markCommitRecovery_def commit_finish_def ready_entry_def
  by (intro tree_basic tree_journal)+

lemma canon_ready [intro, simp]: "canon.keeps (ready_entry recheck entry)"
  unfolding ready_entry_def by (intro canon_rules canon_calls)

text \<open>A journal write either does not happen or replaces the journal under its key, nothing else.\<close>

definition journal_written :: "string \<Rightarrow> CommitJournal \<Rightarrow> world \<Rightarrow> world \<Rightarrow> bool" where
  "journal_written key journal w w' =
     (\<exists>now. map_of (w_commitJournals w') = (map_of (w_commitJournals w))(key \<mapsto> journal\<lparr> cj_UpdatedAt := now \<rparr>))"

definition journal_effect :: "string \<Rightarrow> CommitJournal \<Rightarrow> world \<Rightarrow> unit outcome \<Rightarrow> world \<Rightarrow> bool" where
  "journal_effect key journal w r w' =
     (tree_same w w' \<and> w_identity w' = w_identity w \<and> w_plans w' = w_plans w \<and> w_planRecords w' = w_planRecords w \<and>
      (journal_written key journal w w' \<or> \<not> is_done r \<and> w_commitJournals w' = w_commitJournals w))"

text \<open>A call of the environment changes nothing but the script.\<close>

definition quiet :: "world \<Rightarrow> world \<Rightarrow> bool" where
  "quiet w w' = (\<exists>script. w' = w\<lparr>w_io := script\<rparr>)"

lemma wp_quiet: "io_wp io_call (\<lambda>_. quiet w) w"
proof -
  have "quiet w (w\<lparr>w_io := script\<rparr>)" for script unfolding quiet_def by (rule exI) (rule refl)
  from this this [of "w_io w"] show ?thesis
    by (simp add: io_call_cases split: list.split io_event.split)
qed

lemma journal_effect_quiet:
  assumes "journal_effect key journal w r w'" "quiet w' w''" "is_done r' \<longrightarrow> is_done r"
  shows "journal_effect key journal w r' w''"
  using assms unfolding quiet_def by (elim exE) (simp add: journal_effect_def journal_written_def tree_same_def, blast)

lemma journal_effect_after_quiet: "quiet w w' \<Longrightarrow> journal_effect key journal w' r w'' = journal_effect key journal w r w''"
  unfolding quiet_def by (erule exE) (simp add: journal_effect_def journal_written_def tree_same_def)

lemma journal_effect_none: "quiet w w' \<Longrightarrow> \<not> is_done r \<Longrightarrow> journal_effect key journal w r w'"
  unfolding quiet_def by (erule exE) (simp add: journal_effect_def tree_same_def)

lemma journal_effect_tick: "journal_effect key journal (tick w) r w' = journal_effect key journal w r w'"
  by (simp add: journal_effect_def journal_written_def tree_same_def)

lemma journal_effect_call:
  assumes "\<And>w'. io_wp m (journal_effect key journal w') w'"
  shows "io_wp (io_bind io_call (\<lambda>_. m)) (journal_effect key journal w) w"
proof (rule wp_bindI [OF wp_quiet])
  fix w' assume "quiet w w'"
  then show "io_wp m (journal_effect key journal w) w'"
    using assms [of w'] by (auto simp: journal_effect_after_quiet elim!: wp_mono)
qed (simp_all add: journal_effect_none)

lemma journal_effect_last:
  assumes "io_wp m (journal_effect key journal w) w"
  shows "io_wp (io_bind m (\<lambda>_. io_call)) (journal_effect key journal w) w"
proof (rule wp_bindI [OF assms])
  fix x w' assume "journal_effect key journal w (Done x) w'"
  then show "io_wp io_call (journal_effect key journal w) w'"
    by (auto intro: wp_mono [OF wp_quiet] elim!: journal_effect_quiet)
qed

lemma wp_writeCommitJournal: "io_wp (writeCommitJournal key journal) (journal_effect key journal w) w"
proof -
  have "io_wp (io_update (\<lambda>w. w\<lparr>w_commitJournals :=
      AList.update key (journal\<lparr> cj_UpdatedAt := now \<rparr>) (w_commitJournals w)\<rparr>)) (journal_effect key journal w') w'" for now w'
    by (auto simp: journal_effect_def journal_written_def tree_same_def fun_eq_iff)
  note journal_effect_call [OF journal_effect_call [OF journal_effect_last [OF this]], of "w_now w" "tick w"]
  then show ?thesis
    unfolding writeCommitJournal_def MkdirAll_def syncDirectory_def wp_bind_now
    by (rule wp_mono) (simp add: journal_effect_tick)
qed

lemma wp_persistCommitJournal: "io_wp (persistCommitJournal key journal) (journal_effect key journal w) w"
  unfolding persistCommitJournal_def fireCommitFault_def
  by (intro journal_effect_call journal_effect_last wp_writeCommitJournal)

text \<open>Applying an entry changes at most its path, to the postimage, and has done so when it returns.\<close>

definition entry_effect :: "string \<Rightarrow> CommitJournalEntry \<Rightarrow> world \<Rightarrow> world \<Rightarrow> bool" where
  "entry_effect path entry w w' =
     (w_resolve w' = w_resolve w \<and> w_stateDir w' = w_stateDir w \<and> w_commitJournals w' = w_commitJournals w \<and>
      (\<forall>p. p \<noteq> path \<longrightarrow> w_files w' p = w_files w p) \<and>
      (w_files w' path = w_files w path \<or> holds_post entry (w_files w' path)))"

lemma wp_call:
  assumes "\<And>script r. Q r (w\<lparr>w_io := script\<rparr>)"
  shows "io_wp io_call Q w"
  using wp_quiet by (rule wp_mono) (use assms in \<open>auto simp: quiet_def\<close>)

lemma wp_bind_return: "io_wp (io_bind (io_return x) f) Q w = io_wp (f x) Q w"
  by simp

lemma wp_bind_try:
  assumes "io_wp m P w" "\<And>x w'. P (Done x) w' \<Longrightarrow> io_wp (g x) Q w'"
    and "\<And>e w'. P (Fail e) w' \<Longrightarrow> io_wp (f e) Q w'" "\<And>w'. P Crashed w' \<Longrightarrow> Q Crashed w'"
  shows "io_wp (io_bind (io_try m) (\<lambda>r. case r of Inl e \<Rightarrow> f e | Inr x \<Rightarrow> g x)) Q w"
proof -
  have "io_wp (io_try m) (\<lambda>r w'. case r of
      Done (Inr x) \<Rightarrow> P (Done x) w' | Done (Inl e) \<Rightarrow> P (Fail e) w' | Fail e \<Rightarrow> False | Crashed \<Rightarrow> P Crashed w') w"
    by (rule wp_tryI [OF assms(1)]) auto
  then show ?thesis by (rule wp_bindI) (auto split: sum.splits intro: assms(2-4))
qed

lemma wp_bind_call:
  assumes "\<And>script. io_wp (f ()) Q (w\<lparr>w_io := script\<rparr>)"
    and "\<And>script e. Q (Fail e) (w\<lparr>w_io := script\<rparr>)" "\<And>script. Q Crashed (w\<lparr>w_io := script\<rparr>)"
  shows "io_wp (io_bind io_call f) Q w"
  using wp_quiet by (rule wp_bindI) (use assms in \<open>auto simp: quiet_def\<close>)

lemma wp_commitWrite:
  assumes "ds_Kind (je_After entry) = ObjectRegularText \<or> ds_Kind (je_After entry) = ObjectBinary"
  shows "io_wp (commitWrite path (je_Postimage entry) (ds_Mode (je_After entry)) replace)
     (\<lambda>r w'. entry_effect path entry w w' \<and> (is_done r \<longrightarrow> holds_post entry (w_files w' path))) w"
  unfolding commitWrite_def writeTempAndRename_def
  by (rule wp_bind_call) (use assms in \<open>auto simp: entry_effect_def holds_post_def put_node_def new_meta_def\<close>)

lemma wp_commitSymlink:
  assumes "ds_Kind (je_After entry) = ObjectSymlink"
  shows "io_wp (commitSymlink path (ds_SymlinkTarget (je_After entry)) replace)
     (\<lambda>r w'. entry_effect path entry w w' \<and> (is_done r \<longrightarrow> holds_post entry (w_files w' path))) w"
proof (cases replace)
  case True
  then show ?thesis unfolding commitSymlink_def atomicSymlink_def if_P [OF True]
    by (intro wp_bind_call) (use assms in \<open>auto simp: entry_effect_def holds_post_def put_node_def new_meta_def\<close>)
next
  case False
  then show ?thesis unfolding commitSymlink_def if_not_P [OF False]
    by (intro wp_bind_call) (use assms in \<open>auto simp: entry_effect_def holds_post_def put_node_def new_meta_def\<close>)
qed

lemma wp_os_Remove:
  assumes "ds_Kind (je_After entry) = ObjectMissing"
  shows "io_wp (os_Remove path)
     (\<lambda>r w'. entry_effect path entry w w' \<and> (is_done r \<longrightarrow> holds_post entry (w_files w' path))) w"
  unfolding os_Remove_def
  by (rule wp_bind_call) (use assms in \<open>auto simp: entry_effect_def holds_post_def\<close>)

lemma entry_effect_call:
  assumes "io_wp m (\<lambda>r w'. entry_effect path entry w w' \<and> (is_done r \<longrightarrow> holds_post entry (w_files w' path))) w"
  shows "io_wp (io_bind m (\<lambda>_. io_call))
     (\<lambda>r w'. entry_effect path entry w w' \<and> (is_done r \<longrightarrow> holds_post entry (w_files w' path))) w"
  by (rule wp_bindI [OF assms]; (rule wp_call)?) (auto simp: entry_effect_def)

lemmas entry_effect_sync = entry_effect_call [folded syncDirectory_def]

lemma entry_effect_script:
  "entry_effect path entry (w\<lparr>w_io := script\<rparr>) w' = entry_effect path entry w w'"
  "entry_effect path entry w (w\<lparr>w_io := script\<rparr>)"
  by (simp_all add: entry_effect_def)

lemma wp_applyCommitEntry:
  "io_wp (applyCommitEntry path entry)
     (\<lambda>r w'. entry_effect path entry w w' \<and> (is_done r \<longrightarrow> holds_post entry (w_files w' path))) w"
proof -
  note effects = wp_commitWrite [THEN entry_effect_sync] wp_commitSymlink [THEN entry_effect_sync]
    wp_os_Remove [THEN entry_effect_sync]
  note after_call = effects [where w = "w\<lparr>w_io := script\<rparr>" for script, unfolded entry_effect_script(1)]
  have mkdir: "io_wp (io_bind MkdirAll (\<lambda>_. m))
      (\<lambda>r w'. entry_effect path entry w w' \<and> (is_done r \<longrightarrow> holds_post entry (w_files w' path))) w"
    if "\<And>script. io_wp m (\<lambda>r w'. entry_effect path entry w w' \<and> (is_done r \<longrightarrow> holds_post entry (w_files w' path))) (w\<lparr>w_io := script\<rparr>)"
    for m unfolding MkdirAll_def by (rule wp_bind_call) (simp_all add: that entry_effect_script(2))
  note rules = wp_bind_return mkdir after_call effects(3)
  show ?thesis
    by (cases "ds_Kind (je_After entry)"; simp add: applyCommitEntry_def rules del: wp_bind)
      (rule mkdir, simp add: entry_effect_script(2))
qed

section \<open>Applying a journal\<close>

text \<open>
  \<open>written_by\<close>: every path of the tree is as it was, or holds the postimage of an entry.
  \<open>explained\<close>: that, and on the old tree the recheck of every entry passed. \<open>journaled\<close>: an open durable journal has the entries that
  explain the tree. \<open>sealed\<close>: every postimage is in place, and no open journal is left.
\<close>

definition written_by :: "tree \<Rightarrow> (string \<Rightarrow> string result) \<Rightarrow> CommitJournalEntry list \<Rightarrow> tree \<Rightarrow> bool" where
  "written_by base resolve entries files =
     (\<forall>p. files p = base p \<or> (\<exists>e \<in> set entries. resolve (je_Path e) = Ok p \<and> holds_post e (files p)))"

definition preimages_hold :: "recheck \<Rightarrow> tree \<Rightarrow> (string \<Rightarrow> string result) \<Rightarrow> CommitJournalEntry list \<Rightarrow> bool" where
  "preimages_hold recheck base resolve entries =
     (\<forall>e \<in> set entries. \<forall>p. resolve (je_Path e) = Ok p \<longrightarrow> recheck base p e = Ok ())"

definition posted :: "(string \<Rightarrow> string result) \<Rightarrow> CommitJournalEntry \<Rightarrow> tree \<Rightarrow> bool" where
  "posted resolve entry files = (\<forall>p. resolve (je_Path entry) = Ok p \<longrightarrow> holds_post entry (files p))"

definition distinct_paths :: "(string \<Rightarrow> string result) \<Rightarrow> CommitJournalEntry list \<Rightarrow> bool" where
  "distinct_paths resolve entries = distinct (map (\<lambda>e. resolve (je_Path e)) entries)"

definition fully_written :: "(string \<Rightarrow> string result) \<Rightarrow> CommitJournalEntry list \<Rightarrow> tree \<Rightarrow> bool" where
  "fully_written resolve entries files = (distinct_paths resolve entries \<longrightarrow> (\<forall>e \<in> set entries. posted resolve e files))"

definition explained :: "recheck \<Rightarrow> tree \<Rightarrow> (string \<Rightarrow> string result) \<Rightarrow> CommitJournalEntry list \<Rightarrow> world \<Rightarrow> bool" where
  "explained recheck base resolve entries w =
     (w_resolve w = resolve \<and> preimages_hold recheck base resolve entries \<and>
      written_by base resolve entries (w_files w))"

definition journaled ::
  "recheck \<Rightarrow> tree \<Rightarrow> (string \<Rightarrow> string result) \<Rightarrow> CommitJournalEntry list \<Rightarrow> string \<Rightarrow> world \<Rightarrow> bool" where
  "journaled recheck base resolve entries key w =
     (explained recheck base resolve entries w \<and>
      (\<exists>journal. map_of (w_commitJournals w) key = Some journal \<and> images journal = entries \<and>
         cj_State journal \<in> {CommitJournalApplying, CommitJournalRecoveryRequired}))"

definition sealed ::
  "recheck \<Rightarrow> tree \<Rightarrow> (string \<Rightarrow> string result) \<Rightarrow> CommitJournalEntry list \<Rightarrow> string \<Rightarrow> world \<Rightarrow> bool" where
  "sealed recheck base resolve entries key w =
     (explained recheck base resolve entries w \<and> fully_written resolve entries (w_files w) \<and>
      (\<forall>journal. map_of (w_commitJournals w) key = Some journal \<longrightarrow>
         images journal = entries \<and> cj_State journal = CommitJournalCommitted))"

lemma explained_start:
  "preimages_hold recheck (w_files w) (w_resolve w) entries \<Longrightarrow> explained recheck (w_files w) (w_resolve w) entries w"
  by (simp add: explained_def written_by_def)

lemma explained_tree: "tree_same w w' \<Longrightarrow> explained recheck base resolve entries w' = explained recheck base resolve entries w"
  by (simp add: explained_def tree_same_def)

lemma journaled_same:
  assumes "journaled recheck base resolve entries key w" "tree_same w w'" "w_commitJournals w' = w_commitJournals w"
  shows "journaled recheck base resolve entries key w'"
  using assms explained_tree [OF assms(2)] by (simp add: journaled_def)

lemma journaled_canon:
  assumes "journaled recheck base resolve entries key w" "canonical_same w w'"
  shows "journaled recheck base resolve entries key w'"
  by (rule journaled_same [OF assms(1)]) (use assms(2) in \<open>simp_all add: canonical_same_def tree_same_def\<close>)

lemma journaled_written:
  assumes "journal_written key journal w w'" "tree_same w w'" "images journal = entries"
    and "cj_State journal \<in> {CommitJournalApplying, CommitJournalRecoveryRequired}"
    and "explained recheck base resolve entries w"
  shows "journaled recheck base resolve entries key w'"
  using assms by (auto simp: journaled_def journal_written_def explained_tree)

lemma journaledD: "journaled recheck base resolve entries key w \<Longrightarrow> explained recheck base resolve entries w"
  by (simp add: journaled_def)

text \<open>Writing the same images again, still open, keeps the journal.\<close>

lemma journaled_persist:
  assumes "journaled recheck base resolve entries key w" "images journal = entries"
    and "cj_State journal \<in> {CommitJournalApplying, CommitJournalRecoveryRequired}"
  shows "io_wp (persistCommitJournal key journal)
    (\<lambda>r w'. tree_same w w' \<and> journaled recheck base resolve entries key w') w"
  by (rule wp_mono [OF wp_persistCommitJournal])
    (use assms in \<open>auto simp: journal_effect_def intro: journaled_written journaledD journaled_same\<close>)

lemma journaled_keeps_canon: "canon.keeps m \<Longrightarrow> journaled recheck base resolve entries key w \<Longrightarrow>
   io_wp m (\<lambda>r w'. tree_same w w' \<and> journaled recheck base resolve entries key w') w"
  by (rule canon.keeps_wp) (auto simp: canonical_same_def tree_same_def elim: journaled_same)

lemma explained_apply:
  assumes "explained recheck base resolve entries w" "entry_effect p e w w'"
    and "entry_images e \<in> set entries" "resolve (je_Path e) = Ok p"
  shows "explained recheck base resolve entries w'"
proof -
  have "w_files w' q = base q \<or> (\<exists>e \<in> set entries. resolve (je_Path e) = Ok q \<and> holds_post e (w_files w' q))" for q
  proof (cases "w_files w' q = w_files w q")
    case True
    then show ?thesis using assms(1) by (simp add: explained_def written_by_def)
  next
    case False
    then have "q = p" "holds_post e (w_files w' q)" using assms(2) by (auto simp: entry_effect_def)
    then show ?thesis using assms(3,4) by (intro disjI2 bexI [of _ "entry_images e"]) auto
  qed
  then show ?thesis using assms(1,2) by (auto simp: explained_def written_by_def entry_effect_def)
qed

lemma journaled_apply:
  assumes "journaled recheck base resolve entries key w" "entry_effect p e w w'"
    and "entry_images e \<in> set entries" "resolve (je_Path e) = Ok p"
  shows "journaled recheck base resolve entries key w'"
proof -
  have "explained recheck base resolve entries w'"
    using journaledD [OF assms(1)] assms(2-4) by (rule explained_apply)
  then show ?thesis using assms(1,2) by (simp add: journaled_def entry_effect_def)
qed

lemma wp_ready_entry:
  "io_wp (ready_entry recheck e) (\<lambda>r w'. canonical_same w w' \<and>
     (\<forall>p. r = Done p \<longrightarrow> w_resolve w (je_Path e) = Ok p \<and> recheck (w_files w) p e = Ok ())) w"
  by (simp add: ready_entry_def fireCommitFault_def io_call_cases canonical_same_def
      split: list.splits io_event.splits sum.splits)

lemma posted_keep:
  assumes "entry_effect p e w w'" "distinct_paths resolve entries" "resolve (je_Path e) = Ok p"
    and "i < length entries" "j < length entries" "entries ! j = entry_images e"
    and "posted resolve (entries ! i) (w_files w)"
  shows "posted resolve (entries ! i) (w_files w')"
proof (cases "i = j")
  case True
  then show ?thesis using assms by (auto simp: posted_def entry_effect_def)
next
  case False
  then have "resolve (je_Path (entries ! i)) \<noteq> resolve (je_Path (entries ! j))"
    using assms(2,4,5) by (auto simp: distinct_paths_def distinct_conv_nth)
  then show ?thesis using assms(1,3,6,7) by (auto simp: posted_def entry_effect_def)
qed

text \<open>What the loop promises at every exit, \<open>Crashed\<close> included; it never fails.\<close>

definition loop_result ::
  "recheck \<Rightarrow> tree \<Rightarrow> (string \<Rightarrow> string result) \<Rightarrow> CommitJournalEntry list \<Rightarrow> string \<Rightarrow> nat set \<Rightarrow>
   (bool \<times> go_error option \<times> CommitJournal) outcome \<Rightarrow> world \<Rightarrow> bool" where
  "loop_result recheck base resolve entries key indices r w =
     (journaled recheck base resolve entries key w \<and>
      (case r of
         Done (written, failed, journal) \<Rightarrow>
           images journal = entries \<and> (\<not> written \<longrightarrow> w_files w = base) \<and>
           (failed = None \<and> distinct_paths resolve entries \<longrightarrow> (\<forall>i \<in> indices. posted resolve (entries ! i) (w_files w)))
       | Fail e \<Rightarrow> False
       | Crashed \<Rightarrow> True))"

lemma apply_step_effect:
  assumes "journaled recheck base resolve entries key w"
    and i: "i < length entries" "entries ! i = entry_images e" and indices: "indices \<subseteq> {..<length entries}"
      "distinct_paths resolve entries \<longrightarrow> (\<forall>j \<in> indices. posted resolve (entries ! j) (w_files w))"
    and step: "canonical_same w w1" "w_resolve w (je_Path e) = Ok p" "entry_effect p e w1 w2"
  shows "journaled recheck base resolve entries key w2 \<and>
    (distinct_paths resolve entries \<longrightarrow> (\<forall>j \<in> indices. posted resolve (entries ! j) (w_files w2)))"
proof -
  have r: "resolve (je_Path e) = Ok p" using step(2) journaledD [OF assms(1)] by (simp add: explained_def)
  have mem: "entry_images e \<in> set entries" using i by (metis nth_mem)
  have w: "entry_effect p e w w2" using step(1,3) by (simp add: entry_effect_def canonical_same_def)
  have "journaled recheck base resolve entries key w2" by (rule journaled_apply [OF assms(1) w mem r])
  then show ?thesis using posted_keep [OF w] r i indices by (metis lessThan_iff subsetD)
qed

lemma apply_loop_wp:
  assumes "journaled recheck base resolve entries key w" "images journal = entries"
    and "cj_State journal = CommitJournalApplying" "\<forall>i \<in> set order. i < length entries"
    and "\<not> written \<longrightarrow> w_files w = base" "indices \<subseteq> {..<length entries}"
    and "distinct_paths resolve entries \<longrightarrow> (\<forall>i \<in> indices. posted resolve (entries ! i) (w_files w))"
  shows "io_wp (apply_loop key recheck order journal written)
    (loop_result recheck base resolve entries key (indices \<union> set order)) w"
  using assms
proof (induction order arbitrary: journal written w indices)
  case Nil
  then show ?case by (simp add: loop_result_def)
next
  case (Cons i rest)
  define e where "e = cj_Entries journal ! i"
  have i: "i < length entries" "entries ! i = entry_images e"
    using Cons.prems(2,4) by (auto simp: images_def e_def)
  let ?done = "loop_result recheck base resolve entries key (indices \<union> set (i # rest))"
  let ?journal = "mark_progress i CommitPathApplied journal"
  have rest: "io_wp (apply_loop key recheck rest ?journal True) ?done w3"
    if "tree_same w2 w3" "journaled recheck base resolve entries key w3" "posted resolve (entries ! i) (w_files w2)"
      "distinct_paths resolve entries \<longrightarrow> (\<forall>j \<in> indices. posted resolve (entries ! j) (w_files w2))" for w2 w3
    using Cons.IH [of w3 ?journal True "insert i indices"] that i Cons.prems by (simp add: tree_same_def)
  have persist: "io_wp (io_bind (io_try (persistCommitJournal key ?journal)) (\<lambda>persisted. case persisted of
        Inl e \<Rightarrow> io_return (True, Some e, ?journal)
      | Inr _ \<Rightarrow> apply_loop key recheck rest ?journal True)) ?done w2"
    if w2: "journaled recheck base resolve entries key w2" "posted resolve (entries ! i) (w_files w2)"
      "distinct_paths resolve entries \<longrightarrow> (\<forall>j \<in> indices. posted resolve (entries ! j) (w_files w2))" for w2
    by (rule wp_bind_try [OF journaled_persist [OF w2(1), of ?journal]])
      (use rest [OF _ _ w2(2,3)] Cons.prems(2,3) in \<open>auto simp: loop_result_def\<close>)
  note resolve = journaledD [OF Cons.prems(1), unfolded explained_def, THEN conjunct1]
  note ready = apply_step_effect [OF Cons.prems(1) i Cons.prems(6,7)]
  have unready: "?done (Done (written, Some err, journal)) w1 \<and> ?done Crashed w1" if "canonical_same w w1" for err w1
    using that Cons.prems(2,5) journaled_canon [OF Cons.prems(1) that] by (simp add: loop_result_def canonical_same_def)
  show ?case unfolding apply_loop.simps Let_def e_def [symmetric]
  proof (rule wp_bind_try [OF wp_ready_entry])
    fix p w1
    assume w1: "canonical_same w w1 \<and> (\<forall>q. Done p = Done q \<longrightarrow> w_resolve w (je_Path e) = Ok q \<and> recheck (w_files w) q e = Ok ())"
    show "io_wp (io_bind (io_try (io_bind (applyCommitEntry p e) (\<lambda>_. fireCommitFault))) (\<lambda>applied. case applied of
        Inl e \<Rightarrow> io_return (True, Some e, journal)
      | Inr _ \<Rightarrow> io_bind (io_try (persistCommitJournal key ?journal)) (\<lambda>persisted. case persisted of
          Inl e \<Rightarrow> io_return (True, Some e, ?journal)
        | Inr _ \<Rightarrow> apply_loop key recheck rest ?journal True))) ?done w1"
      unfolding fireCommitFault_def
    proof (rule wp_bind_try [OF entry_effect_call [OF wp_applyCommitEntry]])
      fix x w2 assume w2: "entry_effect p e w1 w2 \<and> (is_done (Done x) \<longrightarrow> holds_post e (w_files w2 p))"
      then have "posted resolve (entries ! i) (w_files w2)"
        using w1 i(2) resolve by (simp add: posted_def)
      then show "io_wp (io_bind (io_try (persistCommitJournal key ?journal)) (\<lambda>persisted. case persisted of
          Inl e \<Rightarrow> io_return (True, Some e, ?journal)
        | Inr _ \<Rightarrow> apply_loop key recheck rest ?journal True)) ?done w2"
        using ready [of w1 p w2] w1 w2 by (intro persist) auto
    qed (use ready w1 Cons.prems(2) in \<open>auto simp: loop_result_def\<close>)
  qed (use unready in auto)
qed

end
