(* ===== verification/Commit_Atomicity.thy ===== *)
theory Commit_Atomicity
  imports Commit_Safety
begin

text \<open>
  The promise of \<open>CommitPlan\<close> for every script of failures: the tree is untouched, or an open
  journal explains every change, or every postimage is in place; and a commit that reports success
  has written everything.
\<close>

section \<open>The phases keep the promise\<close>

definition commit_safe ::
  "recheck \<Rightarrow> tree \<Rightarrow> (string \<Rightarrow> string result) \<Rightarrow> CommitJournalEntry list \<Rightarrow> string \<Rightarrow> world \<Rightarrow> bool" where
  "commit_safe recheck base resolve entries key w =
     (w_files w = base \<or> journaled recheck base resolve entries key w \<or> sealed recheck base resolve entries key w)"

lemma commit_safe_untouched: "w_files w = base \<Longrightarrow> commit_safe recheck base resolve entries key w"
  by (simp add: commit_safe_def)

lemma sealed_same:
  assumes "sealed recheck base resolve entries key w" "tree_same w w'"
    and "map_of (w_commitJournals w') key = map_of (w_commitJournals w) key \<or> map_of (w_commitJournals w') key = None"
  shows "sealed recheck base resolve entries key w'"
  using assms explained_tree [OF assms(2)] by (auto simp: sealed_def tree_same_def)

lemma sealed_canon:
  "sealed recheck base resolve entries key w \<Longrightarrow> canonical_same w w' \<Longrightarrow> sealed recheck base resolve entries key w'"
  by (erule sealed_same) (simp_all add: canonical_same_def tree_same_def)

lemma commit_safe_canon:
  assumes "commit_safe recheck base resolve entries key w" "canonical_same w w'"
  shows "commit_safe recheck base resolve entries key w'"
proof -
  have "w_files w' = w_files w" using assms(2) by (simp add: canonical_same_def)
  then show ?thesis
    using assms journaled_canon [OF _ assms(2)] sealed_canon [OF _ assms(2)] by (auto simp: commit_safe_def)
qed

lemma safe_of_canon: "canon.keeps m \<Longrightarrow> inv.keeps (commit_safe recheck base resolve entries key) m"
  unfolding canon.keeps_def inv.keeps_def by (blast intro: commit_safe_canon)

lemma sealed_collect: "inv.keeps (sealed recheck base resolve entries key) collectCommitJournals"
proof -
  have remove: "inv.keeps (sealed recheck base resolve entries key) (remove_journal name)" for name
    unfolding remove_journal_def
  proof (intro inv.keeps_rules inv.keeps_update)
    show "inv.keeps (sealed recheck base resolve entries key) io_call"
      using canon_basic(1) unfolding canon.keeps_def inv.keeps_def by (blast intro: sealed_canon)
    show "sealed recheck base resolve entries key w \<longrightarrow>
        sealed recheck base resolve entries key (w\<lparr>w_commitJournals := AList.delete name (w_commitJournals w)\<rparr>)" for w
      by (rule impI, erule sealed_same) (simp_all add: tree_same_def)
  qed
  have "inv.keeps (sealed recheck base resolve entries key) (collect_loop cutoff index journals)" for cutoff index journals
    by (induction cutoff index journals rule: collect_loop.induct) (auto intro!: inv.keeps_rules remove)
  moreover have "inv.keeps (sealed recheck base resolve entries key) io_now"
    using canon_basic(2) unfolding canon.keeps_def inv.keeps_def by (blast intro: sealed_canon)
  ultimately show ?thesis unfolding collectCommitJournals_def by (intro inv.keeps_rules)
qed

text \<open>Closing a failed commit.\<close>

lemma wp_recovery_journal:
  assumes "journaled recheck base resolve entries key w \<or> sealed recheck base resolve entries key w"
    and "images journal = entries" "cj_State journal = CommitJournalRecoveryRequired"
  shows "io_wp (writeCommitJournal key journal) (\<lambda>r. commit_safe recheck base resolve entries key) w"
proof (rule wp_mono [OF wp_writeCommitJournal])
  fix r w' assume effect: "journal_effect key journal w r w'"
  then have same: "tree_same w w'" by (simp add: journal_effect_def)
  have explained: "explained recheck base resolve entries w" using assms(1) by (auto simp: journaled_def sealed_def)
  show "commit_safe recheck base resolve entries key w'"
  proof (cases "journal_written key journal w w'")
    case True
    then show ?thesis using journaled_written [OF True same assms(2) _ explained] assms(3) by (simp add: commit_safe_def)
  next
    case False
    then have "w_commitJournals w' = w_commitJournals w" using effect by (simp add: journal_effect_def)
    then show ?thesis
      using assms(1) journaled_same [OF _ same] sealed_same [OF _ same] by (auto simp: commit_safe_def)
  qed
qed

lemma wp_bind_any:
  assumes "io_wp m (\<lambda>_. P) w" "\<And>w'. P w' \<Longrightarrow> io_wp n Q w'" "\<And>w'. P w' \<Longrightarrow> Q Crashed w'"
  shows "io_wp (io_bind (io_try m) (\<lambda>_. n)) Q w"
proof -
  have "io_wp (io_try m) (\<lambda>r w'. P w' \<and> (\<forall>e. r \<noteq> Fail e)) w" by (rule wp_tryI [OF assms(1)]) auto
  then show ?thesis by (rule wp_bindI) (use assms(2,3) in auto)
qed

text \<open>A computation that ends by throwing never reports success.\<close>

definition refuses :: "'a io \<Rightarrow> bool" where
  "refuses m = (\<forall>w x w'. m w \<noteq> (Done x, w'))"

lemma refuses_throw: "refuses (io_throw e)"
  by (simp add: refuses_def io_throw_def)

lemma refuses_bind: "(\<And>x. refuses (f x)) \<Longrightarrow> refuses (io_bind m f)"
  by (simp add: refuses_def io_bind_Done)

lemma refuses_wp: "refuses m \<Longrightarrow> io_wp m (\<lambda>r w'. \<forall>x. r \<noteq> Done x) w"
  by (cases "m w") (auto simp: refuses_def io_wp_def)

lemma refuses_commit_fail:
  "refuses (commit_refuse planID expected preparation cause)"
  "refuses (commit_abort planID expected preparation journal cause)"
  "refuses (commit_fail plan expected preparation journal written cause)"
  unfolding commit_fail_def commit_abort_def commit_refuse_def markCommitRecovery_def
  by (auto intro!: refuses_bind refuses_throw)

lemma wp_commit_fail:
  assumes "journaled recheck base resolve entries (pr_PlanID plan) w \<or> sealed recheck base resolve entries (pr_PlanID plan) w"
    and "images journal = entries" "\<not> written \<longrightarrow> w_files w = base"
  shows "io_wp (commit_fail plan expected preparation journal written cause)
    (\<lambda>_. commit_safe recheck base resolve entries (pr_PlanID plan)) w"
proof (cases written)
  case True
  let ?safe = "commit_safe recheck base resolve entries (pr_PlanID plan)"
  have throw: "canon.keeps (io_bind (io_try (transitionPlan (pr_PlanID plan) (pr_PlanRevision plan) PlanRecoveryRequired
      ''commit_failed'' ''error'' (pr_Preparation plan))) (\<lambda>_. io_throw cause :: PlanRecord io))"
    by (intro canon_rules canon_store)
  have "io_wp (markCommitRecovery plan (pr_PlanID plan) journal cause) (\<lambda>r. ?safe) w"
    unfolding markCommitRecovery_def
  proof (rule wp_bind_any)
    show "io_wp (writeCommitJournal (pr_PlanID plan)
        (journal\<lparr> cj_State := CommitJournalRecoveryRequired, cj_LastError := Some cause \<rparr>)) (\<lambda>_. ?safe) w"
      by (rule wp_recovery_journal [OF assms(1)]) (simp_all add: assms(2))
  qed (rule inv_wp [OF safe_of_canon [OF throw]])
  then show ?thesis using True by (simp add: commit_fail_def)
next
  case False
  have "io_wp (commit_fail plan expected preparation journal written cause) (\<lambda>r. tree_same w) w"
    by (rule tree.keeps_wp) simp_all
  then show ?thesis
    by (rule wp_mono) (use False assms(3) in \<open>simp add: tree_same_def commit_safe_untouched\<close>)
qed

text \<open>Sealing: before the durable write the journal is open, after it every postimage is in place.\<close>

lemma wp_sealCommittedJournal:
  assumes "journaled recheck base resolve entries key w" "fully_written resolve entries (w_files w)" "images journal = entries"
  shows "io_wp (sealCommittedJournal key journal) (\<lambda>r w'. w_files w' = w_files w \<and>
     (journaled recheck base resolve entries key w' \<or> sealed recheck base resolve entries key w') \<and>
     (case r of
        Done (journal', persisted) \<Rightarrow> images journal' = entries \<and>
          (persisted = Ok () \<longrightarrow> sealed recheck base resolve entries key w')
      | Fail e \<Rightarrow> False
      | Crashed \<Rightarrow> True)) w"
proof -
  define w1 where "w1 = w\<lparr>w_identity := (w_identity w)\<lparr> id_StateSeq := id_StateSeq (w_identity w) + 1 \<rparr>\<rparr>"
  define journal' where "journal' = journal\<lparr> cj_State := CommitJournalCommitted,
    cj_CanonicalRevision := wsrev (id_StateSeq (w_identity w1)) \<rparr>"
  have w1: "journaled recheck base resolve entries key w1" "w_files w1 = w_files w"
    using journaled_same [OF assms(1), of w1] by (simp_all add: w1_def tree_same_def)
  have "w_files w2 = w_files w \<and> (journaled recheck base resolve entries key w2 \<or> sealed recheck base resolve entries key w2) \<and>
      (is_done r \<longrightarrow> sealed recheck base resolve entries key w2)"
    if effect: "journal_effect key journal' w1 r w2" for r w2
  proof (cases "journal_written key journal' w1 w2")
    case True
    moreover have "tree_same w1 w2" using effect by (simp add: journal_effect_def)
    ultimately show ?thesis
      using journaledD [OF w1(1)] assms(2,3) w1(2) explained_tree [of w1 w2]
      by (auto simp: sealed_def journal_written_def journal'_def tree_same_def)
  next
    case False
    then show ?thesis using effect journaled_same [OF w1(1)] w1(2) by (auto simp: journal_effect_def tree_same_def)
  qed
  note sealed = wp_persistCommitJournal [of key journal' w1, THEN wp_mono, OF this]
  have "io_wp (io_bind (io_try (persistCommitJournal key journal')) (\<lambda>persisted. io_return (journal', persisted)))
     (\<lambda>r w'. w_files w' = w_files w \<and>
       (journaled recheck base resolve entries key w' \<or> sealed recheck base resolve entries key w') \<and>
       (case r of
          Done (journal', persisted) \<Rightarrow> images journal' = entries \<and>
            (persisted = Ok () \<longrightarrow> sealed recheck base resolve entries key w')
        | Fail e \<Rightarrow> False
        | Crashed \<Rightarrow> True)) w1"
    unfolding wp_bind wp_try
    by (rule wp_mono [OF sealed]) (auto simp: journal'_def assms(3) split: outcome.split)
  then show ?thesis
    unfolding sealCommittedJournal_def recordCanonicalCommit_def w1_def journal'_def Let_def
    by (simp only: wp_bind wp_update wp_get outcome.case)
qed

text \<open>Revalidating: nothing is written, and success means that every recheck passed and the journal is open.\<close>

lemma wp_recheck_all:
  "io_wp (recheck_all recheck entries) (\<lambda>r w'. canonical_same w w' \<and>
     (is_done r \<longrightarrow> (\<forall>e \<in> set entries. \<forall>p. w_resolve w (je_Path e) = Ok p \<longrightarrow> recheck (w_files w) p e = Ok ()))) w"
proof (induction entries)
  case (Cons entry rest)
  show ?case
    by (cases "w_resolve w (je_Path entry)"; cases "recheck (w_files w) (projr (w_resolve w (je_Path entry))) entry")
      (simp_all add: wp_mono [OF Cons.IH])
qed simp

lemma wp_revalidate:
  fixes w plan journal
  defines "base \<equiv> w_files w" and "resolve \<equiv> w_resolve w" and "entries \<equiv> images journal"
  assumes pending: "cj_Entries journal = entries"
  shows "io_wp (revalidate plan expected preparation journal) (\<lambda>r w'. w_files w' = base \<and>
     (case r of
        Done (journal', validated) \<Rightarrow> images journal' = entries \<and>
          (validated = Ok () \<longrightarrow>
             journaled recheckCommitEntry base resolve entries (pr_PlanID plan) w' \<and> cj_State journal' = CommitJournalApplying)
      | Fail e \<Rightarrow> False
      | Crashed \<Rightarrow> True)) w"
proof -
  let ?checked = "preimages_hold recheckCommitEntry base resolve entries"
  let ?applying = "journal\<lparr> cj_State := CommitJournalApplying \<rparr>"
  have check: "io_wp (recheck_all recheckCommitEntry (cj_Entries journal)) (\<lambda>r w'. canonical_same w w' \<and> (is_done r \<longrightarrow> ?checked)) w1"
    if "canonical_same w w1" for w1
    by (rule wp_mono [OF wp_recheck_all]) (use that pending in \<open>auto simp: canonical_same_def base_def resolve_def preimages_hold_def\<close>)
  have move: "io_wp (io_bind (transitionPlan (pr_PlanID plan) expected PlanCommitting ''commit_started'' ''pending'' (Some preparation))
      (\<lambda>_. recheck_all recheckCommitEntry (cj_Entries journal))) (\<lambda>r w'. canonical_same w w' \<and> (is_done r \<longrightarrow> ?checked)) w"
    by (rule wp_bindI [OF canon.keeps_wp [of _ w "\<lambda>_. canonical_same w"]]) (auto intro: check canon_store)
  have persist: "io_wp (io_bind (io_try (persistCommitJournal (pr_PlanID plan) ?applying)) (\<lambda>persisted. io_return (?applying, persisted)))
      (\<lambda>r w'. w_files w' = base \<and> (case r of
         Done (journal', validated) \<Rightarrow> images journal' = entries \<and>
           (validated = Ok () \<longrightarrow> journaled recheckCommitEntry base resolve entries (pr_PlanID plan) w' \<and>
              cj_State journal' = CommitJournalApplying)
       | Fail e \<Rightarrow> False | Crashed \<Rightarrow> True)) w1"
    if w1: "canonical_same w w1" ?checked for w1
  proof -
    have "explained recheckCommitEntry base resolve entries w1"
      using w1 explained_start [of recheckCommitEntry w entries]
      by (simp add: explained_def base_def resolve_def canonical_same_def)
    note opened = journaled_written [OF _ _ _ _ this, where key = "pr_PlanID plan" and journal = ?applying]
    show ?thesis unfolding wp_bind wp_try
      by (rule wp_mono [OF wp_persistCommitJournal])
        (use w1 opened in \<open>auto simp: journal_effect_def tree_same_def canonical_same_def base_def entries_def split: outcome.split\<close>)
  qed
  show ?thesis unfolding revalidate_def Let_def
    by (rule wp_bind_try [OF move]) (use persist in \<open>auto simp: canonical_same_def base_def entries_def\<close>)
qed

text \<open>
  What a run from admission on promises: the commit is safe whatever happens, and a record is
  returned only for a plan that is \<open>COMMITTED\<close> with every postimage in place.
\<close>

definition run_promise ::
  "tree \<Rightarrow> (string \<Rightarrow> string result) \<Rightarrow> CommitJournalEntry list \<Rightarrow> string \<Rightarrow> (PlanRecord result \<times> bool) outcome \<Rightarrow> world \<Rightarrow> bool" where
  "run_promise base resolve entries key r w =
     (commit_safe recheckCommitEntry base resolve entries key w \<and>
      (\<forall>plan stagerCommitted. r = Done (Ok plan, stagerCommitted) \<longrightarrow>
         sealed recheckCommitEntry base resolve entries key w \<and> pr_State plan = PlanCommitted))"

lemma wp_refused:
  assumes "refuses m" "io_wp m (\<lambda>_. commit_safe recheckCommitEntry base resolve entries key) w"
  shows "io_wp (io_bind (io_try m) (\<lambda>r. io_return (r, b))) (run_promise base resolve entries key) w"
  unfolding wp_bind wp_try
  by (rule wp_mono [OF wp_conj [OF assms(2) refuses_wp [OF assms(1)]]]) (auto simp: run_promise_def split: outcome.split)

lemma wp_refused_untouched:
  assumes "refuses m" "tree.keeps m" "w_files w = base"
  shows "io_wp (io_bind (io_try m) (\<lambda>r. io_return (r, b))) (run_promise base resolve entries key) w"
  using assms(1)
  by (rule wp_refused) (rule tree.keeps_wp [OF assms(2)], simp add: tree_same_def assms(3) commit_safe_untouched)

lemma wp_commit_receipt:
  assumes "sealed recheckCommitEntry base resolve entries key w"
  shows "io_wp (commit_receipt plan expected final) (run_promise base resolve entries key) w"
  unfolding commit_receipt_def
proof (rule wp_bind_try)
  let ?sealed = "sealed recheckCommitEntry base resolve entries key"
  have keep: "canon.keeps m \<Longrightarrow> ?sealed w1 \<Longrightarrow> io_wp m (\<lambda>_. ?sealed) w1" for m :: "PlanRecord io" and w1
    by (erule canon.keeps_wp) (erule (1) sealed_canon)
  have safe: "?sealed w1 \<Longrightarrow> commit_safe recheckCommitEntry base resolve entries key w1" for w1
    by (simp add: commit_safe_def)
  let ?move = "transitionPlan (pr_PlanID plan) expected PlanCommitted ''commit'' ''ok'' (Some final)"
  have "io_wp ?move (\<lambda>r _. \<forall>plan. r = Done plan \<longrightarrow> pr_State plan = PlanCommitted) w"
    using transition_Done [of "pr_PlanID plan" expected PlanCommitted "''commit''" "''ok''" "Some final" w]
    by (cases "?move w") (auto simp: io_wp_def)
  then show "io_wp ?move (\<lambda>r w'. ?sealed w' \<and> (\<forall>plan. r = Done plan \<longrightarrow> pr_State plan = PlanCommitted)) w"
    using keep [OF canon_store(3) assms] by (rule wp_conj [rotated])
  fix w1
  show "io_wp (io_bind collectCommitJournals (\<lambda>_. io_return (Ok result, True))) (run_promise base resolve entries key) w1"
    if "?sealed w1 \<and> (\<forall>p. Done result = Done p \<longrightarrow> pr_State p = PlanCommitted)" for result
    by (rule wp_bindI [OF inv_wp [OF sealed_collect]]) (use that in \<open>auto simp: run_promise_def safe\<close>)
  show "io_wp (io_bind (io_try (transitionPlan (pr_PlanID plan) expected PlanRecoveryRequired ''commit_receipt_failed'' ''error'' (Some final)))
      (\<lambda>_. io_return (Error (Codedf CodeCommitRecoveryRequired ''plan record could not be marked COMMITTED''), True)))
      (run_promise base resolve entries key) w1"
    if "?sealed w1 \<and> (\<forall>p. Fail e = Done p \<longrightarrow> pr_State p = PlanCommitted)" for e
    by (rule wp_bind_any [OF keep [OF canon_store(3)]]) (use that in \<open>auto simp: run_promise_def safe\<close>)
  show "run_promise base resolve entries key Crashed w1"
    if "?sealed w1 \<and> (\<forall>p. Crashed = Done p \<longrightarrow> pr_State p = PlanCommitted)"
    using that by (simp add: run_promise_def safe)
qed

lemma wp_failed_run:
  assumes "journaled recheckCommitEntry base resolve entries (pr_PlanID plan) w \<or> sealed recheckCommitEntry base resolve entries (pr_PlanID plan) w"
    and "images journal = entries" "\<not> written \<longrightarrow> w_files w = base"
  shows "io_wp (io_bind (io_try (commit_fail plan expected preparation journal written e)) (\<lambda>r. io_return (r, b)))
    (run_promise base resolve entries (pr_PlanID plan)) w"
  by (rule wp_refused [OF refuses_commit_fail(3) wp_commit_fail [OF assms]])

lemma wp_commit_seal:
  assumes "journaled recheckCommitEntry base resolve entries (pr_PlanID plan) w"
    and "fully_written resolve entries (w_files w)" "images journal = entries" "\<not> written \<longrightarrow> w_files w = base"
  shows "io_wp (commit_seal plan expected receipt request journal written) (run_promise base resolve entries (pr_PlanID plan)) w"
  unfolding commit_seal_def
proof (rule wp_bindI [OF wp_sealCommittedJournal [OF assms(1-3)]])
  fix x :: "CommitJournal \<times> unit result" and w1
  assume w1: "w_files w1 = w_files w \<and>
    (journaled recheckCommitEntry base resolve entries (pr_PlanID plan) w1 \<or> sealed recheckCommitEntry base resolve entries (pr_PlanID plan) w1) \<and>
    (case Done x of
       Done (journal', persisted) \<Rightarrow> images journal' = entries \<and>
         (persisted = Ok () \<longrightarrow> sealed recheckCommitEntry base resolve entries (pr_PlanID plan) w1)
     | Fail e \<Rightarrow> False | Crashed \<Rightarrow> True)"
  obtain journal' persisted where x: "x = (journal', persisted)" by (cases x)
  show "io_wp (case x of (closed, persisted) \<Rightarrow>
      (case persisted of
        Inl e \<Rightarrow> io_bind (io_try (commit_fail plan expected receipt closed written e)) (\<lambda>r. io_return (r, True))
      | Inr _ \<Rightarrow> commit_receipt plan expected
          (receipt\<lparr> pp_CanonicalChanged := (sr_Files request \<noteq> []),
             pp_CanonicalRevision := cj_CanonicalRevision closed, pp_JournalID := pr_PlanID plan \<rparr>)))
      (run_promise base resolve entries (pr_PlanID plan)) w1"
  proof (cases persisted)
    case (Inl e)
    show ?thesis unfolding x Inl prod.case sum.case
      by (rule wp_failed_run) (use w1 x assms(4) in auto)
  next
    case (Inr u)
    show ?thesis unfolding x Inr prod.case sum.case
      by (rule wp_commit_receipt) (use w1 x Inr in auto)
  qed
qed (auto simp: run_promise_def commit_safe_def)

lemma wp_commit_complete:
  assumes journaled: "journaled recheckCommitEntry base resolve entries (pr_PlanID plan) w"
    and "fully_written resolve entries (w_files w)" "images journal = entries" "\<not> written \<longrightarrow> w_files w = base"
  shows "io_wp (commit_complete hashBytes plan expected preparation request journal written)
    (run_promise base resolve entries (pr_PlanID plan)) w"
  unfolding commit_complete_def
proof (rule wp_bind_try [OF journaled_keeps_canon [OF canon_prepare(3) journaled]])
  fix w1
  show "io_wp (io_bind (io_try (commit_fail plan expected preparation journal written e)) (\<lambda>r. io_return (r, False)))
      (run_promise base resolve entries (pr_PlanID plan)) w1"
    if "tree_same w w1 \<and> journaled recheckCommitEntry base resolve entries (pr_PlanID plan) w1" for e
    by (rule wp_failed_run) (use that assms in \<open>auto simp: tree_same_def\<close>)
  show "io_wp (io_bind (io_get w_identity) (\<lambda>identity.
      commit_seal plan expected
        (preparation\<lparr> pp_CanonicalFromRevision := wsrev (id_StateSeq identity),
           pp_CommittedDiffs := committedDiffs hashBytes (sr_Files request) \<rparr>) request journal written))
      (run_promise base resolve entries (pr_PlanID plan)) w1"
    if "tree_same w w1 \<and> journaled recheckCommitEntry base resolve entries (pr_PlanID plan) w1"
    unfolding wp_bind_get
    by (rule wp_commit_seal) (use that assms in \<open>auto simp: tree_same_def\<close>)
qed (simp add: run_promise_def commit_safe_def)

text \<open>The write set a plan commits: the stager's prepared files, or those of the plan's own preview.\<close>

definition write_set :: "PlanStager \<Rightarrow> tree \<Rightarrow> (string \<Rightarrow> string result) \<Rightarrow> PlanRecord \<Rightarrow> CommitJournalEntry list" where
  "write_set stager files resolve plan =
     (case planStageRequest files resolve plan of
        Inl e \<Rightarrow> []
      | Inr canonical \<Rightarrow>
          map journal_entry (sr_Files (case st_prepared stager of None \<Rightarrow> canonical | Some (prepared, _) \<Rightarrow> prepared)))"

lemma journal_entry_images [simp]: "entry_images (journal_entry f) = journal_entry f"
  by (simp add: entry_images_def journal_entry_def)

lemma wp_bind_throw: "io_wp (io_bind (io_throw e) f) Q w = Q (Fail e) w"
  by simp

lemma wp_bind_assoc: "io_wp (io_bind (io_bind m f) g) Q w = io_wp (io_bind m (\<lambda>x. io_bind (f x) g)) Q w"
  by (simp add: io_wp_def io_bind_def split: prod.splits outcome.splits)

lemma wp_stageWriteSet:
  "io_wp (stageWriteSet buildPreview plan expected preparedRevision stager) (\<lambda>r w'. tree_same w w' \<and>
     (\<forall>request journal. r = Done (request, journal) \<longrightarrow>
        cj_Entries journal = write_set stager (w_files w) (w_resolve w) plan \<and> images journal = cj_Entries journal)) w"
proof -
  define request where "request = (case st_prepared stager of
      None \<Rightarrow> projr (planStageRequest (w_files w) (w_resolve w) plan) | Some (prepared, _) \<Rightarrow> prepared)"
  let ?Q = "\<lambda>r w'. tree_same w w' \<and> (\<forall>request journal. r = Done (request, journal) \<longrightarrow>
        cj_Entries journal = write_set stager (w_files w) (w_resolve w) plan \<and> images journal = cj_Entries journal)"
  have persist: "io_wp (io_bind (persistCommitJournal key journal) (\<lambda>_. io_return (request, journal))) ?Q w1"
    if "tree_same w w1" "cj_Entries journal = write_set stager (w_files w) (w_resolve w) plan"
      "images journal = cj_Entries journal" for key journal w1
    by (rule wp_bindI [OF tree.keeps_wp [OF tree_journal(2) tree.frame_trans [OF that(1)]]]) (use that in auto)
  show ?thesis
  proof (cases "planStageRequest (w_files w) (w_resolve w) plan")
    case (Inl e)
    then show ?thesis by (simp add: stageWriteSet_def Let_def)
  next
    case (Inr canonical)
    then have request: "(case st_prepared stager of None \<Rightarrow> canonical | Some (prepared, _) \<Rightarrow> prepared) = request"
      "write_set stager (w_files w) (w_resolve w) plan = map journal_entry (sr_Files request)"
      by (simp_all add: request_def write_set_def split: option.split)
    show ?thesis
      unfolding stageWriteSet_def newCommitJournal_def Let_def
      by (simp del: wp_bind wp_lift add: wp_bind_get wp_bind_now wp_bind_return wp_bind_assoc Inr request)
        (intro conjI impI persist [unfolded request(2)]; simp add: tree_same_def images_def)
  qed
qed

lemma commitEntryOrder_set [simp]: "set (commitEntryOrder entries) = {..<length entries}"
  by (auto simp: commitEntryOrder_def)

lemma wp_applyJournalEntries:
  assumes "journaled recheck base resolve entries key w" "images journal = entries"
    and "cj_State journal = CommitJournalApplying" "w_files w = base"
  shows "io_wp (applyJournalEntries key journal recheck) (\<lambda>r w'.
     journaled recheck base resolve entries key w' \<and>
     (case r of
        Done (written, failed, journal') \<Rightarrow> images journal' = entries \<and> (\<not> written \<longrightarrow> w_files w' = base) \<and>
          (failed = None \<longrightarrow> fully_written resolve entries (w_files w'))
      | Fail e \<Rightarrow> False
      | Crashed \<Rightarrow> True)) w"
proof -
  have "length (cj_Entries journal) = length entries" using assms(2) by auto
  then have "io_wp (applyJournalEntries key journal recheck)
      (loop_result recheck base resolve entries key ({} \<union> {..<length entries})) w"
    using apply_loop_wp [OF assms(1-3), of "commitEntryOrder (cj_Entries journal)" False "{}"] assms(4)
    by (simp add: applyJournalEntries_def)
  then show ?thesis
    by (rule wp_mono) (auto simp: loop_result_def fully_written_def in_set_conv_nth split: outcome.split_asm)
qed

lemma wp_commit_apply_run:
  assumes "journaled recheckCommitEntry base resolve entries (pr_PlanID plan) w" "images journal = entries"
    and "cj_State journal = CommitJournalApplying" "w_files w = base"
  shows "io_wp (commit_apply hashBytes plan expected preparation request journal)
    (run_promise base resolve entries (pr_PlanID plan)) w"
  unfolding commit_apply_def
proof (rule wp_bindI [OF wp_applyJournalEntries [OF assms]])
  fix x :: "bool \<times> go_error option \<times> CommitJournal" and w1
  assume w1: "journaled recheckCommitEntry base resolve entries (pr_PlanID plan) w1 \<and>
    (case Done x of
       Done (written, failed, journal') \<Rightarrow> images journal' = entries \<and> (\<not> written \<longrightarrow> w_files w1 = base) \<and>
         (failed = None \<longrightarrow> fully_written resolve entries (w_files w1))
     | Fail e \<Rightarrow> False | Crashed \<Rightarrow> True)"
  obtain written failed applied where x: "x = (written, failed, applied)" by (cases x)
  show "io_wp (case x of (written, failed, applied) \<Rightarrow>
      (case failed of
         Some e \<Rightarrow> io_bind (io_try (commit_fail plan expected preparation applied written e)) (\<lambda>r. io_return (r, False))
       | None \<Rightarrow> commit_complete hashBytes plan expected preparation request applied written))
      (run_promise base resolve entries (pr_PlanID plan)) w1"
  proof (cases failed)
    case None
    show ?thesis unfolding x None prod.case option.case by (rule wp_commit_complete) (use w1 x None in auto)
  next
    case (Some e)
    show ?thesis unfolding x Some prod.case option.case by (rule wp_failed_run) (use w1 x in auto)
  qed
qed (auto simp: run_promise_def commit_safe_def)

lemma wp_commit_staged:
  assumes "cj_Entries journal = images journal"
  shows "io_wp (commit_staged hashBytes plan expected preparation (request, journal))
    (run_promise (w_files w) (w_resolve w) (images journal) (pr_PlanID plan)) w"
  unfolding commit_staged_def fst_conv snd_conv
proof (rule wp_bindI [OF wp_revalidate [OF assms]])
  fix x :: "CommitJournal \<times> unit result" and w1
  assume w1: "w_files w1 = w_files w \<and>
    (case Done x of
       Done (journal', validated) \<Rightarrow> images journal' = images journal \<and>
         (validated = Ok () \<longrightarrow>
            journaled recheckCommitEntry (w_files w) (w_resolve w) (images journal) (pr_PlanID plan) w1 \<and>
            cj_State journal' = CommitJournalApplying)
     | Fail e \<Rightarrow> False | Crashed \<Rightarrow> True)"
  obtain applying validated where x: "x = (applying, validated)" by (cases x)
  show "io_wp (case x of (applying, validated) \<Rightarrow>
      (case validated of
         Inl e \<Rightarrow> io_bind (io_try (commit_abort (pr_PlanID plan) expected preparation applying e)) (\<lambda>r. io_return (r, False))
       | Inr _ \<Rightarrow> commit_apply hashBytes plan expected preparation request applying))
      (run_promise (w_files w) (w_resolve w) (images journal) (pr_PlanID plan)) w1"
  proof (cases validated)
    case (Inl e)
    show ?thesis unfolding x Inl prod.case sum.case
      by (rule wp_refused_untouched [OF refuses_commit_fail(2) tree_commit_parts(2)]) (use w1 in simp)
  next
    case (Inr u)
    show ?thesis unfolding x Inr prod.case sum.case by (rule wp_commit_apply_run) (use w1 x Inr in auto)
  qed
qed (auto simp: run_promise_def commit_safe_def)

lemma wp_commit_admitted:
  "io_wp (commit_admitted hashBytes buildPreview plan expected preparedRevision stager preparation)
    (run_promise (w_files w) (w_resolve w) (write_set stager (w_files w) (w_resolve w) plan) (pr_PlanID plan)) w"
  unfolding commit_admitted_def
proof (rule wp_bind_try [OF wp_stageWriteSet])
  let ?promise = "run_promise (w_files w) (w_resolve w) (write_set stager (w_files w) (w_resolve w) plan) (pr_PlanID plan)"
  let ?staged = "\<lambda>r. \<forall>request journal. r = Done (request, journal) \<longrightarrow>
        cj_Entries journal = write_set stager (w_files w) (w_resolve w) plan \<and> images journal = cj_Entries journal"
  fix w1
  show "io_wp (io_bind (io_try (commit_refuse (pr_PlanID plan) expected preparation e)) (\<lambda>r. io_return (r, False))) ?promise w1"
    if "tree_same w w1 \<and> ?staged (Fail e)" for e
    by (rule wp_refused_untouched [OF refuses_commit_fail(1) tree_commit_parts(1)]) (use that in \<open>simp add: tree_same_def\<close>)
  show "?promise Crashed w1" if "tree_same w w1 \<and> ?staged Crashed"
    using that by (simp add: run_promise_def commit_safe_def tree_same_def)
  show "io_wp (commit_staged hashBytes plan expected preparation x) ?promise w1" if "tree_same w w1 \<and> ?staged (Done x)" for x
    using wp_commit_staged [of "snd x" hashBytes plan expected preparation "fst x" w1] that
    by (cases x) (simp add: tree_same_def)
qed

section \<open>Commits\<close>

lemma wp_CommitPlan:
  assumes plan: "map_of (w_plans w) planID = Some plan"
  shows "io_wp (CommitPlan hashBytes buildPreview accepted (Some stager) planID expected preparedRevision) (\<lambda>r w'.
     commit_safe recheckCommitEntry (w_files w) (w_resolve w) (write_set stager (w_files w) (w_resolve w) plan) (pr_PlanID plan) w' \<and>
     (\<forall>result. r = Done result \<and> pr_State plan \<noteq> PlanCommitted \<longrightarrow>
        sealed recheckCommitEntry (w_files w) (w_resolve w) (write_set stager (w_files w) (w_resolve w) plan) (pr_PlanID plan) w' \<and>
        pr_State result = PlanCommitted)) w"
    (is "io_wp _ ?Q w")
proof -
  let ?promise = "run_promise (w_files w) (w_resolve w) (write_set stager (w_files w) (w_resolve w) plan) (pr_PlanID plan)"
  have finish_canon: "canon.keeps (commit_finish planID' stagerCommitted)" for planID' stagerCommitted
    unfolding commit_finish_def by (intro canon_rules canon_prepare)
  have finish: "io_wp (io_bind (commit_finish (pr_PlanID plan) c) (\<lambda>_. io_lift result)) ?Q w1"
    if "?promise (Done (result, c)) w1" for c result w1
  proof (rule wp_bindI [OF canon.keeps_wp [OF finish_canon, of w1 "\<lambda>_. canonical_same w1"]])
    show "io_wp (io_lift result) ?Q w2" if "canonical_same w1 w2" for x w2
      using that \<open>?promise (Done (result, c)) w1\<close>
      by (cases result) (auto simp: run_promise_def intro: commit_safe_canon sealed_canon)
  qed (use that in \<open>auto simp: run_promise_def intro: commit_safe_canon\<close>)
  have admitted: "io_wp (io_bind (commit_admitted hashBytes buildPreview plan expected preparedRevision stager preparation)
      (\<lambda>(result, stagerCommitted). io_bind (commit_finish (pr_PlanID plan) stagerCommitted) (\<lambda>_. io_lift result))) ?Q w"
    for preparation expected
  proof (rule wp_bindI [OF wp_commit_admitted])
    show "io_wp (case x of (result, stagerCommitted) \<Rightarrow>
        io_bind (commit_finish (pr_PlanID plan) stagerCommitted) (\<lambda>_. io_lift result)) ?Q w1"
      if "?promise (Done x) w1" for x w1
      using finish that by (cases x) simp
  qed (simp_all add: run_promise_def)
  have safe: "commit_safe recheckCommitEntry (w_files w) (w_resolve w) entries key w" for entries key
    by (simp add: commit_safe_def)
  show ?thesis
    unfolding CommitPlan_def option.case InspectPlan_def wp_bind_assoc wp_bind_get plan
    by (cases "admitCommit plan preparedRevision stager accepted")
      (auto simp add: wp_bind_return wp_bind_throw safe admitted simp del: wp_bind)
qed

text \<open>A commit of one new file, run under a script.\<close>

definition sample_ready :: PlanRecord where
  "sample_ready = (sample_plan PlanReady)\<lparr> pr_Operations := [sample_operation],
     pr_Preview := Some (sample_build (\<lambda>_. None) (sample_plan PlanReady)),
     pr_Preparation := Some (empty_preparation\<lparr> pp_PreparedRevision := ''prep'', pp_ProviderEpoch := 1 \<rparr>) \<rparr>"

definition sample_start :: "io_event list \<Rightarrow> world" where
  "sample_start script = sample_world [(''plan_1'', sample_ready)] [] script"

definition sample_commit :: "io_event list \<Rightarrow> PlanRecord outcome \<times> world" where
  "sample_commit script = CommitPlan (\<lambda>_. []) sample_build [] (Some sample_stager) ''plan_1'' 1 ''prep'' (sample_start script)"

lemma sample_start_fields [simp]:
  "map_of (w_plans (sample_start script)) ''plan_1'' = Some sample_ready"
  "w_files (sample_start script) = (\<lambda>_. None)" "w_resolve (sample_start script) = Ok"
  "pr_PlanID sample_ready = ''plan_1''" "pr_State sample_ready = PlanReady"
  by (simp_all add: sample_start_def sample_world_def sample_ready_def sample_plan_def)





text \<open>
  C4. A commit that touches anything at all was admitted: the plan is READY or PROVISIONAL at the
  expected revision, the caller named its current preparation, every required invariant is proven
  about exactly that preparation, and every gap of a PROVISIONAL plan was accepted by name.
\<close>

theorem commit_requires_proof:
  assumes plan: "map_of (w_plans w) planID = Some plan"
    and changed: "snd (CommitPlan hashBytes buildPreview accepted (Some stager) planID expected preparedRevision w) \<noteq> w"
  shows "\<exists>preparation. pr_Preparation plan = Some preparation \<and> pp_PreparedRevision preparation = preparedRevision \<and>
    pr_State plan \<in> {PlanReady, PlanProvisional} \<and> (expected \<noteq> 0 \<longrightarrow> pr_PlanRevision plan = expected) \<and>
    (\<forall>i \<in> set (pr_Invariants plan). provenAt i preparedRevision \<or> iv_Enforcement i = InvariantAdvisory) \<and>
    (pr_State plan = PlanProvisional \<longrightarrow>
       (\<forall>gap \<in> set (verificationGaps (pp_Verification preparation) @ invariantGaps (pr_Invariants plan) preparedRevision).
          vg_Dimension gap \<in> set accepted))"
proof (cases "admitCommit plan preparedRevision stager accepted")
  case (Inl e)
  then show ?thesis
    using changed plan
    by (simp add: CommitPlan_def InspectPlan_def io_bind_def io_get_def io_throw_def io_return_def split: if_split_asm)
next
  case (Inr preparation)
  have "expected = 0 \<or> pr_PlanRevision plan = expected"
  proof (rule ccontr)
    assume "\<not> (expected = 0 \<or> pr_PlanRevision plan = expected)"
    then have "InspectPlan planID expected w = (Fail planRevisionChanged, w)"
      using plan by (simp add: InspectPlan_def io_bind_def io_get_def io_throw_def)
    then show False using changed by (simp add: CommitPlan_def io_bind_def)
  qed
  with Inr show ?thesis
    by (auto simp: admitCommit_def acceptProvisionalGaps_def Let_def unprovenInvariants_filter filter_empty_conv
        split: if_split_asm option.split_asm)
qed

theorem commit_requires_proof_witness:
  "\<exists>preparation. pr_Preparation sample_ready = Some preparation \<and> pp_PreparedRevision preparation = ''prep'' \<and>
     pr_State sample_ready \<in> {PlanReady, PlanProvisional}"
proof -
  have "w_files (snd (sample_commit [])) ''/r/a'' \<noteq> None" by code_simp
  then have "snd (sample_commit []) \<noteq> sample_start []" by auto
  from commit_requires_proof [OF sample_start_fields(1) this [unfolded sample_commit_def]] show ?thesis by blast
qed

end
