(* ===== verification/Recovery_Safety.thy ===== *)
theory Recovery_Safety
  imports Recovery Commit_Atomicity
begin

text \<open>
  Recovery brings back the tree a commit started from. The argument needs only two facts of the
  world recovery starts in, both of which an interrupted recovery keeps: the journal's preimages
  describe the old tree, and only paths of the journal differ from it. So recovery may itself be
  interrupted any number of times. That recovery returns at all is shown in \<open>Recovery_Progress\<close>.
\<close>

section \<open>What recovery relies on\<close>

text \<open>A recheck that passes on a tree shows that the entry's preimage describes its path there.\<close>

definition pre_match :: "tree \<Rightarrow> string \<Rightarrow> CommitJournalEntry \<Rightarrow> bool" where
  "pre_match files p e = (stateMatchesJournalImage files p (je_Before e) (je_Preimage e) = Ok True)"

definition post_match :: "tree \<Rightarrow> string \<Rightarrow> CommitJournalEntry \<Rightarrow> bool" where
  "post_match files p e = (stateMatchesJournalImage files p (je_After e) (je_Postimage e) = Ok True)"

locale image_recheck =
  fixes recheck :: recheck
  assumes recheck_pre: "recheck files p e = Ok () \<Longrightarrow> pre_match files p e"
begin

lemma preimages_pre_match:
  "preimages_hold recheck base resolve entries \<Longrightarrow> e \<in> set entries \<Longrightarrow> resolve (je_Path e) = Ok p \<Longrightarrow> pre_match base p e"
  by (auto simp: preimages_hold_def intro: recheck_pre)

end

interpretation commit_recheck: image_recheck recheckCommitEntry
  by unfold_locales
    (auto simp: recheckCommitEntry_def pre_match_def split: sum.split_asm if_split_asm intro: exact_matches_image)

interpretation compensation_recheck: image_recheck recheckCompensationEntry
  by unfold_locales (auto simp: recheckCompensationEntry_def pre_match_def split: sum.split_asm if_split_asm)

text \<open>\<open>confined\<close>: the preimages describe the old tree and only paths of the journal differ from it.\<close>

definition confined :: "tree \<Rightarrow> (string \<Rightarrow> string result) \<Rightarrow> CommitJournalEntry list \<Rightarrow> world \<Rightarrow> bool" where
  "confined base resolve entries w =
     (w_resolve w = resolve \<and> (\<forall>e \<in> set entries. \<forall>p. resolve (je_Path e) = Ok p \<longrightarrow> pre_match base p e) \<and>
      (\<forall>p. w_files w p = base p \<or> (\<exists>e \<in> set entries. resolve (je_Path e) = Ok p)))"

definition restored_at :: "tree \<Rightarrow> (string \<Rightarrow> string result) \<Rightarrow> CommitJournalEntry \<Rightarrow> world \<Rightarrow> bool" where
  "restored_at base resolve e w = (\<forall>p. resolve (je_Path e) = Ok p \<longrightarrow> same_object (w_files w p) (base p))"

lemma confined_restored:
  assumes "confined base resolve entries w" "\<forall>e \<in> set entries. restored_at base resolve e w"
  shows "same_object (w_files w p) (base p)"
  using assms by (metis confined_def restored_at_def same_object_refl)

lemma confined_tree: "confined base resolve entries w \<Longrightarrow> tree_same w w' \<Longrightarrow> confined base resolve entries w'"
  by (simp add: confined_def tree_same_def)

lemma restored_tree: "restored_at base resolve e w \<Longrightarrow> tree_same w w' \<Longrightarrow> restored_at base resolve e w'"
  by (simp add: restored_at_def tree_same_def)

context image_recheck
begin

lemma journaled_confined: "journaled recheck base resolve entries key w \<Longrightarrow> confined base resolve entries w"
  using preimages_pre_match by (fastforce simp: journaled_def explained_def confined_def written_by_def)

end

section \<open>Restoring one entry\<close>

text \<open>Whatever its outcome, restoring an entry touches its path only; returning means the preimage is there.\<close>

definition recovery_effect :: "CommitJournalEntry \<Rightarrow> world \<Rightarrow> unit outcome \<Rightarrow> world \<Rightarrow> bool" where
  "recovery_effect e w r w' =
     (w_resolve w' = w_resolve w \<and> w_stateDir w' = w_stateDir w \<and> w_commitJournals w' = w_commitJournals w \<and>
      (\<forall>p. w_files w' p \<noteq> w_files w p \<longrightarrow> w_resolve w (je_Path e) = Ok p) \<and>
      (is_done r \<longrightarrow> (\<exists>p. w_resolve w (je_Path e) = Ok p \<and> pre_match (w_files w') p e)))"

lemma wp_image_check:
  "io_wp (image_check matched failure) Q w =
     (case matched of
        Inl e \<Rightarrow> Q (Fail e) w
      | Inr matches \<Rightarrow> if matches then Q (Done ()) w else Q (Fail (PlainError failure)) w)"
  by (cases matched) (simp_all add: image_check_def)

lemma wp_restore_entry:
  assumes resolved: "w_resolve w (je_Path e) = Ok p"
  shows "io_wp (restore_entry p e) (recovery_effect e w) w"
proof -
  have failed: "recovery_effect e w r w'" if "entry_effect p (inverse_entry e) w w'" "\<not> is_done r" for r w'
    using that resolved by (simp add: recovery_effect_def entry_effect_def) metis
  have reached: "recovery_effect e w (Done ()) w'" if "entry_effect p (inverse_entry e) w w'" "pre_match (w_files w') p e" for w'
    using that resolved by (simp add: recovery_effect_def entry_effect_def) metis
  have verify: "io_wp (io_bind io_call (\<lambda>_.
      io_bind (io_get (\<lambda>w. stateMatchesJournalImage (w_files w) p (je_Before e) (je_Preimage e)))
        (\<lambda>matched. image_check matched ''did not reach its exact preimage''))) (recovery_effect e w) w2"
    if "entry_effect p (inverse_entry e) w w2" for w2
  proof (rule wp_bind_call)
    fix script
    have effect: "entry_effect p (inverse_entry e) w (w2\<lparr>w_io := script\<rparr>)" using that by (simp add: entry_effect_def)
    show "io_wp (io_bind (io_get (\<lambda>w. stateMatchesJournalImage (w_files w) p (je_Before e) (je_Preimage e)))
        (\<lambda>matched. image_check matched ''did not reach its exact preimage'')) (recovery_effect e w) (w2\<lparr>w_io := script\<rparr>)"
      unfolding wp_bind_get wp_image_check
      using failed [OF effect] reached [OF effect] by (simp add: pre_match_def split: sum.split)
    show "recovery_effect e w (Fail x) (w2\<lparr>w_io := script\<rparr>)" "recovery_effect e w Crashed (w2\<lparr>w_io := script\<rparr>)" for x
      by (simp_all add: failed [OF effect])
  qed
  have replace: "io_wp (io_bind (applyCommitEntry p (inverse_entry e)) (\<lambda>_. io_bind io_call (\<lambda>_.
      io_bind (io_get (\<lambda>w. stateMatchesJournalImage (w_files w) p (je_Before e) (je_Preimage e)))
        (\<lambda>matched. image_check matched ''did not reach its exact preimage'')))) (recovery_effect e w) (w\<lparr>w_io := script\<rparr>)" for script
    by (rule wp_bindI [OF wp_applyCommitEntry]) (simp_all add: entry_effect_script(1) verify failed del: wp_bind)
  have quiet: "recovery_effect e w (Fail x) (w\<lparr>w_io := script\<rparr>)" "recovery_effect e w Crashed (w\<lparr>w_io := script\<rparr>)"
    "recovery_effect e w (Fail x) w" for x script
    by (simp_all add: recovery_effect_def)
  have second: "io_wp (io_bind (io_get (\<lambda>w. stateMatchesJournalImage (w_files w) p (je_After e) (je_Postimage e))) (\<lambda>matched.
      io_bind (image_check matched ''changed during recovery'') (\<lambda>_.
      io_bind (applyCommitEntry p (inverse_entry e)) (\<lambda>_. io_bind io_call (\<lambda>_.
      io_bind (io_get (\<lambda>w. stateMatchesJournalImage (w_files w) p (je_Before e) (je_Preimage e)))
        (\<lambda>matched. image_check matched ''did not reach its exact preimage'')))))) (recovery_effect e w) (w\<lparr>w_io := script\<rparr>)" for script
    unfolding wp_bind_get
    by (rule wp_bindI [where P = "\<lambda>r w'. w' = w\<lparr>w_io := script\<rparr> \<and> r \<noteq> Crashed"])
      (auto simp: wp_image_check simp del: wp_bind intro: replace quiet split: sum.split)
  show ?thesis
    unfolding restore_entry_def fireCommitFault_def wp_bind_get
    by (rule wp_bindI [where P = "\<lambda>r w'. w' = w \<and> r \<noteq> Crashed"])
      (auto simp: wp_image_check quiet simp del: wp_bind split: sum.split intro!: wp_bind_call second quiet)
qed

lemma wp_recover_entry: "io_wp (recover_entry e) (recovery_effect e w) w"
proof (cases "w_resolve w (je_Path e)")
  case (Inl err)
  then show ?thesis by (simp add: recover_entry_def recovery_effect_def)
next
  case (Inr p)
  then show ?thesis
    using wp_restore_entry [OF Inr]
    by (cases "stateMatchesJournalImage (w_files w) p (je_Before e) (je_Preimage e)")
      (simp_all add: recover_entry_def recovery_effect_def pre_match_def)
qed

lemma confined_recover:
  assumes "confined base resolve entries w" "recovery_effect e w r w'" "entry_images e \<in> set entries"
  shows "confined base resolve entries w'"
    and "e' \<in> set entries \<Longrightarrow> restored_at base resolve e' w \<Longrightarrow> is_done r \<Longrightarrow> restored_at base resolve e' w'"
    and "is_done r \<Longrightarrow> restored_at base resolve (entry_images e) w'"
proof -
  have resolve: "w_resolve w = resolve" using assms(1) by (simp add: confined_def)
  have "w_files w' p = base p \<or> (\<exists>e \<in> set entries. resolve (je_Path e) = Ok p)" for p
    using assms resolve by (cases "w_files w' p = w_files w p") (auto simp: confined_def recovery_effect_def intro: bexI [of _ "entry_images e"])
  then show "confined base resolve entries w'"
    using assms(1,2) by (auto simp: confined_def recovery_effect_def)
  have restored: "same_object (w_files w' p) (base p)" if "is_done r" "resolve (je_Path e) = Ok p" for p
  proof -
    have "pre_match (w_files w') p e" using assms(2) that resolve by (auto simp: recovery_effect_def)
    moreover have "pre_match base p e" using assms(1,3) that(2) by (fastforce simp: confined_def pre_match_def)
    ultimately show ?thesis unfolding pre_match_def by (rule matches_same_object)
  qed
  then show "is_done r \<Longrightarrow> restored_at base resolve (entry_images e) w'" by (simp add: restored_at_def)
  show "restored_at base resolve e' w'" if "e' \<in> set entries" "restored_at base resolve e' w" "is_done r"
    unfolding restored_at_def
  proof (intro allI impI)
    fix p assume "resolve (je_Path e') = Ok p"
    then show "same_object (w_files w' p) (base p)"
      using restored that assms(2) resolve by (cases "w_files w' p = w_files w p") (auto simp: recovery_effect_def restored_at_def)
  qed
qed

section \<open>Restoring a journal\<close>

text \<open>
  \<open>recovering\<close>: the journal is open. \<open>recovered\<close>: it is rolled back and every path is the object it was.
\<close>

definition open_journal :: "CommitJournal \<Rightarrow> bool" where
  "open_journal journal = (cj_State journal \<in> {CommitJournalApplying, CommitJournalRecoveryRequired})"

definition journaled_open :: "string \<Rightarrow> world \<Rightarrow> bool" where
  "journaled_open key w =
     (case map_of (w_commitJournals w) key of None \<Rightarrow> False | Some journal \<Rightarrow> open_journal journal)"

definition recovering :: "tree \<Rightarrow> (string \<Rightarrow> string result) \<Rightarrow> CommitJournalEntry list \<Rightarrow> string \<Rightarrow> world \<Rightarrow> bool" where
  "recovering base resolve entries key w =
     (confined base resolve entries w \<and>
      (\<exists>journal. map_of (w_commitJournals w) key = Some journal \<and> images journal = entries \<and> open_journal journal))"

definition recovered :: "tree \<Rightarrow> (string \<Rightarrow> string result) \<Rightarrow> CommitJournalEntry list \<Rightarrow> string \<Rightarrow> world \<Rightarrow> bool" where
  "recovered base resolve entries key w =
     (confined base resolve entries w \<and> (\<forall>p. same_object (w_files w p) (base p)) \<and>
      (\<exists>journal. map_of (w_commitJournals w) key = Some journal \<and> images journal = entries \<and>
         cj_State journal = CommitJournalRolledBack))"

context image_recheck
begin

lemma journaled_recovering: "journaled recheck base resolve entries key w \<Longrightarrow> recovering base resolve entries key w"
  by (frule journaled_confined) (auto simp: recovering_def journaled_def open_journal_def)

end

lemma recovering_same:
  "recovering base resolve entries key w \<Longrightarrow> tree_same w w' \<Longrightarrow> w_commitJournals w' = w_commitJournals w \<Longrightarrow>
   recovering base resolve entries key w'"
  by (auto simp: recovering_def intro: confined_tree)

lemma recovered_canon:
  "recovered base resolve entries key w \<Longrightarrow> canonical_same w w' \<Longrightarrow> recovered base resolve entries key w'"
  by (auto simp: recovered_def canonical_same_def tree_same_def intro: confined_tree)

lemma recovering_written:
  assumes "journal_effect key journal w r w'" "confined base resolve entries w"
    and "images journal = entries" "open_journal journal"
    and "recovering base resolve entries key w \<or> journal_written key journal w w'"
  shows "recovering base resolve entries key w'"
proof (cases "journal_written key journal w w'")
  case True
  then show ?thesis using assms(1-4) confined_tree [OF assms(2)]
    by (auto simp: recovering_def journal_effect_def journal_written_def open_journal_def)
next
  case False
  then have "tree_same w w'" "w_commitJournals w' = w_commitJournals w" "recovering base resolve entries key w"
    using assms(1,5) by (simp_all add: journal_effect_def)
  then show ?thesis using recovering_same by blast
qed

lemma wp_recoveryConflict:
  assumes "recovering base resolve entries key w" "images journal = entries"
  shows "io_wp (recoveryConflict key journal cause :: 'a io) (\<lambda>r w'. recovering base resolve entries key w' \<and> (\<forall>x. r \<noteq> Done x)) w"
  unfolding recoveryConflict_def
  by (rule wp_bind_any [OF wp_mono [OF wp_writeCommitJournal]], erule recovering_written)
    (use assms in \<open>auto simp: recovering_def open_journal_def\<close>)

lemma mark_progress_plan [simp]:
  "cj_PlanID (mark_progress i progress journal) = cj_PlanID journal"
  "cj_PlanRevision (mark_progress i progress journal) = cj_PlanRevision journal"
  by (simp_all add: mark_progress_def)

lemma wp_recover_loop:
  assumes "recovering base resolve entries key w" "images journal = entries" "open_journal journal"
    and "\<forall>i \<in> set order. i < length entries" "indices \<subseteq> {..<length entries}"
    and "\<forall>i \<in> indices. restored_at base resolve (entries ! i) w"
  shows "io_wp (recover_loop key order journal) (\<lambda>r w'. recovering base resolve entries key w' \<and>
    (\<forall>journal'. r = Done journal' \<longrightarrow> images journal' = entries \<and> cj_PlanID journal' = cj_PlanID journal \<and>
       cj_PlanRevision journal' = cj_PlanRevision journal \<and>
       (\<forall>i \<in> indices \<union> set order. restored_at base resolve (entries ! i) w'))) w"
  using assms
proof (induction order arbitrary: journal w indices)
  case (Cons i rest)
  define e where "e = cj_Entries journal ! i"
  have i: "i < length entries" "entries ! i = entry_images e"
    using Cons.prems(2,4) by (auto simp: images_def e_def)
  have mem: "entry_images e \<in> set entries" using i by (metis nth_mem)
  let ?journal = "mark_progress i CommitPathRestored journal"
  let ?Q = "\<lambda>r w'. recovering base resolve entries key w' \<and>
    (\<forall>journal'. r = Done journal' \<longrightarrow> images journal' = entries \<and> cj_PlanID journal' = cj_PlanID journal \<and>
       cj_PlanRevision journal' = cj_PlanRevision journal \<and>
       (\<forall>i \<in> indices \<union> set (i # rest). restored_at base resolve (entries ! i) w'))"
  have conflict: "io_wp (recoveryConflict key journal' cause) ?Q w1"
    if "recovering base resolve entries key w1" "images journal' = entries" for journal' cause w1
    using wp_recoveryConflict [OF that] by (rule wp_mono) simp
  have open': "open_journal ?journal" "images ?journal = entries" "cj_PlanID ?journal = cj_PlanID journal"
    "cj_PlanRevision ?journal = cj_PlanRevision journal"
    using Cons.prems(2,3) by (simp_all add: open_journal_def)
  have keep: "recovering base resolve entries key w1" if "recovery_effect e w r w1" for r w1
    using Cons.prems(1) confined_recover(1) [OF _ that mem] that by (auto simp: recovering_def recovery_effect_def)
  have persist: "io_wp (io_bind (io_try (persistCommitJournal key ?journal)) (\<lambda>persisted. case persisted of
        Inl e \<Rightarrow> recoveryConflict key ?journal e | Inr _ \<Rightarrow> recover_loop key rest ?journal)) ?Q w1"
    if w1: "recovering base resolve entries key w1" "\<forall>j \<in> insert i indices. restored_at base resolve (entries ! j) w1" for w1
  proof -
    have "io_wp (persistCommitJournal key ?journal) (\<lambda>r w'. recovering base resolve entries key w' \<and> tree_same w1 w') w1"
      by (rule wp_mono [OF wp_persistCommitJournal], rule conjI, erule recovering_written)
        (use w1 open' in \<open>auto simp: recovering_def journal_effect_def\<close>)
    then show ?thesis
    proof (rule wp_bind_try)
      fix x w2 assume w2: "recovering base resolve entries key w2 \<and> tree_same w1 w2"
      show "io_wp (recover_loop key rest ?journal) ?Q w2"
      proof (rule wp_mono [OF Cons.IH [of w2 ?journal "insert i indices"]])
        show "\<forall>j \<in> insert i indices. restored_at base resolve (entries ! j) w2"
          using w1(2) w2 by (blast intro: restored_tree)
      qed (use w2 open' i(1) Cons.prems(4,5) in auto)
    next
      show "io_wp (recoveryConflict key ?journal err) ?Q w2" if "recovering base resolve entries key w2 \<and> tree_same w1 w2" for err w2
        by (rule conflict [OF conjunct1 [OF that] open'(2)])
    qed simp
  qed
  show ?case unfolding recover_loop.simps e_def [symmetric]
  proof (rule wp_bind_try [OF wp_recover_entry])
    fix x w1 assume w1: "recovery_effect e w (Done x) w1"
    have con: "confined base resolve entries w" using Cons.prems(1) by (simp add: recovering_def)
    show "io_wp (io_bind (io_try (persistCommitJournal key ?journal)) (\<lambda>persisted. case persisted of
        Inl e \<Rightarrow> recoveryConflict key ?journal e | Inr _ \<Rightarrow> recover_loop key rest ?journal)) ?Q w1"
      by (rule persist [OF keep [OF w1]])
        (use confined_recover(2,3) [OF con w1 mem] Cons.prems(5,6) i in auto)
  next
    show "io_wp (recoveryConflict key journal err) ?Q w1" if "recovery_effect e w (Fail err) w1" for err w1
      by (rule conflict [OF keep [OF that] Cons.prems(2)])
  qed (simp add: keep)
qed simp

lemma canon_reconcile [intro, simp]:
  "canon.keeps (markPlanRecovered planID revision)" "canon.keeps (markPlanCommitted journal)"
  unfolding markPlanRecovered_def markPlanCommitted_def by (intro canon_rules canon_store)+

lemma recovered_written:
  assumes "journal_effect key journal w r w'" "recovering base resolve entries key w" "images journal = entries"
    and "cj_State journal = CommitJournalRolledBack" "\<forall>p. same_object (w_files w p) (base p)"
  shows "recovering base resolve entries key w' \<or> recovered base resolve entries key w'"
    and "is_done r \<Longrightarrow> recovered base resolve entries key w'"
proof -
  have same: "tree_same w w'" using assms(1) by (simp add: journal_effect_def)
  have "recovered base resolve entries key w'" if "journal_written key journal w w'"
    using that assms(2-5) same confined_tree [OF _ same]
    by (auto simp: recovered_def recovering_def journal_written_def tree_same_def)
  moreover have "recovering base resolve entries key w'" if "w_commitJournals w' = w_commitJournals w"
    using assms(2) same that by (rule recovering_same)
  ultimately show "recovering base resolve entries key w' \<or> recovered base resolve entries key w'"
    "is_done r \<Longrightarrow> recovered base resolve entries key w'"
    using assms(1) by (auto simp: journal_effect_def)
qed

lemma wp_close_recovered:
  assumes w: "recovering base resolve entries key w" and images: "images journal = entries"
    and journal: "cj_State journal = CommitJournalRolledBack" "\<forall>p. same_object (w_files w p) (base p)"
  shows "io_wp (close_recovered key journal) (\<lambda>r w'.
    (recovering base resolve entries key w' \<or> recovered base resolve entries key w') \<and>
    (is_done r \<longrightarrow> recovered base resolve entries key w')) w"
proof -
  have conflict: "io_wp (recoveryConflict key journal cause :: unit io) (\<lambda>r w'.
      (recovering base resolve entries key w' \<or> recovered base resolve entries key w') \<and>
      (is_done r \<longrightarrow> recovered base resolve entries key w')) w1"
    if "recovering base resolve entries key w1 \<or> recovered base resolve entries key w1" for cause w1
    unfolding recoveryConflict_def
  proof (rule wp_bind_any [OF wp_mono [OF wp_writeCommitJournal]])
    fix r w2 assume effect: "journal_effect key (journal\<lparr> cj_State := CommitJournalRecoveryRequired, cj_LastError := Some cause \<rparr>) w1 r w2"
    have "recovering base resolve entries key w2 \<or> recovered base resolve entries key w2"
    proof (cases "journal_written key (journal\<lparr> cj_State := CommitJournalRecoveryRequired, cj_LastError := Some cause \<rparr>) w1 w2")
      case True
      then show ?thesis using recovering_written [OF effect, of base resolve entries] that images
        by (auto simp: recovering_def recovered_def open_journal_def)
    next
      case False
      then have "tree_same w1 w2" "w_commitJournals w2 = w_commitJournals w1" using effect by (simp_all add: journal_effect_def)
      then show ?thesis using that
        by (auto simp: recovering_def recovered_def tree_same_def confined_def)
    qed
    then show "recovering base resolve entries key w2 \<or> recovered base resolve entries key w2" .
  qed (auto simp: io_throw_def)
  show ?thesis unfolding close_recovered_def
  proof (rule wp_bind_try [OF wp_persistCommitJournal])
    show "io_wp (markPlanRecovered (cj_PlanID journal) (cj_PlanRevision journal)) (\<lambda>r w'.
        (recovering base resolve entries key w' \<or> recovered base resolve entries key w') \<and>
        (is_done r \<longrightarrow> recovered base resolve entries key w')) w1"
      if "journal_effect key journal w (Done x) w1" for x w1
      by (rule canon.keeps_wp [OF canon_reconcile(1)])
        (simp add: recovered_canon [OF recovered_written(2) [OF that w images journal]])
  qed (use recovered_written [OF _ w images journal] conflict in auto)
qed

lemma wp_recoverCommitJournal:
  assumes w: "recovering base resolve entries key w" and journal: "images journal = entries" "open_journal journal"
  shows "io_wp (recoverCommitJournal key journal) (\<lambda>r w'.
    (recovering base resolve entries key w' \<or> recovered base resolve entries key w') \<and>
    (is_done r \<longrightarrow> recovered base resolve entries key w')) w"
proof -
  have len: "length (cj_Entries journal) = length entries" using journal(1) by auto
  have all: "same_object (w_files w1 p) (base p)"
    if "recovering base resolve entries key w1"
      "\<forall>i \<in> {} \<union> set (rev (commitEntryOrder (cj_Entries journal))). restored_at base resolve (entries ! i) w1" for w1 p
  proof (rule confined_restored)
    show "confined base resolve entries w1" using that(1) by (simp add: recovering_def)
    show "\<forall>e \<in> set entries. restored_at base resolve e w1" using that(2) len by (auto simp: in_set_conv_nth)
  qed
  have loop: "io_wp (io_bind (recover_loop key (rev (commitEntryOrder (cj_Entries journal))) journal) (\<lambda>restored.
      close_recovered key (restored\<lparr> cj_State := CommitJournalRolledBack, cj_LastError := None \<rparr>))) (\<lambda>r w'.
    (recovering base resolve entries key w' \<or> recovered base resolve entries key w') \<and>
    (is_done r \<longrightarrow> recovered base resolve entries key w')) w"
    by (rule wp_bindI [OF wp_recover_loop [OF w journal, where indices = "{}"]])
      (use len all in \<open>auto intro!: wp_close_recovered simp del: wp_bind\<close>)
  have "io_wp (recoveryConflict key journal cause :: unit io) (\<lambda>r w'.
      (recovering base resolve entries key w' \<or> recovered base resolve entries key w') \<and>
      (is_done r \<longrightarrow> recovered base resolve entries key w')) w" for cause
    by (rule wp_mono [OF wp_recoveryConflict [OF w journal(1)]]) (auto elim: is_done.elims)
  with loop show ?thesis unfolding recoverCommitJournal_def wp_bind_get
    by (cases "validateRecoveryJournal (w_resolve w) journal") simp_all
qed

section \<open>Crashes and restarts\<close>

text \<open>
  A restarted process sees the tree, the journals and the paths as they were left; its plans,
  leases and clock may differ. Any number of recovery attempts may fail or die before.
\<close>

inductive restarts :: "string \<Rightarrow> world \<Rightarrow> world \<Rightarrow> bool" for key where
  restart: "canonical_same w w' \<Longrightarrow> restarts key w w'"
| attempt: "restarts key w w1 \<Longrightarrow> map_of (w_commitJournals w1) key = Some journal \<Longrightarrow> open_journal journal \<Longrightarrow>
    recoverCommitJournal key journal w1 = (r, w2) \<Longrightarrow> canonical_same w2 w3 \<Longrightarrow> restarts key w w3"

lemma recovering_canon:
  "recovering base resolve entries key w \<Longrightarrow> canonical_same w w' \<Longrightarrow> recovering base resolve entries key w'"
  by (erule recovering_same) (simp_all add: canonical_same_def tree_same_def)

lemma restarts_recovering:
  assumes "restarts key w w'" "recovering base resolve entries key w"
  shows "recovering base resolve entries key w' \<or> recovered base resolve entries key w'"
  using assms
proof (induction rule: restarts.induct)
  case (restart w w')
  then show ?case by (blast intro: recovering_canon)
next
  case (attempt w w1 journal r w2 w3)
  then have "recovering base resolve entries key w1" "images journal = entries"
    by (auto simp: recovering_def recovered_def open_journal_def)
  then show ?case
    using wp_result [OF wp_recoverCommitJournal attempt.hyps(4)] attempt.hyps(3,5)
    by (blast intro: recovering_canon recovered_canon)
qed


text \<open>A commit that died right after its first write, and the process that comes after it.\<close>

definition sample_crashed :: world where
  "sample_crashed = snd (sample_commit (replicate 17 IOk @ [ICrash]))"

definition sample_restarted :: world where
  "sample_restarted = sample_crashed\<lparr> w_plans := [], w_io := [] \<rparr>"


end
