(* ===== verification/Recovery_Progress.thy ===== *)
theory Recovery_Progress
  imports Recovery_Safety
begin

text \<open>
  Recovery returns: from a world an interrupted commit left behind, when nothing fails any more,
  recovery does restore the tree. It compares what it finds with the journal's snapshots, so this
  holds for entries whose snapshots say what the writes really produce. The last part shows that
  \<open>planStageRequest\<close> can produce an entry that does not: content with a NUL byte in a new file is
  recorded as text, and recovery of such an entry can never succeed.
\<close>

section \<open>Running without failures\<close>

definition returns :: "'a io \<Rightarrow> bool" where
  "returns m = (\<forall>w. w_io w = [] \<longrightarrow> is_done (fst (m w)) \<and> w_io (snd (m w)) = [])"

lemma returns_basic [simp, intro]:
  "returns (io_return x)" "returns (io_get f)" "returns io_call" "returns io_now" "returns MkdirAll" "returns syncDirectory"
  "returns fireCommitFault"
  by (simp_all add: returns_def io_return_def io_get_def io_call_def io_now_def MkdirAll_def syncDirectory_def fireCommitFault_def)

lemma returns_update: "(\<And>w. w_io (f w) = w_io w) \<Longrightarrow> returns (io_update f)"
  by (simp add: returns_def io_update_def)

lemma is_doneE: "is_done r \<Longrightarrow> (\<And>x. r = Done x \<Longrightarrow> P) \<Longrightarrow> P"
  by (cases r) auto

lemma returns_bind [intro]:
  assumes "returns m" "\<And>x. returns (f x)"
  shows "returns (io_bind m f)"
  unfolding returns_def
proof (intro allI impI)
  fix w :: world assume "w_io w = []"
  with assms(1) have "is_done (fst (m w))" "w_io (snd (m w)) = []" by (simp_all add: returns_def)
  then obtain x w' where "m w = (Done x, w')" "w_io w' = []" by (cases "m w") (auto elim: is_doneE)
  then show "is_done (fst (io_bind m f w)) \<and> w_io (snd (io_bind m f w)) = []"
    using assms(2) by (simp add: io_bind_def returns_def)
qed

lemma returns_try [intro]: "returns m \<Longrightarrow> returns (io_try m)"
  by (auto simp: returns_def io_try_def split: prod.splits outcome.splits)

lemma returns_if [intro]: "(b \<Longrightarrow> returns m) \<Longrightarrow> (\<not> b \<Longrightarrow> returns m') \<Longrightarrow> returns (if b then m else m')"
  by simp

lemma returns_option [intro]: "returns m \<Longrightarrow> (\<And>x. returns (f x)) \<Longrightarrow> returns (case_option m f found)"
  by (cases found) auto

lemma returns_wp: "returns m \<Longrightarrow> w_io w = [] \<Longrightarrow> io_wp m (\<lambda>r w'. is_done r \<and> w_io w' = []) w"
  by (cases "m w") (auto simp: returns_def io_wp_def)

lemma returns_persist [simp, intro]: "returns (persistPlanLocked planID)"
  unfolding persistPlanLocked_def write_plan_record_def remove_plan_record_def
  by (intro returns_bind returns_if returns_option returns_basic returns_update) simp_all

lemma returns_plans [simp, intro]: "returns (update_plan planID plan)" "returns (delete_plan planID)"
  unfolding update_plan_def delete_plan_def by (intro returns_update; simp)+

lemma returns_finish [simp, intro]: "returns (finishPlanLocked planID)"
proof -
  have "returns (prune_loop now kept dropped compacted plans)" for now kept dropped compacted plans
    by (induction plans arbitrary: kept dropped compacted) (auto intro!: returns_bind returns_if)
  then show ?thesis
    unfolding finishPlanLocked_def pruneTerminalPlansLocked_def
    by (intro returns_bind returns_if returns_basic returns_persist)
qed

lemma returns_journal [simp, intro]: "returns (persistCommitJournal key journal)"
  unfolding persistCommitJournal_def writeCommitJournal_def
  by (intro returns_bind returns_basic returns_update) simp

lemma returns_event [simp, intro]: "returns (record_event_now action detail plan)"
  unfolding record_event_now_def by (intro returns_bind returns_basic)

text \<open>
  A plan that is still committing cannot be rolled back directly; loading the plan records has
  turned such a plan into one that needs recovery before any journal is read.
\<close>

definition plan_loaded :: "string \<Rightarrow> world \<Rightarrow> bool" where
  "plan_loaded planID w =
     (case map_of (w_plans w) planID of None \<Rightarrow> True | Some plan \<Rightarrow> pr_State plan \<noteq> PlanCommitting)"

lemma returns_markPlanRecovered:
  assumes "w_io w = []" "plan_loaded planID w"
  shows "io_wp (markPlanRecovered planID revision) (\<lambda>r w'. is_done r) w"
proof (cases "reconcilable revision (map_of (w_plans w) planID)")
  case None
  then show ?thesis by (simp add: markPlanRecovered_def)
next
  case (Some plan)
  then have "pr_State plan = PlanRecoveryRequired"
    using assms(2) by (auto simp: reconcilable_def plan_loaded_def split: option.split_asm if_split_asm)
  then have legal: "canTransition (pr_State plan) PlanRolledBack" by (simp add: canTransition_def)
  have "returns (io_bind (record_event_now ''startup_recovery'' ''preimages_restored''
      (plan\<lparr> pr_State := PlanRolledBack, pr_Preparation := None, pr_Conflict := None \<rparr>)) (\<lambda>recovered.
        io_bind (update_plan planID recovered) (\<lambda>_. finishPlanLocked planID)))"
    by (intro returns_bind returns_event returns_plans returns_finish)
  from returns_wp [OF this assms(1)] show ?thesis
    unfolding markPlanRecovered_def wp_bind_get Some option.case if_not_P [OF not_not [THEN iffD2, OF legal]]
    by (rule wp_mono) simp
qed

section \<open>Restoring one entry\<close>

text \<open>A snapshot that says what writing the image produces.\<close>

definition honest_image :: "DiskSnapshot \<Rightarrow> bytes \<Rightarrow> bool" where
  "honest_image snapshot content =
     (case ds_Kind snapshot of
        ObjectMissing \<Rightarrow> ds_Mode snapshot = 0 \<and> ds_Size snapshot = 0 \<and> ds_SymlinkTarget snapshot = [] \<and> content = []
      | ObjectSymlink \<Rightarrow>
          ds_SymlinkTarget snapshot = content \<and> ds_Size snapshot = int (length content) \<and> ds_Mode snapshot = symlinkMode
      | ObjectDirectory \<Rightarrow> False
      | kind \<Rightarrow>
          content_kind content = kind \<and> and (ds_Mode snapshot) commitModeMask = ds_Mode snapshot \<and>
          ds_Size snapshot = int (length content) \<and> ds_SymlinkTarget snapshot = [])"

definition honest_entry :: "CommitJournalEntry \<Rightarrow> bool" where
  "honest_entry e = (honest_image (je_Before e) (je_Preimage e) \<and> honest_image (je_After e) (je_Postimage e))"

lemma honest_post_match:
  assumes "honest_image (je_After e) (je_Postimage e)" "holds_post e (files p)"
  shows "post_match files p e"
  using assms
  by (cases "ds_Kind (je_After e)")
    (auto simp: honest_image_def holds_post_def post_match_def stateMatchesImage_def inspectPath_def missing_snapshot_def
      diskSnapshot_def split: option.split_asm fs_node.split_asm)

lemma honest_inverse_match:
  assumes "honest_image (je_Before e) (je_Preimage e)" "holds_post (inverse_entry e) (files p)"
  shows "pre_match files p e"
  using honest_post_match [of "inverse_entry e" files p] assms
  by (simp add: inverse_entry_def pre_match_def post_match_def)

lemma match_not_directory:
  assumes "honest_image (je_After e) (je_Postimage e)" "post_match files p e"
  shows "\<not> is_directory (files p)"
  using assms
  by (cases "files p" rule: is_directory.cases)
    (auto simp: honest_image_def post_match_def stateMatchesImage_def inspectPath_def diskSnapshot_def)

lemma apply_inverse_returns:
  assumes "w_io w = []" "ds_Kind (je_Before e) \<noteq> ObjectDirectory" "\<not> is_directory (w_files w p)"
  shows "io_wp (applyCommitEntry p (inverse_entry e)) (\<lambda>r w'. is_done r \<and> w_io w' = [] \<and> w_plans w' = w_plans w) w"
  using assms
  by (cases "ds_Kind (je_Before e)")
    (simp_all add: applyCommitEntry_def inverse_entry_def MkdirAll_def syncDirectory_def os_Remove_def commitWrite_def
      writeTempAndRename_def commitSymlink_def atomicSymlink_def put_node_def io_call_cases)

lemma restore_entry_returns:
  assumes "w_io w = []" "honest_entry e" "post_match (w_files w) p e"
  shows "io_wp (restore_entry p e) (\<lambda>r w'. is_done r \<and> w_io w' = [] \<and> w_plans w' = w_plans w) w"
proof -
  have kind: "ds_Kind (je_Before e) \<noteq> ObjectDirectory" using assms(2) by (auto simp: honest_entry_def honest_image_def)
  have "\<not> is_directory (w_files w p)" using assms(2,3) by (auto simp: honest_entry_def dest: match_not_directory)
  from wp_conj [OF apply_inverse_returns [OF assms(1) kind this] wp_applyCommitEntry [where w = w]]
  have "io_wp (applyCommitEntry p (inverse_entry e)) (\<lambda>r w'. is_done r \<and> w_io w' = [] \<and> w_plans w' = w_plans w \<and>
      pre_match (w_files w') p e) w"
    using assms(2) by (auto simp: honest_entry_def intro: honest_inverse_match elim!: wp_mono)
  then have "io_wp (io_bind (applyCommitEntry p (inverse_entry e)) (\<lambda>_. io_bind fireCommitFault (\<lambda>_.
      io_bind (io_get (\<lambda>w. stateMatchesJournalImage (w_files w) p (je_Before e) (je_Preimage e)))
        (\<lambda>matched. image_check matched ''did not reach its exact preimage''))))
      (\<lambda>r w'. is_done r \<and> w_io w' = [] \<and> w_plans w' = w_plans w) w"
    by (rule wp_bindI) (simp_all add: fireCommitFault_def io_call_cases wp_image_check pre_match_def)
  then show ?thesis
    using assms(1,3) unfolding restore_entry_def
    by (simp add: wp_image_check post_match_def fireCommitFault_def io_call_cases del: wp_bind
        add: wp_bind_get wp_bind [of "image_check m f" for m f] wp_bind [of io_call])
qed

section \<open>Restoring a journal\<close>

text \<open>Every path is still what it was or already what the entry makes of it.\<close>

definition settled :: "(string \<Rightarrow> string result) \<Rightarrow> tree \<Rightarrow> CommitJournalEntry \<Rightarrow> bool" where
  "settled resolve files e =
     (honest_entry e \<and> (\<exists>p. resolve (je_Path e) = Ok p \<and> (pre_match files p e \<or> post_match files p e)))"

lemma settled_images [simp]: "settled resolve files (entry_images e) = settled resolve files e"
  by (simp add: settled_def honest_entry_def pre_match_def post_match_def)

lemma recover_entry_returns:
  assumes "w_io w = []" "settled (w_resolve w) (w_files w) e"
  shows "io_wp (recover_entry e) (\<lambda>r w'. is_done r \<and> w_io w' = [] \<and> w_plans w' = w_plans w) w"
proof -
  obtain p where p: "w_resolve w (je_Path e) = Ok p" "pre_match (w_files w) p e \<or> post_match (w_files w) p e"
    and "honest_entry e" using assms(2) by (auto simp: settled_def)
  show ?thesis
  proof (cases "pre_match (w_files w) p e")
    case True
    then show ?thesis using p(1) assms(1) by (simp add: recover_entry_def pre_match_def)
  next
    case False
    then have post: "post_match (w_files w) p e" using p(2) by simp
    then obtain matched where "stateMatchesJournalImage (w_files w) p (je_Before e) (je_Preimage e) = Ok matched" "\<not> matched"
      using False by (auto simp: pre_match_def post_match_def stateMatchesImage_def split: sum.splits prod.splits)
    with restore_entry_returns [OF assms(1) \<open>honest_entry e\<close> post] p(1) show ?thesis
      by (simp add: recover_entry_def)
  qed
qed

text \<open>Restoring one entry keeps the others settled, when no two entries name the same path.\<close>

lemma settled_recover:
  assumes "recovery_effect e w (Done ()) w'" "settled (w_resolve w) (w_files w) e'" "honest_entry e"
    and "w_resolve w (je_Path e') \<noteq> w_resolve w (je_Path e) \<or> e' = entry_images e"
  shows "settled (w_resolve w') (w_files w') e'"
  using assms(4)
proof
  assume "e' = entry_images e"
  then show ?thesis using assms(1,3) by (auto simp: settled_def recovery_effect_def honest_entry_def pre_match_def)
next
  assume other: "w_resolve w (je_Path e') \<noteq> w_resolve w (je_Path e)"
  obtain p where p: "w_resolve w (je_Path e') = Ok p" using assms(2) by (auto simp: settled_def)
  then have "w_files w' p = w_files w p" using assms(1) other by (auto simp: recovery_effect_def)
  then show ?thesis using assms(1,2) p
    by (auto simp: settled_def recovery_effect_def pre_match_def post_match_def stateMatchesImage_def inspectPath_def)
qed

lemma returns_recovery_persist:
  assumes "w_io w = []"
  shows "io_wp (persistCommitJournal key journal) (\<lambda>r w'. is_done r \<and> w_io w' = [] \<and> w_plans w' = w_plans w \<and> tree_same w w') w"
  by (rule wp_mono [OF wp_conj [OF returns_wp [OF returns_journal assms] wp_persistCommitJournal]])
    (simp add: journal_effect_def)

lemma recover_loop_returns:
  assumes "w_io w = []" "images journal = entries" "\<forall>e \<in> set entries. settled (w_resolve w) (w_files w) e"
    and "distinct_paths (w_resolve w) entries" "\<forall>i \<in> set order. i < length entries"
  shows "io_wp (recover_loop key order journal) (\<lambda>r w'. is_done r \<and> w_io w' = [] \<and> w_plans w' = w_plans w) w"
  using assms
proof (induction order arbitrary: journal w)
  case (Cons i rest)
  define e where "e = cj_Entries journal ! i"
  have i: "i < length entries" "entries ! i = entry_images e"
    using Cons.prems(2,5) by (auto simp: images_def e_def)
  have mem: "entry_images e \<in> set entries" using i by (metis nth_mem)
  then have e: "settled (w_resolve w) (w_files w) e" using Cons.prems(3) by fastforce
  let ?journal = "mark_progress i CommitPathRestored journal"
  have apart: "w_resolve w (je_Path e') \<noteq> w_resolve w (je_Path e) \<or> e' = entry_images e" if "e' \<in> set entries" for e'
    using Cons.prems(4) that mem by (auto simp: distinct_paths_def distinct_map inj_on_def)
  have "io_wp (recover_entry e) (\<lambda>r w'. is_done r \<and> w_io w' = [] \<and> w_plans w' = w_plans w \<and> w_resolve w' = w_resolve w \<and>
      (\<forall>e \<in> set entries. settled (w_resolve w') (w_files w') e)) w"
  proof (rule wp_mono [OF wp_conj [OF recover_entry_returns [OF Cons.prems(1) e] wp_recover_entry]], elim conjE, intro conjI)
    fix r :: "unit outcome" and w' assume "is_done r" "recovery_effect e w r w'"
    then have effect: "recovery_effect e w (Done ()) w'" by (auto elim: is_doneE)
    then show "w_resolve w' = w_resolve w" by (simp add: recovery_effect_def)
    show "\<forall>e \<in> set entries. settled (w_resolve w') (w_files w') e"
      using settled_recover [OF effect] Cons.prems(3) e apart by (auto simp: settled_def [of _ _ e])
  qed
  then show ?case unfolding recover_loop.simps e_def [symmetric]
  proof (rule wp_bind_try)
    fix x and w1 :: world assume "is_done (Done x :: unit outcome) \<and> w_io w1 = [] \<and> w_plans w1 = w_plans w \<and> w_resolve w1 = w_resolve w \<and>
      (\<forall>e \<in> set entries. settled (w_resolve w1) (w_files w1) e)"
    then have w1: "w_io w1 = []" "w_plans w1 = w_plans w" "w_resolve w1 = w_resolve w"
      "\<forall>e \<in> set entries. settled (w_resolve w1) (w_files w1) e" by auto
    show "io_wp (io_bind (io_try (persistCommitJournal key ?journal)) (\<lambda>persisted. case persisted of
        Inl e \<Rightarrow> recoveryConflict key ?journal e | Inr _ \<Rightarrow> recover_loop key rest ?journal))
      (\<lambda>r w'. is_done r \<and> w_io w' = [] \<and> w_plans w' = w_plans w) w1"
    proof (rule wp_bind_try [OF returns_recovery_persist [OF w1(1)]])
      fix y w2 assume "is_done (Done y :: unit outcome) \<and> w_io w2 = [] \<and> w_plans w2 = w_plans w1 \<and> tree_same w1 w2"
      then have w2: "w_io w2 = []" "w_plans w2 = w_plans w" "w_resolve w2 = w_resolve w" "w_files w2 = w_files w1"
        using w1 by (auto simp: tree_same_def)
      from Cons.IH [of w2 ?journal]
      show "io_wp (recover_loop key rest ?journal) (\<lambda>r w'. is_done r \<and> w_io w' = [] \<and> w_plans w' = w_plans w) w2"
        using Cons.prems(2,4,5) w1(3,4) w2 by simp
    qed simp_all
  qed simp_all
qed simp

lemma recoverCommitJournal_returns:
  assumes "w_io w = []" "images journal = entries" "\<forall>e \<in> set entries. settled (w_resolve w) (w_files w) e"
    and "distinct_paths (w_resolve w) entries" "validateRecoveryJournal (w_resolve w) journal = Ok ()"
    and "plan_loaded (cj_PlanID journal) w" "open_journal journal" "recovering base (w_resolve w) entries key w"
  shows "io_wp (recoverCommitJournal key journal) (\<lambda>r w'. is_done r) w"
proof -
  let ?order = "rev (commitEntryOrder (cj_Entries journal))"
  have order: "\<forall>i \<in> set ?order. i < length entries" using assms(2) by auto
  from wp_recover_loop [OF assms(8,2,7) order, of "{}"]
  have "io_wp (recover_loop key ?order journal) (\<lambda>r w'. \<forall>journal'. r = Done journal' \<longrightarrow> cj_PlanID journal' = cj_PlanID journal) w"
    by (rule wp_mono) simp_all
  note loop = wp_conj [OF recover_loop_returns [OF assms(1-4) order] this]
  have closes: "io_wp (close_recovered key journal') (\<lambda>r w'. is_done r) w1"
    if "w_io w1 = []" "w_plans w1 = w_plans w" "cj_PlanID journal' = cj_PlanID journal" for journal' w1
    unfolding close_recovered_def
    by (rule wp_bind_try [OF returns_recovery_persist [OF that(1)]])
      (use that assms(6) in \<open>auto simp: plan_loaded_def intro!: returns_markPlanRecovered\<close>)
  show ?thesis
    unfolding recoverCommitJournal_def wp_bind_get assms(5) sum.case
    by (rule wp_bindI [OF loop]) (auto intro!: closes)
qed

lemma validate_entries_resolves:
  "validate_entries resolve seen entries = Ok () \<Longrightarrow> e \<in> set entries \<Longrightarrow> \<exists>p. resolve (je_Path e) = Ok p"
  by (induction resolve seen entries rule: validate_entries.induct) (auto split: if_split_asm sum.split_asm)

context image_recheck
begin

lemma journaled_settled:
  assumes "journaled recheck base resolve entries key w" "distinct_paths resolve entries"
    and "e \<in> set entries" "honest_entry e" "resolve (je_Path e) = Ok p"
  shows "settled resolve (w_files w) e"
proof (cases "w_files w p = base p")
  case True
  have "pre_match base p e"
    using assms(1,3,5) by (auto simp: journaled_def explained_def intro: preimages_pre_match)
  then show ?thesis using True assms(4,5)
    by (auto simp: settled_def pre_match_def stateMatchesImage_def inspectPath_def)
next
  case False
  then obtain e' where e': "e' \<in> set entries" "resolve (je_Path e') = Ok p" "holds_post e' (w_files w p)"
    using assms(1) by (auto simp: journaled_def explained_def written_by_def)
  then have "e' = e" using assms(2,3,5) by (auto simp: distinct_paths_def distinct_map inj_on_def)
  then show ?thesis using e' assms(4,5) by (auto simp: settled_def honest_entry_def intro: honest_post_match)
qed

end

text \<open>
  C7. Recovery makes progress. When a commit was interrupted after it changed the tree and left its
  journal open, the restarted process finds the journal valid, its entries name distinct objects and
  their snapshots say what the writes produce, and nothing fails any more, then recovery does
  return, and every path is again the object it was before the commit.
\<close>

theorem recovery_returns:
  assumes "map_of (w_plans w) planID = Some plan"
    and "CommitPlan hashBytes buildPreview accepted (Some stager) planID expected preparedRevision w = (r, w1)"
    and "w_files w1 \<noteq> w_files w" "journaled_open (pr_PlanID plan) w1" "canonical_same w1 w2" "w_io w2 = []"
    and "map_of (w_commitJournals w2) (pr_PlanID plan) = Some journal"
    and "validateRecoveryJournal (w_resolve w2) journal = Ok ()" "distinct_paths (w_resolve w2) (cj_Entries journal)"
    and "\<forall>e \<in> set (cj_Entries journal). honest_entry e" "plan_loaded (cj_PlanID journal) w2"
  shows "\<exists>w3. recoverCommitJournal (pr_PlanID plan) journal w2 = (Done (), w3) \<and> (\<forall>p. same_object (w_files w3 p) (w_files w p))"
proof -
  let ?entries = "write_set stager (w_files w) (w_resolve w) plan"
  have "journaled recheckCommitEntry (w_files w) (w_resolve w) ?entries (pr_PlanID plan) w1"
    using wp_result [OF wp_CommitPlan [OF assms(1)] assms(2)] assms(3,4)
    by (auto simp: commit_safe_def sealed_def journaled_open_def open_journal_def split: option.split_asm)
  then have w2: "journaled recheckCommitEntry (w_files w) (w_resolve w) ?entries (pr_PlanID plan) w2"
    using assms(5) by (rule journaled_canon)
  then have resolve: "w_resolve w2 = w_resolve w" and images: "images journal = ?entries" and opened: "open_journal journal"
    using assms(7) by (auto simp: journaled_def explained_def open_journal_def)
  have paths: "distinct_paths (w_resolve w2) ?entries"
    using assms(9) unfolding images [symmetric] by (simp add: distinct_paths_def images_def comp_def)
  have settled: "\<forall>e \<in> set ?entries. settled (w_resolve w2) (w_files w2) e"
  proof
    fix e assume e: "e \<in> set ?entries"
    then obtain e0 where e0: "e0 \<in> set (cj_Entries journal)" "e = entry_images e0"
      using images unfolding images_def by (metis (no_types, lifting) imageE list.set_map)
    then have "honest_entry e" using assms(10) by (simp add: honest_entry_def)
    moreover obtain p where "w_resolve w2 (je_Path e) = Ok p"
      using validate_entries_resolves [OF assms(8) [unfolded validateRecoveryJournal_def] e0(1)] e0(2) by auto
    ultimately show "settled (w_resolve w2) (w_files w2) e"
      using commit_recheck.journaled_settled [OF w2] paths e resolve by simp
  qed
  have recovering: "recovering (w_files w) (w_resolve w2) ?entries (pr_PlanID plan) w2"
    using commit_recheck.journaled_recovering [OF w2] resolve by simp
  from wp_conj [OF wp_recoverCommitJournal [OF recovering images opened]
      recoverCommitJournal_returns [OF assms(6) images settled paths assms(8,11) opened recovering]]
  have "io_wp (recoverCommitJournal (pr_PlanID plan) journal) (\<lambda>r w3. r = Done () \<and> (\<forall>p. same_object (w_files w3 p) (w_files w p))) w2"
    by (rule wp_mono) (auto simp: recovered_def elim!: is_doneE)
  then show ?thesis by (cases "recoverCommitJournal (pr_PlanID plan) journal w2") (auto simp: io_wp_def)
qed

theorem recovery_returns_witness:
  "\<exists>journal w3. map_of (w_commitJournals sample_restarted) ''plan_1'' = Some journal \<and>
     w_files sample_restarted ''/r/a'' \<noteq> None \<and>
     recoverCommitJournal ''plan_1'' journal sample_restarted = (Done (), w3) \<and> w_files w3 ''/r/a'' = None"
proof -
  let ?script = "replicate 17 IOk @ [ICrash]"
  have facts: "w_files sample_crashed ''/r/a'' \<noteq> None \<and>
    (case map_of (w_commitJournals sample_restarted) ''plan_1'' of
       None \<Rightarrow> False
     | Some journal \<Rightarrow> open_journal journal \<and> validateRecoveryJournal (w_resolve sample_restarted) journal = Ok () \<and>
         distinct_paths (w_resolve sample_restarted) (cj_Entries journal) \<and> list_all honest_entry (cj_Entries journal) \<and>
         plan_loaded (cj_PlanID journal) sample_restarted)"
    by code_simp
  then obtain journal where journal: "map_of (w_commitJournals sample_restarted) (pr_PlanID sample_ready) = Some journal"
    "open_journal journal" "validateRecoveryJournal (w_resolve sample_restarted) journal = Ok ()"
    "distinct_paths (w_resolve sample_restarted) (cj_Entries journal)" "\<forall>e \<in> set (cj_Entries journal). honest_entry e"
    "plan_loaded (cj_PlanID journal) sample_restarted"
    by (auto simp: list_all_iff split: option.split_asm)
  have run: "sample_commit ?script = (fst (sample_commit ?script), sample_crashed)" by (simp add: sample_crashed_def)
  have restarted: "canonical_same sample_crashed sample_restarted" "w_io sample_restarted = []"
    by (simp_all add: sample_restarted_def canonical_same_def)
  have opened: "journaled_open (pr_PlanID sample_ready) sample_crashed"
    using journal by (simp add: journaled_open_def sample_restarted_def)
  have "w_files sample_crashed \<noteq> w_files (sample_start ?script)" using facts by auto
  from recovery_returns [OF sample_start_fields(1) run [unfolded sample_commit_def] this opened restarted journal(1,3-6)]
  obtain w3 where w3: "recoverCommitJournal ''plan_1'' journal sample_restarted = (Done (), w3)" "same_object (w_files w3 ''/r/a'') None"
    by auto
  then have "w_files w3 ''/r/a'' = None" by (cases "w_files w3 ''/r/a''") auto
  then show ?thesis using facts journal(1) w3(1) by (auto simp: sample_restarted_def)
qed

section \<open>A snapshot recovery cannot match\<close>

text \<open>
  C38. A new file is recorded as text whatever its bytes are. When they hold a NUL byte or are not
  UTF-8, the written file is inspected as binary, so once such a write has happened and its commit
  was interrupted, recovering the entry fails although nothing else touched the path.
\<close>

theorem mislabelled_postimage_blocks_recovery:
  assumes "content_kind (sf_After f) = ObjectBinary" "w_io w = []" "w_resolve w (sf_Path f) = Ok p"
    and "sf_BeforeDisk f = missing_snapshot" "w_files w p = Some (FileNode (sf_After f) meta)"
  shows "recover_entry (journal_entry (created_file f)) w =
    (Fail (PlainError ''matches neither journal preimage nor postimage''), w)"
  using assms
  by (simp add: recover_entry_def restore_entry_def image_check_def journal_entry_def created_file_def stateMatchesImage_def
      inspectPath_def missing_snapshot_def diskSnapshot_def io_defs)

definition sample_binary :: PlanStageFile where
  "sample_binary = \<lparr> sf_Path = ''/r/a'', sf_Before = [], sf_After = [char_of (0 :: nat)], sf_BeforeExists = False,
     sf_AfterExists = True, sf_BeforeDisk = missing_snapshot, sf_AfterDisk = missing_snapshot, sf_Patch = [] \<rparr>"

definition sample_binary_world :: world where
  "sample_binary_world = snd (applyCommitEntry ''/r/a'' (journal_entry (created_file sample_binary)) (sample_world [] [] []))"

theorem mislabelled_postimage_blocks_recovery_witness:
  "recover_entry (journal_entry (created_file sample_binary)) sample_binary_world =
    (Fail (PlainError ''matches neither journal preimage nor postimage''), sample_binary_world)"
proof -
  have "content_kind (sf_After sample_binary) = ObjectBinary \<and> w_io sample_binary_world = [] \<and>
    w_resolve sample_binary_world (sf_Path sample_binary) = Ok ''/r/a'' \<and> sf_BeforeDisk sample_binary = missing_snapshot \<and>
    w_files sample_binary_world ''/r/a'' = Some (FileNode (sf_After sample_binary)
      \<lparr> nm_Device = 1, nm_Inode = 7, nm_MTimeNS = 10, nm_Mode = 0x1A4 \<rparr>)"
    by code_simp
  then show ?thesis by (elim conjE) (rule mislabelled_postimage_blocks_recovery)
qed

end
