(* ===== verification/Paths.thy ===== *)
theory Paths
  imports World "HOL-Library.Sublist"
begin

text \<open>
  Confining a path to the workspace (\<open>confinedPath\<close>, \<open>parentChainStaysInside\<close> of
  \<^verbatim>\<open>internal/workspace/workspace.go\<close>, \<open>insidePath\<close> of \<^verbatim>\<open>sandbox.go\<close>, \<open>displayPath\<close>, \<open>workspaceRoot\<close>,
  \<open>allowlistedPath\<close> and \<open>commonRoot\<close> of \<^verbatim>\<open>text.go\<close>), over the parts of \<^verbatim>\<open>path/filepath\<close> they use. A tree is
  keyed by the real paths of its objects: a path with no symbolic link among its directories.
\<close>

section \<open>Lexical paths\<close>

abbreviation slash :: char where
  "slash \<equiv> CHR ''/''"

fun split_path :: "string \<Rightarrow> string list" where
  "split_path [] = [[]]"
| "split_path (c # rest) =
     (if c = slash then [] # split_path rest
      else (case split_path rest of [] \<Rightarrow> [[c]] | part # parts \<Rightarrow> (c # part) # parts))"

fun join_path :: "string list \<Rightarrow> string" where
  "join_path [] = []"
| "join_path [part] = part"
| "join_path (part # parts) = part @ slash # join_path parts"

definition IsAbs :: "string \<Rightarrow> bool" where
  "IsAbs path = (path \<noteq> [] \<and> hd path = slash)"

text \<open>The elements \<open>filepath.Clean\<close> keeps: dots go, a parent removes what is before it.\<close>

fun clean_parts :: "bool \<Rightarrow> string list \<Rightarrow> string list \<Rightarrow> string list" where
  "clean_parts rooted kept [] = kept"
| "clean_parts rooted kept (part # parts) =
     (if part = [] \<or> part = ''.'' then clean_parts rooted kept parts
      else if part = ''..'' then
        (if kept \<noteq> [] \<and> last kept \<noteq> ''..'' then clean_parts rooted (butlast kept) parts
         else if rooted then clean_parts rooted kept parts
         else clean_parts rooted (kept @ [part]) parts)
      else clean_parts rooted (kept @ [part]) parts)"

definition path_parts :: "string \<Rightarrow> string list" where
  "path_parts path = clean_parts (IsAbs path) [] (split_path path)"

definition rooted_path :: "string list \<Rightarrow> string" where
  "rooted_path parts = slash # join_path parts"

definition Clean :: "string \<Rightarrow> string" where
  "Clean path =
     (let parts = path_parts path
      in if IsAbs path then rooted_path parts else if parts = [] then ''.'' else join_path parts)"

text \<open>\<open>filepath.Join\<close> of two elements, and \<open>filepath.Dir\<close>.\<close>

definition Join :: "string \<Rightarrow> string \<Rightarrow> string" where
  "Join a b = (if a = [] then if b = [] then [] else Clean b else if b = [] then Clean a else Clean (a @ slash # b))"

definition Dir :: "string \<Rightarrow> string" where
  "Dir path = Clean (rev (dropWhile (\<lambda>c. c \<noteq> slash) (rev path)))"

text \<open>\<open>filepath.Rel\<close>: up from the base for every element the target does not share, then down.\<close>

fun strip_common :: "string list \<Rightarrow> string list \<Rightarrow> string list \<times> string list" where
  "strip_common (b # base) (t # target) = (if b = t then strip_common base target else (b # base, t # target))"
| "strip_common base target = (base, target)"

definition Rel :: "string \<Rightarrow> string \<Rightarrow> string result" where
  "Rel basepath targpath =
     (if Clean basepath = Clean targpath then Ok ''.''
      else if IsAbs (Clean basepath) \<noteq> IsAbs (Clean targpath) then Error (PlainError ''can't make path relative'')
      else
        let (base, target) = strip_common (path_parts basepath) (path_parts targpath)
        in if ''..'' \<in> set (take 1 base) then Error (PlainError ''can't make path relative'')
           else Ok (join_path (replicate (length base) ''..'' @ target)))"

definition leaves_root :: "string \<Rightarrow> bool" where
  "leaves_root rel = (rel = ''..'' \<or> HasPrefix rel ''../'')"

definition insidePath :: "string \<Rightarrow> string \<Rightarrow> bool" where
  "insidePath root path = (case Rel root path of Inl _ \<Rightarrow> False | Inr relative \<Rightarrow> \<not> leaves_root relative)"

definition displayPath :: "string \<Rightarrow> string \<Rightarrow> string" where
  "displayPath root path =
     (case Rel root path of
        Inl _ \<Rightarrow> path
      | Inr relative \<Rightarrow> if relative \<noteq> ''.'' \<and> \<not> leaves_root relative then relative else path)"

section \<open>Symbolic links\<close>

fun is_link :: "fs_node \<Rightarrow> bool" where
  "is_link (LinkNode _ _) = True"
| "is_link _ = False"

text \<open>
  \<open>filepath.EvalSymlinks\<close> of an absolute path: \<open>here\<close> is the real directory reached, \<open>links\<close> how many
  links may still be followed.
\<close>

function walk_links :: "tree \<Rightarrow> nat \<Rightarrow> string list \<Rightarrow> string list \<Rightarrow> string list result" where
  "walk_links files links here [] = Ok here"
| "walk_links files links here (part # parts) =
     (if part = [] \<or> part = ''.'' then walk_links files links here parts
      else if part = ''..'' then walk_links files links (butlast here) parts
      else
        (case files (rooted_path (here @ [part])) of
           None \<Rightarrow> Error (PlainError ''no such file or directory'')
         | Some (LinkNode target _) \<Rightarrow>
             (case links of
                0 \<Rightarrow> Error (PlainError ''EvalSymlinks: too many links'')
              | Suc left \<Rightarrow> walk_links files left (if IsAbs target then [] else here) (split_path target @ parts))
         | Some (DirNode _) \<Rightarrow> walk_links files links (here @ [part]) parts
         | Some _ \<Rightarrow> if parts \<noteq> [] then Error (PlainError ''not a directory'') else Ok (here @ [part])))"
  by pat_completeness auto
termination
  by (relation "measures [\<lambda>(_, links, _, _). links, \<lambda>(_, _, _, parts). length parts]") auto

declare walk_links.simps(2) [simp del]

definition maxLinks :: nat where
  "maxLinks = 255"

definition EvalSymlinks :: "tree \<Rightarrow> string \<Rightarrow> string result" where
  "EvalSymlinks files path = (case walk_links files maxLinks [] (split_path path) of Inl e \<Rightarrow> Error e | Inr real \<Rightarrow> Ok (rooted_path real))"

section \<open>Confinement\<close>

text \<open>\<open>os.Lstat\<close> of a name that is not there: an error that is not \<open>ErrNotExist\<close> when its parent is no directory.\<close>

fun lstat_missing :: "fs_node option \<Rightarrow> unit result" where
  "lstat_missing (Some (FileNode _ _)) = Error (PlainError ''not a directory'')"
| "lstat_missing (Some (OtherNode _)) = Error (PlainError ''not a directory'')"
| "lstat_missing _ = Ok ()"

fun stays_inside :: "tree \<Rightarrow> string \<Rightarrow> string \<Rightarrow> string \<Rightarrow> string list \<Rightarrow> unit result" where
  "stays_inside files root absolute current [] = Ok ()"
| "stays_inside files root absolute current (part # parts) =
     (let next_path = Join current part
      in case files next_path of
           None \<Rightarrow> lstat_missing (files current)
         | Some node \<Rightarrow>
             if \<not> is_link node then stays_inside files root absolute next_path parts
             else
               (case EvalSymlinks files next_path of
                  Inl e \<Rightarrow> Error (WrappedError ''passes through unresolvable symlink'' e)
                | Inr resolved \<Rightarrow>
                    if \<not> insidePath root resolved then Error (SymlinkEscapeError absolute next_path root)
                    else stays_inside files root absolute resolved parts))"

definition parentChainStaysInside :: "tree \<Rightarrow> string \<Rightarrow> string \<Rightarrow> string \<Rightarrow> unit result" where
  "parentChainStaysInside files root absolute rel =
     (if rel = ''.'' then Ok () else stays_inside files root absolute root (butlast (split_path rel)))"

definition absolute_path :: "string \<Rightarrow> string \<Rightarrow> string" where
  "absolute_path root path = Clean (if IsAbs path then path else Join root path)"

definition confinedPath :: "tree \<Rightarrow> Identity \<Rightarrow> string list \<Rightarrow> string \<Rightarrow> string result" where
  "confinedPath files identity allowlist path =
     (if path = [] then Error (PlainError ''document path is required'')
      else
        let root = id_Root identity;
            absolute = absolute_path root path
        in case Rel root absolute of
             Inl e \<Rightarrow> Error e
           | Inr rel \<Rightarrow>
               if leaves_root rel then Error (PlainError ''document is outside workspace root'')
               else
                 (case parentChainStaysInside files root absolute rel of
                    Inl e \<Rightarrow> Error e
                  | Inr _ \<Rightarrow>
                      if id_Kind identity = KindDocuments \<and> absolute \<notin> set allowlist
                      then Error (PlainError ''document is not in the workspace allowlist'')
                      else Ok absolute))"

section \<open>The root of a workspace\<close>

text \<open>\<open>filepath.Abs\<close> in a working directory.\<close>

definition Abs :: "string \<Rightarrow> string \<Rightarrow> string" where
  "Abs cwd path = (if IsAbs path then Clean path else Join cwd path)"

definition allowlistedPath :: "string \<Rightarrow> string \<Rightarrow> string \<Rightarrow> string result" where
  "allowlistedPath cwd root name =
     (let absolute = Clean (Abs cwd (if IsAbs name then name else Join root name))
      in case Rel root absolute of
           Inl _ \<Rightarrow> Error (PlainError ''allowlisted document is outside workspace root'')
         | Inr rel \<Rightarrow> if leaves_root rel then Error (PlainError ''allowlisted document is outside workspace root'') else Ok absolute)"

text \<open>The loop of \<open>commonRoot\<close> walks up one directory at a time; the root directory is its own parent.\<close>

function raise_root :: "string list \<Rightarrow> string \<Rightarrow> string result" where
  "raise_root root absolute =
     (if insidePath (rooted_path root) absolute then Ok (rooted_path root)
      else if root = [] then Error (PlainError ''documents do not share a filesystem root'')
      else raise_root (butlast root) absolute)"
  by pat_completeness auto
termination
  by (relation "measure (\<lambda>(root, _). length root)") auto

declare raise_root.simps [simp del]

fun common_root :: "string \<Rightarrow> string \<Rightarrow> string list \<Rightarrow> string result" where
  "common_root cwd root [] = Ok root"
| "common_root cwd root (name # names) =
     (case raise_root (path_parts root) (Abs cwd name) of
        Inl e \<Rightarrow> Error e
      | Inr raised \<Rightarrow> common_root cwd raised names)"

definition commonRoot :: "string \<Rightarrow> string list \<Rightarrow> string result" where
  "commonRoot cwd names =
     (case names of
        [] \<Rightarrow> Error (PlainError ''index out of range'')
      | first # rest \<Rightarrow> common_root cwd (Dir (Abs cwd first)) rest)"

definition chosen_root :: "string \<Rightarrow> Kind \<Rightarrow> string \<Rightarrow> string list \<Rightarrow> string result" where
  "chosen_root cwd kind root names =
     (if root = [] \<and> kind = KindDocuments then commonRoot cwd names
      else if root = [] then Error (PlainError ''workspace root is required'') else Ok root)"

definition workspaceRoot :: "tree \<Rightarrow> string \<Rightarrow> Kind \<Rightarrow> string \<Rightarrow> string list \<Rightarrow> string result" where
  "workspaceRoot files cwd kind root names =
     (case kind of
        KindOther _ \<Rightarrow> Error (PlainError ''unknown workspace kind'')
      | _ \<Rightarrow>
          if kind = KindDocuments \<and> names = [] then Error (PlainError ''document workspace requires at least one allowlisted file'')
          else
            (case chosen_root cwd kind root names of
               Inl e \<Rightarrow> Error e
             | Inr root \<Rightarrow>
                 (case EvalSymlinks files (Abs cwd root) of
                    Inl _ \<Rightarrow> Ok (Abs cwd root)
                  | Inr resolved \<Rightarrow> Ok resolved)))"

end
