(* ===== verification/Native_Journal.thy ===== *)
theory Native_Journal
  imports Paths
begin

text \<open>
  Native edits under a write-ahead journal (\<open>mutateFile\<close> of \<^verbatim>\<open>internal/workspace/text.go\<close>) and the
  recovery of what a killed process left (\<^verbatim>\<open>native_recovery.go\<close>). A journal is a file of the
  state directory of its own; the model gives it a number for its random name.
\<close>

section \<open>States of a path\<close>

definition regularFile :: "DiskSnapshot \<Rightarrow> bool" where
  "regularFile disk = (ds_Kind disk = ObjectRegularText \<or> ds_Kind disk = ObjectBinary)"

definition ensureCurrent :: "tree \<Rightarrow> string \<Rightarrow> bool \<Rightarrow> bytes \<Rightarrow> unit result" where
  "ensureCurrent files path expectedExists expected =
     (case inspectPath files path of
        Inl e \<Rightarrow> Error e
      | Inr (disk, content) \<Rightarrow>
          let exists = (ds_Kind disk \<noteq> ObjectMissing)
          in if exists \<noteq> expectedExists \<or> exists \<and> (\<not> regularFile disk \<or> content \<noteq> expected)
             then Error (PlainError ''commit precondition changed'') else Ok ())"

definition stateMatches :: "tree \<Rightarrow> string \<Rightarrow> bool \<Rightarrow> bytes \<Rightarrow> bool" where
  "stateMatches files path exists content =
     (case inspectPath files path of
        Inl _ \<Rightarrow> False
      | Inr (disk, current) \<Rightarrow>
          if (ds_Kind disk \<noteq> ObjectMissing) \<noteq> exists then False
          else \<not> exists \<or> regularFile disk \<and> current = content)"

section \<open>The journaled edit\<close>

text \<open>\<open>fmt.Errorf\<close> around a call.\<close>

definition io_wrap :: "string \<Rightarrow> 'a io \<Rightarrow> 'a io" where
  "io_wrap message m w = (case m w of (Fail e, w') \<Rightarrow> (Fail (WrappedError message e), w') | r \<Rightarrow> r)"

definition fresh_journal :: "(nat \<times> native_journal) list \<Rightarrow> nat" where
  "fresh_journal journals = Suc (foldr max (map fst journals) 0)"

definition create_journal :: "nat io" where
  "create_journal =
     io_bind io_call (\<lambda>_. io_bind (io_get (\<lambda>w. fresh_journal (w_native w))) (\<lambda>name.
     io_bind (io_update (\<lambda>w. w\<lparr> w_native := AList.update name PartialJournal (w_native w) \<rparr>)) (\<lambda>_. io_return name)))"

definition write_journal :: "nat \<Rightarrow> journalRecord \<Rightarrow> unit io" where
  "write_journal name record =
     io_bind io_call (\<lambda>_. io_update (\<lambda>w. w\<lparr> w_native := AList.update name (CompleteJournal record) (w_native w) \<rparr>))"

text \<open>Removing a journal that is gone already is an error, which every caller that can meet it ignores.\<close>

definition remove_native :: "nat \<Rightarrow> unit io" where
  "remove_native name = io_bind io_call (\<lambda>_. io_update (\<lambda>w. w\<lparr> w_native := AList.delete name (w_native w) \<rparr>))"

definition cleanup_journal :: "nat \<Rightarrow> unit io" where
  "cleanup_journal name = io_bind (io_try (remove_native name)) (\<lambda>_. io_return ())"

definition native_write :: "string \<Rightarrow> bool \<Rightarrow> bytes \<Rightarrow> u32 \<Rightarrow> unit io" where
  "native_write path postExists postimage mode =
     (if postExists then io_bind MkdirAll (\<lambda>_. atomicWriteFile path postimage mode)
      else io_bind (os_Remove path) (\<lambda>existed.
             if \<not> existed then io_throw (PlainError ''file does not exist'') else syncDirectory))"

definition mutate_target :: "nat \<Rightarrow> journalRecord \<Rightarrow> unit io" where
  "mutate_target name record =
     io_bind (io_get (\<lambda>w. ensureCurrent (w_files w) (jr_Path record) (jr_PreExists record) (jr_Preimage record))) (\<lambda>current.
       case current of
         Inl e \<Rightarrow> io_bind (cleanup_journal name) (\<lambda>_. io_throw e)
       | Inr _ \<Rightarrow>
           io_bind (io_try (native_write (jr_Path record) (jr_PostExists record) (jr_Postimage record) (jr_Mode record))) (\<lambda>written.
             case written of
               Inl e \<Rightarrow>
                 io_bind (io_get (\<lambda>w. stateMatches (w_files w) (jr_Path record) (jr_PreExists record) (jr_Preimage record))) (\<lambda>unchanged.
                 io_bind (if unchanged then cleanup_journal name else io_return ()) (\<lambda>_. io_throw e))
             | Inr _ \<Rightarrow>
                 io_bind (io_wrap ''remove completed recovery journal'' (remove_native name)) (\<lambda>_.
                 io_bind (io_try syncDirectory) (\<lambda>synced.
                 io_bind (cleanup_journal name) (\<lambda>_. io_lift synced)))))"

definition mutateFile :: "string \<Rightarrow> bool \<Rightarrow> bytes \<Rightarrow> bool \<Rightarrow> bytes \<Rightarrow> u32 \<Rightarrow> unit io" where
  "mutateFile path preExists preimage postExists postimage mode =
     (let record = \<lparr> jr_Version = 1, jr_Path = path, jr_Mode = mode, jr_PreExists = preExists, jr_PostExists = postExists,
            jr_Preimage = preimage, jr_Postimage = postimage \<rparr>
      in io_bind (io_wrap ''create recovery state'' MkdirAll) (\<lambda>_.
         io_bind (io_wrap ''create recovery journal'' create_journal) (\<lambda>name.
         io_bind io_call (\<lambda>_.
         io_bind (write_journal name record) (\<lambda>_.
         io_bind io_call (\<lambda>_.
         io_bind io_call (\<lambda>_.
         mutate_target name record)))))))"

section \<open>Recovery\<close>

record RecoveryResult =
  rr_Recovered :: "string list"
  rr_Cleared :: "string list"
  rr_Conflicts :: "string list"
  rr_Discarded :: "nat list"

definition no_recovery :: RecoveryResult where
  "no_recovery = \<lparr> rr_Recovered = [], rr_Cleared = [], rr_Conflicts = [], rr_Discarded = [] \<rparr>"

text \<open>The workspaces that may confine a path are their \<open>confinedPath\<close> functions.\<close>

fun nativeJournalTarget :: "string \<Rightarrow> (string \<Rightarrow> string result) list \<Rightarrow> string \<times> bool" where
  "nativeJournalTarget path [] = (Clean path, False)"
| "nativeJournalTarget path (confined # rest) =
     (case confined path of Inr target \<Rightarrow> (target, True) | Inl _ \<Rightarrow> nativeJournalTarget path rest)"

definition restore_target :: "journalRecord \<Rightarrow> string \<Rightarrow> unit io" where
  "restore_target record target =
     (if jr_PreExists record then atomicWriteFile target (jr_Preimage record) (jr_Mode record)
      else io_bind (os_Remove target) (\<lambda>_. syncDirectory))"

definition recoverNativeJournal ::
  "(string \<Rightarrow> (string \<Rightarrow> string result) list) \<Rightarrow> nat \<Rightarrow> RecoveryResult \<Rightarrow> RecoveryResult io" where
  "recoverNativeJournal candidates name result =
     io_bind io_call (\<lambda>_. io_bind (io_get (\<lambda>w. map_of (w_native w) name)) (\<lambda>found.
       case found of
         None \<Rightarrow> io_throw (PlainError ''file does not exist'')
       | Some PartialJournal \<Rightarrow>
           io_bind (remove_native name) (\<lambda>_. io_return (result\<lparr> rr_Discarded := rr_Discarded result @ [name] \<rparr>))
       | Some (CompleteJournal record) \<Rightarrow>
           if jr_Version record \<noteq> 1 then io_throw (PlainError ''unsupported version'')
           else if \<not> IsAbs (jr_Path record) then io_throw (PlainError ''invalid payload'')
           else
             let (target, owned) = nativeJournalTarget (jr_Path record) (candidates (jr_Path record))
             in io_bind (io_get w_files) (\<lambda>files.
                if stateMatches files target (jr_PreExists record) (jr_Preimage record)
                then io_bind (remove_native name) (\<lambda>_. io_return (result\<lparr> rr_Cleared := rr_Cleared result @ [target] \<rparr>))
                else if \<not> owned \<or> \<not> stateMatches files target (jr_PostExists record) (jr_Postimage record)
                then io_return (result\<lparr> rr_Conflicts := rr_Conflicts result @ [target] \<rparr>)
                else
                  io_bind (restore_target record target) (\<lambda>_.
                  io_bind (remove_native name) (\<lambda>_.
                  io_return (result\<lparr> rr_Recovered := rr_Recovered result @ [target] \<rparr>))))))"

fun recover_native_loop ::
  "(string \<Rightarrow> (string \<Rightarrow> string result) list) \<Rightarrow> nat list \<Rightarrow> RecoveryResult \<Rightarrow> go_error list \<Rightarrow> (RecoveryResult \<times> go_error list) io" where
  "recover_native_loop candidates [] result failures = io_return (result, failures)"
| "recover_native_loop candidates (name # names) result failures =
     io_bind (io_try (recoverNativeJournal candidates name result)) (\<lambda>r.
       case r of
         Inl e \<Rightarrow> recover_native_loop candidates names result (failures @ [WrappedError ''recovery journal'' e])
       | Inr result' \<Rightarrow> recover_native_loop candidates names result' failures)"

definition sort_result :: "RecoveryResult \<Rightarrow> RecoveryResult" where
  "sort_result result = \<lparr> rr_Recovered = sort (rr_Recovered result), rr_Cleared = sort (rr_Cleared result),
     rr_Conflicts = sort (rr_Conflicts result), rr_Discarded = sort (rr_Discarded result) \<rparr>"

text \<open>The error of the code joins the failures of the journals; here it is their list.\<close>

definition RecoverNativeJournalsFor ::
  "(string \<Rightarrow> (string \<Rightarrow> string result) list) \<Rightarrow> (RecoveryResult \<times> go_error list) io" where
  "RecoverNativeJournalsFor candidates =
     io_bind (io_get w_stateDir) (\<lambda>has_state.
       if \<not> has_state then io_throw (PlainError ''native mutation recovery state directory is required'')
       else
         io_bind io_call (\<lambda>_. io_bind (io_get (\<lambda>w. map fst (w_native w))) (\<lambda>names.
         io_bind (recover_native_loop candidates names no_recovery []) (\<lambda>(result, failures).
         io_return (sort_result result, failures)))))"

definition RecoverNativeJournals :: "(string \<Rightarrow> string result) list \<Rightarrow> (RecoveryResult \<times> go_error list) io" where
  "RecoverNativeJournals workspaces = RecoverNativeJournalsFor (\<lambda>_. workspaces)"

text \<open>\<open>Workspace.Recover\<close>.\<close>

definition Recover :: "(RecoveryResult \<times> go_error list) io" where
  "Recover = io_bind (io_get w_resolve) (\<lambda>confined. RecoverNativeJournals [confined])"

end
