(* ===== verification/Documents.thy ===== *)
theory Documents
  imports World
begin

text \<open>
  Observing documents (\<^verbatim>\<open>internal/workspace/workspace.go\<close>, \<^verbatim>\<open>revision_budget.go\<close>,
  \<^verbatim>\<open>observed_changes.go\<close>): snapshots and their revision tokens, the bounded history of superseded
  revisions, the log of observed changes, and \<open>ValidateMutation\<close>, the optimistic-concurrency guard
  in front of every native edit and every plan operation.

  \<open>doc_state\<close> is the part of \<open>Workspace\<close> under the lock \<open>mu\<close>. A snapshot inspects the disk outside the
  lock and publishes under it; here it is one step on the tree it inspected. SHA-256 and the JSON
  encodings that feed it are parameters; what is proved of them assumes that they do not collide.
  Whether the diagnostic ledger accepts a content change is the parameter \<open>note\<close>.
\<close>

section \<open>Snapshots\<close>

record ProviderLayer =
  pl_ChangedTick :: u64
  pl_Dirty :: bool
  pl_LSPVersions :: "(string \<times> int) list"
  pl_Content :: "bytes option"

record DocumentSnapshot =
  dn_Workspace :: Identity
  dn_URI :: string
  dn_Revision :: string
  dn_ContentSHA256 :: string
  dn_Disk :: DiskSnapshot
  dn_ChangedTick :: u64
  dn_Dirty :: bool
  dn_LSPVersions :: "(string \<times> int) list"

record contentIdentity =
  ci_Kind :: ObjectKind
  ci_Mode :: u32
  ci_SymlinkTarget :: string

definition contentIdentityOf :: "DiskSnapshot \<Rightarrow> contentIdentity" where
  "contentIdentityOf disk = \<lparr> ci_Kind = ds_Kind disk, ci_Mode = ds_Mode disk, ci_SymlinkTarget = ds_SymlinkTarget disk \<rparr>"

record signature_fields =
  sg_Object :: contentIdentity
  sg_ContentSHA256 :: string
  sg_ChangedTick :: u64
  sg_Dirty :: bool
  sg_LSPVersions :: "(string \<times> int) list"

record revision_fields =
  rf_WorkspaceID :: string
  rf_Epoch :: u64
  rf_URI :: string
  rf_Object :: contentIdentity
  rf_ContentSHA256 :: string
  rf_ChangedTick :: u64
  rf_Dirty :: bool
  rf_LSPVersions :: "(string \<times> int) list"

text \<open>The hash and the JSON encodings of the two structures it is applied to.\<close>

record digests =
  dg_hash :: "bytes \<Rightarrow> string"
  dg_signature :: "signature_fields \<Rightarrow> bytes"
  dg_revision :: "revision_fields \<Rightarrow> bytes"

definition no_layer :: ProviderLayer where
  "no_layer = \<lparr> pl_ChangedTick = 0, pl_Dirty = False, pl_LSPVersions = [], pl_Content = None \<rparr>"

text \<open>\<open>append([]byte(nil), content...)\<close> of an empty slice is nil.\<close>

definition cloneLayer :: "ProviderLayer \<Rightarrow> ProviderLayer" where
  "cloneLayer layer = layer\<lparr> pl_Content := (if pl_Content layer = Some [] then None else pl_Content layer) \<rparr>"

definition documentSignature :: "digests \<Rightarrow> DiskSnapshot \<Rightarrow> ProviderLayer \<Rightarrow> string \<Rightarrow> string" where
  "documentSignature H disk layer contentHash =
     dg_hash H (dg_signature H \<lparr> sg_Object = contentIdentityOf disk, sg_ContentSHA256 = contentHash,
       sg_ChangedTick = pl_ChangedTick layer, sg_Dirty = pl_Dirty layer, sg_LSPVersions = pl_LSPVersions layer \<rparr>)"

definition revision_value :: "DocumentSnapshot \<Rightarrow> revision_fields" where
  "revision_value snapshot = \<lparr> rf_WorkspaceID = id_ID (dn_Workspace snapshot), rf_Epoch = id_Epoch (dn_Workspace snapshot),
     rf_URI = dn_URI snapshot, rf_Object = contentIdentityOf (dn_Disk snapshot), rf_ContentSHA256 = dn_ContentSHA256 snapshot,
     rf_ChangedTick = dn_ChangedTick snapshot, rf_Dirty = dn_Dirty snapshot, rf_LSPVersions = dn_LSPVersions snapshot \<rparr>"

definition revisionFor :: "digests \<Rightarrow> DocumentSnapshot \<Rightarrow> string" where
  "revisionFor H snapshot = ''docrev_'' @ dg_hash H (dg_revision H (revision_value snapshot))"

text \<open>\<open>url.URL\<close> of an absolute path: the bytes a path may hold unescaped, and percent escapes.\<close>

definition path_char :: "char \<Rightarrow> bool" where
  "path_char c = (let n = of_char c :: nat in
     48 \<le> n \<and> n \<le> 57 \<or> 65 \<le> n \<and> n \<le> 90 \<or> 97 \<le> n \<and> n \<le> 122 \<or> c \<in> set ''-_.~$&+,/:;=@'')"

definition hex_digit :: "nat \<Rightarrow> char" where
  "hex_digit n = ''0123456789ABCDEF'' ! n"

definition escape_char :: "char \<Rightarrow> string" where
  "escape_char c = (if path_char c then [c]
     else let n = of_char c :: nat in [CHR ''%'', hex_digit (n div 16), hex_digit (n mod 16)])"

definition file_uri :: "string \<Rightarrow> string" where
  "file_uri absolute = ''file://'' @ concat (map escape_char absolute)"

section \<open>The observed document state\<close>

record cachedDocument =
  cd_disk :: DiskSnapshot
  cd_layer :: ProviderLayer
  cd_contentHash :: string
  cd_signature :: string
  cd_revision :: string

record historicalRevision =
  hr_path :: string
  hr_id :: string
  hr_bytes :: int

text \<open>The index of a budget finds the element of its order that has an id; the model searches the order.\<close>

record revisionBudget =
  rb_limit :: int
  rb_bytes :: int
  rb_order :: "historicalRevision list"

datatype ObservedReason = ObservedDocument | ObservedInventory | ObservedProviderEpoch

record ObservedChange =
  oc_Seq :: u64
  oc_Reason :: ObservedReason
  oc_Path :: string
  oc_BeforeSHA256 :: string
  oc_AfterSHA256 :: string
  oc_Added :: "string list"
  oc_Removed :: "string list"
  oc_AddedOmitted :: nat
  oc_RemovedOmitted :: nat

record doc_state =
  dw_identity :: Identity
  dw_documents :: "(string \<times> cachedDocument) list"
  dw_revisions :: "string \<Rightarrow> DocumentSnapshot option"
  dw_history :: "string \<Rightarrow> string list"
  dw_historical :: revisionBudget
  dw_knownPaths :: "string list"
  dw_pathsPrimed :: bool
  dw_observed :: "ObservedChange list"

definition maxHistoricalRevisionBytes :: int where
  "maxHistoricalRevisionBytes = 16 * 1024 * 1024"

definition revisionRecordOverhead :: int where
  "revisionRecordOverhead = 384"

definition maxRevisionsPerDocument :: nat where
  "maxRevisionsPerDocument = 32"

definition maxObservedChanges :: nat where
  "maxObservedChanges = 4096"

definition observedSlack :: nat where
  "observedSlack = 512"

definition maxObservedPaths :: nat where
  "maxObservedPaths = 100"

definition new_documents :: "Identity \<Rightarrow> doc_state" where
  "new_documents identity = \<lparr> dw_identity = identity, dw_documents = [], dw_revisions = Map.empty, dw_history = (\<lambda>_. []),
     dw_historical = \<lparr> rb_limit = maxHistoricalRevisionBytes, rb_bytes = 0, rb_order = [] \<rparr>,
     dw_knownPaths = [], dw_pathsPrimed = False, dw_observed = [] \<rparr>"

section \<open>The revision budget\<close>

definition revisionRecordBytes :: "DocumentSnapshot \<Rightarrow> int" where
  "revisionRecordBytes snapshot = revisionRecordOverhead + int (length (dn_URI snapshot)) + int (length (dn_Revision snapshot)) +
     int (length (dn_ContentSHA256 snapshot)) + 48 * int (length (dn_LSPVersions snapshot))"

definition in_order :: "string \<Rightarrow> doc_state \<Rightarrow> bool" where
  "in_order rid w = (rid \<in> hr_id ` set (rb_order (dw_historical w)))"

definition retireRevisionLocked :: "string \<Rightarrow> string \<Rightarrow> doc_state \<Rightarrow> doc_state" where
  "retireRevisionLocked absolute rid w =
     (case dw_revisions w rid of
        None \<Rightarrow> w
      | Some snapshot \<Rightarrow>
          if in_order rid w then w
          else
            let entry = \<lparr> hr_path = absolute, hr_id = rid, hr_bytes = revisionRecordBytes snapshot \<rparr>;
                budget = dw_historical w
            in w\<lparr> dw_historical := budget\<lparr> rb_order := rb_order budget @ [entry], rb_bytes := rb_bytes budget + hr_bytes entry \<rparr> \<rparr>)"

definition reviveRevisionLocked :: "string \<Rightarrow> doc_state \<Rightarrow> doc_state" where
  "reviveRevisionLocked rid w =
     (let budget = dw_historical w
      in case find (\<lambda>entry. hr_id entry = rid) (rb_order budget) of
           None \<Rightarrow> w
         | Some entry \<Rightarrow>
             w\<lparr> dw_historical := budget\<lparr> rb_bytes := rb_bytes budget - hr_bytes entry,
                  rb_order := remove1 entry (rb_order budget) \<rparr> \<rparr>)"

definition evict_front :: "historicalRevision \<Rightarrow> doc_state \<Rightarrow> doc_state" where
  "evict_front entry w =
     (let budget = dw_historical w
      in w\<lparr> dw_historical := budget\<lparr> rb_order := tl (rb_order budget), rb_bytes := rb_bytes budget - hr_bytes entry \<rparr>,
           dw_revisions := (dw_revisions w)(hr_id entry := None),
           dw_history := (dw_history w)(hr_path entry := remove1 (hr_id entry) (dw_history w (hr_path entry))) \<rparr>)"

text \<open>A document without history has no entry in the map; the empty list stands for both.\<close>

function enforceRevisionBudgetLocked :: "doc_state \<Rightarrow> doc_state" where
  "enforceRevisionBudgetLocked w =
     (case rb_order (dw_historical w) of
        [] \<Rightarrow> w
      | entry # _ \<Rightarrow>
          if rb_bytes (dw_historical w) > rb_limit (dw_historical w)
          then enforceRevisionBudgetLocked (evict_front entry w) else w)"
  by pat_completeness auto
termination
  by (relation "measure (\<lambda>w. length (rb_order (dw_historical w)))") (auto simp: evict_front_def Let_def)

declare enforceRevisionBudgetLocked.simps [simp del]

fun prune_history :: "string list \<Rightarrow> doc_state \<Rightarrow> string list \<times> doc_state" where
  "prune_history [] w = ([], w)"
| "prune_history (rid # rest) w =
     (if length (rid # rest) > maxRevisionsPerDocument
      then prune_history rest ((reviveRevisionLocked rid w)\<lparr> dw_revisions := (dw_revisions w)(rid := None) \<rparr>)
      else (rid # rest, w))"

definition retire_current :: "string \<Rightarrow> string \<Rightarrow> doc_state \<Rightarrow> doc_state" where
  "retire_current absolute revision w =
     (let history = dw_history w absolute
      in if history \<noteq> [] \<and> last history \<noteq> revision then retireRevisionLocked absolute (last history) w else w)"

definition rememberRevisionLocked :: "string \<Rightarrow> DocumentSnapshot \<Rightarrow> doc_state \<Rightarrow> doc_state" where
  "rememberRevisionLocked absolute snapshot w =
     (let revision = dn_Revision snapshot;
          (history, w1) = prune_history (remove1 revision (dw_history w absolute) @ [revision])
             (reviveRevisionLocked revision (retire_current absolute revision w))
      in enforceRevisionBudgetLocked (w1\<lparr> dw_history := (dw_history w1)(absolute := history),
           dw_revisions := (dw_revisions w1)(revision \<mapsto> snapshot) \<rparr>))"

section \<open>The log of observed changes\<close>

definition observeLocked :: "ObservedChange \<Rightarrow> doc_state \<Rightarrow> doc_state" where
  "observeLocked change w =
     (let observed = dw_observed w @ [change\<lparr> oc_Seq := id_StateSeq (dw_identity w) \<rparr>]
      in w\<lparr> dw_observed := (if length observed > maxObservedChanges + observedSlack
                             then drop (length observed - maxObservedChanges) observed else observed) \<rparr>)"

definition ObservedChanges :: "doc_state \<Rightarrow> u64 \<Rightarrow> u64 \<Rightarrow> ObservedChange list" where
  "ObservedChanges w fromSeq toSeq = filter (\<lambda>change. oc_Seq change > fromSeq \<and> oc_Seq change \<le> toSeq) (dw_observed w)"

definition boundObservedPaths :: "string list \<Rightarrow> string list \<times> nat" where
  "boundObservedPaths paths =
     (if length paths \<le> maxObservedPaths then (paths, 0) else (take maxObservedPaths paths, length paths - maxObservedPaths))"

text \<open>
  \<open>observedPath\<close> of a path below the root is the path without the root and its separator; any other
  path keeps its absolute form, and the root itself is a dot.
\<close>

definition observedPath :: "doc_state \<Rightarrow> string \<Rightarrow> string" where
  "observedPath w absolute =
     (let root = id_Root (dw_identity w);
          below = (if root = ''/'' then root else root @ ''/'')
      in if absolute = root then ''.''
         else if take (length below) absolute = below then drop (length below) absolute
         else absolute)"

definition empty_change :: "ObservedReason \<Rightarrow> ObservedChange" where
  "empty_change reason = \<lparr> oc_Seq = 0, oc_Reason = reason, oc_Path = [], oc_BeforeSHA256 = [], oc_AfterSHA256 = [],
     oc_Added = [], oc_Removed = [], oc_AddedOmitted = 0, oc_RemovedOmitted = 0 \<rparr>"

definition observedInventory :: "doc_state \<Rightarrow> string list \<Rightarrow> string list \<Rightarrow> ObservedChange" where
  "observedInventory w previous current =
     (let (added, addedOmitted) = boundObservedPaths (sort (map (observedPath w) (filter (\<lambda>p. p \<notin> set previous) current)));
          (removed, removedOmitted) = boundObservedPaths (sort (map (observedPath w) (filter (\<lambda>p. p \<notin> set current) previous)))
      in (empty_change ObservedInventory)\<lparr> oc_Added := added, oc_AddedOmitted := addedOmitted,
           oc_Removed := removed, oc_RemovedOmitted := removedOmitted \<rparr>)"

definition next_seq :: "doc_state \<Rightarrow> doc_state" where
  "next_seq w = w\<lparr> dw_identity := (dw_identity w)\<lparr> id_StateSeq := id_StateSeq (dw_identity w) + 1 \<rparr> \<rparr>"

definition SyncProviderEpoch :: "u64 \<Rightarrow> doc_state \<Rightarrow> Identity \<times> doc_state" where
  "SyncProviderEpoch epoch w =
     (let w' = (if epoch \<noteq> id_Epoch (dw_identity w)
                then observeLocked (empty_change ObservedProviderEpoch)
                       (next_seq (w\<lparr> dw_identity := (dw_identity w)\<lparr> id_Epoch := epoch \<rparr> \<rparr>))
                else w)
      in (dw_identity w', w'))"

section \<open>Taking a snapshot\<close>

text \<open>What a snapshot reads: the confined path, the disk, the ledger's answer to a content change.\<close>

record doc_env =
  de_digests :: digests
  de_files :: tree
  de_resolve :: "string \<Rightarrow> string result"
  de_note :: "string \<Rightarrow> string \<Rightarrow> unit result"

definition content_hash :: "digests \<Rightarrow> ProviderLayer \<Rightarrow> DiskSnapshot \<Rightarrow> bytes \<Rightarrow> string" where
  "content_hash H layer disk content =
     (case pl_Content layer of
        Some bytes \<Rightarrow> dg_hash H bytes
      | None \<Rightarrow> if ds_Kind disk = ObjectMissing \<or> ds_Kind disk = ObjectDirectory then [] else dg_hash H content)"

definition observed_hash :: "digests \<Rightarrow> cachedDocument option \<Rightarrow> ProviderLayer \<Rightarrow> bool \<Rightarrow> DiskSnapshot \<Rightarrow> bytes \<Rightarrow> string" where
  "observed_hash H previous layer forceHash disk content =
     (case previous of
        Some document \<Rightarrow>
          if \<not> forceHash \<and> pl_Content layer = None \<and> cd_disk document = disk then cd_contentHash document
          else content_hash H layer disk content
      | None \<Rightarrow> content_hash H layer disk content)"

definition document_change :: "doc_state \<Rightarrow> string \<Rightarrow> string \<Rightarrow> string \<Rightarrow> ObservedChange" where
  "document_change w absolute before after =
     (empty_change ObservedDocument)\<lparr> oc_Path := observedPath w absolute, oc_BeforeSHA256 := before, oc_AfterSHA256 := after \<rparr>"

definition new_snapshot :: "digests \<Rightarrow> doc_state \<Rightarrow> string \<Rightarrow> DiskSnapshot \<Rightarrow> ProviderLayer \<Rightarrow> string \<Rightarrow> DocumentSnapshot" where
  "new_snapshot H w absolute disk layer contentHash =
     (let snapshot = \<lparr> dn_Workspace = dw_identity w, dn_URI = file_uri absolute, dn_Revision = [], dn_ContentSHA256 = contentHash,
            dn_Disk = disk, dn_ChangedTick = pl_ChangedTick layer, dn_Dirty = pl_Dirty layer, dn_LSPVersions = pl_LSPVersions layer \<rparr>
      in snapshot\<lparr> dn_Revision := revisionFor H snapshot \<rparr>)"

text \<open>What happens under the lock: the sequence, the log, the cache and the history.\<close>

definition observe_document :: "string \<Rightarrow> string \<Rightarrow> string \<Rightarrow> doc_state \<Rightarrow> doc_state" where
  "observe_document absolute signature contentHash w =
     (case map_of (dw_documents w) absolute of
        Some latest \<Rightarrow>
          if signature \<noteq> cd_signature latest
          then observeLocked (document_change w absolute (cd_contentHash latest) contentHash) (next_seq w)
          else w
      | None \<Rightarrow> w)"

definition publish ::
  "digests \<Rightarrow> string \<Rightarrow> DiskSnapshot \<Rightarrow> ProviderLayer \<Rightarrow> string \<Rightarrow> doc_state \<Rightarrow> DocumentSnapshot \<times> doc_state" where
  "publish H absolute disk layer contentHash w =
     (let signature = documentSignature H disk layer contentHash;
          w1 = observe_document absolute signature contentHash w;
          snapshot = new_snapshot H w1 absolute disk layer contentHash;
          document = \<lparr> cd_disk = disk, cd_layer = layer, cd_contentHash = contentHash, cd_signature = signature,
            cd_revision = dn_Revision snapshot \<rparr>
      in (snapshot, rememberRevisionLocked absolute snapshot (w1\<lparr> dw_documents := AList.update absolute document (dw_documents w1) \<rparr>)))"

definition snapshot :: "doc_env \<Rightarrow> string \<Rightarrow> ProviderLayer \<Rightarrow> bool \<Rightarrow> doc_state \<Rightarrow> DocumentSnapshot result \<times> doc_state" where
  "snapshot E path layer forceHash w =
     (case de_resolve E path of
        Inl e \<Rightarrow> (Error e, w)
      | Inr absolute \<Rightarrow>
          (case inspectPath (de_files E) absolute of
             Inl e \<Rightarrow> (Error e, w)
           | Inr (disk, content) \<Rightarrow>
               let previous = map_of (dw_documents w) absolute;
                   layer = cloneLayer layer;
                   contentHash = observed_hash (de_digests E) previous layer forceHash disk content;
                   (taken, w') = publish (de_digests E) absolute disk layer contentHash w;
                   contentChanged = (case previous of None \<Rightarrow> False | Some latest \<Rightarrow> cd_contentHash latest \<noteq> contentHash)
               in (if contentChanged
                   then (case de_note E absolute (dn_Revision taken) of Inl e \<Rightarrow> Error e | Inr _ \<Rightarrow> Ok taken)
                   else Ok taken, w')))"

definition Snapshot :: "doc_env \<Rightarrow> string \<Rightarrow> ProviderLayer \<Rightarrow> doc_state \<Rightarrow> DocumentSnapshot result \<times> doc_state" where
  "Snapshot E path layer = snapshot E path layer False"

definition Refresh :: "doc_env \<Rightarrow> string \<Rightarrow> ProviderLayer \<Rightarrow> doc_state \<Rightarrow> DocumentSnapshot result \<times> doc_state" where
  "Refresh E path layer = snapshot E path layer True"

fun refresh_all :: "doc_env \<Rightarrow> (string \<times> ProviderLayer) list \<Rightarrow> doc_state \<Rightarrow> Identity result \<times> doc_state" where
  "refresh_all E [] w = (Ok (dw_identity w), w)"
| "refresh_all E ((path, layer) # rest) w =
     (case Refresh E path layer w of
        (Inl e, w') \<Rightarrow> (Error e, w')
      | (Inr _, w') \<Rightarrow> refresh_all E rest w')"

definition RefreshKnownDocuments :: "doc_env \<Rightarrow> doc_state \<Rightarrow> Identity result \<times> doc_state" where
  "RefreshKnownDocuments E w =
     refresh_all E (map (\<lambda>path. (path, cloneLayer (cd_layer (the (map_of (dw_documents w) path)))))
       (sort (remdups (map fst (dw_documents w))))) w"

fun snapshot_all :: "doc_env \<Rightarrow> string list \<Rightarrow> doc_state \<Rightarrow> unit result \<times> doc_state" where
  "snapshot_all E [] w = (Ok (), w)"
| "snapshot_all E (path # rest) w =
     (case Snapshot E path no_layer w of
        (Inl e, w') \<Rightarrow> (Error e, w')
      | (Inr _, w') \<Rightarrow> snapshot_all E rest w')"

text \<open>\<open>files\<close> is what the listing of the workspace returned.\<close>

definition PrimeDocuments :: "doc_env \<Rightarrow> string list \<Rightarrow> doc_state \<Rightarrow> unit result \<times> doc_state" where
  "PrimeDocuments E files w =
     (let inventoryChanged = dw_pathsPrimed w \<and>
            (\<not> set files \<subseteq> set (dw_knownPaths w) \<or> \<not> set (dw_knownPaths w) \<subseteq> set files);
          w1 = (if inventoryChanged
                then observeLocked (observedInventory w (dw_knownPaths w) (remdups files)) (next_seq w) else w)
      in snapshot_all E files (w1\<lparr> dw_knownPaths := remdups files, dw_pathsPrimed := True \<rparr>))"

section \<open>The mutation guard\<close>

definition unknownRevisionDetail :: string where
  "unknownRevisionDetail = ''expected revision is not known to this service instance: it was issued before a restart, under an earlier provider epoch, or before the retained revision history, whose oldest superseded revisions are evicted when it outgrows its memory budget''"

definition bare_conflict :: "ConflictCode \<Rightarrow> go_error" where
  "bare_conflict code = ConflictError \<lparr> cf_Code = code, cf_Path = [], cf_Expected = [], cf_Current = [], cf_Detail = [] \<rparr>"

definition revision_conflict :: "ConflictCode \<Rightarrow> string \<Rightarrow> string \<Rightarrow> string \<Rightarrow> string \<Rightarrow> go_error" where
  "revision_conflict code path expected current detail =
     ConflictError \<lparr> cf_Code = code, cf_Path = path, cf_Expected = expected, cf_Current = current, cf_Detail = detail \<rparr>"

definition judge_revision :: "DocumentSnapshot option \<Rightarrow> string \<Rightarrow> string \<Rightarrow> DocumentSnapshot \<Rightarrow> DocumentSnapshot result" where
  "judge_revision prior path expected current =
     (if (case prior of None \<Rightarrow> False | Some p \<Rightarrow> id_Epoch (dn_Workspace p) \<noteq> id_Epoch (dn_Workspace current))
      then Error (revision_conflict ConflictWorkspaceEpoch path expected (dn_Revision current) [])
      else if dn_Revision current \<noteq> expected then
        (case prior of
           None \<Rightarrow> Error (revision_conflict ConflictWorkspaceEpoch path expected (dn_Revision current) unknownRevisionDetail)
         | Some p \<Rightarrow>
             Error (revision_conflict
               (if ds_Kind (dn_Disk p) \<noteq> ObjectMissing \<and> ds_Kind (dn_Disk current) = ObjectMissing
                then ConflictDocumentDeleted else ConflictDocumentChanged)
               path expected (dn_Revision current) []))
      else Ok current)"

definition ValidateMutation ::
  "doc_env \<Rightarrow> string \<Rightarrow> string \<Rightarrow> string \<Rightarrow> ProviderLayer \<Rightarrow> doc_state \<Rightarrow> DocumentSnapshot result \<times> doc_state" where
  "ValidateMutation E workspaceID path expected layer w =
     (if workspaceID = [] then (Error (bare_conflict ConflictWorkspaceIDRequired), w)
      else if expected = [] then (Error (bare_conflict ConflictRevisionRequired), w)
      else if workspaceID \<noteq> id_ID (dw_identity w) then (Error (bare_conflict ConflictWorkspaceIDMismatch), w)
      else
        let prior = dw_revisions w expected
        in case Refresh E path layer w of
             (Inl e, w') \<Rightarrow> (Error e, w')
           | (Inr current, w') \<Rightarrow> (judge_revision prior path expected current, w'))"

end
