(* ===== verification/Native_Edits.thy ===== *)
theory Native_Edits
  imports Native_Journal Documents Text_Spans
begin

text \<open>
  Edits outside plans (\<^verbatim>\<open>internal/workspace/text.go\<close>, \<^verbatim>\<open>lifecycle.go\<close>): reading a document, binding a range of
  it to hashes, replacing the range, writing, deleting, copying and moving whole files. Each edit
  passes the mutation guard of \<open>Documents\<close>, runs under the journal of \<open>Native_Journal\<close> and observes its result.

  The state is a \<open>doc_state\<close> next to a \<open>world\<close>; a step that only observes leaves the world alone. A Go
  slice expression whose bounds are out of range panics; it is an error value here.
\<close>

record native_env =
  ne_digests :: digests
  ne_note :: "string \<Rightarrow> string \<Rightarrow> unit result"
  ne_maxBytes :: int
  ne_semantic :: string

definition env_of :: "native_env \<Rightarrow> world \<Rightarrow> doc_env" where
  "env_of N w = \<lparr> de_digests = ne_digests N, de_files = w_files w, de_resolve = w_resolve w, de_note = ne_note N \<rparr>"

definition hashBytes :: "native_env \<Rightarrow> bytes \<Rightarrow> string" where
  "hashBytes N = dg_hash (ne_digests N)"

section \<open>Reading and ranges\<close>

record TextRead =
  tr_Workspace :: Identity
  tr_Path :: string
  tr_Content :: bytes
  tr_Snapshot :: DocumentSnapshot
  tr_Coverage :: Coverage

definition read_text :: "native_env \<Rightarrow> world \<Rightarrow> string \<Rightarrow> DocumentSnapshot \<Rightarrow> TextRead result" where
  "read_text N w absolute taken =
     (let path = displayPath (id_Root (w_identity w)) absolute
      in if ds_Kind (dn_Disk taken) = ObjectMissing then Error (Coded CodeDocumentNotFound (Some (DocumentNotFoundError path)))
         else if ds_Kind (dn_Disk taken) \<noteq> ObjectRegularText then Error (NotRegularTextError path absolute (ds_Kind (dn_Disk taken)))
         else if ds_Size (dn_Disk taken) > ne_maxBytes N then Error (PlainError ''exceeds the read limit'')
         else
           (case inspectPath (w_files w) absolute of
              Inl e \<Rightarrow> Error e
            | Inr (_, content) \<Rightarrow>
                if hashBytes N content \<noteq> dn_ContentSHA256 taken then Error (PlainError ''document changed while reading'')
                else Ok \<lparr> tr_Workspace = dn_Workspace taken, tr_Path = path, tr_Content = content, tr_Snapshot = taken,
                  tr_Coverage = empty_coverage\<lparr> cov_Complete := True, cov_FilesConsidered := 1, cov_FilesRead := 1,
                    cov_BytesRead := int (length content), cov_Semantic := ne_semantic N \<rparr> \<rparr>))"

definition Read :: "native_env \<Rightarrow> string \<Rightarrow> world \<Rightarrow> doc_state \<Rightarrow> TextRead result \<times> doc_state" where
  "Read N path w d =
     (case w_resolve w path of
        Inl e \<Rightarrow> (Error e, d)
      | Inr absolute \<Rightarrow>
          (case Refresh (env_of N w) absolute no_layer d of
             (Inl e, d') \<Rightarrow> (Error e, d')
           | (Inr taken, d') \<Rightarrow> (read_text N w absolute taken, d')))"

definition defaultAnchorBytes :: int where
  "defaultAnchorBytes = 64"

text \<open>The anchors of a range: the bytes before and after it, as far as the document goes.\<close>

definition before_start :: "int \<Rightarrow> int \<Rightarrow> int" where
  "before_start start anchorBytes = (if start - anchorBytes < 0 then 0 else start - anchorBytes)"

definition after_end :: "bytes \<Rightarrow> int \<Rightarrow> int \<Rightarrow> int" where
  "after_end content end anchorBytes = (if end + anchorBytes > int (length content) then int (length content) else end + anchorBytes)"

definition in_bounds :: "bytes \<Rightarrow> int \<Rightarrow> int \<Rightarrow> bool" where
  "in_bounds content start end = (0 \<le> start \<and> start \<le> end \<and> end \<le> int (length content))"

definition int_slice :: "bytes \<Rightarrow> int \<Rightarrow> int \<Rightarrow> bytes" where
  "int_slice content start end = go_slice content (nat start) (nat end)"

definition rangeHandle :: "native_env \<Rightarrow> TextRead \<Rightarrow> int \<Rightarrow> int \<Rightarrow> int \<Rightarrow> RangeHandle result" where
  "rangeHandle N read start end anchorBytes =
     (let content = tr_Content read
      in if \<not> in_bounds content start end then Error (PlainError ''invalid byte range'')
         else if \<not> in_bounds content (before_start start anchorBytes) start \<or> \<not> in_bounds content end (after_end content end anchorBytes)
         then Error (PlainError ''slice bounds out of range'')
         else Ok \<lparr> rh_Path = tr_Path read, rh_Revision = dn_Revision (tr_Snapshot read), rh_ByteStart = start, rh_ByteEnd = end,
           rh_ExpectedSHA256 = hashBytes N (int_slice content start end),
           rh_BeforeSHA256 = hashBytes N (int_slice content (before_start start anchorBytes) start),
           rh_AfterSHA256 = hashBytes N (int_slice content end (after_end content end anchorBytes)),
           rh_AnchorBytes = anchorBytes \<rparr>)"

definition NewRange :: "native_env \<Rightarrow> string \<Rightarrow> int \<Rightarrow> int \<Rightarrow> world \<Rightarrow> doc_state \<Rightarrow> RangeHandle result \<times> doc_state" where
  "NewRange N path start end w d =
     (case Read N path w d of
        (Inl e, d') \<Rightarrow> (Error e, d')
      | (Inr read, d') \<Rightarrow> (rangeHandle N read start end defaultAnchorBytes, d'))"

text \<open>Whether a text still has the range and its anchors; the first comparison that fails ends the others.\<close>

definition range_conflict :: "RangeHandle \<Rightarrow> DocumentSnapshot \<Rightarrow> go_error" where
  "range_conflict handle current = revision_conflict ConflictDocumentChanged (rh_Path handle) (rh_Revision handle) (dn_Revision current) []"

definition check_range :: "native_env \<Rightarrow> RangeHandle \<Rightarrow> DocumentSnapshot \<Rightarrow> DiskSnapshot \<Rightarrow> bytes \<Rightarrow> bytes result" where
  "check_range N handle current disk content =
     (let start = rh_ByteStart handle; end = rh_ByteEnd handle;
          before = before_start start (rh_AnchorBytes handle); after = after_end content end (rh_AnchorBytes handle)
      in if ds_Kind disk \<noteq> ObjectRegularText \<or> \<not> in_bounds content start end then Error (range_conflict handle current)
         else if hashBytes N (int_slice content start end) \<noteq> rh_ExpectedSHA256 handle then Error (range_conflict handle current)
         else if \<not> in_bounds content before start then Error (PlainError ''slice bounds out of range'')
         else if hashBytes N (int_slice content before start) \<noteq> rh_BeforeSHA256 handle then Error (range_conflict handle current)
         else if \<not> in_bounds content end after then Error (PlainError ''slice bounds out of range'')
         else if hashBytes N (int_slice content end after) \<noteq> rh_AfterSHA256 handle then Error (range_conflict handle current)
         else Ok content)"

definition validateRange ::
  "native_env \<Rightarrow> string \<Rightarrow> RangeHandle \<Rightarrow> world \<Rightarrow> doc_state \<Rightarrow> (DocumentSnapshot \<times> bytes) result \<times> doc_state" where
  "validateRange N workspaceID handle w d =
     (case ValidateMutation (env_of N w) workspaceID (rh_Path handle) (rh_Revision handle) no_layer d of
        (Inl e, d') \<Rightarrow> (Error e, d')
      | (Inr current, d') \<Rightarrow>
          (case w_resolve w (rh_Path handle) of
             Inl e \<Rightarrow> (Error e, d')
           | Inr absolute \<Rightarrow>
               (case inspectPath (w_files w) absolute of
                  Inl e \<Rightarrow> (Error e, d')
                | Inr (disk, content) \<Rightarrow>
                    (case check_range N handle current disk content of
                       Inl e \<Rightarrow> (Error e, d')
                     | Inr content \<Rightarrow> (Ok (current, content), d')))))"

section \<open>Replacing a range\<close>

record TextChange =
  tc_Workspace :: Identity
  tc_Before :: DocumentSnapshot
  tc_AfterHash :: string
  tc_Range :: RangeHandle
  tc_Replacement :: bytes
  tc_Diff :: ExactDiff

definition PreviewReplace ::
  "native_env \<Rightarrow> string \<Rightarrow> RangeHandle \<Rightarrow> bytes \<Rightarrow> world \<Rightarrow> doc_state \<Rightarrow> TextChange result \<times> doc_state" where
  "PreviewReplace N workspaceID handle replacement w d =
     (case validateRange N workspaceID handle w d of
        (Inl e, d') \<Rightarrow> (Error e, d')
      | (Inr (current, content), d') \<Rightarrow>
          let start = nat (rh_ByteStart handle); end = nat (rh_ByteEnd handle);
              after = take start content @ replacement @ drop end content
          in (Ok \<lparr> tc_Workspace = dn_Workspace current, tc_Before = current, tc_AfterHash = hashBytes N after, tc_Range = handle,
                tc_Replacement = replacement, tc_Diff = exactDiff (hashBytes N) (rh_Path handle) content after start end replacement \<rparr>, d'))"

text \<open>An edit, then the observation of what it left.\<close>

definition mutate_and_observe ::
  "native_env \<Rightarrow> string \<Rightarrow> unit io \<Rightarrow> 'a \<Rightarrow> doc_state \<Rightarrow> world \<Rightarrow> ('a \<times> DocumentSnapshot) outcome \<times> doc_state \<times> world" where
  "mutate_and_observe N absolute edit change d w =
     (case edit w of
        (Crashed, w') \<Rightarrow> (Crashed, d, w')
      | (Fail e, w') \<Rightarrow> (Fail e, d, w')
      | (Done _, w') \<Rightarrow>
          (case Refresh (env_of N w') absolute no_layer d of
             (Inl e, d') \<Rightarrow> (Fail e, d', w')
           | (Inr after, d') \<Rightarrow> (Done (change, after), d', w')))"

definition no_state_error :: go_error where
  "no_state_error = PlainError ''native mutation recovery state directory is required''"

definition ApplyReplace ::
  "native_env \<Rightarrow> string \<Rightarrow> RangeHandle \<Rightarrow> bytes \<Rightarrow> doc_state \<Rightarrow> world \<Rightarrow> (TextChange \<times> DocumentSnapshot) outcome \<times> doc_state \<times> world" where
  "ApplyReplace N workspaceID handle replacement d w =
     (case PreviewReplace N workspaceID handle replacement w d of
        (Inl e, d') \<Rightarrow> (Fail e, d', w)
      | (Inr change, d') \<Rightarrow>
          if \<not> w_stateDir w then (Fail no_state_error, d', w)
          else
            (case w_resolve w (rh_Path handle) of
               Inl e \<Rightarrow> (Fail e, d', w)
             | Inr absolute \<Rightarrow>
                 mutate_and_observe N absolute
                   (mutateFile absolute True (diff_Before (tc_Diff change)) True (diff_After (tc_Diff change)) (ds_Mode (dn_Disk (tc_Before change))))
                   change d' w))"

section \<open>Whole files\<close>

datatype FileAction = FileCreate | FileReplace | FileDelete | FileActionOther string

definition file_action_refused :: "FileAction \<Rightarrow> ObjectKind \<Rightarrow> go_error option" where
  "file_action_refused action kind =
     (case action of
        FileCreate \<Rightarrow> if kind \<noteq> ObjectMissing then Some (PlainError ''create target already exists'') else None
      | FileReplace \<Rightarrow> if kind \<noteq> ObjectRegularText then Some (PlainError ''replace target is not regular text'') else None
      | FileDelete \<Rightarrow> if kind = ObjectMissing then Some (PlainError ''delete target does not exist'') else None
      | FileActionOther _ \<Rightarrow> Some (PlainError ''unknown file action''))"

definition file_mutation :: "native_env \<Rightarrow> string \<Rightarrow> DocumentSnapshot \<Rightarrow> FileAction \<Rightarrow> bytes \<Rightarrow> bytes \<Rightarrow> doc_state \<Rightarrow> world \<Rightarrow>
    (ExactDiff \<times> DocumentSnapshot) outcome \<times> doc_state \<times> world" where
  "file_mutation N absolute current action before content d w =
     (let preExists = (ds_Kind (dn_Disk current) \<noteq> ObjectMissing);
          postExists = (action \<noteq> FileDelete);
          afterBytes = (if postExists then content else []);
          mode = (if preExists then ds_Mode (dn_Disk current) else 0x1A4);
          diff = exactDiff (hashBytes N) (displayPath (id_Root (w_identity w)) absolute) before afterBytes 0 (length before) afterBytes
      in mutate_and_observe N absolute (mutateFile absolute preExists before postExists afterBytes mode) diff d w)"

definition ApplyFile :: "native_env \<Rightarrow> string \<Rightarrow> string \<Rightarrow> string \<Rightarrow> FileAction \<Rightarrow> bytes \<Rightarrow> doc_state \<Rightarrow> world \<Rightarrow>
    (ExactDiff \<times> DocumentSnapshot) outcome \<times> doc_state \<times> world" where
  "ApplyFile N workspaceID path expected action content d w =
     (case ValidateMutation (env_of N w) workspaceID path expected no_layer d of
        (Inl e, d') \<Rightarrow> (Fail e, d', w)
      | (Inr current, d') \<Rightarrow>
          (case w_resolve w path of
             Inl e \<Rightarrow> (Fail e, d', w)
           | Inr absolute \<Rightarrow>
               (case inspectPath (w_files w) absolute of
                  Inl e \<Rightarrow> (Fail e, d', w)
                | Inr (_, before) \<Rightarrow>
                    (case file_action_refused action (ds_Kind (dn_Disk current)) of
                       Some e \<Rightarrow> (Fail e, d', w)
                     | None \<Rightarrow>
                         if \<not> w_stateDir w then (Fail no_state_error, d', w)
                         else file_mutation N absolute current action before content d' w))))"

section \<open>Copies and moves\<close>

definition MaxTransferBytes :: nat where
  "MaxTransferBytes = 4 * 1024 * 1024"

record TransferSource =
  ts_Path :: string
  ts_Absolute :: string
  ts_Content :: bytes
  ts_Mode :: u32
  ts_SHA256 :: string
  ts_Inside :: bool
  ts_Revision :: string

definition transferableKind :: "DiskSnapshot \<Rightarrow> error_code \<Rightarrow> unit result" where
  "transferableKind disk missingCode =
     (case ds_Kind disk of
        ObjectMissing \<Rightarrow> Error (Codedf missingCode ''does not exist'')
      | ObjectRegularText \<Rightarrow> Ok ()
      | ObjectBinary \<Rightarrow> Ok ()
      | _ \<Rightarrow> Error (Codedf CodeTransferUnsupported ''edit_apply moves and copies regular files only''))"

definition transfer_source :: "native_env \<Rightarrow> world \<Rightarrow> string \<Rightarrow> string \<Rightarrow> bool \<Rightarrow> string \<Rightarrow> TransferSource result" where
  "transfer_source N w absolute path inside expectedSHA256 =
     (case inspectPath (w_files w) absolute of
        Inl e \<Rightarrow> Error (Coded CodeCopySourceMissing (Some (WrappedError ''source'' e)))
      | Inr (disk, content) \<Rightarrow>
          (case transferableKind disk CodeCopySourceMissing of
             Inl e \<Rightarrow> Error e
           | Inr _ \<Rightarrow>
               if length content > MaxTransferBytes then Error (Codedf CodeCopySourceTooLarge ''exceeds the transfer bound'')
               else if expectedSHA256 \<noteq> [] \<and> expectedSHA256 \<noteq> hashBytes N content
               then Error (Codedf CodeCopySourceChanged ''source has another sha256'')
               else Ok \<lparr> ts_Path = path, ts_Absolute = absolute, ts_Content = content, ts_Mode = ds_Mode disk,
                 ts_SHA256 = hashBytes N content, ts_Inside = inside, ts_Revision = [] \<rparr>))"

definition Workspace_TransferSource :: "native_env \<Rightarrow> string \<Rightarrow> string \<Rightarrow> world \<Rightarrow> doc_state \<Rightarrow> TransferSource result \<times> doc_state" where
  "Workspace_TransferSource N from expectedSHA256 w d =
     (case w_resolve w from of
        Inr absolute \<Rightarrow>
          (case transfer_source N w absolute (displayPath (id_Root (w_identity w)) absolute) True expectedSHA256 of
             Inl e \<Rightarrow> (Error e, d)
           | Inr source \<Rightarrow>
               (case Refresh (env_of N w) absolute no_layer d of
                  (Inl e, d') \<Rightarrow> (Error e, d')
                | (Inr taken, d') \<Rightarrow> (Ok (source\<lparr> ts_Revision := dn_Revision taken \<rparr>), d')))
      | Inl _ \<Rightarrow>
          if \<not> IsAbs from then (Error (Codedf CodeCopySourceMissing ''is not a workspace document''), d)
          else (transfer_source N w (Clean from) from False expectedSHA256, d))"

text \<open>The destination must not exist; its parent directory is made.\<close>

definition transferDestination ::
  "native_env \<Rightarrow> string \<Rightarrow> string \<Rightarrow> string \<Rightarrow> error_code \<Rightarrow> doc_state \<Rightarrow> world \<Rightarrow> string outcome \<times> doc_state \<times> world" where
  "transferDestination N workspaceID to expected existsCode d w =
     (case (if expected \<noteq> [] then ValidateMutation (env_of N w) workspaceID to expected no_layer d
            else Snapshot (env_of N w) to no_layer d) of
        (Inl e, d') \<Rightarrow> (Fail e, d', w)
      | (Inr current, d') \<Rightarrow>
          if ds_Kind (dn_Disk current) \<noteq> ObjectMissing then (Fail (Codedf existsCode ''already exists''), d', w)
          else
            (case w_resolve w to of
               Inl e \<Rightarrow> (Fail e, d', w)
             | Inr absolute \<Rightarrow>
                 (case MkdirAll w of
                    (Done _, w') \<Rightarrow> (Done absolute, d', w')
                  | (Fail e, w') \<Rightarrow> (Fail e, d', w')
                  | (Crashed, w') \<Rightarrow> (Crashed, d', w'))))"

definition transferMode :: "u32 \<Rightarrow> u32" where
  "transferMode mode = (if and mode permMask \<noteq> 0 then and mode permMask else 0x1A4)"

definition ApplyCopy :: "native_env \<Rightarrow> string \<Rightarrow> TransferSource \<Rightarrow> string \<Rightarrow> string \<Rightarrow> doc_state \<Rightarrow> world \<Rightarrow>
    (ExactDiff \<times> DocumentSnapshot) outcome \<times> doc_state \<times> world" where
  "ApplyCopy N workspaceID source to destinationRevision d w =
     (if \<not> w_stateDir w then (Fail no_state_error, d, w)
      else
        (case transferDestination N workspaceID to destinationRevision CodeCreateTargetExists d w of
           (Fail e, d', w') \<Rightarrow> (Fail e, d', w')
         | (Crashed, d', w') \<Rightarrow> (Crashed, d', w')
         | (Done absolute, d', w') \<Rightarrow>
             mutate_and_observe N absolute (mutateFile absolute False [] True (ts_Content source) (transferMode (ts_Mode source)))
               (exactDiff (hashBytes N) (displayPath (id_Root (w_identity w)) absolute) [] (ts_Content source) 0 0 (ts_Content source)) d' w'))"

record MoveResult =
  mr_Source :: TransferSource
  mr_Destination :: DocumentSnapshot
  mr_SourceAfter :: DocumentSnapshot

definition move_source :: "native_env \<Rightarrow> string \<Rightarrow> string \<Rightarrow> DocumentSnapshot \<Rightarrow> string \<Rightarrow> world \<Rightarrow> TransferSource result" where
  "move_source N from expectedSource current sourceAbsolute w =
     (case inspectPath (w_files w) sourceAbsolute of
        Inl e \<Rightarrow> Error e
      | Inr (disk, content) \<Rightarrow>
          if hashBytes N content \<noteq> dn_ContentSHA256 current
          then Error (revision_conflict ConflictDocumentChanged from expectedSource (dn_Revision current) [])
          else if length content > MaxTransferBytes then Error (Codedf CodeCopySourceTooLarge ''exceeds the transfer bound'')
          else Ok \<lparr> ts_Path = displayPath (id_Root (w_identity w)) sourceAbsolute, ts_Absolute = sourceAbsolute, ts_Content = content,
            ts_Mode = ds_Mode disk, ts_SHA256 = hashBytes N content, ts_Inside = True, ts_Revision = dn_Revision current \<rparr>)"

text \<open>The two journaled edits of a move: the destination first, then the source.\<close>

definition move_files :: "TransferSource \<Rightarrow> string \<Rightarrow> unit io" where
  "move_files source destinationAbsolute =
     io_bind (mutateFile destinationAbsolute False [] True (ts_Content source) (transferMode (ts_Mode source))) (\<lambda>_.
     io_wrap ''destination written, source not removed''
       (mutateFile (ts_Absolute source) True (ts_Content source) False [] (transferMode (ts_Mode source))))"

definition observe_move :: "native_env \<Rightarrow> TransferSource \<Rightarrow> string \<Rightarrow> doc_state \<Rightarrow> world \<Rightarrow> MoveResult outcome \<times> doc_state \<times> world" where
  "observe_move N source destinationAbsolute d w =
     (case Refresh (env_of N w) destinationAbsolute no_layer d of
        (Inl e, d1) \<Rightarrow> (Fail e, d1, w)
      | (Inr destination, d1) \<Rightarrow>
          (case Refresh (env_of N w) (ts_Absolute source) no_layer d1 of
             (Inl e, d2) \<Rightarrow> (Fail e, d2, w)
           | (Inr sourceAfter, d2) \<Rightarrow>
               (Done \<lparr> mr_Source = source, mr_Destination = destination, mr_SourceAfter = sourceAfter \<rparr>, d2, w)))"

definition ApplyMove :: "native_env \<Rightarrow> string \<Rightarrow> string \<Rightarrow> string \<Rightarrow> string \<Rightarrow> string \<Rightarrow> doc_state \<Rightarrow> world \<Rightarrow>
    MoveResult outcome \<times> doc_state \<times> world" where
  "ApplyMove N workspaceID from expectedSource to destinationRevision d w =
     (if \<not> w_stateDir w then (Fail no_state_error, d, w)
      else
        (case ValidateMutation (env_of N w) workspaceID from expectedSource no_layer d of
           (Inl e, d1) \<Rightarrow> (Fail e, d1, w)
         | (Inr current, d1) \<Rightarrow>
             (case transferableKind (dn_Disk current) CodeMoveSourceMissing of
                Inl e \<Rightarrow> (Fail e, d1, w)
              | Inr _ \<Rightarrow>
                  (case w_resolve w from of
                     Inl e \<Rightarrow> (Fail e, d1, w)
                   | Inr sourceAbsolute \<Rightarrow>
                       (case move_source N from expectedSource current sourceAbsolute w of
                          Inl e \<Rightarrow> (Fail e, d1, w)
                        | Inr source \<Rightarrow>
                            (case transferDestination N workspaceID to destinationRevision CodeMoveTargetExists d1 w of
                               (Fail e, d2, w2) \<Rightarrow> (Fail e, d2, w2)
                             | (Crashed, d2, w2) \<Rightarrow> (Crashed, d2, w2)
                             | (Done destinationAbsolute, d2, w2) \<Rightarrow>
                                 (case move_files source destinationAbsolute w2 of
                                    (Crashed, w3) \<Rightarrow> (Crashed, d2, w3)
                                  | (Fail e, w3) \<Rightarrow> (Fail e, d2, w3)
                                  | (Done _, w3) \<Rightarrow> observe_move N source destinationAbsolute d2 w3)))))))"

end
