(* ===== verification/Native_Safety.thy ===== *)
theory Native_Safety
  imports Native_Journal
begin

text \<open>
  Native edits are atomic across failures and crashes: an edit changes nothing but its path, which
  holds the preimage or the postimage at every moment, and while the edit is not complete its journal
  lets the next start put the preimage back.
\<close>

section \<open>Journals of the state directory\<close>

lemma fresh_journal_new: "fresh_journal journals \<notin> fst ` set journals"
proof -
  have "x \<le> foldr max (map fst journals) 0" if "x \<in> fst ` set journals" for x
    using that by (induction journals) (force simp: le_max_iff_disj)+
  then show ?thesis unfolding fresh_journal_def by (metis Suc_n_not_le_n)
qed

lemma update_fresh: "k \<notin> fst ` set al \<Longrightarrow> AList.update k v al = al @ [(k, v)]"
  by (induction al) auto

lemma update_newest: "k \<notin> fst ` set al \<Longrightarrow> AList.update k v (al @ [(k, u)]) = al @ [(k, v)]"
  by (induction al) auto

lemma delete_fresh: "k \<notin> fst ` set al \<Longrightarrow> AList.delete k al = al"
  by (induction al) (auto simp: AList.delete_eq)

lemma delete_newest: "k \<notin> fst ` set al \<Longrightarrow> AList.delete k (al @ [(k, v)]) = al"
  by (force simp: AList.delete_eq filter_id_conv)

section \<open>What an edit leaves\<close>

definition written_node :: "journalRecord \<Rightarrow> fs_node option \<Rightarrow> bool" where
  "written_node record node =
     (if jr_PostExists record
      then \<exists>meta. node = Some (FileNode (jr_Postimage record) meta) \<and> nm_Mode meta = and (jr_Mode record) permMask
      else node = None)"

text \<open>
  The worlds an edit of \<open>record\<close> started in \<open>w\<close> may be in: only its path changed, to the postimage; and the
  journal is not there, is incomplete and the path untouched, or is complete.
\<close>

definition editing :: "world \<Rightarrow> nat \<Rightarrow> journalRecord \<Rightarrow> world \<Rightarrow> bool" where
  "editing w name record w' \<longleftrightarrow> w_resolve w' = w_resolve w \<and> w_identity w' = w_identity w \<and> w_stateDir w' = w_stateDir w \<and>
     (\<forall>p. p \<noteq> jr_Path record \<longrightarrow> w_files w' p = w_files w p) \<and>
     (w_files w' (jr_Path record) = w_files w (jr_Path record) \<or> written_node record (w_files w' (jr_Path record)))"

definition journal_is :: "world \<Rightarrow> nat \<Rightarrow> native_journal option \<Rightarrow> world \<Rightarrow> bool" where
  "journal_is w name journal w' \<longleftrightarrow>
     w_native w' = w_native w @ (case journal of None \<Rightarrow> [] | Some j \<Rightarrow> [(name, j)])"

lemma editing_io [simp]: "editing w name record (w'\<lparr> w_io := script \<rparr>) = editing w name record w'"
  by (simp add: editing_def)

lemma editing_native [simp]: "editing w name record (w'\<lparr> w_native := js \<rparr>) = editing w name record w'"
  by (simp add: editing_def)

lemma journal_is_io [simp]: "journal_is w name j (w'\<lparr> w_io := script \<rparr>) = journal_is w name j w'"
  by (simp add: journal_is_def)

lemma journal_is_files [simp]: "journal_is w name j (w'\<lparr> w_files := files \<rparr>) = journal_is w name j w'"
  by (simp add: journal_is_def)

lemma journal_is_put [simp]: "journal_is w name j (put_node path mk mode w') = journal_is w name j w'"
  by (simp add: journal_is_def put_node_def)

lemma journal_update:
  assumes "name \<notin> fst ` set (w_native w)" "journal_is w name j w'"
  shows "journal_is w name (Some j') (w'\<lparr> w_native := AList.update name j' (w_native w') \<rparr>)"
    "journal_is w name None (w'\<lparr> w_native := AList.delete name (w_native w') \<rparr>)"
  using assms by (auto simp: journal_is_def update_fresh update_newest delete_fresh delete_newest split: option.splits)

lemma editing_put:
  assumes "editing w name record w'" "jr_PostExists record"
  shows "editing w name record (put_node (jr_Path record) (FileNode (jr_Postimage record)) (and (jr_Mode record) permMask) w')"
  using assms by (auto simp: editing_def put_node_def written_node_def new_meta_def)

lemma editing_remove:
  assumes "editing w name record w'" "\<not> jr_PostExists record"
  shows "editing w name record (w'\<lparr> w_files := (w_files w')(jr_Path record := None) \<rparr>)"
  using assms by (auto simp: editing_def written_node_def)

text \<open>A step that only uses up an event.\<close>

lemma wp_event:
  assumes "\<And>script. Q (Done ()) (w\<lparr> w_io := script \<rparr>)" "\<And>e script. Q (Fail e) (w\<lparr> w_io := script \<rparr>)"
    and "\<And>script. Q Crashed (w\<lparr> w_io := script \<rparr>)"
  shows "io_wp io_call Q w"
proof -
  have "Q (Done ()) w" using assms(1) [of "w_io w"] by simp
  then show ?thesis using assms by (auto simp: io_call_cases split: list.split io_event.split)
qed

lemma wp_wrap: "io_wp m (\<lambda>r w'. case r of Fail e \<Rightarrow> Q (Fail (WrappedError msg e)) w' | _ \<Rightarrow> Q r w') w \<Longrightarrow> io_wp (io_wrap msg m) Q w"
  by (auto simp: io_wp_def io_wrap_def split: prod.splits outcome.splits)

text \<open>A property of the world that does not look at the script survives every event.\<close>

lemma wp_event_keep: "(\<And>script. I (w\<lparr> w_io := script \<rparr>)) \<Longrightarrow> io_wp io_call (\<lambda>_. I) w"
  by (rule wp_event) auto

definition in_edit :: "world \<Rightarrow> nat \<Rightarrow> journalRecord \<Rightarrow> native_journal option \<Rightarrow> world \<Rightarrow> bool" where
  "in_edit w name record j w' \<longleftrightarrow> editing w name record w' \<and> journal_is w name j w'"

definition edited :: "world \<Rightarrow> nat \<Rightarrow> journalRecord \<Rightarrow> native_journal option \<Rightarrow> world \<Rightarrow> bool" where
  "edited w name record j w' \<longleftrightarrow> in_edit w name record j w' \<and> written_node record (w_files w' (jr_Path record))"

lemma in_edit_io [simp]:
  "in_edit w name record j (w'\<lparr> w_io := script \<rparr>) = in_edit w name record j w'"
  "edited w name record j (w'\<lparr> w_io := script \<rparr>) = edited w name record j w'"
  by (simp_all add: in_edit_def edited_def)

lemma edited_in_edit: "edited w name record j w' \<Longrightarrow> in_edit w name record j w'"
  by (simp add: edited_def)

lemma wp_edit_call: "in_edit w name record j w' \<Longrightarrow> io_wp io_call (\<lambda>_. in_edit w name record j) w'"
  by (rule wp_event_keep) simp

lemma wp_remove_native:
  assumes "name \<notin> fst ` set (w_native w)" "in_edit w name record j w'"
  shows "io_wp (remove_native name) (\<lambda>r w1. w_files w1 = w_files w' \<and>
    (case r of Done _ \<Rightarrow> in_edit w name record None w1 | _ \<Rightarrow> in_edit w name record j w1)) w'"
  unfolding remove_native_def wp_bind
  by (rule wp_event)
    (use assms in \<open>auto simp: in_edit_def journal_is_def delete_fresh delete_newest editing_def split: option.splits\<close>)

lemma wp_cleanup_journal:
  assumes "name \<notin> fst ` set (w_native w)" "in_edit w name record j w'"
  shows "io_wp (cleanup_journal name) (\<lambda>r w1. w_files w1 = w_files w' \<and>
    (in_edit w name record None w1 \<or> in_edit w name record j w1) \<and> (\<forall>e. r \<noteq> Fail e)) w'"
  unfolding cleanup_journal_def wp_bind wp_try
  by (rule wp_mono [OF wp_remove_native [OF assms]]) (auto split: outcome.splits)

lemma wp_edit_sync:
  "edited w name record j w' \<Longrightarrow> io_wp syncDirectory (\<lambda>r w'. in_edit w name record j w' \<and> (r = Done () \<longrightarrow> edited w name record j w')) w'"
  unfolding syncDirectory_def by (rule wp_event) (auto intro: edited_in_edit)

lemma edited_put:
  assumes "in_edit w name record j w'" "jr_PostExists record"
  shows "edited w name record j (put_node (jr_Path record) (FileNode (jr_Postimage record)) (and (jr_Mode record) permMask) w')"
  using assms editing_put by (auto simp: edited_def in_edit_def written_node_def put_node_def new_meta_def journal_is_def)

lemma edited_remove:
  assumes "in_edit w name record j w'" "\<not> jr_PostExists record"
  shows "edited w name record j (w'\<lparr> w_files := (w_files w')(jr_Path record := None) \<rparr>)"
  using assms editing_remove by (auto simp: edited_def in_edit_def written_node_def)

lemma wp_edit_write:
  assumes "in_edit w name record j w'" "jr_PostExists record"
  shows "io_wp (atomicWriteFile (jr_Path record) (jr_Postimage record) (jr_Mode record))
    (\<lambda>r w'. in_edit w name record j w' \<and> (r = Done () \<longrightarrow> edited w name record j w')) w'"
proof -
  have "io_wp (writeTempAndRename (jr_Path record) (jr_Postimage record) (and (jr_Mode record) permMask) True)
      (\<lambda>r w'. in_edit w name record j w' \<and> (r = Done () \<longrightarrow> edited w name record j w')) w'"
    unfolding writeTempAndRename_def
    by (rule wp_bindI [OF wp_edit_call [OF assms(1)]]) (use edited_put [OF _ assms(2)] edited_in_edit in auto)
  then show ?thesis unfolding atomicWriteFile_def by (rule wp_bindI) (auto intro: wp_edit_sync)
qed

lemma wp_edit_remove:
  assumes "in_edit w name record j w'" "\<not> jr_PostExists record"
  shows "io_wp (os_Remove (jr_Path record)) (\<lambda>r w'. in_edit w name record j w' \<and> (\<forall>x. r = Done x \<longrightarrow> edited w name record j w')) w'"
  unfolding os_Remove_def
  by (rule wp_bindI [OF wp_edit_call [OF assms(1)]]) (use edited_remove [OF _ assms(2)] edited_in_edit in auto)

lemma wp_native_write:
  assumes "in_edit w name record j w'"
  shows "io_wp (native_write (jr_Path record) (jr_PostExists record) (jr_Postimage record) (jr_Mode record))
    (\<lambda>r w'. in_edit w name record j w' \<and> (r = Done () \<longrightarrow> edited w name record j w')) w'"
proof (cases "jr_PostExists record")
  case True
  show ?thesis unfolding native_write_def MkdirAll_def if_P [OF True]
    by (rule wp_bindI [OF wp_edit_call [OF assms]]) (auto intro: wp_edit_write True)
next
  case False
  show ?thesis unfolding native_write_def if_not_P [OF False]
    by (rule wp_bindI [OF wp_edit_remove [OF assms False]]) (auto intro: wp_edit_sync)
qed

text \<open>What \<open>mutate_target\<close> leaves: the journal goes only with the edit complete or the path untouched.\<close>

definition edit_left :: "world \<Rightarrow> nat \<Rightarrow> journalRecord \<Rightarrow> unit outcome \<Rightarrow> world \<Rightarrow> bool" where
  "edit_left w name record r w' \<longleftrightarrow>
     (\<exists>j. in_edit w name record j w' \<and>
        (case j of
           None \<Rightarrow> True
         | Some PartialJournal \<Rightarrow> w_files w' = w_files w
         | Some (CompleteJournal record') \<Rightarrow> record' = record)) \<and>
     (r = Done () \<longrightarrow> edited w name record None w')"

lemma edit_leftI:
  "in_edit w name record None w' \<Longrightarrow> r \<noteq> Done () \<Longrightarrow> edit_left w name record r w'"
  "in_edit w name record (Some (CompleteJournal record)) w' \<Longrightarrow> r \<noteq> Done () \<Longrightarrow> edit_left w name record r w'"
  "in_edit w name record (Some PartialJournal) w' \<Longrightarrow> w_files w' = w_files w \<Longrightarrow> r \<noteq> Done () \<Longrightarrow> edit_left w name record r w'"
  "edited w name record None w' \<Longrightarrow> edit_left w name record r w'"
  by (auto simp: edit_left_def dest: edited_in_edit intro: exI [of _ None] exI [of _ "Some (CompleteJournal record)"] exI [of _ "Some PartialJournal"])

lemma wp_edit_cleanup:
  assumes "name \<notin> fst ` set (w_native w)" "in_edit w name record j w'" "j = None \<or> j = Some (CompleteJournal record)"
  shows "io_wp (io_bind (cleanup_journal name) (\<lambda>_. io_throw e)) (edit_left w name record) w'"
  by (rule wp_bindI [OF wp_cleanup_journal [OF assms(1,2)]]) (use assms(3) in \<open>auto intro: edit_leftI\<close>)

lemma wp_mutate_target:
  assumes fresh: "name \<notin> fst ` set (w_native w)" and start: "in_edit w name record (Some (CompleteJournal record)) w'"
  shows "io_wp (mutate_target name record) (edit_left w name record) w'"
proof -
  let ?j = "Some (CompleteJournal record)"
  have failed: "io_wp (io_bind (io_get (\<lambda>w. stateMatches (w_files w) (jr_Path record) (jr_PreExists record) (jr_Preimage record))) (\<lambda>unchanged.
      io_bind (if unchanged then cleanup_journal name else io_return ()) (\<lambda>_. io_throw e))) (edit_left w name record) w1"
    if "in_edit w name record ?j w1" for e w1
    using that wp_edit_cleanup [OF fresh that, of e] by (auto simp del: wp_bind intro: edit_leftI) (simp add: edit_leftI(2))
  have closing: "io_wp (io_bind (cleanup_journal name) (\<lambda>_. io_lift synced)) (edit_left w name record) w1"
    if "edited w name record None w1" for synced w1
  proof (rule wp_bindI)
    show "io_wp (cleanup_journal name) (\<lambda>r w2. edited w name record None w2) w1"
      by (rule wp_mono [OF wp_cleanup_journal [OF fresh edited_in_edit [OF that]]]) (use that in \<open>simp add: edited_def\<close>)
  qed (simp_all add: edit_leftI(4) split: sum.split)
  have done_edit: "io_wp (io_bind (io_wrap ''remove completed recovery journal'' (remove_native name)) (\<lambda>_.
      io_bind (io_try syncDirectory) (\<lambda>synced. io_bind (cleanup_journal name) (\<lambda>_. io_lift synced)))) (edit_left w name record) w1"
    if "edited w name record ?j w1" for w1
  proof (rule wp_bindI)
    show "io_wp (io_wrap ''remove completed recovery journal'' (remove_native name))
      (\<lambda>r w2. if r = Done () then edited w name record None w2 else in_edit w name record ?j w2) w1"
      by (rule wp_wrap, rule wp_mono [OF wp_remove_native [OF fresh edited_in_edit [OF that]]])
        (use that in \<open>auto simp: edited_def split: outcome.splits\<close>)
  next
    fix x w2 assume "if Done x = Done () then edited w name record None w2 else in_edit w name record ?j w2"
    then have e: "edited w name record None w2" by simp
    have "io_wp (io_try syncDirectory) (\<lambda>_ . edited w name record None) w2"
      unfolding wp_try syncDirectory_def by (rule wp_event) (use e in auto)
    then show "io_wp (io_bind (io_try syncDirectory) (\<lambda>synced. io_bind (cleanup_journal name) (\<lambda>_. io_lift synced))) (edit_left w name record) w2"
      by (rule wp_bindI) (auto simp del: wp_bind intro: closing edit_leftI(4))
  qed (auto intro: edit_leftI)
  have tried: "io_wp (io_try (native_write (jr_Path record) (jr_PostExists record) (jr_Postimage record) (jr_Mode record)))
      (\<lambda>r w1. in_edit w name record ?j w1 \<and> (\<forall>x. r = Done (Inr x) \<longrightarrow> edited w name record ?j w1)) w'"
    unfolding wp_try by (rule wp_mono [OF wp_native_write [OF start]]) (auto split: outcome.splits)
  show ?thesis unfolding mutate_target_def wp_bind_get
    using wp_edit_cleanup [OF fresh start]
    by (auto split: sum.split simp del: wp_bind intro!: wp_bindI [OF tried] failed done_edit edit_leftI(2))
qed

text \<open>Until the journal is complete the tree is the one the edit started in.\<close>

definition pre_edit :: "world \<Rightarrow> nat \<Rightarrow> journalRecord \<Rightarrow> native_journal option \<Rightarrow> world \<Rightarrow> bool" where
  "pre_edit w name record j w' \<longleftrightarrow> in_edit w name record j w' \<and> w_files w' = w_files w"

lemma pre_edit_start: "pre_edit w name record None w"
  by (simp add: pre_edit_def in_edit_def editing_def journal_is_def)

lemma wp_pre_call: "pre_edit w name record j w' \<Longrightarrow> io_wp io_call (\<lambda>_. pre_edit w name record j) w'"
  by (rule wp_event_keep) (simp add: pre_edit_def)

lemma pre_edit_left: "pre_edit w name record None w' \<or> pre_edit w name record (Some PartialJournal) w' \<or>
    pre_edit w name record (Some (CompleteJournal record)) w' \<Longrightarrow> r \<noteq> Done () \<Longrightarrow> edit_left w name record r w'"
  by (auto simp: pre_edit_def intro: edit_leftI)

lemma pre_edit_update:
  assumes "name \<notin> fst ` set (w_native w)" "pre_edit w name record j w'"
  shows "pre_edit w name record (Some j') (w'\<lparr> w_native := AList.update name j' (w_native w') \<rparr>)"
  using assms journal_update(1) by (auto simp: pre_edit_def in_edit_def)

lemma wp_create_journal:
  assumes "pre_edit w (fresh_journal (w_native w)) record None w'"
  shows "io_wp create_journal (\<lambda>r w1. case r of
      Done name \<Rightarrow> name = fresh_journal (w_native w) \<and> pre_edit w (fresh_journal (w_native w)) record (Some PartialJournal) w1
    | _ \<Rightarrow> pre_edit w (fresh_journal (w_native w)) record None w1) w'"
  unfolding create_journal_def
proof (rule wp_bindI [OF wp_pre_call [OF assms]])
  fix x w1 assume pre: "pre_edit w (fresh_journal (w_native w)) record None w1"
  then have "w_native w1 = w_native w" by (simp add: pre_edit_def in_edit_def journal_is_def)
  then show "io_wp (io_bind (io_get (\<lambda>w. fresh_journal (w_native w))) (\<lambda>name.
     io_bind (io_update (\<lambda>w. w\<lparr> w_native := AList.update name PartialJournal (w_native w) \<rparr>)) (\<lambda>_. io_return name)))
     (\<lambda>r w1. case r of
        Done name \<Rightarrow> name = fresh_journal (w_native w) \<and> pre_edit w (fresh_journal (w_native w)) record (Some PartialJournal) w1
      | _ \<Rightarrow> pre_edit w (fresh_journal (w_native w)) record None w1) w1"
    using pre_edit_update [OF fresh_journal_new pre] by simp
qed auto

lemma wp_write_journal:
  assumes "name \<notin> fst ` set (w_native w)" "pre_edit w name record j w'"
  shows "io_wp (write_journal name record) (\<lambda>r w1. case r of
      Done _ \<Rightarrow> pre_edit w name record (Some (CompleteJournal record)) w1 | _ \<Rightarrow> pre_edit w name record j w1) w'"
  unfolding write_journal_def
  by (rule wp_bindI [OF wp_pre_call [OF assms(2)]]) (auto intro: pre_edit_update [OF assms(1)])

definition edit_record :: "string \<Rightarrow> bool \<Rightarrow> bytes \<Rightarrow> bool \<Rightarrow> bytes \<Rightarrow> u32 \<Rightarrow> journalRecord" where
  "edit_record path preExists preimage postExists postimage mode = \<lparr> jr_Version = 1, jr_Path = path, jr_Mode = mode,
     jr_PreExists = preExists, jr_PostExists = postExists, jr_Preimage = preimage, jr_Postimage = postimage \<rparr>"

lemma wp_mutateFile:
  fixes path preExists preimage postExists postimage mode and w :: world
  defines "record \<equiv> edit_record path preExists preimage postExists postimage mode"
  shows "io_wp (mutateFile path preExists preimage postExists postimage mode) (edit_left w (fresh_journal (w_native w)) record) w"
proof -
  define name where "name = fresh_journal (w_native w)"
  have fresh: "name \<notin> fst ` set (w_native w)" unfolding name_def by (rule fresh_journal_new)
  have mkdir: "io_wp (io_wrap msg MkdirAll) (\<lambda>_. pre_edit w name record None) w" for msg
    unfolding MkdirAll_def by (rule wp_wrap, rule wp_mono [OF wp_pre_call [OF pre_edit_start]]) (auto split: outcome.split)
  have create: "io_wp (io_wrap msg create_journal) (\<lambda>r w1. case r of
      Done n \<Rightarrow> n = name \<and> pre_edit w name record (Some PartialJournal) w1 | _ \<Rightarrow> pre_edit w name record None w1) w1"
    if "pre_edit w name record None w1" for msg w1
    by (rule wp_wrap, rule wp_mono [OF wp_create_journal [OF that [unfolded name_def]]])
      (auto simp: name_def split: outcome.splits)
  have target: "io_wp (mutate_target name record) (edit_left w name record) w1"
    if "pre_edit w name record (Some (CompleteJournal record)) w1" for w1
    using wp_mutate_target [OF fresh] that by (simp add: pre_edit_def)
  have rest: "io_wp (io_bind io_call (\<lambda>_. io_bind (write_journal name record) (\<lambda>_. io_bind io_call (\<lambda>_. io_bind io_call (\<lambda>_.
      mutate_target name record))))) (edit_left w name record) w1" if "pre_edit w name record (Some PartialJournal) w1" for w1
    by (rule wp_bindI [OF wp_pre_call [OF that]], rule wp_bindI [OF wp_write_journal [OF fresh]],
        assumption, rule wp_bindI [OF wp_pre_call], simp, rule wp_bindI [OF wp_pre_call], assumption, rule target)
      (auto intro: pre_edit_left)
  show ?thesis
    unfolding mutateFile_def Let_def name_def [symmetric] edit_record_def [symmetric] record_def [symmetric]
    by (rule wp_bindI [OF mkdir], rule wp_bindI [OF create])
      (auto simp del: wp_bind intro: rest pre_edit_left)
qed


section \<open>Recovery after a crash\<close>

lemma stateMatches_iff:
  "stateMatches files path True content \<longleftrightarrow> (\<exists>meta. files path = Some (FileNode content meta))"
  "stateMatches files path False content \<longleftrightarrow> files path = None"
  using content_kind_cases
  by (auto simp: stateMatches_def inspectPath_def diskSnapshot_def missing_snapshot_def regularFile_def split: option.splits fs_node.splits)

lemma written_matches: "written_node record node \<Longrightarrow> files path = node \<Longrightarrow> stateMatches files path (jr_PostExists record) (jr_Postimage record)"
  by (cases "jr_PostExists record") (auto simp: written_node_def stateMatches_iff)

lemma stateMatches_cong: "files path = files' path \<Longrightarrow> stateMatches files path exists content = stateMatches files' path exists content"
  by (simp add: stateMatches_def inspectPath_def)

text \<open>The preimage, with the mode the journal recorded, is the object the edit found.\<close>

lemma restored_same_object:
  assumes current: "stateMatches files path (jr_PreExists record) (jr_Preimage record)"
    and mode: "and (jr_Mode record) permMask = jr_Mode record"
      "\<And>content meta. files path = Some (FileNode content meta) \<Longrightarrow> nm_Mode meta = jr_Mode record"
    and found: "node = files path \<or> written_node record node"
    and restored: "if stateMatches (\<lambda>_. node) path (jr_PreExists record) (jr_Preimage record) then node' = node
      else if jr_PreExists record then \<exists>meta. node' = Some (FileNode (jr_Preimage record) meta) \<and> nm_Mode meta = and (jr_Mode record) permMask
      else node' = None"
  shows "same_object node' (files path)"
proof (cases "stateMatches (\<lambda>_. node) path (jr_PreExists record) (jr_Preimage record)")
  case True
  then show ?thesis using found restored current mode
    by (cases "jr_PreExists record") (auto simp: stateMatches_iff written_node_def split: if_splits)
next
  case False
  then show ?thesis using restored current mode by (cases "jr_PreExists record") (auto simp: stateMatches_iff)
qed

text \<open>With nothing failing any more, every step is a function.\<close>

lemma quiet_call: "w_io w = [] \<Longrightarrow> io_call w = (Done (), w)"
  by (simp add: io_call_def)

lemma quiet_restore:
  assumes "w_io w = []" "stateMatches (w_files w) path (jr_PostExists record) (jr_Postimage record)"
  shows "\<exists>w'. restore_target record path w = (Done (), w') \<and> w_io w' = [] \<and> w_native w' = w_native w \<and>
    (\<forall>p. p \<noteq> path \<longrightarrow> w_files w' p = w_files w p) \<and>
    (if jr_PreExists record
     then \<exists>meta. w_files w' path = Some (FileNode (jr_Preimage record) meta) \<and> nm_Mode meta = and (jr_Mode record) permMask
     else w_files w' path = None)"
proof -
  have "\<not> is_directory (w_files w path)" using assms(2) by (cases "jr_PostExists record") (auto simp: stateMatches_iff)
  then show ?thesis using assms(1)
    by (simp add: restore_target_def atomicWriteFile_def writeTempAndRename_def os_Remove_def syncDirectory_def put_node_def new_meta_def
        quiet_call io_defs)
qed

lemma quiet_clear:
  assumes "w_io w = []" "w_native w = [(name, j)]"
  shows "remove_native name w = (Done (), w\<lparr> w_native := [] \<rparr>)"
  using assms by (simp add: remove_native_def quiet_call io_defs)

lemma quiet_recover_none:
  assumes "w_io w = []" "w_stateDir w" "w_native w = []"
  shows "Recover w = (Done (no_recovery, []), w)"
  using assms by (simp add: Recover_def RecoverNativeJournals_def RecoverNativeJournalsFor_def quiet_call io_defs sort_result_def no_recovery_def)

lemma quiet_recover_one:
  assumes "w_io w = []" "w_stateDir w" "w_native w = [(name, j)]"
    and "recoverNativeJournal (\<lambda>_. [w_resolve w]) name no_recovery w = (Done result, w')"
  shows "Recover w = (Done (sort_result result, []), w')"
  using assms by (simp add: Recover_def RecoverNativeJournals_def RecoverNativeJournalsFor_def quiet_call io_defs)

lemma quiet_recover_partial:
  assumes "w_io w = []" "w_stateDir w" "w_native w = [(name, PartialJournal)]"
  shows "Recover w = (Done (sort_result (no_recovery\<lparr> rr_Discarded := [name] \<rparr>), []), w\<lparr> w_native := [] \<rparr>)"
  by (rule quiet_recover_one [OF assms])
    (use assms quiet_clear [OF assms(1,3)] in \<open>simp add: recoverNativeJournal_def quiet_call io_defs no_recovery_def\<close>)

text \<open>A complete journal of an owned path: the path holds one of the two images and ends with the first.\<close>

lemma quiet_recover_complete:
  assumes w: "w_io w = []" "w_stateDir w" "w_native w = [(name, CompleteJournal record)]"
    and entry: "jr_Version record = 1" "IsAbs (jr_Path record)" "w_resolve w (jr_Path record) = Ok (jr_Path record)"
    and images: "stateMatches (w_files w) (jr_Path record) (jr_PreExists record) (jr_Preimage record) \<or>
      stateMatches (w_files w) (jr_Path record) (jr_PostExists record) (jr_Postimage record)"
  shows "\<exists>result w'. Recover w = (Done (result, []), w') \<and> w_native w' = [] \<and> rr_Conflicts result = [] \<and>
    (if stateMatches (w_files w) (jr_Path record) (jr_PreExists record) (jr_Preimage record) then w_files w' = w_files w
     else (\<forall>p. p \<noteq> jr_Path record \<longrightarrow> w_files w' p = w_files w p) \<and>
       (if jr_PreExists record
        then \<exists>meta. w_files w' (jr_Path record) = Some (FileNode (jr_Preimage record) meta) \<and> nm_Mode meta = and (jr_Mode record) permMask
        else w_files w' (jr_Path record) = None))"
proof (cases "stateMatches (w_files w) (jr_Path record) (jr_PreExists record) (jr_Preimage record)")
  case True
  have "recoverNativeJournal (\<lambda>_. [w_resolve w]) name no_recovery w =
      (Done (no_recovery\<lparr> rr_Cleared := [jr_Path record] \<rparr>), w\<lparr> w_native := [] \<rparr>)"
    using w entry True quiet_clear [OF w(1,3)] by (simp add: recoverNativeJournal_def quiet_call io_defs no_recovery_def)
  from quiet_recover_one [OF w this] show ?thesis using True by (simp add: sort_result_def no_recovery_def)
next
  case False
  then have post: "stateMatches (w_files w) (jr_Path record) (jr_PostExists record) (jr_Postimage record)" using images by simp
  obtain w1 where w1: "restore_target record (jr_Path record) w = (Done (), w1)" "w_io w1 = []" "w_native w1 = [(name, CompleteJournal record)]"
    "\<forall>p. p \<noteq> jr_Path record \<longrightarrow> w_files w1 p = w_files w p"
    "if jr_PreExists record
     then \<exists>meta. w_files w1 (jr_Path record) = Some (FileNode (jr_Preimage record) meta) \<and> nm_Mode meta = and (jr_Mode record) permMask
     else w_files w1 (jr_Path record) = None"
    using quiet_restore [OF w(1) post] w(3) by auto
  have "recoverNativeJournal (\<lambda>_. [w_resolve w]) name no_recovery w =
      (Done (no_recovery\<lparr> rr_Recovered := [jr_Path record] \<rparr>), w1\<lparr> w_native := [] \<rparr>)"
    using w entry False post w1(1) quiet_clear [OF w1(2,3)] by (simp add: recoverNativeJournal_def quiet_call io_defs no_recovery_def)
  from quiet_recover_one [OF w this] show ?thesis using False w1(4,5) by (simp add: sort_result_def no_recovery_def)
qed


section \<open>Examples\<close>

text \<open>A replacement whose process dies right after the rename.\<close>

definition sample_native :: world where
  "sample_native = sample_world [] [(''/r/a'', FileNode ''old'' sample_meta)] (replicate 8 IOk @ [ICrash])"

definition sample_edit :: "unit outcome \<times> world" where
  "sample_edit = mutateFile ''/r/a'' True ''old'' True ''new'' 0x1A4 sample_native"



end
