(* ===== verification/Path_Safety.thy ===== *)
theory Path_Safety
  imports Paths
begin

text \<open>
  A confined path stays in the workspace: lexically it extends the root, and the directory it
  really lives in, after every symbolic link on the way is followed, is inside the root too. How
  the operating system follows links is given by the relation \<open>resolves\<close>; the walk of
  \<open>EvalSymlinks\<close>, which gives up after 255 links, computes it.
\<close>

section \<open>Splitting and joining\<close>

definition plain_part :: "string \<Rightarrow> bool" where
  "plain_part part = (part \<noteq> [] \<and> part \<noteq> ''.'' \<and> part \<noteq> ''..'' \<and> slash \<notin> set part)"

abbreviation plain_parts :: "string list \<Rightarrow> bool" where
  "plain_parts parts \<equiv> list_all plain_part parts"

lemma split_path_nonempty [simp]: "split_path s \<noteq> []"
  by (cases s) (auto split: list.split)

lemma split_path_no_slash: "part \<in> set (split_path s) \<Longrightarrow> slash \<notin> set part"
  by (induction s arbitrary: part) (auto split: if_splits list.splits)

lemma split_path_append: "slash \<notin> set part \<Longrightarrow> split_path (part @ slash # rest) = part # split_path rest"
  by (induction part) auto

lemma split_path_part: "slash \<notin> set part \<Longrightarrow> split_path part = [part]"
  by (induction part) auto

lemma split_join: "parts \<noteq> [] \<Longrightarrow> \<forall>part \<in> set parts. slash \<notin> set part \<Longrightarrow> split_path (join_path parts) = parts"
  by (induction parts rule: join_path.induct) (auto simp: split_path_part split_path_append)

lemma plain_no_slash: "plain_parts parts \<Longrightarrow> \<forall>part \<in> set parts. slash \<notin> set part"
  by (auto simp: list_all_iff plain_part_def)

lemma split_rooted: "plain_parts parts \<Longrightarrow> split_path (rooted_path parts) = (if parts = [] then [[], []] else [] # parts)"
  by (auto simp: rooted_path_def plain_no_slash split_join)

lemma IsAbs_rooted [simp]: "IsAbs (rooted_path parts)"
  by (simp add: IsAbs_def rooted_path_def)

lemma clean_plain: "plain_parts parts \<Longrightarrow> clean_parts rooted kept parts = kept @ parts"
  by (induction parts arbitrary: kept) (auto simp: plain_part_def)

lemma clean_parts_plain:
  "plain_parts kept \<Longrightarrow> \<forall>part \<in> set parts. slash \<notin> set part \<Longrightarrow> plain_parts (clean_parts True kept parts)"
proof (induction parts arbitrary: kept)
  case (Cons part parts)
  have "plain_parts (butlast kept)" using Cons.prems(1) by (auto simp: list_all_iff dest: in_set_butlastD)
  then show ?case using Cons.IH [of kept] Cons.IH [of "butlast kept"] Cons.IH [of "kept @ [part]"] Cons.prems
    by (auto simp: plain_part_def [of part])
qed simp

lemma path_parts_plain: "IsAbs path \<Longrightarrow> plain_parts (path_parts path)"
  by (auto simp: path_parts_def intro!: clean_parts_plain dest: split_path_no_slash)

lemma path_parts_rooted [simp]: "plain_parts parts \<Longrightarrow> path_parts (rooted_path parts) = parts"
  by (simp add: path_parts_def split_rooted clean_plain)

lemma Clean_abs: "IsAbs path \<Longrightarrow> Clean path = rooted_path (path_parts path)"
  by (simp add: Clean_def)

lemma Clean_rooted [simp]: "plain_parts parts \<Longrightarrow> Clean (rooted_path parts) = rooted_path parts"
  by (simp add: Clean_abs)

lemma rooted_inject: "plain_parts a \<Longrightarrow> plain_parts b \<Longrightarrow> rooted_path a = rooted_path b \<longleftrightarrow> a = b"
  by (metis path_parts_rooted)

lemma Join_rooted:
  assumes "plain_parts parts" "plain_part part"
  shows "Join (rooted_path parts) part = rooted_path (parts @ [part])"
proof -
  have "rooted_path parts @ slash # part = rooted_path (parts @ [part]) \<or> parts = [] \<and> rooted_path parts @ slash # part = slash # slash # part"
    by (induction parts rule: join_path.induct) (auto simp: rooted_path_def)
  moreover have "Clean (slash # slash # part) = rooted_path [part]"
    using assms(2) by (auto simp: Clean_def path_parts_def IsAbs_def split_path_part plain_part_def)
  moreover have "plain_parts (parts @ [part])" using assms by simp
  ultimately show ?thesis using assms(2) by (auto simp: Join_def plain_part_def rooted_path_def [of parts])
qed

section \<open>Inside the root\<close>

lemma strip_common_prefix:
  "strip_common base target = (b, t) \<Longrightarrow> \<exists>common. base = common @ b \<and> target = common @ t \<and> (b = [] \<or> t = [] \<or> hd b \<noteq> hd t)"
  by (induction base target arbitrary: b t rule: strip_common.induct) (fastforce split: if_splits)+

lemma leaves_join:
  assumes "plain_parts t"
  shows "leaves_root (join_path (replicate n ''..'' @ t)) \<longleftrightarrow> n > 0"
proof (cases n)
  case 0
  show ?thesis
  proof (cases t)
    case (Cons part rest)
    then have part: "plain_part part" using assms by simp
    have "\<not> leaves_root (part @ slash # s)" "\<not> leaves_root part" for s
      using part by (auto simp: leaves_root_def plain_part_def HasPrefix_append Cons_eq_append_conv append_eq_Cons_conv)
    then show ?thesis using 0 Cons by (cases rest) auto
  qed (simp add: 0 leaves_root_def)
next
  case (Suc m)
  then show ?thesis by (cases "replicate m ''..'' @ t") (auto simp: leaves_root_def)
qed

lemma Rel_rooted:
  assumes "plain_parts root" "plain_parts target"
  obtains rel where "Rel (rooted_path root) (rooted_path target) = Ok rel" "leaves_root rel \<longleftrightarrow> \<not> prefix root target"
    "prefix root target \<Longrightarrow> rel = (if target = root then ''.'' else join_path (drop (length root) target))"
proof (cases "root = target")
  case True
  then show thesis using that [of "''.''"] assms by (simp add: Rel_def leaves_root_def)
next
  case False
  obtain b t where strip: "strip_common root target = (b, t)" by fastforce
  then obtain common where common: "root = common @ b" "target = common @ t" "b = [] \<or> t = [] \<or> hd b \<noteq> hd t"
    using strip_common_prefix by blast
  have plain: "plain_parts b" "plain_parts t" using assms common(1,2) by auto
  have "''..'' \<notin> set (take 1 b)" using plain(1) by (auto simp: list_all_iff plain_part_def dest!: in_set_takeD)
  then have rel: "Rel (rooted_path root) (rooted_path target) = Ok (join_path (replicate (length b) ''..'' @ t))"
    using assms False strip by (simp add: Rel_def rooted_inject)
  have pre: "prefix root target \<longleftrightarrow> b = []"
    using common by (cases b; cases t) auto
  show thesis
    by (rule that [OF rel]) (use pre common False plain in \<open>auto simp: leaves_join\<close>)
qed

lemma insidePath_rooted:
  assumes "plain_parts root" "plain_parts target"
  shows "insidePath (rooted_path root) (rooted_path target) \<longleftrightarrow> prefix root target"
  using Rel_rooted [OF assms] by (metis insidePath_def sum.case(2))

section \<open>Following links\<close>

text \<open>\<open>resolves files here parts real\<close>: from the real directory \<open>here\<close>, the name \<open>parts\<close> leads to \<open>real\<close>.\<close>

inductive resolves :: "tree \<Rightarrow> string list \<Rightarrow> string list \<Rightarrow> string list \<Rightarrow> bool" for files where
  here: "resolves files here [] here"
| dot: "part = [] \<or> part = ''.'' \<Longrightarrow> resolves files here parts real \<Longrightarrow> resolves files here (part # parts) real"
| up: "resolves files (butlast here) parts real \<Longrightarrow> resolves files here (''..'' # parts) real"
| down: "part \<notin> {[], ''.'', ''..''} \<Longrightarrow> files (rooted_path (here @ [part])) = Some (DirNode meta) \<Longrightarrow>
    resolves files (here @ [part]) parts real \<Longrightarrow> resolves files here (part # parts) real"
| leaf: "part \<notin> {[], ''.'', ''..''} \<Longrightarrow> files (rooted_path (here @ [part])) = Some node \<Longrightarrow> \<not> is_link node \<Longrightarrow>
    resolves files here [part] (here @ [part])"
| link: "part \<notin> {[], ''.'', ''..''} \<Longrightarrow> files (rooted_path (here @ [part])) = Some (LinkNode target meta) \<Longrightarrow>
    resolves files (if IsAbs target then [] else here) (split_path target @ parts) real \<Longrightarrow> resolves files here (part # parts) real"

inductive_simps resolves_nil [simp]: "resolves files here [] real"
inductive_simps resolves_cons: "resolves files here (part # parts) real"

lemma resolves_dot [simp]:
  "part = [] \<or> part = ''.'' \<Longrightarrow> resolves files here (part # parts) real \<longleftrightarrow> resolves files here parts real"
  "resolves files here (''..'' # parts) real \<longleftrightarrow> resolves files (butlast here) parts real"
  by (auto simp: resolves_cons)

lemma resolves_step:
  assumes "part \<notin> {[], ''.'', ''..''}"
  shows "resolves files here (part # parts) real \<longleftrightarrow>
    (case files (rooted_path (here @ [part])) of
       None \<Rightarrow> False
     | Some (LinkNode target _) \<Rightarrow> resolves files (if IsAbs target then [] else here) (split_path target @ parts) real
     | Some (DirNode _) \<Rightarrow> resolves files (here @ [part]) parts real
     | Some _ \<Rightarrow> parts = [] \<and> real = here @ [part])"
  using assms by (subst resolves_cons) (auto split: option.split fs_node.split elim: is_link.elims)

lemma walk_resolves: "walk_links files links here parts = Ok real \<Longrightarrow> resolves files here parts real"
proof (induction files links here parts rule: walk_links.induct)
  case (2 files links here part parts)
  show ?case
  proof (cases "part = [] \<or> part = ''.'' \<or> part = ''..''")
    case True
    then show ?thesis using 2 by (auto simp: walk_links.simps(2))
  next
    case plain: False
    then obtain node where node: "files (rooted_path (here @ [part])) = Some node"
      using "2.prems" by (auto simp: walk_links.simps(2) split: option.splits)
    show ?thesis
    proof (cases node)
      case (LinkNode target meta)
      then obtain left where left: "links = Suc left" using "2.prems" plain node by (cases links) (auto simp: walk_links.simps(2))
      have "walk_links files left (if IsAbs target then [] else here) (split_path target @ parts) = Ok real"
        using "2.prems" plain node LinkNode left by (simp add: walk_links.simps(2))
      from "2.IH"(3) [OF _ _ node LinkNode left this] show ?thesis using plain node LinkNode by (simp add: resolves_step)
    qed (use 2 plain node in \<open>auto simp: walk_links.simps(2) resolves_step split: if_splits\<close>)
  qed
qed simp

lemma resolves_det: "resolves files here parts real \<Longrightarrow> resolves files here parts real' \<Longrightarrow> real' = real"
proof (induction arbitrary: real' rule: resolves.induct)
  case (leaf part here node)
  then show ?case by (cases node) (auto simp: resolves_step)
next
  case (down part here meta parts real)
  from down.IH [of real'] down.prems show ?case using down.hyps(1,2) by (auto simp: resolves_step)
next
  case (link part here target meta parts real)
  from link.IH [of real'] link.prems show ?case using link.hyps(1,2) by (auto simp: resolves_step)
qed simp_all

text \<open>A name can be followed in two stages; the second stage starts at a directory.\<close>

definition real_dir :: "tree \<Rightarrow> string list \<Rightarrow> bool" where
  "real_dir files here = (plain_parts here \<and> (\<forall>n. 0 < n \<and> n \<le> length here \<longrightarrow> (\<exists>meta. files (rooted_path (take n here)) = Some (DirNode meta))))"

lemma real_dir_butlast: "real_dir files here \<Longrightarrow> real_dir files (butlast here)"
  by (auto simp: real_dir_def list_all_iff butlast_conv_take min_def dest: in_set_takeD)

lemma real_dir_snoc:
  "real_dir files here \<Longrightarrow> plain_part part \<Longrightarrow> files (rooted_path (here @ [part])) = Some (DirNode meta) \<Longrightarrow> real_dir files (here @ [part])"
  by (auto simp: real_dir_def le_Suc_eq)

lemma real_dir_nil [simp]: "real_dir files []"
  by (simp add: real_dir_def)

lemma resolves_split:
  assumes "resolves files here (parts @ rest) real" "real_dir files here" "\<forall>part \<in> set parts. slash \<notin> set part"
  shows "\<exists>mid. resolves files here parts mid \<and> resolves files mid rest real \<and> (rest \<noteq> [] \<longrightarrow> real_dir files mid)"
  using assms
proof (induction here "parts @ rest" real arbitrary: parts rule: resolves.induct)
  case (here here)
  then show ?case by auto
next
  case (dot part here more real)
  then show ?case by (cases parts) (auto simp: resolves_dot)
next
  case (up here more real)
  then show ?case by (cases parts) (auto dest: real_dir_butlast)
next
  case (down part here meta more real)
  show ?case
  proof (cases parts)
    case (Cons p ps)
    then have part: "plain_part part" "p = part" "more = ps @ rest" using down by (auto simp: plain_part_def)
    from down.hyps(4) [OF part(3) real_dir_snoc [OF down.prems(1) part(1) down.hyps(2)]] down.prems(2) Cons
    show ?thesis using down.hyps(1,2) part Cons by (auto simp: resolves_step)
  qed (use down in \<open>auto simp: resolves_step\<close>)
next
  case (leaf part here node)
  show ?case
  proof (cases parts)
    case (Cons p ps)
    then have "parts = [part]" "rest = []" using leaf.hyps(4) by auto
    then show ?thesis using leaf resolves.leaf by fastforce
  qed (use leaf resolves.leaf in fastforce)
next
  case (link part here target meta more real)
  show ?case
  proof (cases parts)
    case (Cons p ps)
    then have part: "p = part" "more = ps @ rest" using link by auto
    have "real_dir files (if IsAbs target then [] else here)" using link.prems(1) by simp
    moreover have "\<forall>part \<in> set (split_path target @ ps). slash \<notin> set part"
      using link.prems(2) Cons by (auto dest: split_path_no_slash)
    ultimately obtain mid where "resolves files (if IsAbs target then [] else here) (split_path target @ ps) mid"
      "resolves files mid rest real" "rest \<noteq> [] \<longrightarrow> real_dir files mid"
      using link.hyps(4) [of "split_path target @ ps"] part by auto
    then show ?thesis using link.hyps(1,2) part Cons by (auto simp: resolves_step)
  qed (use link in \<open>auto simp: resolves_step\<close>)
qed

lemma real_dir_resolves: "real_dir files (here @ parts) \<Longrightarrow> resolves files here parts (here @ parts)"
proof (induction parts arbitrary: here)
  case (Cons part parts)
  have "real_dir files (here @ [part] @ parts)" using Cons.prems by simp
  then obtain meta where "files (rooted_path (here @ [part])) = Some (DirNode meta)" "plain_part part"
    by (auto simp: real_dir_def dest!: spec [of _ "Suc (length here)"])
  then show ?case using Cons.IH [of "here @ [part]"] Cons.prems by (auto simp: resolves_step plain_part_def)
qed simp

lemma resolves_plain:
  "resolves files here parts real \<Longrightarrow> plain_parts here \<Longrightarrow> \<forall>part \<in> set parts. slash \<notin> set part \<Longrightarrow> plain_parts real"
proof (induction rule: resolves.induct)
  case (up here parts real)
  then show ?case by (auto simp: list_all_iff dest: in_set_butlastD)
next
  case (link part here target meta parts real)
  then show ?case by (auto dest: split_path_no_slash split: if_splits)
qed (auto simp: plain_part_def)

lemma EvalSymlinks_resolves:
  assumes "real_dir files here" "plain_part part" "EvalSymlinks files (rooted_path (here @ [part])) = Ok resolved"
  obtains real where "resolved = rooted_path real" "plain_parts real" "resolves files here [part] real"
proof -
  have plain: "plain_parts (here @ [part])" using assms(1,2) by (simp add: real_dir_def)
  obtain real where real: "resolved = rooted_path real" "walk_links files maxLinks [] (split_path (rooted_path (here @ [part]))) = Ok real"
    using assms(3) by (auto simp: EvalSymlinks_def split: sum.splits)
  then have "resolves files [] ([] # here @ [part]) real" using walk_resolves split_rooted [OF plain] by fastforce
  then have whole: "resolves files [] (here @ [part]) real" by simp
  from resolves_split [OF this] plain_no_slash [of here] plain
  obtain mid where mid: "resolves files [] here mid" "resolves files mid [part] real" by auto
  have "mid = here" using resolves_det [OF _ mid(1)] real_dir_resolves [of files "[]" here] assms(1) by simp
  moreover have "plain_parts real" using resolves_plain [OF whole] plain_no_slash [OF plain] by simp
  ultimately show thesis using that real(1) mid(2) by blast
qed

lemma stays_inside_real:
  assumes "plain_parts root" "real_dir files here" "prefix root here" "plain_parts parts"
    and "stays_inside files (rooted_path root) absolute (rooted_path here) parts = Ok ()" "resolves files here parts real"
  shows "prefix root real"
  using assms(2-)
proof (induction parts arbitrary: here)
  case (Cons part parts)
  have part: "plain_part part" "part \<notin> {[], ''.'', ''..''}" using Cons.prems(3) by (auto simp: plain_part_def)
  have down: "Join (rooted_path here) part = rooted_path (here @ [part])"
    using Cons.prems(1) part(1) by (auto simp: real_dir_def intro: Join_rooted)
  obtain node where node: "files (rooted_path (here @ [part])) = Some node"
    using Cons.prems(5) part(2) by (auto simp: resolves_step split: option.splits)
  have extend: "prefix root (here @ [part])" using Cons.prems(2) by simp
  show ?case
  proof (cases node)
    case (LinkNode target meta)
    obtain resolved where resolved: "EvalSymlinks files (rooted_path (here @ [part])) = Ok resolved"
      "insidePath (rooted_path root) resolved" "stays_inside files (rooted_path root) absolute resolved parts = Ok ()"
      using Cons.prems(4) node LinkNode down by (auto simp: Let_def split: sum.splits if_splits)
    obtain mid where mid: "resolved = rooted_path mid" "plain_parts mid" "resolves files here [part] mid"
      using EvalSymlinks_resolves [OF Cons.prems(1) part(1) resolved(1)] by metis
    have start: "resolves files (if IsAbs target then [] else here) (split_path target) mid"
      "resolves files (if IsAbs target then [] else here) (split_path target @ parts) real"
      using mid(3) Cons.prems(5) part(2) node LinkNode by (auto simp: resolves_step)
    obtain mid' where mid': "resolves files (if IsAbs target then [] else here) (split_path target) mid'"
      "resolves files mid' parts real" "parts \<noteq> [] \<longrightarrow> real_dir files mid'"
      using resolves_split [OF start(2)] Cons.prems(1) split_path_no_slash by (metis real_dir_nil)
    have "mid' = mid" using resolves_det [OF start(1) mid'(1)] .
    moreover have "prefix root mid" using insidePath_rooted [OF assms(1) mid(2)] resolved(2) mid(1) by simp
    ultimately show ?thesis using Cons.IH [of mid] Cons.prems(3) resolved(3) mid(1) mid'(2,3) by (cases "parts = []") auto
  next
    case (DirNode meta)
    then show ?thesis
      using Cons.IH [of "here @ [part]"] Cons.prems real_dir_snoc [OF Cons.prems(1) part(1)] node down part(2) extend
      by (auto simp: Let_def resolves_step)
  qed (use Cons.prems(5) node part(2) extend in \<open>auto simp: resolves_step\<close>)
qed simp

section \<open>Properties\<close>

lemma Join_any_rooted:
  assumes "path \<noteq> []"
  shows "\<exists>parts. plain_parts parts \<and> Join (rooted_path root) path = rooted_path parts"
proof -
  have joined: "IsAbs (rooted_path root @ slash # path)" by (simp add: IsAbs_def rooted_path_def)
  have "Join (rooted_path root) path = Clean (rooted_path root @ slash # path)"
    using assms by (simp add: Join_def rooted_path_def)
  then show ?thesis using path_parts_plain [OF joined] Clean_abs [OF joined] by auto
qed

lemma absolute_path_rooted:
  assumes "path \<noteq> []"
  shows "\<exists>parts. plain_parts parts \<and> absolute_path (rooted_path root) path = rooted_path parts"
proof (cases "IsAbs path")
  case True
  then show ?thesis using path_parts_plain [of path] by (auto simp: absolute_path_def Clean_abs)
next
  case False
  then show ?thesis using Join_any_rooted [OF assms, of root] by (auto simp: absolute_path_def)
qed

text \<open>A confined path is its own confined path.\<close>

lemma confinedPath_again:
  assumes "confinedPath files identity allowlist path = Ok absolute" "id_Root identity = rooted_path root"
  shows "confinedPath files identity allowlist absolute = Ok absolute"
proof -
  have nonempty: "path \<noteq> []" and abs: "absolute = absolute_path (rooted_path root) path"
    using assms by (auto simp: confinedPath_def Let_def split: if_splits sum.splits)
  obtain parts where parts: "plain_parts parts" "absolute = rooted_path parts" using absolute_path_rooted [OF nonempty] abs by metis
  have "absolute_path (rooted_path root) absolute = absolute" "absolute \<noteq> []"
    using parts by (simp_all add: absolute_path_def) (simp add: rooted_path_def)
  then show ?thesis using assms abs by (auto simp: confinedPath_def Let_def split: if_splits sum.splits)
qed

text \<open>
  C6. Confinement. A path the workspace accepts is a clean path below its root and, in a document
  workspace, on its allowlist. When the root is a real directory and the path's parent can be
  reached at all, following every symbolic link on the way to the parent ends inside the root,
  so nothing is read or written in a foreign tree.
\<close>

theorem confinedPath_stays_inside:
  assumes "confinedPath files identity allowlist path = Ok absolute" "id_Root identity = rooted_path root" "plain_parts root"
  shows "\<exists>below. absolute = rooted_path (root @ below) \<and> plain_parts below \<and>
    (id_Kind identity = KindDocuments \<longrightarrow> absolute \<in> set allowlist) \<and>
    (\<forall>real. real_dir files root \<and> below \<noteq> [] \<and> resolves files [] (root @ butlast below) real \<longrightarrow> prefix root real)"
proof -
  have path: "path \<noteq> []" using assms(1) by (auto simp: confinedPath_def)
  obtain parts where parts: "plain_parts parts" "absolute_path (rooted_path root) path = rooted_path parts"
    using absolute_path_rooted [OF path] by blast
  obtain rel where rel: "Rel (rooted_path root) (rooted_path parts) = Ok rel" "leaves_root rel \<longleftrightarrow> \<not> prefix root parts"
    "prefix root parts \<Longrightarrow> rel = (if parts = root then ''.'' else join_path (drop (length root) parts))"
    using Rel_rooted [OF assms(3) parts(1)] by metis
  have checks: "absolute = rooted_path parts" "\<not> leaves_root rel" "parentChainStaysInside files (rooted_path root) absolute rel = Ok ()"
    "id_Kind identity = KindDocuments \<longrightarrow> absolute \<in> set allowlist"
    using assms(1,2) path parts(2) rel(1) by (auto simp: confinedPath_def Let_def split: sum.splits if_splits)
  then obtain below where below: "parts = root @ below" using rel(2) by (auto elim: prefixE)
  then have plain: "plain_parts below" using parts(1) by simp
  have "prefix root real" if real: "real_dir files root" "below \<noteq> []" "resolves files [] (root @ butlast below) real" for real
  proof (rule stays_inside_real [OF assms(3) real(1)])
    have "rel = join_path below" using rel(3) below real(2) by simp
    moreover have "join_path below \<noteq> ''.''"
      using split_join [OF real(2) plain_no_slash [OF plain]] plain by (cases below) (auto simp: plain_part_def)
    ultimately show "stays_inside files (rooted_path root) absolute (rooted_path root) (butlast below) = Ok ()"
      using checks(3) split_join [OF real(2) plain_no_slash [OF plain]] by (simp add: parentChainStaysInside_def)
    show "plain_parts (butlast below)" using plain by (auto simp: list_all_iff dest: in_set_butlastD)
    obtain mid where "resolves files [] root mid" "resolves files mid (butlast below) real"
      using resolves_split [OF real(3)] plain_no_slash [OF assms(3)] by auto
    then show "resolves files root (butlast below) real"
      using resolves_det [of files "[]" root root] real_dir_resolves [of files "[]" root] real(1) by auto
  qed simp
  then show ?thesis using checks(1,4) below plain by blast
qed

text \<open>A root with a link that leaves it and one that stays in it.\<close>

definition sample_tree :: tree where
  "sample_tree = map_of [(''/r'', DirNode sample_meta), (''/r/src'', DirNode sample_meta), (''/r/src/a'', FileNode ''x'' sample_meta),
     (''/r/in'', LinkNode ''src'' sample_meta), (''/r/out'', LinkNode ''/etc'' sample_meta), (''/etc'', DirNode sample_meta)]"

definition sample_identity :: Identity where
  "sample_identity = \<lparr> id_ID = ''ws'', id_Kind = KindProject, id_Root = ''/r'', id_Epoch = 1, id_StateSeq = 1 \<rparr>"

theorem confinedPath_stays_inside_witness:
  "confinedPath sample_tree sample_identity [] ''in/../in/./a'' = Ok ''/r/in/a'' \<and> resolves sample_tree [] [''r'', ''in''] [''r'', ''src''] \<and>
     prefix [''r''] [''r'', ''src''] \<and> confinedPath sample_tree sample_identity [] ''out/a'' = Error (SymlinkEscapeError ''/r/out/a'' ''/r/out'' ''/r'')"
proof -
  have runs: "confinedPath sample_tree sample_identity [] ''in/../in/./a'' = Ok ''/r/in/a''"
    "confinedPath sample_tree sample_identity [] ''out/a'' = Error (SymlinkEscapeError ''/r/out/a'' ''/r/out'' ''/r'')"
    "walk_links sample_tree 1 [] [''r'', ''in''] = Ok [''r'', ''src'']" by code_simp+
  have root: "id_Root sample_identity = rooted_path [''r'']" "plain_parts [''r'']"
    by (simp_all add: sample_identity_def rooted_path_def plain_part_def)
  have dir: "real_dir sample_tree [''r'']"
    by (auto simp: real_dir_def plain_part_def sample_tree_def rooted_path_def le_Suc_eq)
  obtain below where below: "''/r/in/a'' = rooted_path ([''r''] @ below)" "plain_parts below"
    "\<forall>real. real_dir sample_tree [''r''] \<and> below \<noteq> [] \<and> resolves sample_tree [] ([''r''] @ butlast below) real \<longrightarrow> prefix [''r''] real"
    using confinedPath_stays_inside [OF runs(1) root] by auto
  have "path_parts ''/r/in/a'' = [''r''] @ below" using below(1,2) root(2) by (metis list_all_append path_parts_rooted)
  moreover have "path_parts ''/r/in/a'' = [''r'', ''in'', ''a'']" by code_simp
  ultimately have "below = [''in'', ''a'']" by simp
  moreover have real: "resolves sample_tree [] [''r'', ''in''] [''r'', ''src'']" by (rule walk_resolves [OF runs(3)])
  ultimately have "prefix [''r''] [''r'', ''src'']" using below(3) dir by simp
  then show ?thesis using runs real by blast
qed

section \<open>The common root of documents\<close>

lemma Abs_rooted:
  assumes "name \<noteq> []"
  shows "\<exists>parts. plain_parts parts \<and> Abs (rooted_path cwd) name = rooted_path parts"
  using Join_any_rooted [OF assms] path_parts_plain [of name] by (auto simp: Abs_def Clean_abs)

lemma raise_root_common:
  "plain_parts root \<Longrightarrow> plain_parts parts \<Longrightarrow>
     \<exists>raised. raise_root root (rooted_path parts) = Ok (rooted_path raised) \<and> prefix raised root \<and> prefix raised parts"
proof (induction root rule: rev_induct)
  case Nil
  then show ?case by (subst raise_root.simps) (simp add: insidePath_rooted)
next
  case (snoc part root)
  then obtain raised where "raise_root root (rooted_path parts) = Ok (rooted_path raised)" "prefix raised root" "prefix raised parts" by auto
  then show ?case using snoc.prems
    by (subst raise_root.simps) (auto simp: insidePath_rooted intro: prefix_order.order_trans)
qed

lemma common_root_inside:
  assumes "plain_parts root" "[] \<notin> set names"
  shows "\<exists>raised. common_root (rooted_path cwd) (rooted_path root) names = Ok (rooted_path raised) \<and> prefix raised root \<and>
    (\<forall>name \<in> set names. insidePath (rooted_path raised) (Abs (rooted_path cwd) name))"
  using assms
proof (induction names arbitrary: root)
  case (Cons name names)
  obtain parts where parts: "plain_parts parts" "Abs (rooted_path cwd) name = rooted_path parts"
    using Abs_rooted Cons.prems(2) by (metis list.set_intros(1))
  obtain raised where raised: "raise_root root (rooted_path parts) = Ok (rooted_path raised)" "prefix raised root" "prefix raised parts"
    using raise_root_common [OF Cons.prems(1) parts(1)] by blast
  have "plain_parts raised" using raised(2) Cons.prems(1) by (auto simp: prefix_def)
  then obtain final where final: "common_root (rooted_path cwd) (rooted_path raised) names = Ok (rooted_path final)" "prefix final raised"
    "\<forall>name \<in> set names. insidePath (rooted_path final) (Abs (rooted_path cwd) name)"
    using Cons.IH [of raised] Cons.prems(2) by auto
  moreover have "plain_parts final" using final(2) \<open>plain_parts raised\<close> by (auto simp: prefix_def)
  then have "insidePath (rooted_path final) (rooted_path parts)"
    using insidePath_rooted parts(1) final(2) raised(3) by (metis prefix_order.order_trans)
  ultimately show ?case using raised parts Cons.prems(1)
    by (auto intro: prefix_order.order_trans)
qed auto

lemma Dir_rooted:
  assumes "plain_parts parts"
  shows "Dir (rooted_path parts) = rooted_path (butlast parts)"
proof (cases parts rule: rev_cases)
  case Nil
  then show ?thesis by (simp add: Dir_def rooted_path_def) (simp add: Clean_def IsAbs_def path_parts_def rooted_path_def)
next
  case (snoc front part)
  have part: "slash \<notin> set part" "plain_parts front" using assms snoc by (auto simp: plain_part_def)
  have join: "front \<noteq> [] \<Longrightarrow> join_path (front @ [part]) = join_path front @ slash # part"
    by (induction front rule: join_path.induct) auto
  have drop: "dropWhile (\<lambda>c. c \<noteq> slash) (rev part @ slash # rest) = slash # rest" for rest
    using part(1) by (subst dropWhile_append2) auto
  have "Dir (rooted_path parts) = Clean (if front = [] then [slash] else rooted_path front @ [slash])"
    using join by (auto simp: Dir_def snoc rooted_path_def drop)
  moreover have "Clean [slash] = rooted_path []" by (simp add: Clean_def IsAbs_def path_parts_def rooted_path_def)
  moreover have "Clean (rooted_path front @ [slash]) = rooted_path front" if "front \<noteq> []"
  proof -
    have split: "split_path (s @ [slash]) = split_path s @ [[]]" for s
      by (induction s) (auto split: list.split)
    have cleaned: "clean_parts rooted kept (xs @ [[]]) = clean_parts rooted kept xs" for rooted kept xs
      by (induction xs arbitrary: kept) auto
    have "IsAbs (rooted_path front @ [slash])" by (simp add: IsAbs_def rooted_path_def)
    then show ?thesis using path_parts_rooted [OF part(2)] by (simp add: Clean_abs path_parts_def split cleaned)
  qed
  ultimately show ?thesis using snoc by simp
qed

text \<open>
  C37. The walk up to a common root ends. For any non-empty list of document names there is a common root:
  the loop that walks up from the first document's directory always returns, at the latest at
  the root of the file system, and every document lies inside the directory it returns.
\<close>

theorem commonRoot_returns:
  assumes "names \<noteq> []" "[] \<notin> set names"
  shows "\<exists>root. commonRoot (rooted_path cwd) names = Ok root \<and> (\<forall>name \<in> set names. insidePath root (Abs (rooted_path cwd) name))"
proof -
  obtain first rest where names: "names = first # rest" using assms(1) by (cases names) auto
  obtain parts where parts: "plain_parts parts" "Abs (rooted_path cwd) first = rooted_path parts"
    using Abs_rooted assms(2) names by (metis list.set_intros(1))
  have plain: "plain_parts (butlast parts)" using parts(1) by (auto simp: list_all_iff dest: in_set_butlastD)
  obtain raised where raised: "common_root (rooted_path cwd) (rooted_path (butlast parts)) rest = Ok (rooted_path raised)"
    "prefix raised (butlast parts)" "\<forall>name \<in> set rest. insidePath (rooted_path raised) (Abs (rooted_path cwd) name)"
    using common_root_inside [OF plain, of rest cwd] assms(2) names by auto
  have "plain_parts raised" using raised(2) plain by (auto simp: prefix_def)
  moreover have "prefix raised parts" using raised(2) by (metis prefix_order.order_trans prefixeq_butlast)
  ultimately show ?thesis using raised parts names
    by (auto simp: commonRoot_def Dir_rooted insidePath_rooted)
qed

theorem commonRoot_returns_witness:
  "\<exists>root. commonRoot ''/r'' [''a/b'', ''/r/c''] = Ok root \<and> insidePath root ''/r/a/b''"
proof -
  have cwd: "''/r'' = rooted_path [''r'']" by (simp add: rooted_path_def)
  have "Abs ''/r'' ''a/b'' = ''/r/a/b''" by code_simp
  then show ?thesis using commonRoot_returns [of "[''a/b'', ''/r/c'']" "[''r'']"] cwd by auto
qed

end
