(* ===== verification/Document_History.thy ===== *)
theory Document_History
  imports Documents
begin

text \<open>
  The bounded history of revisions: every document keeps its current revision and at most
  thirty-one superseded ones, what the budget counts is exactly what is superseded, and the
  superseded revisions of all documents together fit the budget.
\<close>

section \<open>What the budget tracks\<close>

definition tracked :: "(string \<Rightarrow> string set) \<Rightarrow> doc_state \<Rightarrow> bool" where
  "tracked superseded w =
     (distinct (map hr_id (rb_order (dw_historical w))) \<and>
      rb_bytes (dw_historical w) = sum_list (map hr_bytes (rb_order (dw_historical w))) \<and>
      (\<forall>p rid. rid \<in> superseded p \<longleftrightarrow> (\<exists>e \<in> set (rb_order (dw_historical w)). hr_path e = p \<and> hr_id e = rid)))"

lemma tracked_retire:
  assumes "tracked superseded w" "dw_revisions w rid = Some snap" "\<forall>p. rid \<notin> superseded p"
  shows "tracked (superseded(path := insert rid (superseded path))) (retireRevisionLocked path rid w)"
proof -
  have "\<not> in_order rid w" using assms(1,3) by (auto simp: in_order_def tracked_def Let_def)
  then show ?thesis using assms
    by (auto simp: retireRevisionLocked_def tracked_def Let_def in_order_def)
qed

lemma tracked_revive:
  assumes "tracked superseded w"
  shows "tracked (\<lambda>p. superseded p - {rid}) (reviveRevisionLocked rid w)"
proof (cases "find (\<lambda>entry. hr_id entry = rid) (rb_order (dw_historical w))")
  case None
  then have "rid \<notin> superseded p" for p using assms by (auto simp: tracked_def find_None_iff)
  then have "(\<lambda>p. superseded p - {rid}) = superseded" by auto
  then show ?thesis using assms None by (simp add: reviveRevisionLocked_def Let_def)
next
  case (Some entry)
  then have entry: "entry \<in> set (rb_order (dw_historical w))" "hr_id entry = rid" by (auto simp: find_Some_iff)
  have ids: "distinct (map hr_id (rb_order (dw_historical w)))" using assms by (simp add: tracked_def)
  then have set1: "set (remove1 entry (rb_order (dw_historical w))) = set (rb_order (dw_historical w)) - {entry}"
    by (simp add: distinct_map)
  have other: "e = entry" if "e \<in> set (rb_order (dw_historical w))" "hr_id e = rid" for e
    using ids that entry by (auto simp: distinct_map inj_on_def)
  have "distinct (map hr_id (remove1 entry (rb_order (dw_historical w))))"
    using ids by (auto simp: distinct_map set1 inj_on_def)
  moreover have "sum_list (map hr_bytes (rb_order (dw_historical w))) =
      hr_bytes entry + sum_list (map hr_bytes (remove1 entry (rb_order (dw_historical w))))"
    using entry(1) by (rule sum_list_map_remove1)
  moreover have "(rid' \<in> superseded p - {rid}) = (\<exists>e \<in> set (rb_order (dw_historical w)) - {entry}. hr_path e = p \<and> hr_id e = rid')" for p rid'
  proof -
    have mem: "x \<in> superseded p \<longleftrightarrow> (\<exists>e \<in> set (rb_order (dw_historical w)). hr_path e = p \<and> hr_id e = x)" for x
      using assms by (simp add: tracked_def)
    show ?thesis using entry(2) other by (auto simp: mem)
  qed
  ultimately show ?thesis using assms Some
    by (simp add: reviveRevisionLocked_def Let_def tracked_def set1)
qed

lemma revive_fields [simp]:
  "dw_revisions (reviveRevisionLocked rid w) = dw_revisions w" "dw_history (reviveRevisionLocked rid w) = dw_history w"
  "dw_observed (reviveRevisionLocked rid w) = dw_observed w" "dw_documents (reviveRevisionLocked rid w) = dw_documents w" "dw_identity (reviveRevisionLocked rid w) = dw_identity w"
  "rb_limit (dw_historical (reviveRevisionLocked rid w)) = rb_limit (dw_historical w)"
  by (simp_all add: reviveRevisionLocked_def Let_def split: option.split)

lemma retire_fields [simp]:
  "dw_revisions (retire_current path rid w) = dw_revisions w" "dw_history (retire_current path rid w) = dw_history w"
  "dw_observed (retire_current path rid w) = dw_observed w" "dw_documents (retire_current path rid w) = dw_documents w" "dw_identity (retire_current path rid w) = dw_identity w"
  "rb_limit (dw_historical (retire_current path rid w)) = rb_limit (dw_historical w)"
  by (simp_all add: retire_current_def retireRevisionLocked_def Let_def split: option.split)

text \<open>Pruning drops the oldest revisions beyond the bound, one after the other.\<close>

definition drop_revision :: "string \<Rightarrow> doc_state \<Rightarrow> doc_state" where
  "drop_revision rid w = (reviveRevisionLocked rid w)\<lparr> dw_revisions := (dw_revisions w)(rid := None) \<rparr>"

lemma prune_history_fold:
  "prune_history history w =
     (drop (length history - maxRevisionsPerDocument) history,
      fold drop_revision (take (length history - maxRevisionsPerDocument) history) w)"
  by (induction history w rule: prune_history.induct) (auto simp: drop_revision_def Suc_diff_le)

lemma fold_drop_fields [simp]:
  "dw_history (fold drop_revision rids w) = dw_history w" "dw_documents (fold drop_revision rids w) = dw_documents w"
  "dw_identity (fold drop_revision rids w) = dw_identity w" "dw_observed (fold drop_revision rids w) = dw_observed w"
  "rb_limit (dw_historical (fold drop_revision rids w)) = rb_limit (dw_historical w)"
  by (induction rids arbitrary: w) (simp_all add: drop_revision_def)

lemma fold_drop_revisions:
  "dw_revisions (fold drop_revision rids w) rid = (if rid \<in> set rids then None else dw_revisions w rid)"
  by (induction rids arbitrary: w) (auto simp: drop_revision_def)

lemma tracked_drop: "tracked superseded w \<Longrightarrow> tracked (\<lambda>p. superseded p - {rid}) (drop_revision rid w)"
  using tracked_revive [of superseded w rid] by (simp add: drop_revision_def tracked_def)

lemma tracked_fold_drop: "tracked superseded w \<Longrightarrow> tracked (\<lambda>p. superseded p - set rids) (fold drop_revision rids w)"
proof (induction rids arbitrary: w superseded)
  case (Cons rid rids)
  from Cons.IH [OF tracked_drop [OF Cons.prems]] show ?case by (simp add: Diff_insert2 [symmetric])
qed simp

section \<open>The invariant of the history\<close>

definition revisions_ok :: "doc_state \<Rightarrow> bool" where
  "revisions_ok w =
     ((\<forall>p. distinct (dw_history w p) \<and> length (dw_history w p) \<le> maxRevisionsPerDocument) \<and>
      (\<forall>p q. p \<noteq> q \<longrightarrow> set (dw_history w p) \<inter> set (dw_history w q) = {}) \<and>
      (\<forall>rid. dw_revisions w rid \<noteq> None \<longleftrightarrow> (\<exists>p. rid \<in> set (dw_history w p))) \<and>
      tracked (\<lambda>p. set (butlast (dw_history w p))) w)"

definition within_budget :: "doc_state \<Rightarrow> bool" where
  "within_budget w = (rb_bytes (dw_historical w) \<le> rb_limit (dw_historical w))"

lemma revisions_known: "revisions_ok w \<Longrightarrow> (\<exists>snap. dw_revisions w rid = Some snap) \<longleftrightarrow> (\<exists>p. rid \<in> set (dw_history w p))"
  by (simp add: revisions_ok_def)

lemma revisions_disjoint: "revisions_ok w \<Longrightarrow> rid \<in> set (dw_history w p) \<Longrightarrow> rid \<in> set (dw_history w q) \<Longrightarrow> p = q"
  unfolding revisions_ok_def by (metis disjoint_iff)

lemma butlast_remove1: "x \<in> set (butlast xs) \<Longrightarrow> butlast (remove1 x xs) = remove1 x (butlast xs) \<and> last (remove1 x xs) = last xs \<and> remove1 x xs \<noteq> []"
proof (induction xs)
  case (Cons y ys)
  show ?case
  proof (cases "ys = []")
    case False
    then show ?thesis using Cons by (cases "x = y") auto
  qed (use Cons in simp)
qed simp

lemma evict_ok:
  assumes ok: "revisions_ok w" and order: "rb_order (dw_historical w) = entry # rest"
  shows "revisions_ok (evict_front entry w)"
    and "last (dw_history (evict_front entry w) p) = last (dw_history w p)"
    and "dw_history w p \<noteq> [] \<Longrightarrow> dw_history (evict_front entry w) p \<noteq> []"
proof -
  let ?p = "hr_path entry" and ?rid = "hr_id entry"
  have mem: "?rid \<in> set (butlast (dw_history w ?p))"
    using ok order by (auto simp: revisions_ok_def tracked_def)
  note facts = butlast_remove1 [OF mem]
  have dist: "distinct (dw_history w q)" for q using ok by (simp add: revisions_ok_def)
  then have dist': "distinct (butlast (dw_history w q))" for q by (rule distinct_butlast)
  have elsewhere: "?rid \<notin> set (dw_history w q)" if "q \<noteq> ?p" for q
    using ok that in_set_butlastD [OF mem] by (auto simp: revisions_ok_def)
  have ids: "?rid \<notin> hr_id ` set rest" "distinct (map hr_id rest)" using ok order by (auto simp: revisions_ok_def tracked_def)
  have hist: "dw_history (evict_front entry w) q = (if q = ?p then remove1 ?rid (dw_history w q) else dw_history w q)" for q
    by (simp add: evict_front_def Let_def)
  have superseded: "set (butlast (dw_history (evict_front entry w) q)) = set (butlast (dw_history w q)) - {?rid}" for q
    using facts dist' elsewhere [of q] by (auto simp: hist dest: in_set_butlastD)
  have "tracked (\<lambda>q. set (butlast (dw_history (evict_front entry w) q))) (evict_front entry w)"
    unfolding superseded
    using ok order ids by (auto simp: revisions_ok_def tracked_def evict_front_def Let_def) (metis image_eqI)+
  moreover have "set (dw_history (evict_front entry w) q) = set (dw_history w q) - {?rid}" for q
    using dist elsewhere [of q] by (auto simp: hist)
  moreover have "dw_revisions (evict_front entry w) = (dw_revisions w)(?rid := None)" by (simp add: evict_front_def Let_def)
  moreover have "length (dw_history (evict_front entry w) q) \<le> length (dw_history w q)" for q
    by (simp add: hist length_remove1)
  moreover have "distinct (dw_history (evict_front entry w) q)" for q using dist by (simp add: hist)
  ultimately show "revisions_ok (evict_front entry w)"
    using ok unfolding revisions_ok_def by (simp add: Int_def) (meson order.trans)
  show "last (dw_history (evict_front entry w) p) = last (dw_history w p)"
    "dw_history w p \<noteq> [] \<Longrightarrow> dw_history (evict_front entry w) p \<noteq> []"
    using facts by (auto simp: hist)
qed

lemma enforce_ok:
  assumes "revisions_ok w" "0 \<le> rb_limit (dw_historical w)"
  shows "revisions_ok (enforceRevisionBudgetLocked w)" "within_budget (enforceRevisionBudgetLocked w)"
    and "last (dw_history (enforceRevisionBudgetLocked w) p) = last (dw_history w p)"
    and "dw_history w p \<noteq> [] \<Longrightarrow> dw_history (enforceRevisionBudgetLocked w) p \<noteq> []"
proof -
  have "revisions_ok (enforceRevisionBudgetLocked w) \<and> within_budget (enforceRevisionBudgetLocked w) \<and>
    last (dw_history (enforceRevisionBudgetLocked w) p) = last (dw_history w p) \<and>
    (dw_history w p \<noteq> [] \<longrightarrow> dw_history (enforceRevisionBudgetLocked w) p \<noteq> [])"
    using assms
  proof (induction w rule: enforceRevisionBudgetLocked.induct)
    case (1 w)
    show ?case
    proof (cases "rb_order (dw_historical w)")
      case Nil
      then have "within_budget w" using 1(2,3) by (simp add: within_budget_def revisions_ok_def tracked_def)
      then show ?thesis using Nil 1(2) by (simp add: enforceRevisionBudgetLocked.simps)
    next
      case (Cons entry rest)
      note evicted = evict_ok [OF 1(2) Cons]
      have "rb_limit (dw_historical (evict_front entry w)) = rb_limit (dw_historical w)" by (simp add: evict_front_def Let_def)
      then show ?thesis
        using Cons 1 evicted by (subst enforceRevisionBudgetLocked.simps) (auto simp: within_budget_def enforceRevisionBudgetLocked.simps)
    qed
  qed
  then show "revisions_ok (enforceRevisionBudgetLocked w)" "within_budget (enforceRevisionBudgetLocked w)"
    "last (dw_history (enforceRevisionBudgetLocked w) p) = last (dw_history w p)"
    "dw_history w p \<noteq> [] \<Longrightarrow> dw_history (enforceRevisionBudgetLocked w) p \<noteq> []" by blast+
qed

lemma enforce_revisions:
  "dw_revisions (enforceRevisionBudgetLocked w) rid = None \<or> dw_revisions (enforceRevisionBudgetLocked w) rid = dw_revisions w rid"
proof (induction w rule: enforceRevisionBudgetLocked.induct)
  case (1 w)
  show ?case
  proof (cases "rb_order (dw_historical w)")
    case (Cons entry rest)
    have "dw_revisions (evict_front entry w) rid = None \<or> dw_revisions (evict_front entry w) rid = dw_revisions w rid"
      by (simp add: evict_front_def Let_def)
    then show ?thesis using Cons 1
      by (subst (1 2) enforceRevisionBudgetLocked.simps) (auto)
  qed (simp add: enforceRevisionBudgetLocked.simps)
qed

lemma enforce_keeps: "(\<And>entry w. f (evict_front entry w) = f w) \<Longrightarrow> f (enforceRevisionBudgetLocked w) = f w"
proof (induction w rule: enforceRevisionBudgetLocked.induct)
  case (1 w)
  then show ?case by (subst enforceRevisionBudgetLocked.simps) (auto split: list.split)
qed

lemma enforce_fields [simp]:
  "dw_documents (enforceRevisionBudgetLocked w) = dw_documents w" "dw_identity (enforceRevisionBudgetLocked w) = dw_identity w"
  "dw_observed (enforceRevisionBudgetLocked w) = dw_observed w"
  "rb_limit (dw_historical (enforceRevisionBudgetLocked w)) = rb_limit (dw_historical w)"
  by (rule enforce_keeps, simp add: evict_front_def Let_def)+

lemma enforce_subset: "set (dw_history (enforceRevisionBudgetLocked w) p) \<subseteq> set (dw_history w p)"
proof (induction w rule: enforceRevisionBudgetLocked.induct)
  case (1 w)
  have evict: "set (dw_history (evict_front entry w) p) \<subseteq> set (dw_history w p)" for entry
    by (simp add: evict_front_def Let_def set_remove1_subset)
  show ?case
  proof (cases "rb_order (dw_historical w)")
    case (Cons entry rest)
    then show ?thesis using 1 [OF Cons] evict [of entry] by (subst enforceRevisionBudgetLocked.simps) auto
  qed (simp add: enforceRevisionBudgetLocked.simps)
qed

section \<open>Remembering a revision\<close>

lemma remember_tracked:
  assumes ok: "revisions_ok w" and fresh: "\<forall>p. p \<noteq> absolute \<longrightarrow> revision \<notin> set (dw_history w p)"
  shows "tracked (\<lambda>p. if p = absolute then set (remove1 revision (dw_history w absolute)) else set (butlast (dw_history w p)))
    (reviveRevisionLocked revision (retire_current absolute revision w))"
proof -
  let ?history = "dw_history w absolute"
  have dist: "distinct ?history" using ok by (simp add: revisions_ok_def)
  have base: "tracked (\<lambda>p. set (butlast (dw_history w p))) w" using ok by (simp add: revisions_ok_def)
  have elsewhere: "set (butlast (dw_history w p)) - {revision} = set (butlast (dw_history w p))" if "p \<noteq> absolute" for p
    using fresh that by (auto dest: in_set_butlastD)
  have retired: "tracked (\<lambda>p. if p = absolute \<and> ?history \<noteq> [] \<and> last ?history \<noteq> revision then set ?history else set (butlast (dw_history w p)))
      (retire_current absolute revision w)"
  proof (cases "?history \<noteq> [] \<and> last ?history \<noteq> revision")
    case True
    then have mem: "last ?history \<in> set ?history" by simp
    then obtain snap where snap: "dw_revisions w (last ?history) = Some snap" using revisions_known [OF ok] by blast
    have "last ?history \<notin> set (butlast ?history)" using dist True by (metis append_butlast_last_id distinct_append disjoint_iff list.set_intros(1))
    moreover have "last ?history \<notin> set (butlast (dw_history w p))" if "p \<noteq> absolute" for p
      using ok that mem by (auto simp: revisions_ok_def dest!: in_set_butlastD)
    ultimately have "\<forall>p. last ?history \<notin> set (butlast (dw_history w p))" by metis
    from tracked_retire [OF base snap this, of absolute]
    have "tracked ((\<lambda>p. set (butlast (dw_history w p)))(absolute := set ?history)) (retireRevisionLocked absolute (last ?history) w)"
      using True by (metis append_butlast_last_id list.simps(15) rotate1.simps(2) set_rotate1)
    then show ?thesis using True by (simp add: retire_current_def Let_def fun_upd_def)
  next
    case False
    then have "(\<lambda>p. if p = absolute \<and> ?history \<noteq> [] \<and> last ?history \<noteq> revision then set ?history else set (butlast (dw_history w p))) =
      (\<lambda>p. set (butlast (dw_history w p)))" by (intro ext) auto
    then show ?thesis using False base by (auto simp: retire_current_def Let_def)
  qed
  have final: "(if p = absolute \<and> ?history \<noteq> [] \<and> last ?history \<noteq> revision then set ?history else set (butlast (dw_history w p))) - {revision} =
      (if p = absolute then set (remove1 revision ?history) else set (butlast (dw_history w p)))" for p
  proof (cases "p = absolute")
    case True
    show ?thesis
    proof (cases "?history \<noteq> [] \<and> last ?history = revision")
      case True
      then have split: "?history = butlast ?history @ [revision]" by (metis append_butlast_last_id)
      then have "set ?history = insert revision (set (butlast ?history))" by (metis Un_insert_right list.simps(15) set_append sup_bot_right list.set(1))
      then show ?thesis using True \<open>p = absolute\<close> dist by auto
    qed (use \<open>p = absolute\<close> dist in auto)
  qed (simp add: elsewhere)
  show ?thesis using tracked_revive [OF retired, of revision] unfolding final .
qed

lemma remember_ok:
  assumes ok: "revisions_ok w" and limit: "0 \<le> rb_limit (dw_historical w)"
    and fresh: "\<forall>p. p \<noteq> absolute \<longrightarrow> dn_Revision snap \<notin> set (dw_history w p)"
  shows "revisions_ok (rememberRevisionLocked absolute snap w)" "within_budget (rememberRevisionLocked absolute snap w)"
    and "dw_history (rememberRevisionLocked absolute snap w) absolute \<noteq> []"
    and "last (dw_history (rememberRevisionLocked absolute snap w) absolute) = dn_Revision snap"
    and "p \<noteq> absolute \<Longrightarrow> dw_history w p \<noteq> [] \<Longrightarrow> dw_history (rememberRevisionLocked absolute snap w) p \<noteq> [] \<and>
      last (dw_history (rememberRevisionLocked absolute snap w) p) = last (dw_history w p)"
    and "dw_revisions (rememberRevisionLocked absolute snap w) rid = None \<or>
      dw_revisions (rememberRevisionLocked absolute snap w) rid = ((dw_revisions w)(dn_Revision snap \<mapsto> snap)) rid"
    and "set (dw_history (rememberRevisionLocked absolute snap w) p) \<subseteq> insert (dn_Revision snap) (set (dw_history w p))"
proof -
  define revision where "revision = dn_Revision snap"
  define old where "old = remove1 revision (dw_history w absolute)"
  define excess where "excess = length (old @ [revision]) - maxRevisionsPerDocument"
  define w1 where "w1 = fold drop_revision (take excess old) (reviveRevisionLocked revision (retire_current absolute revision w))"
  define w2 where "w2 = w1\<lparr> dw_history := (dw_history w1)(absolute := drop excess old @ [revision]),
    dw_revisions := (dw_revisions w1)(revision \<mapsto> snap) \<rparr>"
  have excess: "excess \<le> length old" by (simp add: excess_def maxRevisionsPerDocument_def)
  have remember: "rememberRevisionLocked absolute snap w = enforceRevisionBudgetLocked w2"
  proof -
    have "prune_history (old @ [revision]) w0 = (drop excess old @ [revision], fold drop_revision (take excess old) w0)" for w0
      unfolding prune_history_fold excess_def [symmetric] using excess by simp
    then show ?thesis
      by (simp add: rememberRevisionLocked_def Let_def w2_def w1_def revision_def [symmetric] old_def [symmetric])
  qed
  have dist: "distinct old" "revision \<notin> set old" "set old = set (dw_history w absolute) - {revision}"
    using ok by (auto simp: old_def revisions_ok_def)
  have parts: "set old = set (take excess old) \<union> set (drop excess old)" "set (take excess old) \<inter> set (drop excess old) = {}"
    using dist(1) by (metis append_take_drop_id set_append, metis append_take_drop_id distinct_append)
  have "tracked (\<lambda>p. (if p = absolute then set old else set (butlast (dw_history w p))) - set (take excess old)) w1"
    unfolding w1_def old_def by (rule tracked_fold_drop [OF remember_tracked [OF ok]]) (use fresh in \<open>simp add: revision_def\<close>)
  moreover have "(if p = absolute then set old else set (butlast (dw_history w p))) - set (take excess old) =
      set (butlast (dw_history w2 p))" for p
  proof (cases "p = absolute")
    case True
    then show ?thesis using parts by (auto simp: w2_def)
  next
    case False
    then have "set (dw_history w p) \<inter> set (dw_history w absolute) = {}" using ok by (simp add: revisions_ok_def)
    then have "set (butlast (dw_history w p)) \<inter> set (take excess old) = {}"
      using dist(3) by (auto dest!: in_set_butlastD in_set_takeD)
    then show ?thesis using False by (auto simp: w2_def w1_def)
  qed
  ultimately have tracked: "tracked (\<lambda>p. set (butlast (dw_history w2 p))) w2"
    by (simp add: tracked_def w2_def)
  have history: "dw_history w2 p = (if p = absolute then drop excess old @ [revision] else dw_history w p)" for p
    by (simp add: w2_def w1_def)
  have revisions: "dw_revisions w2 rid = (if rid = revision then Some snap else if rid \<in> set (take excess old) then None else dw_revisions w rid)" for rid
    by (simp add: w2_def w1_def fold_drop_revisions)
  have only: "q = absolute" if "rid \<in> set (dw_history w q)" "rid \<in> set (take excess old)" for rid q
    using revisions_disjoint [OF ok that(1)] that(2) parts(1) dist(3) by blast
  have member: "rid \<in> set (dw_history w2 p) \<longleftrightarrow> rid = revision \<and> p = absolute \<or>
      rid \<noteq> revision \<and> rid \<in> set (dw_history w p) \<and> rid \<notin> set (take excess old)" for p rid
  proof (cases "p = absolute")
    case True
    then show ?thesis using parts dist(2,3) by (auto simp: history)
  next
    case False
    then show ?thesis using fresh only [of rid p] by (auto simp: history revision_def)
  qed
  have known: "dw_revisions w2 rid \<noteq> None \<longleftrightarrow> (\<exists>p. rid \<in> set (dw_history w2 p))" for rid
    using revisions_known [OF ok, of rid] by (auto simp: revisions member)
  have bound: "length (dw_history w2 p) \<le> maxRevisionsPerDocument" for p
    using ok by (auto simp: history revisions_ok_def excess_def maxRevisionsPerDocument_def)
  have "revisions_ok w2"
    unfolding revisions_ok_def
  proof (intro conjI allI impI)
    show "distinct (dw_history w2 p)" for p using ok dist by (auto simp: history revisions_ok_def dest: in_set_dropD)
    show "set (dw_history w2 p) \<inter> set (dw_history w2 q) = {}" if "p \<noteq> q" for p q
      using that revisions_disjoint [OF ok] by (auto simp: member)
  qed (use tracked known bound in simp_all)
  moreover have "0 \<le> rb_limit (dw_historical w2)" using limit by (simp add: w2_def w1_def)
  ultimately have enforced: "revisions_ok (enforceRevisionBudgetLocked w2)" "within_budget (enforceRevisionBudgetLocked w2)"
    "last (dw_history (enforceRevisionBudgetLocked w2) p) = last (dw_history w2 p)"
    "dw_history w2 p \<noteq> [] \<Longrightarrow> dw_history (enforceRevisionBudgetLocked w2) p \<noteq> []" for p
    by (simp_all add: enforce_ok)
  show "revisions_ok (rememberRevisionLocked absolute snap w)" "within_budget (rememberRevisionLocked absolute snap w)"
    "dw_history (rememberRevisionLocked absolute snap w) absolute \<noteq> []"
    "last (dw_history (rememberRevisionLocked absolute snap w) absolute) = dn_Revision snap"
    "p \<noteq> absolute \<Longrightarrow> dw_history w p \<noteq> [] \<Longrightarrow> dw_history (rememberRevisionLocked absolute snap w) p \<noteq> [] \<and>
      last (dw_history (rememberRevisionLocked absolute snap w) p) = last (dw_history w p)"
    unfolding remember using enforced by (simp_all add: history revision_def)
  show "dw_revisions (rememberRevisionLocked absolute snap w) rid = None \<or>
      dw_revisions (rememberRevisionLocked absolute snap w) rid = ((dw_revisions w)(dn_Revision snap \<mapsto> snap)) rid"
    unfolding remember using enforce_revisions [of w2 rid] by (auto simp: revisions revision_def split: if_splits)
  show "set (dw_history (rememberRevisionLocked absolute snap w) p) \<subseteq> insert (dn_Revision snap) (set (dw_history w p))"
    unfolding remember using enforce_subset [of w2 p] by (auto simp: member revision_def)
qed

lemma remember_fields [simp]:
  "dw_documents (rememberRevisionLocked absolute snap w) = dw_documents w"
  "dw_identity (rememberRevisionLocked absolute snap w) = dw_identity w"
  "dw_observed (rememberRevisionLocked absolute snap w) = dw_observed w"
  "rb_limit (dw_historical (rememberRevisionLocked absolute snap w)) = rb_limit (dw_historical w)"
  by (simp_all add: rememberRevisionLocked_def Let_def prune_history_fold)

end
