(* ===== verification/Document_Guard.thy ===== *)
theory Document_Guard
  imports Document_History
begin

text \<open>
  What a revision token stands for. Under a hash without collisions two forced observations have
  the same token exactly when they saw the same object of the same workspace and epoch, so the
  mutation guard lets a change through only on the bytes its caller has seen. Every operation on
  the document state keeps the bounds of the history and of the log.
\<close>

section \<open>Tokens\<close>

definition collision_free :: "digests \<Rightarrow> bool" where
  "collision_free H = (inj (dg_hash H) \<and> inj (dg_revision H))"

lemma revisionFor_inj:
  assumes "collision_free H"
  shows "revisionFor H a = revisionFor H b \<longleftrightarrow> revision_value a = revision_value b"
  using assms by (auto simp: revisionFor_def collision_free_def dest: injD)

lemma hex_digit_inj: "m < 16 \<Longrightarrow> n < 16 \<Longrightarrow> hex_digit m = hex_digit n \<Longrightarrow> m = n"
  using nth_eq_iff_index_eq [of "''0123456789ABCDEF''" m n] by (simp add: hex_digit_def)

lemma escape_char_nonempty [simp]: "escape_char c \<noteq> []"
  by (simp add: escape_char_def Let_def)

lemma escape_char_inj:
  assumes "escape_char c @ s = escape_char d @ t"
  shows "c = d \<and> s = t"
proof (cases "path_char c \<or> path_char d")
  case True
  have "\<not> path_char (CHR ''%'')" by (simp add: path_char_def Let_def)
  then show ?thesis using assms True by (auto simp: escape_char_def Let_def split: if_splits)
next
  case False
  let ?m = "of_char c :: nat" and ?n = "of_char d :: nat"
  have "hex_digit (?m div 16) = hex_digit (?n div 16)" "hex_digit (?m mod 16) = hex_digit (?n mod 16)" "s = t"
    using assms False by (auto simp: escape_char_def Let_def)
  moreover have "?m div 16 < 16" "?n div 16 < 16" "?m mod 16 < 16" "?n mod 16 < 16"
    by (auto simp: less_mult_imp_div_less)
  ultimately have "?m div 16 = ?n div 16" "?m mod 16 = ?n mod 16" using hex_digit_inj by blast+
  then have "?m = ?n" by (metis div_mult_mod_eq)
  then show ?thesis using \<open>s = t\<close> by simp
qed

lemma file_uri_inj: "file_uri p = file_uri q \<longleftrightarrow> p = q"
proof -
  have "concat (map escape_char a) = concat (map escape_char b) \<Longrightarrow> a = b" for a b
  proof (induction a arbitrary: b)
    case Nil
    then show ?case by (cases b) auto
  next
    case (Cons c a)
    then show ?case by (cases b) (auto dest: escape_char_inj)
  qed
  then show ?thesis by (auto simp: file_uri_def)
qed

section \<open>The document state\<close>

definition documents_ok :: "digests \<Rightarrow> doc_state \<Rightarrow> bool" where
  "documents_ok H w =
     (revisions_ok w \<and> within_budget w \<and> 0 \<le> rb_limit (dw_historical w) \<and>
      (\<forall>rid snap. dw_revisions w rid = Some snap \<longrightarrow> rid = revisionFor H snap) \<and>
      (\<forall>p rid snap. rid \<in> set (dw_history w p) \<longrightarrow> dw_revisions w rid = Some snap \<longrightarrow> dn_URI snap = file_uri p) \<and>
      length (dw_observed w) \<le> maxObservedChanges + observedSlack)"

lemma new_snapshot_fields [simp]:
  "dn_URI (new_snapshot H w absolute disk layer h) = file_uri absolute"
  "dn_Workspace (new_snapshot H w absolute disk layer h) = dw_identity w"
  "dn_Disk (new_snapshot H w absolute disk layer h) = disk"
  "dn_ContentSHA256 (new_snapshot H w absolute disk layer h) = h"
  "dn_Revision (new_snapshot H w absolute disk layer h) = revisionFor H (new_snapshot H w absolute disk layer h)"
  by (simp_all add: new_snapshot_def Let_def revisionFor_def revision_value_def)

lemma observe_fields [simp]:
  "dw_revisions (observeLocked change w) = dw_revisions w" "dw_history (observeLocked change w) = dw_history w"
  "dw_historical (observeLocked change w) = dw_historical w" "dw_identity (observeLocked change w) = dw_identity w"
  "dw_documents (observeLocked change w) = dw_documents w"
  by (simp_all add: observeLocked_def Let_def)

lemma observe_bound: "length (dw_observed (observeLocked change w)) \<le> maxObservedChanges + observedSlack"
  by (simp add: observeLocked_def Let_def maxObservedChanges_def)

lemma next_seq_fields [simp]:
  "dw_revisions (next_seq w) = dw_revisions w" "dw_history (next_seq w) = dw_history w" "dw_documents (next_seq w) = dw_documents w"
  "dw_historical (next_seq w) = dw_historical w" "dw_observed (next_seq w) = dw_observed w"
  "id_ID (dw_identity (next_seq w)) = id_ID (dw_identity w)" "id_Epoch (dw_identity (next_seq w)) = id_Epoch (dw_identity w)"
  by (simp_all add: next_seq_def)

lemma documents_ok_cong:
  assumes "documents_ok H w" "dw_revisions w' = dw_revisions w" "dw_history w' = dw_history w" "dw_historical w' = dw_historical w"
    and "length (dw_observed w') \<le> maxObservedChanges + observedSlack"
  shows "documents_ok H w'"
  using assms by (simp add: documents_ok_def revisions_ok_def tracked_def within_budget_def)

lemma documents_ok_observed: "documents_ok H w \<Longrightarrow> length (dw_observed w) \<le> maxObservedChanges + observedSlack"
  by (simp add: documents_ok_def)

lemma documents_ok_observe: "documents_ok H w \<Longrightarrow> documents_ok H (observeLocked change (next_seq w))"
  by (erule documents_ok_cong) (simp_all add: observe_bound)

lemma remember_documents_ok:
  assumes ok: "documents_ok H w" and H: "collision_free H"
    and snap: "dn_Revision snap = revisionFor H snap" "dn_URI snap = file_uri absolute"
  shows "documents_ok H (rememberRevisionLocked absolute snap w)"
    and "last (dw_history (rememberRevisionLocked absolute snap w) absolute) = dn_Revision snap"
    and "dw_revisions (rememberRevisionLocked absolute snap w) (dn_Revision snap) = Some snap"
proof -
  have rev: "revisions_ok w" "0 \<le> rb_limit (dw_historical w)" using ok by (simp_all add: documents_ok_def)
  have fresh: "\<forall>p. p \<noteq> absolute \<longrightarrow> dn_Revision snap \<notin> set (dw_history w p)"
  proof (intro allI impI notI)
    fix p assume p: "p \<noteq> absolute" "dn_Revision snap \<in> set (dw_history w p)"
    then obtain other where other: "dw_revisions w (dn_Revision snap) = Some other" using revisions_known [OF rev(1)] by blast
    then have "revision_value snap = revision_value other" "dn_URI other = file_uri p"
      using ok p(2) snap(1) by (auto simp: documents_ok_def revisionFor_inj [OF H, symmetric])
    then show False using snap(2) p(1) by (auto simp: revision_value_def file_uri_inj)
  qed
  let ?w = "rememberRevisionLocked absolute snap w"
  note kept = remember_ok [OF rev fresh]
  have stored: "dw_revisions ?w rid = Some s \<Longrightarrow> rid = dn_Revision snap \<and> s = snap \<or> rid \<noteq> dn_Revision snap \<and> dw_revisions w rid = Some s" for rid s
    using kept(6) [of rid] by (auto split: if_splits)
  have inherited: "rid \<in> set (dw_history w p)" if "rid \<in> set (dw_history ?w p)" "rid \<noteq> dn_Revision snap" for p rid
    using kept(7) [of p] that by auto
  show "last (dw_history ?w absolute) = dn_Revision snap" by (rule kept(4))
  have "dn_Revision snap \<in> set (dw_history ?w absolute)" using kept(3,4) by (metis last_in_set)
  then show "dw_revisions ?w (dn_Revision snap) = Some snap"
    using revisions_known [OF kept(1)] stored by blast
  have "rid = revisionFor H s" if "dw_revisions ?w rid = Some s" for rid s
    using stored [OF that] ok snap(1) by (auto simp: documents_ok_def)
  moreover have "dn_URI s = file_uri p" if "rid \<in> set (dw_history ?w p)" "dw_revisions ?w rid = Some s" for p rid s
  proof (cases "rid = dn_Revision snap")
    case True
    then have "p = absolute" using revisions_disjoint [OF kept(1) that(1)] \<open>dn_Revision snap \<in> set (dw_history ?w absolute)\<close> by blast
    then show ?thesis using stored [OF that(2)] True snap(2) by simp
  next
    case False
    then show ?thesis using stored [OF that(2)] inherited [OF that(1)] ok by (auto simp: documents_ok_def)
  qed
  moreover have "rb_limit (dw_historical ?w) = rb_limit (dw_historical w)" "dw_observed ?w = dw_observed w"
    by simp_all
  ultimately show "documents_ok H ?w" using kept(1,2) ok by (auto simp: documents_ok_def)
qed

text \<open>What a snapshot publishes and what it leaves alone.\<close>

lemma publish_ok:
  assumes "documents_ok H w" "collision_free H" "publish H absolute disk layer h w = (taken, w')"
  shows "documents_ok H w'" "dn_Revision taken = revisionFor H taken" "dn_URI taken = file_uri absolute" "dn_Disk taken = disk"
    and "dn_ContentSHA256 taken = h" "dn_ChangedTick taken = pl_ChangedTick layer" "dn_Dirty taken = pl_Dirty layer"
    and "dn_LSPVersions taken = pl_LSPVersions layer" "id_ID (dn_Workspace taken) = id_ID (dw_identity w)"
    and "id_Epoch (dn_Workspace taken) = id_Epoch (dw_identity w)" "dw_identity w' = dn_Workspace taken"
    and "dw_revisions w' (dn_Revision taken) = Some taken" "last (dw_history w' absolute) = dn_Revision taken"
    and "rb_limit (dw_historical w') = rb_limit (dw_historical w)"
    and "map_of (dw_documents w') absolute = Some \<lparr> cd_disk = disk, cd_layer = layer, cd_contentHash = h,
      cd_signature = documentSignature H disk layer h, cd_revision = dn_Revision taken \<rparr>"
proof -
  define w1 where "w1 = observe_document absolute (documentSignature H disk layer h) h w"
  define w2 where "w2 = w1\<lparr> dw_documents := AList.update absolute \<lparr> cd_disk = disk, cd_layer = layer, cd_contentHash = h,
      cd_signature = documentSignature H disk layer h, cd_revision = dn_Revision (new_snapshot H w1 absolute disk layer h) \<rparr> (dw_documents w1) \<rparr>"
  have taken: "taken = new_snapshot H w1 absolute disk layer h" "w' = rememberRevisionLocked absolute taken w2"
    using assms(3) by (auto simp: publish_def Let_def w1_def w2_def)
  have w1: "documents_ok H w1" "id_ID (dw_identity w1) = id_ID (dw_identity w)" "id_Epoch (dw_identity w1) = id_Epoch (dw_identity w)"
    "rb_limit (dw_historical w1) = rb_limit (dw_historical w)"
    using assms(1) by (auto simp: w1_def observe_document_def documents_ok_observe split: option.split)
  have "documents_ok H w2" by (rule documents_ok_cong [OF w1(1)]) (use w1(1) in \<open>simp_all add: w2_def documents_ok_def\<close>)
  note kept = remember_documents_ok [OF this assms(2), of taken absolute]
  show "documents_ok H w'" "dw_revisions w' (dn_Revision taken) = Some taken" "last (dw_history w' absolute) = dn_Revision taken"
    using kept by (simp_all add: taken)
  show "dn_Revision taken = revisionFor H taken" "dn_URI taken = file_uri absolute" "dn_Disk taken = disk" "dn_ContentSHA256 taken = h"
    "dn_ChangedTick taken = pl_ChangedTick layer" "dn_Dirty taken = pl_Dirty layer" "dn_LSPVersions taken = pl_LSPVersions layer"
    "id_ID (dn_Workspace taken) = id_ID (dw_identity w)" "id_Epoch (dn_Workspace taken) = id_Epoch (dw_identity w)"
    "dw_identity w' = dn_Workspace taken" "rb_limit (dw_historical w') = rb_limit (dw_historical w)"
    using w1 by (simp_all add: taken w2_def) (simp_all add: new_snapshot_def Let_def)
  show "map_of (dw_documents w') absolute = Some \<lparr> cd_disk = disk, cd_layer = layer, cd_contentHash = h,
      cd_signature = documentSignature H disk layer h, cd_revision = dn_Revision taken \<rparr>"
    by (simp add: taken w2_def update_conv)
qed

lemma snapshot_ok:
  assumes "documents_ok (de_digests E) w" "collision_free (de_digests E)"
  shows "documents_ok (de_digests E) (snd (snapshot E path layer force w))"
    and "rb_limit (dw_historical (snd (snapshot E path layer force w))) = rb_limit (dw_historical w)"
  using assms
  by (auto simp: snapshot_def Let_def split: sum.split prod.split dest: publish_ok(1,14))

lemma snapshot_loops_ok:
  assumes H: "collision_free (de_digests E)" and w: "documents_ok (de_digests E) w"
  shows "documents_ok (de_digests E) (snd (refresh_all E layers w)) \<and>
      rb_limit (dw_historical (snd (refresh_all E layers w))) = rb_limit (dw_historical w)"
    and "documents_ok (de_digests E) (snd (snapshot_all E files w)) \<and>
      rb_limit (dw_historical (snd (snapshot_all E files w))) = rb_limit (dw_historical w)"
proof -
  have step: "documents_ok (de_digests E) w'' \<and> rb_limit (dw_historical w'') = rb_limit (dw_historical w')"
    if "snapshot E path layer force w' = (r, w'')" "documents_ok (de_digests E) w'" for path layer force w' r w''
    using snapshot_ok [OF that(2) H, of path layer force] that(1) by simp
  show "documents_ok (de_digests E) (snd (refresh_all E layers w)) \<and>
      rb_limit (dw_historical (snd (refresh_all E layers w))) = rb_limit (dw_historical w)"
    using w
  proof (induction layers arbitrary: w)
    case (Cons known layers)
    obtain path layer where known: "known = (path, layer)" by (cases known)
    obtain r w' where run: "snapshot E path layer True w = (r, w')" by (cases "snapshot E path layer True w")
    show ?case using step [OF run Cons.prems] Cons.IH [of w'] run by (cases r) (simp_all add: known Refresh_def)
  qed simp
  show "documents_ok (de_digests E) (snd (snapshot_all E files w)) \<and>
      rb_limit (dw_historical (snd (snapshot_all E files w))) = rb_limit (dw_historical w)"
    using w
  proof (induction files arbitrary: w)
    case (Cons path files)
    obtain r w' where run: "snapshot E path no_layer False w = (r, w')" by (cases "snapshot E path no_layer False w")
    show ?case using step [OF run Cons.prems] Cons.IH [of w'] run by (cases r) (simp_all add: Snapshot_def)
  qed simp
qed

text \<open>The document states a process goes through, under one hash and in any environment.\<close>

inductive observed_state :: "digests \<Rightarrow> doc_state \<Rightarrow> bool" for H where
  opened: "observed_state H (new_documents identity)"
| snapshots: "observed_state H w \<Longrightarrow> de_digests E = H \<Longrightarrow> observed_state H (snd (snapshot E path layer force w))"
| synced: "observed_state H w \<Longrightarrow> observed_state H (snd (SyncProviderEpoch epoch w))"
| refreshed: "observed_state H w \<Longrightarrow> de_digests E = H \<Longrightarrow> observed_state H (snd (RefreshKnownDocuments E w))"
| primed: "observed_state H w \<Longrightarrow> de_digests E = H \<Longrightarrow> observed_state H (snd (PrimeDocuments E files w))"
| validated: "observed_state H w \<Longrightarrow> de_digests E = H \<Longrightarrow>
    observed_state H (snd (ValidateMutation E workspaceID path expected layer w))"

lemma new_documents_ok: "documents_ok H (new_documents identity)"
  by (simp add: documents_ok_def revisions_ok_def tracked_def within_budget_def new_documents_def maxHistoricalRevisionBytes_def)

lemma validate_state: "snd (ValidateMutation E workspaceID path expected layer w) = w \<or>
   snd (ValidateMutation E workspaceID path expected layer w) = snd (snapshot E path layer True w)"
  by (auto simp: ValidateMutation_def Refresh_def Let_def split: prod.split sum.split)

lemma observed_state_ok:
  assumes "observed_state H w" "collision_free H"
  shows "documents_ok H w \<and> rb_limit (dw_historical w) = maxHistoricalRevisionBytes"
  using assms(1)
proof induction
  case (opened identity)
  show ?case using new_documents_ok by (simp add: new_documents_def)
next
  case (snapshots w E path layer force)
  then show ?case using snapshot_ok [of E w] assms(2) by simp
next
  case (synced w epoch)
  then have "documents_ok H (w\<lparr> dw_identity := (dw_identity w)\<lparr> id_Epoch := epoch \<rparr> \<rparr>)"
    using documents_ok_cong [of H w] documents_ok_observed [of H w] by simp
  then show ?case using synced documents_ok_observe by (auto simp: SyncProviderEpoch_def Let_def)
next
  case (refreshed w E)
  then show ?case using snapshot_loops_ok(1) [of E w] assms(2) by (simp add: RefreshKnownDocuments_def)
next
  case (primed w E files)
  define w1 where "w1 = (if dw_pathsPrimed w \<and> (\<not> set files \<subseteq> set (dw_knownPaths w) \<or> \<not> set (dw_knownPaths w) \<subseteq> set files)
    then observeLocked (observedInventory w (dw_knownPaths w) (remdups files)) (next_seq w) else w)"
  have "documents_ok H w1" "rb_limit (dw_historical w1) = maxHistoricalRevisionBytes"
    using primed.IH by (auto simp: w1_def documents_ok_observe)
  then have "documents_ok H (w1\<lparr> dw_knownPaths := remdups files, dw_pathsPrimed := True \<rparr>)"
    using documents_ok_cong [of H w1] documents_ok_observed [of H w1] by simp
  from snapshot_loops_ok(2) [of E, OF _ this [folded primed.hyps(2)], of files]
  show ?case using assms(2) primed.hyps(2) \<open>rb_limit (dw_historical w1) = maxHistoricalRevisionBytes\<close>
    unfolding PrimeDocuments_def Let_def w1_def [symmetric] by simp
next
  case (validated w E workspaceID path expected layer)
  then show ?case using snapshot_ok [of E w] assms(2) validate_state [of E workspaceID path expected layer w] by auto
qed

section \<open>What a token stands for\<close>

lemma refresh_Ok:
  assumes "Refresh E path layer w = (Ok taken, w')"
  obtains absolute disk content where "de_resolve E path = Ok absolute" "inspectPath (de_files E) absolute = Ok (disk, content)"
    "publish (de_digests E) absolute disk (cloneLayer layer) (content_hash (de_digests E) (cloneLayer layer) disk content) w = (taken, w')"
  using assms
  by (auto simp: Refresh_def snapshot_def observed_hash_def Let_def split: sum.splits prod.splits if_splits option.splits)

lemma cloneLayer_none [simp]: "cloneLayer no_layer = no_layer"
  by (simp add: cloneLayer_def no_layer_def)

lemma same_content_same_object:
  assumes "inj hash" "inspectPath files p = Ok (disk, content)" "inspectPath files' p = Ok (disk', content')"
    and "\<And>d c. content_hash H no_layer d c = (if ds_Kind d = ObjectMissing \<or> ds_Kind d = ObjectDirectory then [] else hash c)"
  shows "contentIdentityOf disk = contentIdentityOf disk' \<and> content_hash H no_layer disk content = content_hash H no_layer disk' content' \<longleftrightarrow>
    same_object (files p) (files' p)"
  using assms(2,3)
  by (auto simp: inspectPath_def diskSnapshot_def missing_snapshot_def contentIdentityOf_def assms(4) inj_eq [OF assms(1)]
      split: option.splits fs_node.splits)

lemma token_same_object:
  assumes "collision_free H" "de_digests E = H" "de_digests E' = H" "documents_ok H w" "documents_ok H v"
    and "Refresh E path no_layer w = (Ok taken, w')" "Refresh E' path' no_layer v = (Ok taken', v')"
  shows "dn_Revision taken = dn_Revision taken' \<longleftrightarrow>
    id_ID (dw_identity w) = id_ID (dw_identity v) \<and> id_Epoch (dw_identity w) = id_Epoch (dw_identity v) \<and>
    (\<exists>absolute. de_resolve E path = Ok absolute \<and> de_resolve E' path' = Ok absolute \<and>
       same_object (de_files E absolute) (de_files E' absolute))"
proof -
  obtain a d c where a: "de_resolve E path = Ok a" "inspectPath (de_files E) a = Ok (d, c)"
    "publish H a d no_layer (content_hash H no_layer d c) w = (taken, w')"
    using refresh_Ok [OF assms(6)] assms(2) by auto
  obtain a' d' c' where a': "de_resolve E' path' = Ok a'" "inspectPath (de_files E') a' = Ok (d', c')"
    "publish H a' d' no_layer (content_hash H no_layer d' c') v = (taken', v')"
    using refresh_Ok [OF assms(7)] assms(3) by auto
  note taken = publish_ok [OF assms(4,1) a(3)] publish_ok [OF assms(5,1) a'(3)]
  have hash: "inj (dg_hash H)" using assms(1) by (simp add: collision_free_def)
  have content: "content_hash H no_layer x y = (if ds_Kind x = ObjectMissing \<or> ds_Kind x = ObjectDirectory then [] else dg_hash H y)" for x y
    by (simp add: content_hash_def no_layer_def)
  have "dn_Revision taken = dn_Revision taken' \<longleftrightarrow> revision_value taken = revision_value taken'"
    unfolding taken(2) taken(17) by (rule revisionFor_inj [OF assms(1)])
  also have "\<dots> \<longleftrightarrow> id_ID (dw_identity w) = id_ID (dw_identity v) \<and> id_Epoch (dw_identity w) = id_Epoch (dw_identity v) \<and> a = a' \<and>
      contentIdentityOf d = contentIdentityOf d' \<and> content_hash H no_layer d c = content_hash H no_layer d' c'"
    using taken by (auto simp: revision_value_def file_uri_inj)
  also have "\<dots> \<longleftrightarrow> id_ID (dw_identity w) = id_ID (dw_identity v) \<and> id_Epoch (dw_identity w) = id_Epoch (dw_identity v) \<and> a = a' \<and>
      same_object (de_files E a) (de_files E' a)"
    using same_content_same_object [OF hash a(2) _ content, of "de_files E'" d' c'] a'(2) by auto
  finally show ?thesis using a(1) a'(1) by auto
qed

text \<open>
  C36. A revision token identifies the object it was taken of. Under a hash without collisions two
  forced observations carry the same token exactly when they are of the same path of the same
  workspace and epoch and found the same object there: the same kind, bytes, link target and
  mode. A touched or rewritten file with the same bytes keeps its token.
\<close>

theorem revision_token_exact:
  assumes "collision_free H" "de_digests E = H" "de_digests E' = H" "documents_ok H w" "documents_ok H v"
    and "Refresh E path no_layer w = (Ok taken, w')" "Refresh E' path' no_layer v = (Ok taken', v')"
  shows "dn_Revision taken = dn_Revision taken' \<longleftrightarrow>
    id_ID (dw_identity w) = id_ID (dw_identity v) \<and> id_Epoch (dw_identity w) = id_Epoch (dw_identity v) \<and>
    (\<exists>absolute. de_resolve E path = Ok absolute \<and> de_resolve E' path' = Ok absolute \<and>
       same_object (de_files E absolute) (de_files E' absolute))"
  using assms by (rule token_same_object)

lemma guard_iff:
  assumes "collision_free (de_digests E)" "documents_ok (de_digests E) w"
  shows "ValidateMutation E workspaceID path expected layer w = (Ok current, w') \<longleftrightarrow>
    workspaceID \<noteq> [] \<and> expected \<noteq> [] \<and> workspaceID = id_ID (dw_identity w) \<and>
    Refresh E path layer w = (Ok current, w') \<and> dn_Revision current = expected"
proof -
  have "id_Epoch (dn_Workspace prior) = id_Epoch (dn_Workspace current)"
    if run: "Refresh E path layer w = (Ok current, w')" and known: "dw_revisions w expected = Some prior"
      and matches: "dn_Revision current = expected" for prior
  proof -
    obtain a d c where "publish (de_digests E) a d (cloneLayer layer) (content_hash (de_digests E) (cloneLayer layer) d c) w = (current, w')"
      using refresh_Ok [OF run] by metis
    from publish_ok(2) [OF assms(2,1) this] have "revisionFor (de_digests E) current = expected" using matches by simp
    moreover have "expected = revisionFor (de_digests E) prior" using assms(2) known by (simp add: documents_ok_def)
    ultimately have "revision_value prior = revision_value current" using revisionFor_inj [OF assms(1)] by metis
    then show ?thesis by (simp add: revision_value_def)
  qed
  then show ?thesis
    by (auto simp: ValidateMutation_def Let_def judge_revision_def split: prod.split sum.split option.split if_splits)
qed

text \<open>
  C5. The mutation guard accepts exactly the current revision. For a caller that names the workspace and
  a revision, a mutation is let through if and only if the document can be observed and its
  current token is the expected one; the check of the epoch of a remembered revision never
  refuses a token that still matches.
\<close>

theorem guard_accepts_exactly_current:
  assumes "collision_free (de_digests E)" "documents_ok (de_digests E) w"
  shows "ValidateMutation E workspaceID path expected layer w = (Ok current, w') \<longleftrightarrow>
    workspaceID \<noteq> [] \<and> expected \<noteq> [] \<and> workspaceID = id_ID (dw_identity w) \<and>
    Refresh E path layer w = (Ok current, w') \<and> dn_Revision current = expected"
  using assms by (rule guard_iff)

text \<open>
  Every refusal names its reason. When the document can be observed but its token is not the expected
  one, the guard reports an unknown revision as an epoch conflict, a vanished document as
  deleted and any other remembered revision of the same epoch as changed content, always with
  the token the document has now.
\<close>

theorem guard_refusals:
  assumes "workspaceID = id_ID (dw_identity w)" "workspaceID \<noteq> []" "expected \<noteq> []"
    and "Refresh E path layer w = (Ok current, w')" "dn_Revision current \<noteq> expected"
  shows "ValidateMutation E workspaceID path expected layer w = (Error (
    case dw_revisions w expected of
      None \<Rightarrow> revision_conflict ConflictWorkspaceEpoch path expected (dn_Revision current) unknownRevisionDetail
    | Some prior \<Rightarrow>
        if id_Epoch (dn_Workspace prior) \<noteq> id_Epoch (dn_Workspace current)
        then revision_conflict ConflictWorkspaceEpoch path expected (dn_Revision current) []
        else if ds_Kind (dn_Disk prior) \<noteq> ObjectMissing \<and> ds_Kind (dn_Disk current) = ObjectMissing
        then revision_conflict ConflictDocumentDeleted path expected (dn_Revision current) []
        else revision_conflict ConflictDocumentChanged path expected (dn_Revision current) []), w')"
  using assms by (simp add: ValidateMutation_def Let_def judge_revision_def split: option.split)

text \<open>
  One external change advances the state sequence once. Observing a document a second time on the
  same disk returns the same token and leaves the identity, the sequence and the log of
  observed changes as the first observation left them.
\<close>

theorem observation_idempotent:
  assumes "collision_free (de_digests E)" "documents_ok (de_digests E) w" "pl_Content layer \<noteq> Some []"
    and "Refresh E path layer w = (Ok taken, w')"
  shows "\<exists>taken' w''. Refresh E path layer w' = (Ok taken', w'') \<and> dn_Revision taken' = dn_Revision taken \<and>
    dw_identity w'' = dw_identity w' \<and> dw_observed w'' = dw_observed w'"
proof -
  let ?H = "de_digests E"
  have layer: "cloneLayer layer = layer" using assms(3) by (simp add: cloneLayer_def)
  obtain a d c where a: "de_resolve E path = Ok a" "inspectPath (de_files E) a = Ok (d, c)"
    "publish ?H a d layer (content_hash ?H layer d c) w = (taken, w')"
    using refresh_Ok [OF assms(4)] layer by metis
  note first = publish_ok [OF assms(2,1) a(3)]
  obtain taken' w'' where again: "publish ?H a d layer (content_hash ?H layer d c) w' = (taken', w'')" by fastforce
  note second = publish_ok [OF first(1) assms(1) again]
  have same: "observe_document a (documentSignature ?H d layer (content_hash ?H layer d c)) (content_hash ?H layer d c) w' = w'"
    using first(15) by (simp add: observe_document_def)
  have "Refresh E path layer w' = (Ok taken', w'')"
    using a(1,2) again first(15) layer by (simp add: Refresh_def snapshot_def observed_hash_def Let_def)
  moreover have "dn_Revision taken' = dn_Revision taken"
    unfolding first(2) second(2) using first second
    by (simp add: revisionFor_inj [OF assms(1)] revision_value_def)
  moreover have "dw_identity w'' = dw_identity w'" "dw_observed w'' = dw_observed w'"
    using again unfolding publish_def Let_def same by auto
  ultimately show ?thesis by blast
qed

text \<open>
  The memory spent on document history is bounded. In every state the workspace reaches, whatever
  it observed, a document keeps at most 32 revisions, the superseded revisions of all documents
  fit the byte budget, the log of observed changes is bounded, and the current revision of every
  document that has a history is still remembered.
\<close>

theorem document_history_bounded:
  assumes "collision_free H" "observed_state H w"
  shows "length (dw_history w p) \<le> maxRevisionsPerDocument \<and>
    sum_list (map hr_bytes (rb_order (dw_historical w))) \<le> maxHistoricalRevisionBytes \<and>
    length (dw_observed w) \<le> maxObservedChanges + observedSlack \<and>
    (dw_history w p \<noteq> [] \<longrightarrow> (\<exists>snap. dw_revisions w (last (dw_history w p)) = Some snap \<and> dn_URI snap = file_uri p))"
proof -
  have ok: "documents_ok H w" "rb_limit (dw_historical w) = maxHistoricalRevisionBytes"
    using observed_state_ok [OF assms(2,1)] by simp_all
  then have rev: "revisions_ok w" by (simp add: documents_ok_def)
  have "\<exists>snap. dw_revisions w (last (dw_history w p)) = Some snap \<and> dn_URI snap = file_uri p" if "dw_history w p \<noteq> []"
  proof -
    have mem: "last (dw_history w p) \<in> set (dw_history w p)" using that by simp
    then obtain snap where "dw_revisions w (last (dw_history w p)) = Some snap" using revisions_known [OF rev] by blast
    then show ?thesis using ok(1) mem by (auto simp: documents_ok_def)
  qed
  then show ?thesis using ok rev by (auto simp: documents_ok_def revisions_ok_def tracked_def within_budget_def)
qed

section \<open>An instance\<close>

text \<open>A hash and an encoding without collisions, to evaluate the model with: every part is prefixed with its length.\<close>

definition enc_bytes :: "string \<Rightarrow> string" where
  "enc_bytes s = replicate (length s) (CHR ''1'') @ CHR ''0'' # s"

definition enc_nat :: "nat \<Rightarrow> string" where
  "enc_nat n = enc_bytes (replicate n (CHR ''x''))"

definition enc_version :: "string \<times> int \<Rightarrow> string" where
  "enc_version = (\<lambda>(provider, version). enc_bytes provider @ enc_nat (if version < 0 then 1 else 0) @ enc_nat (nat \<bar>version\<bar>))"

definition enc_kind :: "ObjectKind \<Rightarrow> nat" where
  "enc_kind kind = (case kind of ObjectRegularText \<Rightarrow> 0 | ObjectBinary \<Rightarrow> 1 | ObjectSymlink \<Rightarrow> 2 | ObjectDirectory \<Rightarrow> 3 | ObjectMissing \<Rightarrow> 4)"

definition enc_revision :: "revision_fields \<Rightarrow> string" where
  "enc_revision f = enc_bytes (rf_WorkspaceID f) @ enc_nat (unat (rf_Epoch f)) @ enc_bytes (rf_URI f) @
     enc_nat (enc_kind (ci_Kind (rf_Object f))) @ enc_nat (unat (ci_Mode (rf_Object f))) @ enc_bytes (ci_SymlinkTarget (rf_Object f)) @
     enc_bytes (rf_ContentSHA256 f) @ enc_nat (unat (rf_ChangedTick f)) @ enc_nat (if rf_Dirty f then 1 else 0) @
     enc_nat (length (rf_LSPVersions f)) @ concat (map enc_version (rf_LSPVersions f))"

definition sample_digests :: digests where
  "sample_digests = \<lparr> dg_hash = (\<lambda>content. content), dg_signature = (\<lambda>fields. sg_ContentSHA256 fields), dg_revision = enc_revision \<rparr>"

lemma enc_bytes_inj [simp]: "enc_bytes a @ x = enc_bytes b @ y \<longleftrightarrow> a = b \<and> x = y"
proof -
  have "replicate m (CHR ''1'') @ CHR ''0'' # u = replicate n (CHR ''1'') @ CHR ''0'' # v \<Longrightarrow> m = n \<and> u = v" for m n u v
  proof (induction m arbitrary: n)
    case 0
    then show ?case by (cases n) auto
  next
    case (Suc m)
    then show ?case by (cases n) auto
  qed
  note split = this
  show ?thesis
  proof
    assume "enc_bytes a @ x = enc_bytes b @ y"
    then have "length a = length b" "a @ x = b @ y"
      using split [of "length a" "a @ x" "length b" "b @ y"] by (simp_all add: enc_bytes_def)
    then show "a = b \<and> x = y" by simp
  qed simp
qed

lemma enc_nat_inj [simp]: "enc_nat a @ x = enc_nat b @ y \<longleftrightarrow> a = b \<and> x = y"
proof -
  have "replicate a (CHR ''x'') = replicate b (CHR ''x'') \<longleftrightarrow> a = b" by (metis length_replicate)
  then show ?thesis by (simp add: enc_nat_def)
qed

lemma enc_version_inj: "enc_version a @ x = enc_version b @ y \<longleftrightarrow> a = b \<and> x = y"
  by (cases a; cases b) (auto simp: enc_version_def split: if_splits)

lemma enc_versions_inj:
  "length a = length b \<Longrightarrow> concat (map enc_version a) = concat (map enc_version b) \<longleftrightarrow> a = b"
  by (induction a b rule: list_induct2) (auto simp: enc_version_inj)

lemma sample_collision_free: "collision_free sample_digests"
proof -
  have kinds: "enc_kind k = enc_kind k' \<longleftrightarrow> k = k'" for k k'
    by (cases k; cases k') (simp_all add: enc_kind_def)
  have bools: "((if b then 1 else 0 :: nat) = (if b' then 1 else 0)) = (b = b')" for b b' by simp
  have "inj enc_revision"
  proof (rule injI)
    fix f g assume "enc_revision f = enc_revision g"
    then have fields: "rf_WorkspaceID f = rf_WorkspaceID g" "rf_Epoch f = rf_Epoch g" "rf_URI f = rf_URI g"
      "ci_Kind (rf_Object f) = ci_Kind (rf_Object g)" "ci_Mode (rf_Object f) = ci_Mode (rf_Object g)"
      "ci_SymlinkTarget (rf_Object f) = ci_SymlinkTarget (rf_Object g)" "rf_ContentSHA256 f = rf_ContentSHA256 g"
      "rf_ChangedTick f = rf_ChangedTick g" "rf_Dirty f = rf_Dirty g" "length (rf_LSPVersions f) = length (rf_LSPVersions g)"
      "concat (map enc_version (rf_LSPVersions f)) = concat (map enc_version (rf_LSPVersions g))"
      unfolding enc_revision_def enc_bytes_inj enc_nat_inj kinds bools word_unat_eq_iff [symmetric] by blast+
    have "rf_Object f = rf_Object g" using fields(4-6) by simp
    moreover have "rf_LSPVersions f = rf_LSPVersions g" using fields(10,11) by (simp add: enc_versions_inj)
    ultimately show "f = g" using fields by simp
  qed
  then show ?thesis by (simp add: collision_free_def sample_digests_def)
qed

definition sample_env :: "(string \<times> fs_node) list \<Rightarrow> doc_env" where
  "sample_env files = \<lparr> de_digests = sample_digests, de_files = map_of files, de_resolve = Ok, de_note = (\<lambda>_ _. Ok ()) \<rparr>"

definition sample_documents :: doc_state where
  "sample_documents = new_documents \<lparr> id_ID = ''ws'', id_Kind = KindProject, id_Root = ''/r'', id_Epoch = 1, id_StateSeq = 1 \<rparr>"

theorem revision_token_exact_witness:
  "\<exists>taken taken'. fst (Refresh (sample_env [(''/r/a'', FileNode ''x'' sample_meta)]) ''/r/a'' no_layer sample_documents) = Ok taken \<and>
     fst (Refresh (sample_env [(''/r/a'', FileNode ''x'' (sample_meta\<lparr> nm_MTimeNS := 9, nm_Inode := 8 \<rparr>))]) ''/r/a'' no_layer sample_documents) = Ok taken' \<and>
     dn_Revision taken = dn_Revision taken'"
proof -
  let ?E = "sample_env [(''/r/a'', FileNode ''x'' sample_meta)]"
  let ?E' = "sample_env [(''/r/a'', FileNode ''x'' (sample_meta\<lparr> nm_MTimeNS := 9, nm_Inode := 8 \<rparr>))]"
  have "is_ok (fst (Refresh ?E ''/r/a'' no_layer sample_documents))" "is_ok (fst (Refresh ?E' ''/r/a'' no_layer sample_documents))"
    by code_simp+
  then obtain taken w taken' w' where runs: "Refresh ?E ''/r/a'' no_layer sample_documents = (Ok taken, w)"
    "Refresh ?E' ''/r/a'' no_layer sample_documents = (Ok taken', w')"
    by (metis is_okD prod.collapse)
  have env: "de_digests ?E = sample_digests" "de_digests ?E' = sample_digests" by (simp_all add: sample_env_def)
  have "documents_ok sample_digests sample_documents" unfolding sample_documents_def by (rule new_documents_ok)
  from revision_token_exact [OF sample_collision_free env this this runs] show ?thesis
    using runs by (auto simp: sample_env_def sample_meta_def)
qed

theorem guard_accepts_exactly_current_witness:
  "\<exists>current w'. ValidateMutation (sample_env [(''/r/a'', FileNode ''x'' sample_meta)]) ''ws'' ''/r/a''
       (dn_Revision (projr (fst (Refresh (sample_env [(''/r/a'', FileNode ''x'' sample_meta)]) ''/r/a'' no_layer sample_documents))))
       no_layer sample_documents = (Ok current, w')"
proof -
  let ?E = "sample_env [(''/r/a'', FileNode ''x'' sample_meta)]"
  have "is_ok (fst (Refresh ?E ''/r/a'' no_layer sample_documents)) \<and>
    dn_Revision (projr (fst (Refresh ?E ''/r/a'' no_layer sample_documents))) \<noteq> []" by code_simp
  then obtain current w' where run: "Refresh ?E ''/r/a'' no_layer sample_documents = (Ok current, w')" "dn_Revision current \<noteq> []"
    by (metis fst_conv is_okD prod.collapse sum.sel(2))
  have ok: "collision_free (de_digests ?E)" "documents_ok (de_digests ?E) sample_documents"
    unfolding sample_documents_def using sample_collision_free new_documents_ok by (simp_all add: sample_env_def)
  have "id_ID (dw_identity sample_documents) = ''ws''" by (simp add: sample_documents_def new_documents_def)
  then have "ValidateMutation ?E ''ws'' ''/r/a'' (dn_Revision current) no_layer sample_documents = (Ok current, w')"
    using guard_accepts_exactly_current [OF ok, of "''ws''" "''/r/a''" "dn_Revision current"] run by simp
  then show ?thesis using run by auto
qed

theorem guard_refusals_witness:
  "\<exists>revision w'. ValidateMutation (sample_env []) ''ws'' ''/r/a'' ''docrev_0'' no_layer sample_documents =
     (Error (revision_conflict ConflictWorkspaceEpoch ''/r/a'' ''docrev_0'' revision unknownRevisionDetail), w')"
proof -
  have "is_ok (fst (Refresh (sample_env []) ''/r/a'' no_layer sample_documents)) \<and>
    dn_Revision (projr (fst (Refresh (sample_env []) ''/r/a'' no_layer sample_documents))) \<noteq> ''docrev_0''" by code_simp
  then obtain current w' where run: "Refresh (sample_env []) ''/r/a'' no_layer sample_documents = (Ok current, w')"
    "dn_Revision current \<noteq> ''docrev_0''"
    by (metis fst_conv is_okD prod.collapse sum.sel(2))
  have "''ws'' = id_ID (dw_identity sample_documents)" "dw_revisions sample_documents ''docrev_0'' = None"
    by (simp_all add: sample_documents_def new_documents_def)
  with guard_refusals [OF this(1) _ _ run, simplified]
  have "ValidateMutation (sample_env []) ''ws'' ''/r/a'' ''docrev_0'' no_layer sample_documents =
     (Error (revision_conflict ConflictWorkspaceEpoch ''/r/a'' ''docrev_0'' (dn_Revision current) unknownRevisionDetail), w')" by simp
  then show ?thesis by blast
qed

theorem observation_idempotent_witness:
  "\<exists>taken w' taken' w''. Refresh (sample_env [(''/r/a'', FileNode ''x'' sample_meta)]) ''/r/a'' no_layer sample_documents = (Ok taken, w') \<and>
     Refresh (sample_env [(''/r/a'', FileNode ''x'' sample_meta)]) ''/r/a'' no_layer w' = (Ok taken', w'') \<and>
     dn_Revision taken' = dn_Revision taken"
proof -
  let ?E = "sample_env [(''/r/a'', FileNode ''x'' sample_meta)]"
  have "is_ok (fst (Refresh ?E ''/r/a'' no_layer sample_documents))" by code_simp
  then obtain taken w' where run: "Refresh ?E ''/r/a'' no_layer sample_documents = (Ok taken, w')"
    by (metis is_okD prod.collapse)
  have ok: "collision_free (de_digests ?E)" "documents_ok (de_digests ?E) sample_documents" "pl_Content no_layer \<noteq> Some []"
    unfolding sample_documents_def using sample_collision_free new_documents_ok by (simp_all add: sample_env_def no_layer_def)
  from observation_idempotent [OF ok run] show ?thesis using run by blast
qed

theorem document_history_bounded_witness:
  "length (dw_history (snd (Refresh (sample_env []) ''/r/a'' no_layer sample_documents)) ''/r/a'') \<le> maxRevisionsPerDocument"
proof -
  have "observed_state sample_digests (snd (Refresh (sample_env []) ''/r/a'' no_layer sample_documents))"
    unfolding Refresh_def sample_documents_def by (intro observed_state.intros) (simp add: sample_env_def)
  from document_history_bounded [OF sample_collision_free this, of "''/r/a''"] show ?thesis by simp
qed

end
