(* ===== verification/Native_Refinement.thy ===== *)
theory Native_Refinement
  imports Native_Edits Native_Safety Path_Safety Document_Guard
begin

text \<open>
  Range edits as a client sees them: an abstract document store with compare-and-swap, that
  \<open>ApplyReplace\<close> refines it under every failure and crash, and that an edit of an unchanged document
  succeeds when nothing fails.
\<close>

section \<open>Range edits are compare-and-swap\<close>

text \<open>
  The abstract document store: the bytes and the mode of every regular file. A range edit is to be a
  compare-and-swap on it: it takes place only on the bytes its range was read from.
\<close>

definition docs_of :: "tree \<Rightarrow> string \<Rightarrow> (bytes \<times> u32) option" where
  "docs_of files p = (case files p of Some (FileNode content meta) \<Rightarrow> Some (content, nm_Mode meta) | _ \<Rightarrow> None)"

definition cas_splice ::
  "(string \<Rightarrow> (bytes \<times> u32) option) \<Rightarrow> string \<Rightarrow> bytes \<Rightarrow> int \<Rightarrow> int \<Rightarrow> bytes \<Rightarrow> (string \<Rightarrow> (bytes \<times> u32) option) option" where
  "cas_splice docs path old start end replacement =
     (case docs path of
        Some (content, mode) \<Rightarrow>
          if content = old then Some (docs(path \<mapsto> (splice content (nat start) (nat end) replacement, and mode permMask))) else None
      | None \<Rightarrow> None)"

definition confining :: "world \<Rightarrow> bool" where
  "confining w = (\<forall>path absolute. w_resolve w path = Ok absolute \<longrightarrow> w_resolve w absolute = Ok absolute)"

lemma validate_Ok:
  "ValidateMutation E workspaceID path expected layer d = (Ok current, d') \<Longrightarrow>
     Refresh E path layer d = (Ok current, d') \<and> dn_Revision current = expected"
  by (auto simp: ValidateMutation_def Let_def judge_revision_def split: if_splits prod.splits sum.splits option.splits)

lemma inspect_text:
  assumes "inspectPath files path = Ok (disk, content)" "ds_Kind disk = ObjectRegularText"
  obtains meta where "files path = Some (FileNode content meta)" "ds_Mode disk = nm_Mode meta"
  using assms by (auto simp: inspectPath_def diskSnapshot_def missing_snapshot_def split: option.splits fs_node.splits)

lemma refresh_disk:
  assumes "Refresh E path no_layer d = (Ok taken, d')"
  obtains absolute content where "de_resolve E path = Ok absolute" "inspectPath (de_files E) absolute = Ok (dn_Disk taken, content)"
proof -
  obtain absolute disk content where a: "de_resolve E path = Ok absolute" "inspectPath (de_files E) absolute = Ok (disk, content)"
    and p: "publish (de_digests E) absolute disk no_layer (content_hash (de_digests E) no_layer disk content) d = (taken, d')"
    using refresh_Ok [OF assms] by auto
  have "dn_Disk taken = disk" using arg_cong [OF p, of "dn_Disk \<circ> fst"] by (simp add: publish_def Let_def)
  then show ?thesis using that a by simp
qed

text \<open>What a range was read from.\<close>

lemma range_made:
  assumes "NewRange N path start end w d = (Ok handle, d')" "confining w" "w_resolve w path = Ok absolute"
  obtains taken content meta read where "w_resolve w absolute = Ok absolute"
    "Refresh (env_of N w) absolute no_layer d = (Ok taken, d')" "w_files w absolute = Some (FileNode content meta)"
    "rh_Revision handle = dn_Revision taken" "rh_ByteStart handle = start" "rh_ByteEnd handle = end"
    "rangeHandle N read start end defaultAnchorBytes = Ok handle" "tr_Content read = content" "content_kind content = ObjectRegularText"
proof -
  obtain read where read: "Read N path w d = (Ok read, d')" "rangeHandle N read start end defaultAnchorBytes = Ok handle"
    using assms(1) by (auto simp: NewRange_def split: prod.splits sum.splits)
  obtain taken where taken: "Refresh (env_of N w) absolute no_layer d = (Ok taken, d')" "read_text N w absolute taken = Ok read"
    using read(1) assms(3) by (auto simp: Read_def split: prod.splits sum.splits)
  have again: "w_resolve w absolute = Ok absolute" using assms(2,3) by (simp add: confining_def)
  obtain disk content where disk: "inspectPath (w_files w) absolute = Ok (disk, content)" "tr_Content read = content" "tr_Snapshot read = taken"
    "ds_Kind (dn_Disk taken) = ObjectRegularText"
    using taken(2) by (auto simp: read_text_def Let_def split: if_splits sum.splits prod.splits)
  have kind: "ds_Kind disk = ObjectRegularText" using refresh_disk [OF taken(1)] again disk(1,4) by (force simp: env_of_def)
  obtain meta where "w_files w absolute = Some (FileNode content meta)" using inspect_text [OF disk(1) kind] by metis
  moreover from this have "content_kind content = ObjectRegularText" using disk(1) kind by (auto simp: inspectPath_def diskSnapshot_def)
  ultimately show ?thesis using that taken again read(2) disk(2,3) by (auto simp: rangeHandle_def Let_def split: if_splits)
qed

lemma range_resolved: "NewRange N path start end w d = (Ok handle, d') \<Longrightarrow> \<exists>absolute. w_resolve w path = Ok absolute"
  by (auto simp: NewRange_def Read_def split: prod.splits sum.splits)

lemma check_range_Ok:
  assumes "check_range N handle current disk content = Ok content'"
  shows "content' = content \<and> ds_Kind disk = ObjectRegularText"
  using assms by (auto simp: check_range_def Let_def split: if_splits)

lemma mutate_and_observe_world:
  assumes "mutate_and_observe N absolute edit change d w = (r, d', w')"
  shows "\<exists>rm. edit w = (rm, w') \<and> (is_done r \<longrightarrow> rm = Done ())"
  using assms by (auto simp: mutate_and_observe_def split: prod.splits outcome.splits sum.splits)

text \<open>An edit either stops before it touches anything or runs the journaled write of the spliced text.\<close>

lemma replace_cases:
  assumes "ApplyReplace N workspaceID handle replacement d w = (r, d', w')"
  obtains (refused) "w' = w" "\<not> is_done r"
  | (applied) current d1 absolute content meta rm where
      "Refresh (env_of N w) (rh_Path handle) no_layer d = (Ok current, d1)" "dn_Revision current = rh_Revision handle"
      "w_resolve w (rh_Path handle) = Ok absolute" "w_files w absolute = Some (FileNode content meta)"
      "mutateFile absolute True content True (splice content (nat (rh_ByteStart handle)) (nat (rh_ByteEnd handle)) replacement) (nm_Mode meta) w = (rm, w')"
      "is_done r \<longrightarrow> rm = Done ()"
proof (cases "PreviewReplace N workspaceID handle replacement w d")
  case (Pair found d1)
  show ?thesis
  proof (cases found)
    case (Inl e)
    show ?thesis by (rule refused) (use assms Pair Inl in \<open>auto simp: ApplyReplace_def\<close>)
  next
    case (Inr change)
    then obtain current content where valid: "validateRange N workspaceID handle w d = (Ok (current, content), d1)"
      and change: "tc_Before change = current" "diff_Before (tc_Diff change) = content"
        "diff_After (tc_Diff change) = splice content (nat (rh_ByteStart handle)) (nat (rh_ByteEnd handle)) replacement"
      using Pair by (auto simp: PreviewReplace_def Let_def exactDiff_def splice_def split: prod.splits sum.splits)
    obtain absolute disk where abs: "ValidateMutation (env_of N w) workspaceID (rh_Path handle) (rh_Revision handle) no_layer d = (Ok current, d1)"
      "w_resolve w (rh_Path handle) = Ok absolute" "inspectPath (w_files w) absolute = Ok (disk, content)" "ds_Kind disk = ObjectRegularText"
      using valid check_range_Ok by (auto simp: validateRange_def split: prod.splits sum.splits) blast
    note refreshed = validate_Ok [OF abs(1)]
    have "dn_Disk current = disk" using refresh_disk [OF conjunct1 [OF refreshed]] abs(2,3) by (force simp: env_of_def)
    then obtain meta where meta: "w_files w absolute = Some (FileNode content meta)" "ds_Mode (dn_Disk current) = nm_Mode meta"
      using inspect_text [OF abs(3,4)] by metis
    show ?thesis
    proof (cases "w_stateDir w")
      case False
      show ?thesis by (rule refused) (use assms Pair Inr False in \<open>auto simp: ApplyReplace_def\<close>)
    next
      case True
      then have "mutate_and_observe N absolute (mutateFile absolute True content True
          (splice content (nat (rh_ByteStart handle)) (nat (rh_ByteEnd handle)) replacement) (nm_Mode meta)) change d1 w = (r, d', w')"
        using assms Pair Inr abs(2) change meta(2) by (simp add: ApplyReplace_def)
      from mutate_and_observe_world [OF this] show ?thesis using applied refreshed abs(2) meta(1) by blast
    qed
  qed
qed

lemma docs_written:
  assumes "edit_left w name (edit_record path True old True new mode) r w'"
  shows "docs_of (w_files w') = docs_of (w_files w) \<and> r \<noteq> Done () \<or>
    docs_of (w_files w') = (docs_of (w_files w))(path \<mapsto> (new, and mode permMask))"
proof -
  have others: "\<forall>p. p \<noteq> path \<longrightarrow> w_files w' p = w_files w p"
    using assms by (auto simp: edit_left_def in_edit_def editing_def edit_record_def)
  have own: "w_files w' path = w_files w path \<and> r \<noteq> Done () \<or> (\<exists>meta. w_files w' path = Some (FileNode new meta) \<and> nm_Mode meta = and mode permMask)"
    using assms by (auto simp: edit_left_def edited_def in_edit_def editing_def edit_record_def written_node_def)
  have "docs_of (w_files w') p = docs_of (w_files w) p" if "p \<noteq> path" for p using others that by (simp add: docs_of_def)
  moreover have "docs_of (w_files w') path = docs_of (w_files w) path \<and> r \<noteq> Done () \<or> docs_of (w_files w') path = Some (new, and mode permMask)"
    using own by (auto simp: docs_of_def)
  ultimately show ?thesis by (metis (no_types, lifting) ext fun_upd_def)
qed

text \<open>
  C8. A range edit refines compare-and-swap. Whatever happened between the read that made a range and
  the edit, whatever fails during the edit and wherever the process dies: the document store is
  either left as it was or swapped once, from exactly the bytes the range was read from to those
  bytes with the range replaced; and an edit that reports success has swapped.
\<close>

theorem replace_refines_cas:
  assumes "collision_free (ne_digests N)" "documents_ok (ne_digests N) d0" "documents_ok (ne_digests N) d" "confining w0"
    and "NewRange N path start end w0 d0 = (Ok handle, d1)"
    and "ApplyReplace N workspaceID handle replacement d w = (r, d', w')"
  shows "\<exists>absolute old mode. w_resolve w0 path = Ok absolute \<and> docs_of (w_files w0) absolute = Some (old, mode) \<and>
    (docs_of (w_files w') = docs_of (w_files w) \<and> \<not> is_done r \<or>
     cas_splice (docs_of (w_files w)) absolute old start end replacement = Some (docs_of (w_files w')))"
proof -
  obtain absolute where resolved: "w_resolve w0 path = Ok absolute" using range_resolved [OF assms(5)] by blast
  obtain taken old meta0 where read: "w_resolve w0 absolute = Ok absolute" "Refresh (env_of N w0) absolute no_layer d0 = (Ok taken, d1)"
    "w_files w0 absolute = Some (FileNode old meta0)" "rh_Revision handle = dn_Revision taken" "rh_ByteStart handle = start"
    "rh_ByteEnd handle = end"
    using range_made [OF assms(5,4) resolved] by metis
  have docs0: "docs_of (w_files w0) absolute = Some (old, nm_Mode meta0)" using read(3) by (simp add: docs_of_def)
  show ?thesis using assms(6)
  proof (cases rule: replace_cases)
    case refused
    then show ?thesis using resolved docs0 by blast
  next
    case (applied current d2 target content meta rm)
    have "dn_Revision current = dn_Revision taken" using applied(2) read(4) by simp
    then have "w_resolve w (rh_Path handle) = Ok absolute \<and> same_object (w_files w absolute) (w_files w0 absolute)"
      using token_same_object [OF assms(1) _ _ assms(3,2) applied(1) read(2)] read(1) by (auto simp: env_of_def)
    then have same: "target = absolute" "content = old" using applied(3,4) read(3) by auto
    have "edit_left w (fresh_journal (w_native w)) (edit_record absolute True old True (splice old (nat start) (nat end) replacement) (nm_Mode meta)) rm w'"
      using wp_result [OF wp_mutateFile applied(5)] same read(5,6) by simp
    note left = docs_written [OF this]
    have "docs_of (w_files w) absolute = Some (old, nm_Mode meta)" using applied(4) same by (simp add: docs_of_def)
    then show ?thesis using resolved docs0 left applied(6) by (auto simp: cas_splice_def)
  qed
qed

section \<open>An edit of an unchanged document succeeds\<close>

lemma refresh_returns:
  assumes "de_resolve E path = Ok absolute" "inspectPath (de_files E) absolute = Ok (disk, content)" "\<And>p r. de_note E p r = Ok ()"
  shows "\<exists>taken d'. Refresh E path layer d = (Ok taken, d')"
  using assms by (auto simp: Refresh_def snapshot_def Let_def split: prod.splits option.splits)

lemma revision_nonempty: "Refresh E path layer d = (Ok taken, d') \<Longrightarrow> dn_Revision taken \<noteq> []"
proof -
  assume "Refresh E path layer d = (Ok taken, d')"
  then obtain absolute disk h l where "publish (de_digests E) absolute disk l h d = (taken, d')" using refresh_Ok by metis
  from arg_cong [OF this, of "dn_Revision \<circ> fst"] show ?thesis by (auto simp: publish_def new_snapshot_def revisionFor_def Let_def)
qed

lemma same_object_file:
  assumes "same_object node (Some (FileNode content meta))"
  obtains meta' where "node = Some (FileNode content meta')" "nm_Mode meta' = nm_Mode meta"
  using assms by (cases "(node, Some (FileNode content meta))" rule: same_object.cases) auto

lemma quiet_mutate:
  assumes "w_io w = []" "w_files w path = Some (FileNode preimage meta)"
  shows "\<exists>w'. mutateFile path True preimage True postimage mode w = (Done (), w') \<and> w_resolve w' = w_resolve w \<and>
    (\<exists>meta'. w_files w' path = Some (FileNode postimage meta'))"
  using assms content_kind_cases [of preimage]
  by (auto simp: mutateFile_def mutate_target_def create_journal_def write_journal_def native_write_def atomicWriteFile_def writeTempAndRename_def
      remove_native_def cleanup_journal_def MkdirAll_def syncDirectory_def put_node_def ensureCurrent_def inspectPath_def diskSnapshot_def
      regularFile_def io_wrap_def quiet_call io_defs Let_def)

lemma check_range_made:
  assumes "rangeHandle N read start end anchor = Ok handle" "tr_Content read = content" "ds_Kind disk = ObjectRegularText"
  shows "check_range N handle current disk content = Ok content"
  using assms by (auto simp: rangeHandle_def check_range_def Let_def split: if_splits)

text \<open>The guard and the range check let an edit of the same object pass.\<close>

lemma range_validates:
  assumes "collision_free (ne_digests N)" "documents_ok (ne_digests N) d0" "documents_ok (ne_digests N) d"
    and made: "rangeHandle N read start end anchor = Ok handle" "tr_Content read = old" "w_resolve w0 absolute = Ok absolute"
      "Refresh (env_of N w0) absolute no_layer d0 = (Ok taken, d1)" "rh_Revision handle = dn_Revision taken"
    and now: "w_resolve w (rh_Path handle) = Ok absolute" "w_files w absolute = Some (FileNode old meta)" "content_kind old = ObjectRegularText"
      "same_object (w_files w absolute) (w_files w0 absolute)"
      "id_ID (dw_identity d) = id_ID (dw_identity d0)" "id_Epoch (dw_identity d) = id_Epoch (dw_identity d0)"
      "workspaceID = id_ID (dw_identity d)" "workspaceID \<noteq> []" "\<And>p r. ne_note N p r = Ok ()"
  shows "\<exists>current d2. validateRange N workspaceID handle w d = (Ok (current, old), d2) \<and> ds_Mode (dn_Disk current) = nm_Mode meta"
proof -
  define disk where "disk = diskSnapshot meta (int (length old)) ObjectRegularText []"
  have disk: "inspectPath (w_files w) absolute = Ok (disk, old)" "ds_Kind disk = ObjectRegularText" "ds_Mode disk = nm_Mode meta"
    using now by (simp_all add: inspectPath_def disk_def diskSnapshot_def)
  obtain current d2 where current: "Refresh (env_of N w) (rh_Path handle) no_layer d = (Ok current, d2)"
    using refresh_returns [of "env_of N w"] now(1,9) disk(1) by (force simp: env_of_def)
  have rev: "dn_Revision current = rh_Revision handle"
    using token_same_object [OF assms(1) _ _ assms(3,2) current made(4)] made(3,5) now(1,4-6) by (auto simp: env_of_def)
  have "rh_Revision handle \<noteq> []" using revision_nonempty [OF made(4)] made(5) by simp
  then have valid: "ValidateMutation (env_of N w) workspaceID (rh_Path handle) (rh_Revision handle) no_layer d = (Ok current, d2)"
    using guard_iff [of "env_of N w" d] assms(1,3) now(7,8) current rev by (simp add: env_of_def)
  have "dn_Disk current = disk" using refresh_disk [OF current] now(1) disk(1) by (force simp: env_of_def)
  then show ?thesis using valid now(1) disk check_range_made [OF made(1,2) disk(2)] by (simp add: validateRange_def)
qed

lemma unchanged_replace_runs:
  assumes "collision_free (ne_digests N)" "documents_ok (ne_digests N) d0" "documents_ok (ne_digests N) d"
    and "confining w0" "confining w" "NewRange N path start end w0 d0 = (Ok handle, d1)" "w_resolve w0 path = Ok absolute"
    and "w_resolve w (rh_Path handle) = Ok absolute" "same_object (w_files w absolute) (w_files w0 absolute)"
    and "id_ID (dw_identity d) = id_ID (dw_identity d0)" "id_Epoch (dw_identity d) = id_Epoch (dw_identity d0)"
    and "workspaceID = id_ID (dw_identity d)" "workspaceID \<noteq> []" "w_stateDir w" "w_io w = []" "\<And>p r. ne_note N p r = Ok ()"
  shows "\<exists>change after d' w' old mode. ApplyReplace N workspaceID handle replacement d w = (Done (change, after), d', w') \<and>
    docs_of (w_files w0) absolute = Some (old, mode) \<and>
    docs_of (w_files w') absolute = Some (splice old (nat start) (nat end) replacement, and mode permMask)"
proof -
  obtain taken old meta0 read where made: "w_resolve w0 absolute = Ok absolute"
    "Refresh (env_of N w0) absolute no_layer d0 = (Ok taken, d1)" "w_files w0 absolute = Some (FileNode old meta0)"
    "rh_Revision handle = dn_Revision taken" "rh_ByteStart handle = start" "rh_ByteEnd handle = end"
    "rangeHandle N read start end defaultAnchorBytes = Ok handle" "tr_Content read = old" "content_kind old = ObjectRegularText"
    using range_made [OF assms(6,4,7)] by metis
  obtain meta where now: "w_files w absolute = Some (FileNode old meta)" "nm_Mode meta = nm_Mode meta0"
    using same_object_file assms(9) made(3) by metis
  obtain current d2 where current: "validateRange N workspaceID handle w d = (Ok (current, old), d2)" "ds_Mode (dn_Disk current) = nm_Mode meta"
    using range_validates [OF assms(1-3) made(7,8,1,2,4) assms(8) now(1) made(9) assms(9-13,16)] by blast
  then obtain change where change: "PreviewReplace N workspaceID handle replacement w d = (Ok change, d2)" "tc_Before change = current"
    "diff_Before (tc_Diff change) = old" "diff_After (tc_Diff change) = splice old (nat start) (nat end) replacement"
    using made(5,6) by (auto simp: PreviewReplace_def Let_def exactDiff_def splice_def split: prod.splits)
  obtain w' meta' where w': "mutateFile absolute True old True (splice old (nat start) (nat end) replacement) (nm_Mode meta) w = (Done (), w')"
    "w_resolve w' = w_resolve w" "w_files w' absolute = Some (FileNode (splice old (nat start) (nat end) replacement) meta')"
    using quiet_mutate [OF assms(15) now(1)] by blast
  have "w_resolve w absolute = Ok absolute" using assms(5,8) by (simp add: confining_def)
  then obtain after d' where after: "Refresh (env_of N w') absolute no_layer d2 = (Ok after, d')"
    using refresh_returns [of "env_of N w'" absolute absolute] w' assms(16) by (force simp: env_of_def inspectPath_def)
  have run: "ApplyReplace N workspaceID handle replacement d w = (Done (change, after), d', w')"
    using change assms(8,14) current(2) w'(1) after by (simp add: ApplyReplace_def mutate_and_observe_def)
  have "edit_left w (fresh_journal (w_native w)) (edit_record absolute True old True (splice old (nat start) (nat end) replacement) (nm_Mode meta)) (Done ()) w'"
    using wp_result [OF wp_mutateFile w'(1)] .
  then have "docs_of (w_files w') absolute = Some (splice old (nat start) (nat end) replacement, and (nm_Mode meta) permMask)"
    using docs_written by fastforce
  moreover have "docs_of (w_files w0) absolute = Some (old, nm_Mode meta)" using made(3) now(2) by (simp add: docs_of_def)
  ultimately show ?thesis using run by blast
qed

text \<open>
  C11. A range can be used for what it was made for. When a range was made of a document whose bytes
  and mode are still the same, in the same workspace and epoch, and nothing fails, replacing it
  succeeds and the document holds the bytes it was read with, with the range replaced.
\<close>

theorem unchanged_range_replaces:
  assumes "collision_free (ne_digests N)" "documents_ok (ne_digests N) d0" "documents_ok (ne_digests N) d"
    and "confining w0" "confining w" "NewRange N path start end w0 d0 = (Ok handle, d1)" "w_resolve w0 path = Ok absolute"
    and "w_resolve w (rh_Path handle) = Ok absolute" "same_object (w_files w absolute) (w_files w0 absolute)"
    and "id_ID (dw_identity d) = id_ID (dw_identity d0)" "id_Epoch (dw_identity d) = id_Epoch (dw_identity d0)"
    and "workspaceID = id_ID (dw_identity d)" "workspaceID \<noteq> []" "w_stateDir w" "w_io w = []" "\<And>p r. ne_note N p r = Ok ()"
  shows "\<exists>change after d' w' old mode. ApplyReplace N workspaceID handle replacement d w = (Done (change, after), d', w') \<and>
    docs_of (w_files w0) absolute = Some (old, mode) \<and>
    docs_of (w_files w') absolute = Some (splice old (nat start) (nat end) replacement, and mode permMask)"
  using assms by (rule unchanged_replace_runs)

section \<open>An example\<close>

definition sample_native_env :: native_env where
  "sample_native_env = \<lparr> ne_digests = sample_digests, ne_note = (\<lambda>_ _. Ok ()), ne_maxBytes = 1000, ne_semantic = [] \<rparr>"

definition confined_world :: world where
  "confined_world = (let w = sample_world [] [(''/r'', DirNode sample_meta), (''/r/a'', FileNode ''abc'' (sample_meta\<lparr> nm_Mode := 4 \<rparr>))] []
     in w\<lparr> w_resolve := confinedPath (w_files w) (w_identity w) [] \<rparr>)"

definition sample_range :: RangeHandle where
  "sample_range = projr (fst (NewRange sample_native_env ''a'' 1 2 confined_world sample_documents))"

lemma sample_confining: "confining confined_world"
proof -
  have "id_Root (w_identity confined_world) = rooted_path [''r'']" by code_simp
  then show ?thesis unfolding confining_def
    using confinedPath_again [of "w_files confined_world" "w_identity confined_world" "[]" _ _ "[''r'']"]
    by (simp add: confined_world_def Let_def)
qed

lemma sample_range_made:
  "NewRange sample_native_env ''a'' 1 2 confined_world sample_documents =
     (Ok sample_range, snd (NewRange sample_native_env ''a'' 1 2 confined_world sample_documents))"
proof -
  have "is_ok (fst (NewRange sample_native_env ''a'' 1 2 confined_world sample_documents))" by code_simp
  then show ?thesis by (metis is_okD prod.collapse sample_range_def sum.sel(2))
qed

lemma sample_native_facts:
  "collision_free (ne_digests sample_native_env)" "documents_ok (ne_digests sample_native_env) sample_documents"
  "w_resolve confined_world ''a'' = Ok ''/r/a''" "w_resolve confined_world (rh_Path sample_range) = Ok ''/r/a''"
  "''ws'' = id_ID (dw_identity sample_documents)" "w_stateDir confined_world" "w_io confined_world = []"
  "ne_note sample_native_env p q = Ok ()" "docs_of (w_files confined_world) ''/r/a'' = Some (''abc'', 4)"
proof -
  show "collision_free (ne_digests sample_native_env)" "documents_ok (ne_digests sample_native_env) sample_documents"
    unfolding sample_documents_def using sample_collision_free new_documents_ok by (simp_all add: sample_native_env_def)
  have "rh_Path sample_range = ''a''" by code_simp
  moreover show "w_resolve confined_world ''a'' = Ok ''/r/a''" by code_simp
  ultimately show "w_resolve confined_world (rh_Path sample_range) = Ok ''/r/a''" by simp
  show "docs_of (w_files confined_world) ''/r/a'' = Some (''abc'', 4)" by code_simp
qed (simp_all add: sample_documents_def new_documents_def confined_world_def sample_world_def sample_native_env_def Let_def)

lemmas sample_replacement = sample_native_facts(1,2,2) sample_confining sample_confining sample_range_made sample_native_facts(3,4)
  same_object_refl refl refl sample_native_facts(5)

theorem unchanged_range_replaces_witness:
  "\<exists>change after d' w'. ApplyReplace sample_native_env ''ws'' sample_range ''XY'' sample_documents confined_world = (Done (change, after), d', w') \<and>
     docs_of (w_files w') ''/r/a'' = Some (''aXYc'', 4)"
proof -
  have "and 4 permMask = (4 :: u32)" by code_simp
  then show ?thesis using unchanged_range_replaces [OF sample_replacement, of "''XY''"] sample_native_facts(6-9)
    by (fastforce simp: splice_def numeral_2_eq_2)
qed

theorem replace_refines_cas_witness:
  "\<exists>r d' w'. ApplyReplace sample_native_env ''ws'' sample_range ''XY'' sample_documents confined_world = (r, d', w') \<and> is_done r \<and>
     cas_splice (docs_of (w_files confined_world)) ''/r/a'' ''abc'' 1 2 ''XY'' = Some (docs_of (w_files w'))"
proof -
  obtain change after d' w' where run: "ApplyReplace sample_native_env ''ws'' sample_range ''XY'' sample_documents confined_world = (Done (change, after), d', w')"
    using unchanged_replace_runs [OF sample_replacement, of "''XY''"] sample_native_facts(6-8) by blast
  have "cas_splice (docs_of (w_files confined_world)) ''/r/a'' ''abc'' 1 2 ''XY'' = Some (docs_of (w_files w'))"
    using replace_refines_cas [OF sample_native_facts(1,2,2) sample_confining sample_range_made run] sample_native_facts(3,9) by auto
  then show ?thesis using run by auto
qed

end
