(* ===== verification/Preview.thy ===== *)
theory Preview
  imports Native_Edits Operation_Order "HOL-Library.Product_Lexorder"
begin

text \<open>
  The preview of a plan (\<^verbatim>\<open>internal/workspace/plan_preview.go\<close>, \<open>syntaxAnchorReplacement\<close> of \<^verbatim>\<open>plan.go\<close>): every
  operation, in the order of \<open>orderOperations\<close>, is applied to copies of the documents it names, and
  hunks record where each operation's bytes landed. The builder reads the tree and observes
  documents but writes nothing.

  The hits of a result set (\<open>ResolveAllMatches\<close> of \<^verbatim>\<open>handles.go\<close>) and the digest that names a preview are
  parameters. A nil dereference, which panics, is recorded as a conflict; normalised operations
  never reach it.
\<close>

section \<open>The builder\<close>

text \<open>Of the record a match handle points to only its identifier is used.\<close>

record SearchHit =
  sh_Path :: string
  sh_ByteStart :: int
  sh_ByteEnd :: int
  sh_Line :: int
  sh_Column :: int
  sh_Match :: bytes
  sh_Range :: RangeHandle
  sh_MatchHandle :: "string option"
  sh_MatchTruncated :: bool

record preview_env =
  pe_native :: native_env
  pe_matches :: "string \<Rightarrow> SearchHit list result"
  pe_digest :: "PlanPreview \<Rightarrow> string"

record previewBuilder =
  pb_docs :: doc_state
  pb_conflicts :: "PlanConflict list"
  pb_contents :: "string \<Rightarrow> bytes option"
  pb_exists :: "string \<Rightarrow> bool"
  pb_before :: "string \<Rightarrow> bytes option"
  pb_touched :: "string list"
  pb_hunks :: "PlanHunk list"

definition conflict :: "PlanOperation \<Rightarrow> string \<Rightarrow> string \<Rightarrow> go_error \<Rightarrow> previewBuilder \<Rightarrow> previewBuilder" where
  "conflict operation path expected err b =
     (let (code, current) = (case as_conflict err of Some typed \<Rightarrow> (cf_Code typed, cf_Current typed) | None \<Rightarrow> (ConflictDocumentChanged, []))
      in b\<lparr> pb_conflicts := pb_conflicts b @ [\<lparr> pc_OpID = op_OpID operation, pc_Code = code, pc_Path = path, pc_Expected = expected,
           pc_Current = current, pc_Message = err \<rparr>] \<rparr>)"

definition set_path :: "string \<Rightarrow> bytes \<Rightarrow> bool \<Rightarrow> previewBuilder \<Rightarrow> previewBuilder" where
  "set_path path content exists b = b\<lparr> pb_contents := (pb_contents b)(path \<mapsto> content), pb_exists := (pb_exists b)(path := exists),
     pb_touched := List.insert path (pb_touched b) \<rparr>"

definition shift_hunk :: "string \<Rightarrow> int \<Rightarrow> int \<Rightarrow> int \<Rightarrow> PlanHunk \<Rightarrow> PlanHunk" where
  "shift_hunk path start end delta hunk =
     (if ph_Path hunk \<noteq> path then hunk
      else if ph_ByteStart hunk \<ge> end
      then hunk\<lparr> ph_ByteStart := ph_ByteStart hunk + delta, ph_ByteEnd := ph_ByteEnd hunk + delta \<rparr>
      else if ph_ByteEnd hunk > start then hunk\<lparr> ph_Superseded := True \<rparr> else hunk)"

definition record_hunk :: "PlanOperation \<Rightarrow> string \<Rightarrow> int \<Rightarrow> int \<Rightarrow> int \<Rightarrow> previewBuilder \<Rightarrow> previewBuilder" where
  "record_hunk operation path start end replacement b =
     b\<lparr> pb_hunks := map (shift_hunk path start end (replacement - (end - start))) (pb_hunks b) @
          [\<lparr> ph_OpID = op_OpID operation, ph_Path = path, ph_ByteStart = start, ph_ByteEnd = start + replacement,
             ph_StartLine = 0, ph_EndLine = 0, ph_Superseded = False \<rparr>] \<rparr>"

definition remember :: "string \<Rightarrow> bytes \<Rightarrow> previewBuilder \<Rightarrow> previewBuilder" where
  "remember path content b = b\<lparr> pb_contents := (pb_contents b)(path \<mapsto> content), pb_before := (pb_before b)(path \<mapsto> content),
     pb_exists := (pb_exists b)(path := True) \<rparr>"

section \<open>Loading documents\<close>

type_synonym loaded = "(bytes \<times> bool) result \<times> previewBuilder"

text \<open>\<open>os.ReadFile\<close> of the path below the root.\<close>

definition read_binary :: "world \<Rightarrow> string \<Rightarrow> bytes result" where
  "read_binary w path =
     (case w_files w (Join (id_Root (w_identity w)) path) of
        Some (FileNode content _) \<Rightarrow> Ok content
      | _ \<Rightarrow> Error (PlainError ''no such file or directory''))"

definition loadUnreadable :: "preview_env \<Rightarrow> world \<Rightarrow> string \<Rightarrow> go_error \<Rightarrow> previewBuilder \<Rightarrow> loaded" where
  "loadUnreadable E w path readErr b =
     (case Refresh (env_of (pe_native E) w) path no_layer (pb_docs b) of
        (Inl _, d) \<Rightarrow> (Error readErr, b\<lparr> pb_docs := d \<rparr>)
      | (Inr taken, d) \<Rightarrow>
          let b = b\<lparr> pb_docs := d \<rparr>
          in case ds_Kind (dn_Disk taken) of
               ObjectMissing \<Rightarrow>
                 (Ok ([], False), b\<lparr> pb_contents := (pb_contents b)(path \<mapsto> []), pb_before := (pb_before b)(path \<mapsto> []),
                    pb_exists := (pb_exists b)(path := False) \<rparr>)
             | ObjectBinary \<Rightarrow>
                 (case read_binary w path of
                    Inl e \<Rightarrow> (Error e, b)
                  | Inr content \<Rightarrow>
                      if int (length content) \<noteq> ds_Size (dn_Disk taken) \<or> hashBytes (pe_native E) content \<noteq> dn_ContentSHA256 taken
                      then (Error (revision_conflict ConflictDocumentChanged path (dn_Revision taken) (dn_Revision taken) []), b)
                      else (Ok (content, True), remember path content b))
             | ObjectSymlink \<Rightarrow>
                 (Ok (ds_SymlinkTarget (dn_Disk taken), True), remember path (ds_SymlinkTarget (dn_Disk taken)) b)
             | _ \<Rightarrow> (Error readErr, b))"

definition load :: "preview_env \<Rightarrow> world \<Rightarrow> string \<Rightarrow> previewBuilder \<Rightarrow> loaded" where
  "load E w path b =
     (case pb_contents b path of
        Some content \<Rightarrow> (Ok (content, pb_exists b path), b)
      | None \<Rightarrow>
          (case Read (pe_native E) path w (pb_docs b) of
             (Inl e, d) \<Rightarrow> loadUnreadable E w path e (b\<lparr> pb_docs := d \<rparr>)
           | (Inr read, d) \<Rightarrow> (Ok (tr_Content read, True), remember path (tr_Content read) (b\<lparr> pb_docs := d \<rparr>))))"

definition loadPresent :: "preview_env \<Rightarrow> world \<Rightarrow> string \<Rightarrow> string \<Rightarrow> previewBuilder \<Rightarrow> bytes result \<times> previewBuilder" where
  "loadPresent E w path missing b =
     (case load E w path b of
        (Inl e, b') \<Rightarrow> (Error e, b')
      | (Inr (content, present), b') \<Rightarrow> (if present then Ok content else Error (PlainError missing), b'))"

section \<open>Operations\<close>

text \<open>\<open>bytes.Split\<close> at newlines, and the continuation lines of a replacement indented like its anchor.\<close>

fun split_lines :: "bytes \<Rightarrow> bytes list" where
  "split_lines [] = [[]]"
| "split_lines (c # rest) =
     (if c = newline then [] # split_lines rest
      else (case split_lines rest of [] \<Rightarrow> [[c]] | line # others \<Rightarrow> (c # line) # others))"

definition line_prefix :: "bytes \<Rightarrow> nat \<Rightarrow> bytes" where
  "line_prefix content start = rev (takeWhile (\<lambda>c. c \<noteq> newline) (rev (take start content)))"

fun indent_lines :: "bytes \<Rightarrow> bytes list \<Rightarrow> bytes" where
  "indent_lines indent [] = []"
| "indent_lines indent (line # others) = newline # (if line \<noteq> [] then indent else []) @ line @ indent_lines indent others"

definition syntaxAnchorReplacement :: "bytes \<Rightarrow> int \<Rightarrow> bytes \<Rightarrow> bytes result" where
  "syntaxAnchorReplacement content start replacement =
     (if start < 0 \<or> start > int (length content) then Error (PlainError ''syntax anchor is outside the document'')
      else
        let indent = line_prefix content (nat start)
        in if \<not> list_all (\<lambda>c. c = blank \<or> c = tabulator) indent
           then Error (PlainError ''syntax anchor does not begin at a parsed node indentation boundary'')
           else if blank \<in> set indent \<and> tabulator \<in> set indent then Error (PlainError ''syntax anchor has mixed leading whitespace'')
           else
             (case split_lines replacement of
                line0 # line1 # others \<Rightarrow> Ok (line0 @ indent_lines indent (line1 # others))
              | _ \<Rightarrow> Ok replacement))"

definition guard_path ::
  "preview_env \<Rightarrow> world \<Rightarrow> string \<Rightarrow> string \<Rightarrow> previewBuilder \<Rightarrow> DocumentSnapshot result \<times> previewBuilder" where
  "guard_path E w path revision b =
     (case ValidateMutation (env_of (pe_native E) w) (id_ID (dw_identity (pb_docs b))) path revision no_layer (pb_docs b) of
        (r, d) \<Rightarrow> (r, b\<lparr> pb_docs := d \<rparr>))"

definition edit_replacement :: "PlanOperation \<Rightarrow> bytes \<Rightarrow> int \<Rightarrow> bytes result" where
  "edit_replacement operation content start =
     (if op_Indentation operation = ''syntax_anchor'' then syntaxAnchorReplacement content start (op_Content operation)
      else Ok (op_Content operation))"

text \<open>The bytes an operation replaces: an insertion keeps its anchor.\<close>

definition edit_span :: "OperationKind \<Rightarrow> RangeHandle \<Rightarrow> int \<times> int" where
  "edit_span kind handle =
     (case kind of
        OperationInsertBefore \<Rightarrow> (rh_ByteStart handle, rh_ByteStart handle)
      | OperationInsertAfter \<Rightarrow> (rh_ByteEnd handle, rh_ByteEnd handle)
      | _ \<Rightarrow> (rh_ByteStart handle, rh_ByteEnd handle))"

definition splice_edit :: "PlanOperation \<Rightarrow> RangeHandle \<Rightarrow> bytes \<Rightarrow> previewBuilder \<Rightarrow> previewBuilder" where
  "splice_edit operation handle content b =
     (let (start, end) = edit_span (op_Kind operation) handle
      in case edit_replacement operation content start of
           Inl e \<Rightarrow> conflict operation (rh_Path handle) (rh_Revision handle) e b
         | Inr replacement \<Rightarrow>
             set_path (rh_Path handle) (splice content (nat start) (nat end) replacement) True
               (record_hunk operation (rh_Path handle) start end (int (length replacement)) b))"

definition applyEdit :: "preview_env \<Rightarrow> world \<Rightarrow> PlanOperation \<Rightarrow> previewBuilder \<Rightarrow> previewBuilder" where
  "applyEdit E w operation b =
     (case Option.bind (op_Target operation) pt_FileRange of
        None \<Rightarrow> conflict operation [] [] (PlainError ''nil pointer dereference'') b
      | Some handle \<Rightarrow>
          (case guard_path E w (rh_Path handle) (rh_Revision handle) b of
             (Inl e, b1) \<Rightarrow> conflict operation (rh_Path handle) (rh_Revision handle) e b1
           | (Inr current, b1) \<Rightarrow>
               (case loadPresent E w (rh_Path handle) ''target file is missing'' b1 of
                  (Inl e, b2) \<Rightarrow> conflict operation (rh_Path handle) (rh_Revision handle) e b2
                | (Inr content, b2) \<Rightarrow>
                    if \<not> rangeMatches (hashBytes (pe_native E)) content (rh_ByteStart handle) (rh_ByteEnd handle) (rh_ExpectedSHA256 handle)
                    then conflict operation (rh_Path handle) (rh_Revision handle) (range_conflict handle current) b2
                    else splice_edit operation handle content b2)))"

definition applyCreate :: "preview_env \<Rightarrow> world \<Rightarrow> PlanOperation \<Rightarrow> previewBuilder \<Rightarrow> previewBuilder" where
  "applyCreate E w operation b =
     (case guard_path E w (op_Path operation) (op_Revision operation) b of
        (Inl e, b1) \<Rightarrow> conflict operation (op_Path operation) (op_Revision operation) e b1
      | (Inr current, b1) \<Rightarrow>
          if ds_Kind (dn_Disk current) \<noteq> ObjectMissing
          then conflict operation (op_Path operation) (op_Revision operation) (PlainError ''create target already exists'') b1
          else set_path (op_Path operation) (op_Content operation) True (snd (load E w (op_Path operation) b1)))"

definition applyDelete :: "preview_env \<Rightarrow> world \<Rightarrow> PlanOperation \<Rightarrow> previewBuilder \<Rightarrow> previewBuilder" where
  "applyDelete E w operation b =
     (case guard_path E w (op_Path operation) (op_Revision operation) b of
        (Inl e, b1) \<Rightarrow> conflict operation (op_Path operation) (op_Revision operation) e b1
      | (Inr _, b1) \<Rightarrow>
          (case loadPresent E w (op_Path operation) ''delete target is missing'' b1 of
             (Inl e, b2) \<Rightarrow> conflict operation (op_Path operation) (op_Revision operation) e b2
           | (Inr _, b2) \<Rightarrow> set_path (op_Path operation) [] False b2))"

definition applyMove :: "preview_env \<Rightarrow> world \<Rightarrow> PlanOperation \<Rightarrow> previewBuilder \<Rightarrow> previewBuilder" where
  "applyMove E w operation b =
     (case guard_path E w (op_From operation) (op_Revision operation) b of
        (Inl e, b1) \<Rightarrow> conflict operation (op_From operation) (op_Revision operation) e b1
      | (Inr _, b1) \<Rightarrow>
          (case guard_path E w (op_To operation) (op_DestinationRevision operation) b1 of
             (Inl e, b2) \<Rightarrow> conflict operation (op_To operation) (op_DestinationRevision operation) e b2
           | (Inr destination, b2) \<Rightarrow>
               if ds_Kind (dn_Disk destination) \<noteq> ObjectMissing
               then conflict operation (op_To operation) (op_DestinationRevision operation) (PlainError ''move destination exists'') b2
               else
                 (case loadPresent E w (op_From operation) ''move source is missing'' b2 of
                    (Inl e, b3) \<Rightarrow> conflict operation (op_From operation) (op_Revision operation) e b3
                  | (Inr source, b3) \<Rightarrow>
                      set_path (op_From operation) [] False
                        (set_path (op_To operation) source True (snd (load E w (op_To operation) b3))))))"

definition copy_content :: "preview_env \<Rightarrow> world \<Rightarrow> PlanOperation \<Rightarrow> previewBuilder \<Rightarrow> bytes result \<times> previewBuilder" where
  "copy_content E w operation b =
     (case w_resolve w (op_From operation) of
        Inr _ \<Rightarrow>
          (case loadPresent E w (op_From operation) ''copy source is missing'' b of
             (Inl e, b1) \<Rightarrow> (Error e, b1)
           | (Inr content, b1) \<Rightarrow>
               if op_From operation \<notin> set (pb_touched b1) \<and> hashBytes (pe_native E) content \<noteq> op_ExpectedSHA256 operation
               then (Error (Codedf CodeCopySourceChanged ''copy source no longer matches its bound hash''), b1)
               else (Ok content, b1))
      | Inl _ \<Rightarrow>
          (case Workspace_TransferSource (pe_native E) (op_From operation) (op_ExpectedSHA256 operation) w (pb_docs b) of
             (Inl e, d) \<Rightarrow> (Error e, b\<lparr> pb_docs := d \<rparr>)
           | (Inr source, d) \<Rightarrow> (Ok (ts_Content source), b\<lparr> pb_docs := d \<rparr>)))"

definition applyCopy :: "preview_env \<Rightarrow> world \<Rightarrow> PlanOperation \<Rightarrow> previewBuilder \<Rightarrow> previewBuilder" where
  "applyCopy E w operation b =
     (case guard_path E w (op_To operation) (op_DestinationRevision operation) b of
        (Inl e, b1) \<Rightarrow> conflict operation (op_To operation) (op_DestinationRevision operation) e b1
      | (Inr destination, b1) \<Rightarrow>
          if ds_Kind (dn_Disk destination) \<noteq> ObjectMissing
          then conflict operation (op_To operation) (op_DestinationRevision operation) (PlainError ''copy destination exists'') b1
          else
            (case copy_content E w operation b1 of
               (Inl e, b2) \<Rightarrow> conflict operation (op_From operation) [] e b2
             | (Inr content, b2) \<Rightarrow> set_path (op_To operation) content True (snd (load E w (op_To operation) b2))))"

definition splice_hit :: "preview_env \<Rightarrow> world \<Rightarrow> PlanOperation \<Rightarrow> SearchHit \<Rightarrow> previewBuilder \<Rightarrow> previewBuilder" where
  "splice_hit E w operation hit b =
     (case loadPresent E w (sh_Path hit) ''result-set target file is missing'' b of
        (Inl e, b1) \<Rightarrow> conflict operation (sh_Path hit) (rh_Revision (sh_Range hit)) e b1
      | (Inr content, b1) \<Rightarrow>
          if \<not> rangeMatches (hashBytes (pe_native E)) content (sh_ByteStart hit) (sh_ByteEnd hit) (rh_ExpectedSHA256 (sh_Range hit))
          then conflict operation (sh_Path hit) (rh_Revision (sh_Range hit))
                 (revision_conflict ConflictDocumentChanged (sh_Path hit) (rh_Revision (sh_Range hit)) [] []) b1
          else set_path (sh_Path hit) (splice content (nat (sh_ByteStart hit)) (nat (sh_ByteEnd hit)) (op_Content operation)) True b1)"

definition applyReplaceMatches :: "preview_env \<Rightarrow> world \<Rightarrow> PlanOperation \<Rightarrow> previewBuilder \<Rightarrow> previewBuilder" where
  "applyReplaceMatches E w operation b =
     (case op_Target operation of
        None \<Rightarrow> conflict operation [] [] (PlainError ''nil pointer dereference'') b
      | Some target \<Rightarrow>
          (case pe_matches E (pt_Handle target) of
             Inl e \<Rightarrow> conflict operation [] [] e b
           | Inr hits \<Rightarrow> fold (splice_hit E w operation) (sort_key (\<lambda>hit. (sh_Path hit, - sh_ByteStart hit)) hits) b))"

definition apply_operation :: "preview_env \<Rightarrow> world \<Rightarrow> PlanOperation \<Rightarrow> previewBuilder \<Rightarrow> previewBuilder" where
  "apply_operation E w operation b =
     (case op_Kind operation of
        OperationCreateFile \<Rightarrow> applyCreate E w operation b
      | OperationDeleteFile \<Rightarrow> applyDelete E w operation b
      | OperationMoveFile \<Rightarrow> applyMove E w operation b
      | OperationCopyFile \<Rightarrow> applyCopy E w operation b
      | OperationReplaceMatches \<Rightarrow> applyReplaceMatches E w operation b
      | OperationOther kind \<Rightarrow>
          b\<lparr> pb_conflicts := pb_conflicts b @ [\<lparr> pc_OpID = op_OpID operation, pc_Code = ConflictOther ''operation_requires_later_stage'',
               pc_Path = [], pc_Expected = [], pc_Current = [], pc_Message = PlainError (kind @ '' requires provider or result-set validation unavailable before its named stage'') \<rparr>] \<rparr>
      | _ \<Rightarrow> applyEdit E w operation b)"

section \<open>Previews\<close>

definition finalizePreview :: "preview_env \<Rightarrow> PlanPreview \<Rightarrow> PlanPreview" where
  "finalizePreview E preview =
     preview\<lparr> pv_PreviewRevision := ''preview_'' @ pe_digest E (preview\<lparr> pv_PreviewRevision := [] \<rparr>) \<rparr>"

definition line_at :: "bytes \<Rightarrow> int \<Rightarrow> nat" where
  "line_at content offset = 1 + length (filter (\<lambda>c. c = newline) (take (nat (min offset (int (length content)))) content))"

definition line_hunk :: "(string \<Rightarrow> bytes option) \<Rightarrow> PlanHunk \<Rightarrow> PlanHunk" where
  "line_hunk contents hunk =
     (let content = (case contents (ph_Path hunk) of Some c \<Rightarrow> c | None \<Rightarrow> [])
      in hunk\<lparr> ph_StartLine := line_at content (ph_ByteStart hunk), ph_EndLine := line_at content (ph_ByteEnd hunk) \<rparr>)"

definition bytes_at :: "(string \<Rightarrow> bytes option) \<Rightarrow> string \<Rightarrow> bytes" where
  "bytes_at contents path = (case contents path of Some content \<Rightarrow> content | None \<Rightarrow> [])"

definition path_diff :: "preview_env \<Rightarrow> previewBuilder \<Rightarrow> string \<Rightarrow> ExactDiff" where
  "path_diff E b path =
     (let before = bytes_at (pb_before b) path;
          after = (if pb_exists b path then bytes_at (pb_contents b) path else [])
      in exactDiff (hashBytes (pe_native E)) path before after 0 (length before) after)"

definition finish :: "preview_env \<Rightarrow> PlanPreview \<Rightarrow> previewBuilder \<Rightarrow> PlanPreview" where
  "finish E preview b =
     (if pb_conflicts b \<noteq> [] then finalizePreview E (preview\<lparr> pv_Conflicts := pb_conflicts b, pv_Outcome := ''conflict'' \<rparr>)
      else
        let paths = sort (pb_touched b)
        in finalizePreview E (preview\<lparr> pv_AffectedFiles := paths, pv_Diffs := map (path_diff E b) paths,
             pv_Hunks := map (line_hunk (pb_contents b)) (pb_hunks b) \<rparr>))"

definition empty_builder :: "doc_state \<Rightarrow> previewBuilder" where
  "empty_builder d = \<lparr> pb_docs = d, pb_conflicts = [], pb_contents = Map.empty, pb_exists = (\<lambda>_. False), pb_before = Map.empty,
     pb_touched = [], pb_hunks = [] \<rparr>"

definition start_preview :: "u64 \<Rightarrow> PlanPreview" where
  "start_preview planRevision = \<lparr> pv_PreviewRevision = [], pv_PlanRevision = planRevision, pv_Outcome = ''ok'', pv_NormalizedOrder = [],
     pv_AffectedFiles = [], pv_Diffs = [], pv_Conflicts = [], pv_Hunks = [], pv_CanonicalChanged = False \<rparr>"

text \<open>A preview observes the documents it reads, so it also returns the document state.\<close>

definition buildPreview :: "preview_env \<Rightarrow> world \<Rightarrow> u64 \<Rightarrow> PlanOperation list \<Rightarrow> doc_state \<Rightarrow> PlanPreview \<times> doc_state" where
  "buildPreview E w planRevision operations d =
     (let preview = start_preview planRevision
      in case orderOperations operations of
           Inl e \<Rightarrow>
             (finalizePreview E (preview\<lparr> pv_Outcome := ''conflict'',
                pv_Conflicts := [\<lparr> pc_OpID = [], pc_Code = ConflictOther ''operation_dependency_cycle'', pc_Path = [], pc_Expected = [],
                  pc_Current = [], pc_Message = e \<rparr>] \<rparr>), d)
         | Inr ordered \<Rightarrow>
             let b = fold (apply_operation E w) ordered (empty_builder d)
             in (finish E (preview\<lparr> pv_NormalizedOrder := map op_OpID ordered \<rparr>) b, pb_docs b))"

end
