(* ===== verification/Preview_Safety.thy ===== *)
theory Preview_Safety
  imports Preview Native_Refinement
begin

text \<open>
  Where a preview says an operation's bytes are, they are: every hunk that no later edit superseded
  locates the bytes its operation wrote in the previewed document.
\<close>

section \<open>Slices of a spliced document\<close>

lemma splice_new: "start \<le> length content \<Longrightarrow> go_slice (splice content start end replacement) start (start + length replacement) = replacement"
  by (simp add: go_slice_def splice_def)

lemma splice_before:
  "to \<le> start \<Longrightarrow> start \<le> length content \<Longrightarrow> go_slice (splice content start end replacement) from to = go_slice content from to"
  by (cases "from \<le> to") (simp_all add: go_slice_def splice_def take_drop)

lemma splice_after:
  assumes "start \<le> end" "end \<le> from" "end \<le> length content"
  shows "go_slice (splice content start end replacement) (start + length replacement + (from - end)) (start + length replacement + (to - end)) =
    go_slice content from to"
proof -
  have "drop (start + length replacement + (from - end)) (splice content start end replacement) = drop (from - end) (drop end content)"
    using assms by (simp add: splice_def)
  also have "\<dots> = drop from content" using assms by simp
  finally have "drop (start + length replacement + (from - end)) (splice content start end replacement) = drop from content" .
  moreover have "(start + length replacement + (to - end)) - (start + length replacement + (from - end)) = to - from" using assms by arith
  ultimately show ?thesis by (simp add: go_slice_def)
qed

section \<open>Hunks\<close>

text \<open>The bytes an operation writes: its content, with continuation lines indented when it asks for that.\<close>

definition lands :: "PlanOperation \<Rightarrow> bytes \<Rightarrow> bool" where
  "lands operation written = (\<exists>content start. edit_replacement operation content start = Ok written)"

definition located :: "PlanOperation list \<Rightarrow> bytes \<Rightarrow> PlanHunk \<Rightarrow> bool" where
  "located operations content hunk = (\<not> ph_Superseded hunk \<longrightarrow> in_bounds content (ph_ByteStart hunk) (ph_ByteEnd hunk) \<and>
     (\<exists>operation \<in> set operations. op_OpID operation = ph_OpID hunk \<and>
        lands operation (int_slice content (ph_ByteStart hunk) (ph_ByteEnd hunk))))"

definition hunk_ok :: "PlanOperation list \<Rightarrow> previewBuilder \<Rightarrow> PlanHunk \<Rightarrow> bool" where
  "hunk_ok operations b hunk = (ph_Path hunk \<in> set (pb_touched b) \<and> pb_exists b (ph_Path hunk) \<and>
     (\<exists>content. pb_contents b (ph_Path hunk) = Some content \<and> located operations content hunk))"

definition hunks_ok :: "PlanOperation list \<Rightarrow> string set \<Rightarrow> previewBuilder \<Rightarrow> bool" where
  "hunks_ok operations altered b = (\<forall>hunk \<in> set (pb_hunks b). hunk_ok operations b hunk \<and> ph_Path hunk \<in> altered)"

lemma in_bounds_nat: "in_bounds content start end \<Longrightarrow> nat start \<le> nat end \<and> nat end \<le> length content \<and> nat start \<le> length content"
  by (auto simp: in_bounds_def nat_le_iff)

text \<open>A splice moves the hunks behind it, keeps those before it and supersedes those it cuts.\<close>

lemma located_shift:
  assumes "located operations content hunk" "in_bounds content start end" "ph_Path hunk = path"
  shows "located operations (splice content (nat start) (nat end) replacement)
    (shift_hunk path start end (int (length replacement) - (end - start)) hunk)"
proof -
  let ?new = "splice content (nat start) (nat end) replacement"
  have len: "int (length ?new) = int (length content) + int (length replacement) - (end - start)"
    using assms(2) by (auto simp: splice_def in_bounds_def)
  consider (behind) "ph_ByteStart hunk \<ge> end" | (cut) "ph_ByteStart hunk < end" "ph_ByteEnd hunk > start"
    | (before) "ph_ByteStart hunk < end" "ph_ByteEnd hunk \<le> start" by linarith
  then show ?thesis
  proof cases
    case behind
    have "int_slice ?new (ph_ByteStart hunk + (int (length replacement) - (end - start))) (ph_ByteEnd hunk + (int (length replacement) - (end - start))) =
        int_slice content (ph_ByteStart hunk) (ph_ByteEnd hunk)" if "in_bounds content (ph_ByteStart hunk) (ph_ByteEnd hunk)"
    proof -
      have at: "nat (p + (int (length replacement) - (end - start))) = nat start + length replacement + (nat p - nat end)" if "end \<le> p" for p
        using that assms(2) by (simp add: in_bounds_def) linarith
      have "end \<le> ph_ByteEnd hunk" using behind that by (simp add: in_bounds_def)
      then show ?thesis unfolding int_slice_def at [OF behind] at [OF \<open>end \<le> ph_ByteEnd hunk\<close>]
        using behind in_bounds_nat [OF assms(2)] by (intro splice_after) auto
    qed
    then show ?thesis using assms behind len by (auto simp: located_def shift_hunk_def in_bounds_def)
  next
    case cut
    then show ?thesis using assms(3) by (simp add: located_def shift_hunk_def)
  next
    case before
    have "int_slice ?new (ph_ByteStart hunk) (ph_ByteEnd hunk) = int_slice content (ph_ByteStart hunk) (ph_ByteEnd hunk)"
      unfolding int_slice_def by (rule splice_before) (use before assms(2) in \<open>auto simp: in_bounds_def\<close>)
    then show ?thesis using assms before len by (auto simp: located_def shift_hunk_def in_bounds_def)
  qed
qed

lemma located_new:
  assumes "operation \<in> set operations" "edit_replacement operation content start = Ok replacement" "in_bounds content start end"
  shows "located operations (splice content (nat start) (nat end) replacement) \<lparr> ph_OpID = op_OpID operation, ph_Path = path,
    ph_ByteStart = start, ph_ByteEnd = start + int (length replacement), ph_StartLine = 0, ph_EndLine = 0, ph_Superseded = False \<rparr>"
proof -
  have "int_slice (splice content (nat start) (nat end) replacement) start (start + int (length replacement)) = replacement"
    using splice_new [of "nat start" content "nat end" replacement] in_bounds_nat [OF assms(3)] assms(3)
    by (simp add: int_slice_def in_bounds_def nat_add_distrib)
  then show ?thesis using assms by (auto simp: located_def lands_def in_bounds_def splice_def)
qed

section \<open>Steps of the builder\<close>

text \<open>What a step that edits nothing keeps: hunks, and the state of every path that has content and is not rewritten.\<close>

definition keeps_paths :: "string set \<Rightarrow> previewBuilder \<Rightarrow> previewBuilder \<Rightarrow> bool" where
  "keeps_paths rewritten b b' \<longleftrightarrow> pb_hunks b' = pb_hunks b \<and> set (pb_touched b) \<subseteq> set (pb_touched b') \<and>
     (\<forall>p. p \<notin> rewritten \<longrightarrow> pb_contents b p \<noteq> None \<longrightarrow> pb_contents b' p = pb_contents b p \<and> pb_exists b' p = pb_exists b p)"

lemma keeps_paths_refl [simp]: "keeps_paths rewritten b b"
  by (simp add: keeps_paths_def)

lemma keeps_paths_trans:
  "keeps_paths rewritten b b' \<Longrightarrow> keeps_paths rewritten b' b'' \<Longrightarrow> keeps_paths rewritten b b''"
  by (fastforce simp: keeps_paths_def)

lemma keeps_paths_mono: "keeps_paths A b b' \<Longrightarrow> A \<subseteq> B \<Longrightarrow> keeps_paths B b b'"
  by (auto simp: keeps_paths_def)

lemma hunks_ok_keeps:
  assumes "hunks_ok operations altered b" "keeps_paths rewritten b b'" "rewritten \<inter> altered = {}"
  shows "hunks_ok operations altered b'"
  using assms by (fastforce simp: hunks_ok_def hunk_ok_def keeps_paths_def)

lemma keeps_conflict [simp]: "keeps_paths rewritten b (conflict operation path expected e b)"
  by (simp add: keeps_paths_def conflict_def split: option.split)

lemma keeps_docs [simp]: "keeps_paths rewritten b (b\<lparr> pb_docs := d \<rparr>)"
  by (simp add: keeps_paths_def)

lemma keeps_set_path [simp]: "path \<in> rewritten \<Longrightarrow> keeps_paths rewritten b (set_path path content exists b)"
  by (auto simp: keeps_paths_def set_path_def)

lemma keeps_guard: "guard_path E w path revision b = (r, b') \<Longrightarrow> keeps_paths rewritten b b'"
  by (auto simp: guard_path_def split: prod.splits)

lemma keeps_load: "load E w path b = (r, b') \<Longrightarrow> keeps_paths rewritten b b'"
  by (auto simp: load_def loadUnreadable_def remember_def keeps_paths_def Let_def
      split: option.splits prod.splits sum.splits ObjectKind.splits if_splits)

lemma keeps_loadPresent: "loadPresent E w path missing b = (r, b') \<Longrightarrow> keeps_paths rewritten b b'"
  by (auto simp: loadPresent_def dest: keeps_load split: prod.splits sum.splits)

lemma loadPresent_content: "loadPresent E w path missing b = (Ok content, b') \<Longrightarrow> pb_contents b' path = Some content \<and> pb_exists b' path"
  by (auto simp: loadPresent_def load_def loadUnreadable_def remember_def Let_def
      split: option.splits prod.splits sum.splits ObjectKind.splits if_splits)

text \<open>The paths whose content an operation replaces as a whole, and the path it edits.\<close>

definition rewritten_paths :: "PlanOperation \<Rightarrow> string set" where
  "rewritten_paths operation =
     (case op_Kind operation of
        OperationCreateFile \<Rightarrow> {op_Path operation}
      | OperationDeleteFile \<Rightarrow> {op_Path operation}
      | OperationMoveFile \<Rightarrow> {op_From operation, op_To operation}
      | OperationCopyFile \<Rightarrow> {op_To operation}
      | _ \<Rightarrow> {})"

definition edited_paths :: "PlanOperation \<Rightarrow> string set" where
  "edited_paths operation = (case Option.bind (op_Target operation) pt_FileRange of Some handle \<Rightarrow> {rh_Path handle} | None \<Rightarrow> {})"

definition is_edit :: "OperationKind \<Rightarrow> bool" where
  "is_edit kind = (kind \<in> {OperationReplaceSymbol, OperationDeleteSymbol, OperationInsertBefore, OperationInsertAfter, OperationReplaceRange})"

lemma keeps_copy: "copy_content E w operation b = (r, b') \<Longrightarrow> keeps_paths rewritten b b'"
  by (auto simp: copy_content_def dest: keeps_loadPresent split: sum.splits prod.splits if_splits)

lemma keeps_load_snd: "keeps_paths rewritten b (snd (load E w path b))"
  by (cases "load E w path b") (simp add: keeps_load)

lemmas keeps_paths_chain =
  keeps_conflict [THEN keeps_paths_trans [rotated]] keeps_set_path [THEN keeps_paths_trans [rotated]]
  keeps_load_snd [THEN keeps_paths_trans [rotated]]
  keeps_guard keeps_loadPresent keeps_copy keeps_guard [THEN keeps_paths_trans [rotated]]
  keeps_loadPresent [THEN keeps_paths_trans [rotated]] keeps_copy [THEN keeps_paths_trans [rotated]]

lemma keeps_file_operation:
  assumes "\<not> is_edit (op_Kind operation)" "op_Kind operation \<noteq> OperationReplaceMatches"
  shows "keeps_paths (rewritten_paths operation) b (apply_operation E w operation b)"
proof -
  have create: "keeps_paths {op_Path operation} b (applyCreate E w operation b)"
    by (auto simp: applyCreate_def intro: keeps_paths_chain split: prod.split sum.split)
  have delete: "keeps_paths {op_Path operation} b (applyDelete E w operation b)"
    by (auto simp: applyDelete_def intro: keeps_paths_chain split: prod.split sum.split)
  have copy: "keeps_paths {op_To operation} b (applyCopy E w operation b)"
    by (auto simp: applyCopy_def intro: keeps_paths_chain split: prod.split sum.split)
  have move: "keeps_paths {op_From operation, op_To operation} b (applyMove E w operation b)"
    by (auto 0 8 simp: applyMove_def intro: keeps_paths_chain split: prod.split sum.split)
  have other: "keeps_paths {} b (b\<lparr> pb_conflicts := cs \<rparr>)" for cs by (simp add: keeps_paths_def)
  show ?thesis using assms create delete copy move other
    by (simp add: apply_operation_def rewritten_paths_def is_edit_def split: OperationKind.split)
qed

lemma hunks_ok_splice:
  assumes "hunks_ok operations altered b" "operation \<in> set operations" "pb_contents b path = Some content" "pb_exists b path"
    and "in_bounds content start end" "edit_replacement operation content start = Ok replacement"
  shows "hunks_ok operations (insert path altered) (set_path path (splice content (nat start) (nat end) replacement) True
    (record_hunk operation path start end (int (length replacement)) b))" (is "hunks_ok _ _ ?b")
proof -
  let ?shift = "shift_hunk path start end (int (length replacement) - (end - start))"
  have shifted: "hunk_ok operations ?b (?shift hunk) \<and> ph_Path (?shift hunk) \<in> insert path altered" if "hunk \<in> set (pb_hunks b)" for hunk
  proof -
    have old: "hunk_ok operations b hunk" "ph_Path hunk \<in> altered" using assms(1) that by (auto simp: hunks_ok_def)
    show ?thesis
    proof (cases "ph_Path hunk = path")
      case True
      then have "located operations content hunk" using old(1) assms(3) by (simp add: hunk_ok_def)
      from located_shift [OF this assms(5) True, of replacement] True
      show ?thesis by (auto simp: hunk_ok_def set_path_def record_hunk_def shift_hunk_def)
    next
      case False
      then show ?thesis using old by (auto simp: hunk_ok_def set_path_def record_hunk_def shift_hunk_def)
    qed
  qed
  have "hunk_ok operations ?b \<lparr> ph_OpID = op_OpID operation, ph_Path = path, ph_ByteStart = start,
      ph_ByteEnd = start + int (length replacement), ph_StartLine = 0, ph_EndLine = 0, ph_Superseded = False \<rparr>"
    using located_new [OF assms(2) assms(6) assms(5), of path] by (simp add: hunk_ok_def set_path_def record_hunk_def)
  with shifted show ?thesis by (auto simp: hunks_ok_def set_path_def record_hunk_def)
qed

lemma edit_span_in_bounds:
  "in_bounds content (rh_ByteStart handle) (rh_ByteEnd handle) \<Longrightarrow> edit_span kind handle = (start, end) \<Longrightarrow> in_bounds content start end"
  by (auto simp: edit_span_def in_bounds_def split: OperationKind.splits)

lemma hunks_ok_mono: "hunks_ok operations altered b \<Longrightarrow> altered \<subseteq> altered' \<Longrightarrow> hunks_ok operations altered' b"
  by (auto simp: hunks_ok_def)

lemma hunks_ok_splice_edit:
  assumes "hunks_ok operations altered b" "operation \<in> set operations" "pb_contents b (rh_Path handle) = Some content" "pb_exists b (rh_Path handle)"
    and "in_bounds content (rh_ByteStart handle) (rh_ByteEnd handle)"
  shows "hunks_ok operations (insert (rh_Path handle) altered) (splice_edit operation handle content b)"
proof -
  obtain start "end" where span: "edit_span (op_Kind operation) handle = (start, end)" by fastforce
  show ?thesis
  proof (cases "edit_replacement operation content start")
    case (Inl e)
    have "hunks_ok operations altered (conflict operation (rh_Path handle) (rh_Revision handle) e b)"
      by (rule hunks_ok_keeps [OF assms(1) keeps_conflict [of "{}"]]) simp
    then show ?thesis using Inl span by (auto simp: splice_edit_def intro: hunks_ok_mono)
  next
    case (Inr replacement)
    from hunks_ok_splice [OF assms(1-4) edit_span_in_bounds [OF assms(5) span] Inr]
    show ?thesis using Inr span by (simp add: splice_edit_def)
  qed
qed

lemma hunks_ok_edit:
  assumes "hunks_ok operations altered b" "operation \<in> set operations"
  shows "hunks_ok operations (altered \<union> edited_paths operation) (applyEdit E w operation b)"
proof (cases "Option.bind (op_Target operation) pt_FileRange")
  case None
  then show ?thesis using assms(1)
    by (auto simp: applyEdit_def intro: hunks_ok_mono hunks_ok_keeps [OF _ keeps_conflict [of "{}"]])
next
  case (Some handle)
  then have paths: "edited_paths operation = {rh_Path handle}" by (simp add: edited_paths_def)
  have clash: "hunks_ok operations (altered \<union> edited_paths operation) (conflict operation path expected e b2)"
    if "keeps_paths {} b b2" for path expected e b2
    by (rule hunks_ok_mono [OF hunks_ok_keeps [OF hunks_ok_keeps [OF assms(1) that] keeps_conflict [of "{}"]]]) auto
  obtain guard b1 where guard: "guard_path E w (rh_Path handle) (rh_Revision handle) b = (guard, b1)" by fastforce
  obtain content b2 where load: "loadPresent E w (rh_Path handle) ''target file is missing'' b1 = (content, b2)" by fastforce
  have kept: "keeps_paths {} b b1" "keeps_paths {} b b2"
    using keeps_guard [OF guard, of "{}"] keeps_loadPresent [OF load, of "{}"] keeps_paths_trans by blast+
  show ?thesis
  proof (cases "(\<exists>current. guard = Ok current) \<and> (\<exists>old. content = Ok old \<and>
      rangeMatches (hashBytes (pe_native E)) old (rh_ByteStart handle) (rh_ByteEnd handle) (rh_ExpectedSHA256 handle))")
    case True
    then obtain current old where ok: "guard = Ok current" "content = Ok old"
      "rangeMatches (hashBytes (pe_native E)) old (rh_ByteStart handle) (rh_ByteEnd handle) (rh_ExpectedSHA256 handle)" by blast
    have "in_bounds old (rh_ByteStart handle) (rh_ByteEnd handle)" using ok(3) by (auto simp: rangeMatches_def in_bounds_def split: if_splits)
    from hunks_ok_splice_edit [OF hunks_ok_keeps [OF assms(1) kept(2)] assms(2) _ _ this] loadPresent_content [OF load [unfolded ok(2)]]
    show ?thesis using Some guard load ok paths by (simp add: applyEdit_def)
  next
    case False
    then show ?thesis using Some guard load clash kept by (auto simp: applyEdit_def split: sum.split)
  qed
qed

section \<open>Previews\<close>

text \<open>
  The operations whose hunks stay good: none rewrites as a whole a document that an earlier one
  edited, and none replaces the matches of a result set.
\<close>

fun hunks_kept :: "string set \<Rightarrow> PlanOperation list \<Rightarrow> bool" where
  "hunks_kept altered [] = True"
| "hunks_kept altered (operation # rest) =
     (op_Kind operation \<noteq> OperationReplaceMatches \<and> rewritten_paths operation \<inter> altered = {} \<and>
      hunks_kept (if is_edit (op_Kind operation) then altered \<union> edited_paths operation else altered) rest)"

lemma apply_edit_kind: "is_edit (op_Kind operation) \<Longrightarrow> apply_operation E w operation b = applyEdit E w operation b"
  by (auto simp: apply_operation_def is_edit_def)

lemma hunks_ok_fold:
  "hunks_kept altered rest \<Longrightarrow> set rest \<subseteq> set operations \<Longrightarrow> hunks_ok operations altered b \<Longrightarrow>
   \<exists>altered'. hunks_ok operations altered' (fold (apply_operation E w) rest b)"
proof (induction rest arbitrary: altered b)
  case (Cons operation rest)
  let ?altered = "if is_edit (op_Kind operation) then altered \<union> edited_paths operation else altered"
  have "hunks_ok operations ?altered (apply_operation E w operation b)"
  proof (cases "is_edit (op_Kind operation)")
    case True
    then show ?thesis using hunks_ok_edit [OF Cons.prems(3), of operation] Cons.prems(2) by (simp add: apply_edit_kind)
  next
    case False
    then show ?thesis using hunks_ok_keeps [OF Cons.prems(3) keeps_file_operation] Cons.prems(1) by simp
  qed
  from Cons.IH [OF _ _ this] show ?case using Cons.prems by simp
qed auto

lemma path_diff_fields: "diff_Path (path_diff E b path) = path"
  "diff_After (path_diff E b path) = (if pb_exists b path then bytes_at (pb_contents b) path else [])"
  by (simp_all add: path_diff_def exactDiff_def Let_def split: prod.split)


section \<open>An example\<close>

definition sample_preview_env :: preview_env where
  "sample_preview_env = \<lparr> pe_native = sample_native_env,
     pe_matches = (\<lambda>_. Ok [\<lparr> sh_Path = ''a'', sh_ByteStart = 0, sh_ByteEnd = 1, sh_Line = 1, sh_Column = 1, sh_Match = ''a'',
        sh_Range = projr (fst (NewRange sample_native_env ''a'' 0 1 confined_world sample_documents)), sh_MatchHandle = None,
        sh_MatchTruncated = False \<rparr>]),
     pe_digest = (\<lambda>_. []) \<rparr>"

definition sample_range_edit :: "string \<Rightarrow> int \<Rightarrow> int \<Rightarrow> bytes \<Rightarrow> PlanOperation" where
  "sample_range_edit opID start end content = zero_operation\<lparr> op_OpID := opID, op_Kind := OperationReplaceRange, op_Content := content,
     op_Target := Some \<lparr> pt_Handle = [],
       pt_FileRange = Some (projr (fst (NewRange sample_native_env ''a'' start end confined_world sample_documents))), pt_SymbolLocator = None \<rparr> \<rparr>"

definition sample_match_edit :: "string \<Rightarrow> bytes \<Rightarrow> PlanOperation" where
  "sample_match_edit opID content = zero_operation\<lparr> op_OpID := opID, op_Kind := OperationReplaceMatches, op_Content := content,
     op_Target := Some \<lparr> pt_Handle = ''results'', pt_FileRange = None, pt_SymbolLocator = None \<rparr> \<rparr>"

definition sample_preview :: "PlanOperation list \<Rightarrow> PlanPreview" where
  "sample_preview operations = fst (buildPreview sample_preview_env confined_world 1 operations sample_documents)"

lemma sample_hunks:
  "map (\<lambda>h. (ph_OpID h, ph_Path h, ph_ByteStart h, ph_ByteEnd h, ph_Superseded h))
     (pv_Hunks (sample_preview [sample_range_edit ''y'' 0 1 ''PQ'', sample_range_edit ''x'' 2 3 ''XY''])) =
   [(''x'', ''a'', 3, 5, False), (''y'', ''a'', 0, 2, False)]"
  by code_simp

lemma sample_order:
  "orderOperations [sample_range_edit ''y'' 0 1 ''PQ'', sample_range_edit ''x'' 2 3 ''XY''] =
     Ok [sample_range_edit ''x'' 2 3 ''XY'', sample_range_edit ''y'' 0 1 ''PQ'']"
  by code_simp

lemma sample_lands: "lands (sample_range_edit opID start end content) written \<longleftrightarrow> written = content"
  by (auto simp: lands_def edit_replacement_def sample_range_edit_def zero_operation_def)



end
