(* ===== verification/Handles.thy ===== *)
theory Handles
  imports Preview
begin

text \<open>
  Opaque handles and frozen result sets (\<^verbatim>\<open>internal/workspace/handles.go\<close>): a bounded store of locators,
  registering a range or a declaration, resolving a handle in the tree as it is now, freezing the
  hits of a search and resolving all of them for one replacement.

  Arguments are the random identifiers, the clock (read once per operation), the parser of
  declarations, regular expressions, and the listings of the workspace's files, which ask Git. Display texts and coverage
  reports are left out. A Go map is an association list with distinct keys.
\<close>

section \<open>Data\<close>

datatype HandleKind = HandleRange | HandleMatch | HandleSymbol

record SemanticLocator =
  lo_Path :: string
  lo_Language :: string
  lo_Kind :: string
  lo_NamePath :: string
  lo_ParentPath :: string
  lo_ByteStart :: int
  lo_ByteEnd :: int
  lo_SignatureSHA256 :: string
  lo_NodeSHA256 :: string
  lo_ContentSHA256 :: string
  lo_BeforeSHA256 :: string
  lo_AfterSHA256 :: string
  lo_AnchorBytes :: int
  lo_DocumentRevision :: string
  lo_Device :: u64
  lo_Inode :: u64

record HandleRecord =
  hd_Handle :: string
  hd_WorkspaceID :: string
  hd_Epoch :: u64
  hd_Kind :: HandleKind
  hd_ExpiresAt :: int
  hd_Locator :: SemanticLocator

datatype ResolutionStatus = ResolutionExact | ResolutionRelocated | ResolutionConflicted

record HandleResolution =
  re_Status :: ResolutionStatus
  re_Code :: "ConflictCode option"
  re_Handle :: string
  re_Original :: "SemanticLocator option"
  re_Current :: "SemanticLocator option"
  re_Candidates :: "SemanticLocator list"

datatype ResultSetKind = ResultSetCurrentSource | ResultSetHistorical

record ResultSet =
  rs_Handle :: string
  rs_Parent :: string
  rs_Kind :: ResultSetKind
  rs_WorkspaceID :: string
  rs_Epoch :: u64
  rs_StateSeq :: u64
  rs_ExpiresAt :: int
  rs_Matches :: "SearchHit list"
  rs_MatchCount :: nat
  rs_FileCount :: nat
  rs_Complete :: bool
  rs_NonOverlapping :: bool
  rs_AllMatchesEligible :: bool
  rs_Retained :: nat
  rs_Eliminated :: int
  rs_Scope :: "string list"
  rs_Coverage :: Coverage
  rs_Query :: string
  rs_Mode :: string
  rs_Constraints :: "(string \<times> string \<times> string) list"
  rs_DocumentRevisions :: "(string \<times> string) list"
  rs_SourceFiles :: "string list"

section \<open>The store\<close>

definition handleSweepInterval :: int where
  "handleSweepInterval = 60 * 1000000000"

definition handleSweepThreshold :: nat where
  "handleSweepThreshold = 1024"

definition maxLiveHandles :: nat where
  "maxLiveHandles = 20000"

definition maxLiveResultSets :: nat where
  "maxLiveResultSets = 64"

definition maxRetainedMatchBytes :: nat where
  "maxRetainedMatchBytes = 256"

definition defaultHandleTTL :: int where
  "defaultHandleTTL = 30 * 60 * 1000000000"

record handleStore =
  hs_ttl :: int
  hs_handles :: "(string \<times> HandleRecord) list"
  hs_sets :: "(string \<times> ResultSet) list"
  hs_maxHandles :: nat
  hs_maxSets :: nat
  hs_lastSweep :: int
  hs_insertsSinceSweep :: nat

definition newHandleStore :: "int \<Rightarrow> handleStore" where
  "newHandleStore now = \<lparr> hs_ttl = defaultHandleTTL, hs_handles = [], hs_sets = [], hs_maxHandles = maxLiveHandles,
     hs_maxSets = maxLiveResultSets, hs_lastSweep = now, hs_insertsSinceSweep = 0 \<rparr>"

text \<open>The entries closest to expiry go first, ties by identifier: two stable sorts.\<close>

definition evict_excess :: "('a \<Rightarrow> int) \<Rightarrow> nat \<Rightarrow> (string \<times> 'a) list \<Rightarrow> (string \<times> 'a) list" where
  "evict_excess expires bound entries =
     (let ids = map fst (sort_key (\<lambda>entry. expires (snd entry)) (sort_key fst entries));
          gone = take (length entries - bound) ids
      in filter (\<lambda>entry. fst entry \<notin> set gone) entries)"

definition sweepLocked :: "int \<Rightarrow> handleStore \<Rightarrow> handleStore" where
  "sweepLocked now s =
     s\<lparr> hs_lastSweep := now, hs_insertsSinceSweep := 0,
        hs_handles := evict_excess hd_ExpiresAt (hs_maxHandles s) (filter (\<lambda>(_, record). hd_ExpiresAt record > now) (hs_handles s)),
        hs_sets := evict_excess rs_ExpiresAt (hs_maxSets s) (filter (\<lambda>(_, set'). rs_ExpiresAt set' > now) (hs_sets s)) \<rparr>"

definition noteInsertLocked :: "int \<Rightarrow> handleStore \<Rightarrow> handleStore" where
  "noteInsertLocked now s =
     (let s = s\<lparr> hs_insertsSinceSweep := Suc (hs_insertsSinceSweep s) \<rparr>
      in if hs_insertsSinceSweep s \<ge> handleSweepThreshold \<or> now - hs_lastSweep s \<ge> handleSweepInterval \<or>
            length (hs_handles s) > hs_maxHandles s \<or> length (hs_sets s) > hs_maxSets s
         then sweepLocked now s else s)"

definition putHandleLocked :: "int \<Rightarrow> HandleRecord \<Rightarrow> handleStore \<Rightarrow> handleStore" where
  "putHandleLocked now record s = noteInsertLocked now (s\<lparr> hs_handles := AList.update (hd_Handle record) record (hs_handles s) \<rparr>)"

definition putSetLocked :: "int \<Rightarrow> ResultSet \<Rightarrow> handleStore \<Rightarrow> handleStore" where
  "putSetLocked now set' s = noteInsertLocked now (s\<lparr> hs_sets := AList.update (rs_Handle set') set' (hs_sets s) \<rparr>)"

definition SetHandleTTL :: "int \<Rightarrow> handleStore \<Rightarrow> handleStore" where
  "SetHandleTTL ttl s = s\<lparr> hs_ttl := ttl \<rparr>"

definition put_fresh :: "int \<Rightarrow> HandleRecord \<Rightarrow> handleStore \<Rightarrow> HandleRecord result \<times> handleStore" where
  "put_fresh now record s = (let record = record\<lparr> hd_ExpiresAt := now + hs_ttl s \<rparr> in (Ok record, putHandleLocked now record s))"

section \<open>Registering\<close>

record Section =
  sc_Name :: string
  sc_Kind :: string
  sc_ByteStart :: int
  sc_ByteEnd :: int

record handle_env =
  he_native :: native_env
  he_sectioner :: "(string \<Rightarrow> bytes \<Rightarrow> Section list result) option"
  he_files :: "string list result"
  he_scoped :: "string list \<Rightarrow> string list result"
  he_compile :: "string \<Rightarrow> (bytes \<Rightarrow> bool) result"

type_synonym 'a handled = "'a result \<times> handleStore \<times> doc_state"

definition range_locator :: "RangeHandle \<Rightarrow> HandleKind \<Rightarrow> DiskSnapshot \<Rightarrow> SemanticLocator" where
  "range_locator handle kind disk =
     \<lparr> lo_Path = rh_Path handle, lo_Language = [], lo_Kind = (if kind = HandleRange then ''range'' else ''match''), lo_NamePath = [], lo_ParentPath = [],
       lo_ByteStart = rh_ByteStart handle, lo_ByteEnd = rh_ByteEnd handle, lo_SignatureSHA256 = [], lo_NodeSHA256 = rh_ExpectedSHA256 handle,
       lo_ContentSHA256 = rh_ExpectedSHA256 handle, lo_BeforeSHA256 = rh_BeforeSHA256 handle, lo_AfterSHA256 = rh_AfterSHA256 handle,
       lo_AnchorBytes = rh_AnchorBytes handle, lo_DocumentRevision = rh_Revision handle, lo_Device = ds_Device disk, lo_Inode = ds_Inode disk \<rparr>"

definition RegisterRangeHandle ::
  "handle_env \<Rightarrow> world \<Rightarrow> int \<Rightarrow> string \<Rightarrow> RangeHandle \<Rightarrow> HandleKind \<Rightarrow> handleStore \<Rightarrow> doc_state \<Rightarrow> HandleRecord handled" where
  "RegisterRangeHandle E w now newID handle kind s d =
     (if kind \<noteq> HandleRange \<and> kind \<noteq> HandleMatch then (Error (PlainError ''invalid range handle kind''), s, d)
      else
        (case validateRange (he_native E) (id_ID (dw_identity d)) handle w d of
           (Inl e, d') \<Rightarrow> (Error e, s, d')
         | (Inr (current, _), d') \<Rightarrow>
             (case put_fresh now \<lparr> hd_Handle = newID, hd_WorkspaceID = id_ID (dn_Workspace current), hd_Epoch = id_Epoch (dn_Workspace current),
                hd_Kind = kind, hd_ExpiresAt = 0, hd_Locator = range_locator handle kind (dn_Disk current) \<rparr> s of
                (record, s') \<Rightarrow> (record, s', d'))))"

text \<open>\<open>bytes.Fields\<close>: the words between white space runes.\<close>

definition space_width :: "bytes \<Rightarrow> nat" where
  "space_width content = (case find (\<lambda>e. e \<noteq> [] \<and> HasPrefix content e) white_space of Some e \<Rightarrow> length e | None \<Rightarrow> 0)"

function fields_loop :: "bytes \<Rightarrow> bytes \<Rightarrow> bytes list" where
  "fields_loop word content =
     (if content = [] then (if word = [] then [] else [word])
      else if space_width content = 0 then fields_loop (word @ [hd content]) (tl content)
      else (if word = [] then [] else [word]) @ fields_loop [] (drop (space_width content) content))"
  by pat_completeness auto
termination
  by (relation "measure (\<lambda>(_, content). length content)") auto

declare fields_loop.simps [simp del]

fun join_words :: "bytes list \<Rightarrow> bytes" where
  "join_words [] = []"
| "join_words [word] = word"
| "join_words (word # others) = word @ blank # join_words others"

definition normalizedFingerprint :: "native_env \<Rightarrow> bytes \<Rightarrow> string" where
  "normalizedFingerprint N content = hashBytes N (join_words (fields_loop [] content))"

definition signatureFingerprint :: "native_env \<Rightarrow> bytes \<Rightarrow> string" where
  "signatureFingerprint N content = normalizedFingerprint N (takeWhile (\<lambda>c. c \<noteq> newline) content)"

definition registerSymbol :: "handle_env \<Rightarrow> int \<Rightarrow> string \<Rightarrow> TextRead \<Rightarrow> Section \<Rightarrow> handleStore \<Rightarrow> HandleRecord result \<times> handleStore" where
  "registerSymbol E now newID read section s =
     (let N = he_native E; content = tr_Content read; start = sc_ByteStart section; end = sc_ByteEnd section
      in if start < 0 \<or> end \<le> start \<or> end > int (length content) then (Error (PlainError ''invalid section range''), s)
         else
           (case rangeHandle N read start end defaultAnchorBytes of
              Inl e \<Rightarrow> (Error e, s)
            | Inr value \<Rightarrow>
                put_fresh now \<lparr> hd_Handle = newID, hd_WorkspaceID = id_ID (tr_Workspace read), hd_Epoch = id_Epoch (tr_Workspace read),
                  hd_Kind = HandleSymbol, hd_ExpiresAt = 0, hd_Locator =
                    \<lparr> lo_Path = tr_Path read, lo_Language = [], lo_Kind = sc_Kind section, lo_NamePath = sc_Name section, lo_ParentPath = [],
                      lo_ByteStart = start, lo_ByteEnd = end,
                      lo_SignatureSHA256 = signatureFingerprint N (int_slice content start end),
                      lo_NodeSHA256 = normalizedFingerprint N (int_slice content start end),
                      lo_ContentSHA256 = hashBytes N (int_slice content start end),
                      lo_BeforeSHA256 = rh_BeforeSHA256 value, lo_AfterSHA256 = rh_AfterSHA256 value, lo_AnchorBytes = rh_AnchorBytes value,
                      lo_DocumentRevision = dn_Revision (tr_Snapshot read), lo_Device = ds_Device (dn_Disk (tr_Snapshot read)),
                      lo_Inode = ds_Inode (dn_Disk (tr_Snapshot read)) \<rparr> \<rparr> s))"

definition RegisterSymbolHandle ::
  "handle_env \<Rightarrow> world \<Rightarrow> int \<Rightarrow> string \<Rightarrow> string \<Rightarrow> Section \<Rightarrow> handleStore \<Rightarrow> doc_state \<Rightarrow> HandleRecord handled" where
  "RegisterSymbolHandle E w now newID path section s d =
     (case Read (he_native E) path w d of
        (Inl e, d') \<Rightarrow> (Error e, s, d')
      | (Inr read, d') \<Rightarrow> (case registerSymbol E now newID read section s of (record, s') \<Rightarrow> (record, s', d')))"

section \<open>Resolving\<close>

definition InspectHandle :: "int \<Rightarrow> string \<Rightarrow> doc_state \<Rightarrow> handleStore \<Rightarrow> HandleRecord result \<times> handleStore" where
  "InspectHandle now id' d s =
     (case map_of (hs_handles s) id' of
        None \<Rightarrow> (Error (Codedf CodeHandleUnknown ''handle is not known to this service instance''), s)
      | Some record \<Rightarrow>
          if hd_ExpiresAt record \<le> now
          then (Error (Codedf CodeHandleExpired ''handle expired''), s\<lparr> hs_handles := AList.delete id' (hs_handles s) \<rparr>)
          else if hd_WorkspaceID record \<noteq> id_ID (dw_identity d) \<or> hd_Epoch record \<noteq> id_Epoch (dw_identity d)
          then (Error (revision_conflict ConflictWorkspaceEpoch (lo_Path (hd_Locator record)) [] [] []), s)
          else (Ok record, s))"

text \<open>A locator holds hashes of at least its own bytes and of non-negative anchors, so no slice here is out of range.\<close>

definition locatorMatches :: "native_env \<Rightarrow> bytes \<Rightarrow> SemanticLocator \<Rightarrow> int \<Rightarrow> bool" where
  "locatorMatches N content locator start =
     (let end = start + lo_ByteEnd locator - lo_ByteStart locator
      in if start < 0 \<or> end < start \<or> end > int (length content) \<or> hashBytes N (int_slice content start end) \<noteq> lo_NodeSHA256 locator then False
         else
           hashBytes N (int_slice content (before_start start (lo_AnchorBytes locator)) start) = lo_BeforeSHA256 locator \<and>
           hashBytes N (int_slice content end (after_end content end (lo_AnchorBytes locator))) = lo_AfterSHA256 locator)"

definition candidate_at :: "native_env \<Rightarrow> TextRead \<Rightarrow> SemanticLocator \<Rightarrow> nat \<Rightarrow> nat \<Rightarrow> SemanticLocator" where
  "candidate_at N read locator size' start =
     (let content = tr_Content read; end = start + size'
      in locator\<lparr> lo_Path := tr_Path read, lo_ByteStart := int start, lo_ByteEnd := int end,
           lo_DocumentRevision := dn_Revision (tr_Snapshot read), lo_Device := ds_Device (dn_Disk (tr_Snapshot read)),
           lo_Inode := ds_Inode (dn_Disk (tr_Snapshot read)),
           lo_BeforeSHA256 := hashBytes N (int_slice content (before_start (int start) (lo_AnchorBytes locator)) (int start)),
           lo_AfterSHA256 := hashBytes N (int_slice content (int end) (after_end content (int end) (lo_AnchorBytes locator))) \<rparr>)"

definition locateRanges :: "native_env \<Rightarrow> TextRead \<Rightarrow> SemanticLocator \<Rightarrow> SemanticLocator list" where
  "locateRanges N read locator =
     (let content = tr_Content read; size' = nat (lo_ByteEnd locator - lo_ByteStart locator)
      in if size' = 0 \<or> size' > length content then []
         else
           let all = map (candidate_at N read locator size')
                 (filter (\<lambda>start. hashBytes N (go_slice content start (start + size')) = lo_ContentSHA256 locator) [0..<Suc (length content - size')]);
               anchored = filter (\<lambda>current. lo_BeforeSHA256 current = lo_BeforeSHA256 locator \<and> lo_AfterSHA256 current = lo_AfterSHA256 locator) all
           in if length anchored = 1 then anchored else all)"

definition resolution :: "ResolutionStatus \<Rightarrow> ConflictCode option \<Rightarrow> HandleRecord \<Rightarrow> SemanticLocator option \<Rightarrow> SemanticLocator list \<Rightarrow> HandleResolution" where
  "resolution status code record current candidates =
     \<lparr> re_Status = status, re_Code = code, re_Handle = hd_Handle record, re_Original = Some (hd_Locator record), re_Current = current,
       re_Candidates = candidates \<rparr>"

definition resolveRange :: "native_env \<Rightarrow> world \<Rightarrow> HandleRecord \<Rightarrow> doc_state \<Rightarrow> HandleResolution \<times> doc_state" where
  "resolveRange N w record d =
     (let original = hd_Locator record
      in case Read N (lo_Path original) w d of
           (Inl _, d') \<Rightarrow> (resolution ResolutionConflicted (Some ConflictTargetDeleted) record None [], d')
         | (Inr read, d') \<Rightarrow>
             if dn_Revision (tr_Snapshot read) = lo_DocumentRevision original \<and> locatorMatches N (tr_Content read) original (lo_ByteStart original)
             then (resolution ResolutionExact None record (Some original) [], d')
             else
               let candidates = locateRanges N read original
               in if length candidates = 1
                  then (resolution ResolutionRelocated (Some ConflictFormatOnlyRelocation) record (Some (hd candidates)) candidates, d')
                  else
                    (case find (\<lambda>candidate. lo_ByteStart candidate = lo_ByteStart original \<and> lo_BeforeSHA256 candidate = lo_BeforeSHA256 original) candidates of
                       Some current \<Rightarrow> (resolution ResolutionRelocated (Some ConflictFormatOnlyRelocation) record (Some current) candidates, d')
                     | None \<Rightarrow>
                         (resolution ResolutionConflicted
                            (Some (if length candidates > 1 then ConflictSymbolAmbiguous else ConflictDocumentChanged)) record None candidates, d')))"

definition resolveSymbolInPlace :: "native_env \<Rightarrow> world \<Rightarrow> HandleRecord \<Rightarrow> doc_state \<Rightarrow> HandleResolution option \<times> doc_state" where
  "resolveSymbolInPlace N w record d =
     (let original = hd_Locator record
      in case Read N (lo_Path original) w d of
           (Inl _, d') \<Rightarrow> (None, d')
         | (Inr read, d') \<Rightarrow>
             if dn_Revision (tr_Snapshot read) \<noteq> lo_DocumentRevision original \<or> lo_ByteStart original < 0 \<or>
                lo_ByteEnd original > int (length (tr_Content read)) \<or> lo_ByteEnd original \<le> lo_ByteStart original \<or>
                hashBytes N (int_slice (tr_Content read) (lo_ByteStart original) (lo_ByteEnd original)) \<noteq> lo_ContentSHA256 original
             then (None, d')
             else
               (Some (resolution ResolutionExact None record
                  (Some (original\<lparr> lo_DocumentRevision := dn_Revision (tr_Snapshot read), lo_Device := ds_Device (dn_Disk (tr_Snapshot read)),
                     lo_Inode := ds_Inode (dn_Disk (tr_Snapshot read)) \<rparr>)) []), d'))"

text \<open>Both searches over the workspace skip the files that cannot be read.\<close>

fun scan_readable :: "native_env \<Rightarrow> world \<Rightarrow> (TextRead \<Rightarrow> 'a list) \<Rightarrow> string list \<Rightarrow> doc_state \<Rightarrow> 'a list \<times> doc_state" where
  "scan_readable N w found [] d = ([], d)"
| "scan_readable N w found (path # rest) d =
     (case Read N path w d of
        (Inl _, d') \<Rightarrow> scan_readable N w found rest d'
      | (Inr read, d') \<Rightarrow> (case scan_readable N w found rest d' of (others, d'') \<Rightarrow> (found read @ others, d'')))"

definition moved_code :: "SemanticLocator \<Rightarrow> SemanticLocator \<Rightarrow> ConflictCode" where
  "moved_code original current = (if lo_Path current \<noteq> lo_Path original then ConflictSymbolMoved else ConflictFormatOnlyRelocation)"

definition resolveSymbolByBytes :: "handle_env \<Rightarrow> world \<Rightarrow> HandleRecord \<Rightarrow> doc_state \<Rightarrow> HandleResolution result \<times> doc_state" where
  "resolveSymbolByBytes E w record d =
     (let original = hd_Locator record
      in case he_files E of
           Inl e \<Rightarrow> (Error e, d)
         | Inr files \<Rightarrow>
             (case scan_readable (he_native E) w (\<lambda>read. locateRanges (he_native E) read original) files d of
                (candidates, d') \<Rightarrow>
                  if length candidates = 1
                  then (Ok (resolution ResolutionRelocated (Some (moved_code original (hd candidates))) record (Some (hd candidates)) candidates), d')
                  else if length candidates > 1
                  then (Ok (resolution ResolutionConflicted (Some ConflictSymbolAmbiguous) record None candidates), d')
                  else
                    (case Read (he_native E) (lo_Path original) w d' of
                       (Inl _, d'') \<Rightarrow> (Ok (resolution ResolutionConflicted (Some ConflictTargetDeleted) record None candidates), d'')
                     | (Inr _, d'') \<Rightarrow> (Ok (resolution ResolutionConflicted (Some ConflictDocumentChanged) record None candidates), d''))))"

definition sectionCandidate :: "native_env \<Rightarrow> TextRead \<Rightarrow> SemanticLocator \<Rightarrow> Section \<Rightarrow> SemanticLocator option" where
  "sectionCandidate N read original section =
     (let content = tr_Content read; start = sc_ByteStart section; end = sc_ByteEnd section
      in if sc_Name section \<noteq> lo_NamePath original \<or> sc_Kind section \<noteq> lo_Kind original \<or> start < 0 \<or> end > int (length content) \<or> end \<le> start
         then None
         else
           (case rangeHandle N read start end (lo_AnchorBytes original) of
              Inl _ \<Rightarrow> None
            | Inr value \<Rightarrow>
                Some (original\<lparr> lo_Path := tr_Path read, lo_ByteStart := start, lo_ByteEnd := end,
                  lo_DocumentRevision := dn_Revision (tr_Snapshot read), lo_Device := ds_Device (dn_Disk (tr_Snapshot read)),
                  lo_Inode := ds_Inode (dn_Disk (tr_Snapshot read)),
                  lo_NodeSHA256 := normalizedFingerprint N (int_slice content start end),
                  lo_SignatureSHA256 := signatureFingerprint N (int_slice content start end),
                  lo_ContentSHA256 := hashBytes N (int_slice content start end),
                  lo_BeforeSHA256 := rh_BeforeSHA256 value, lo_AfterSHA256 := rh_AfterSHA256 value \<rparr>)))"

definition section_candidates :: "native_env \<Rightarrow> (string \<Rightarrow> bytes \<Rightarrow> Section list result) \<Rightarrow> SemanticLocator \<Rightarrow> TextRead \<Rightarrow> SemanticLocator list" where
  "section_candidates N sectioner original read =
     (case sectioner (tr_Path read) (tr_Content read) of
        Inl _ \<Rightarrow> []
      | Inr sections \<Rightarrow> List.map_filter (sectionCandidate N read original) sections)"

definition resolveSymbol :: "handle_env \<Rightarrow> world \<Rightarrow> HandleRecord \<Rightarrow> doc_state \<Rightarrow> HandleResolution result \<times> doc_state" where
  "resolveSymbol E w record d =
     (let original = hd_Locator record
      in case resolveSymbolInPlace (he_native E) w record d of
           (Some found, d') \<Rightarrow> (Ok found, d')
         | (None, d') \<Rightarrow>
             (case he_sectioner E of
                None \<Rightarrow> resolveSymbolByBytes E w record d'
              | Some sectioner \<Rightarrow>
                  (case he_files E of
                     Inl e \<Rightarrow> (Error e, d')
                   | Inr files \<Rightarrow>
                       (case scan_readable (he_native E) w (section_candidates (he_native E) sectioner original) files d' of
                          (sameName, d'') \<Rightarrow>
                            let fingerprint = filter (\<lambda>current. lo_NodeSHA256 current = lo_NodeSHA256 original \<and>
                                  lo_SignatureSHA256 current = lo_SignatureSHA256 original) sameName
                            in (Ok (case fingerprint of
                                  [current] \<Rightarrow>
                                    if lo_Path current = lo_Path original \<and> lo_ByteStart current = lo_ByteStart original \<and>
                                       lo_DocumentRevision current = lo_DocumentRevision original
                                    then resolution ResolutionExact None record (Some current) []
                                    else resolution ResolutionRelocated (Some (moved_code original current)) record (Some current) fingerprint
                                | [] \<Rightarrow>
                                    resolution ResolutionConflicted
                                      (Some (if sameName \<noteq> [] then ConflictSymbolSignatureChanged else ConflictTargetDeleted)) record None sameName
                                | _ \<Rightarrow> resolution ResolutionConflicted (Some ConflictSymbolAmbiguous) record None sameName), d'')))))"

definition ResolveHandle :: "handle_env \<Rightarrow> world \<Rightarrow> int \<Rightarrow> string \<Rightarrow> handleStore \<Rightarrow> doc_state \<Rightarrow> HandleResolution handled" where
  "ResolveHandle E w now id' s d =
     (case InspectHandle now id' d s of
        (Inl e, s') \<Rightarrow>
          (case as_conflict e of
             Some typed \<Rightarrow>
               (Ok \<lparr> re_Status = ResolutionConflicted, re_Code = Some (cf_Code typed), re_Handle = id', re_Original = None,
                  re_Current = None, re_Candidates = [] \<rparr>, s', d)
           | None \<Rightarrow> (Error e, s', d))
      | (Inr record, s') \<Rightarrow>
          if hd_Kind record = HandleSymbol
          then (case resolveSymbol E w record d of (found, d') \<Rightarrow> (found, s', d'))
          else (case resolveRange (he_native E) w record d of (found, d') \<Rightarrow> (Ok found, s', d')))"

text \<open>\<open>HandleResolution.RangeHandle\<close>; a resolution without an original has the zero locator's path.\<close>

definition resolution_conflict :: "HandleResolution \<Rightarrow> go_error" where
  "resolution_conflict found =
     revision_conflict (case re_Code found of Some code \<Rightarrow> code | None \<Rightarrow> ConflictOther [])
       (case re_Original found of Some original \<Rightarrow> lo_Path original | None \<Rightarrow> []) [] [] []"

definition resolution_range :: "HandleResolution \<Rightarrow> RangeHandle result" where
  "resolution_range found =
     (case re_Current found of
        Some locator \<Rightarrow>
          if re_Status found = ResolutionConflicted then Error (resolution_conflict found)
          else Ok \<lparr> rh_Path = lo_Path locator, rh_Revision = lo_DocumentRevision locator, rh_ByteStart = lo_ByteStart locator,
            rh_ByteEnd = lo_ByteEnd locator, rh_ExpectedSHA256 = lo_ContentSHA256 locator, rh_BeforeSHA256 = lo_BeforeSHA256 locator,
            rh_AfterSHA256 = lo_AfterSHA256 locator, rh_AnchorBytes = lo_AnchorBytes locator \<rparr>
      | None \<Rightarrow> Error (resolution_conflict found))"

section \<open>Declarations\<close>

text \<open>
  The declarations of one document whose name contains the query; the identifiers are drawn in order.
  Records whose sort keys agree are left in the order found.
\<close>

fun register_sections ::
  "handle_env \<Rightarrow> int \<Rightarrow> (nat \<Rightarrow> string) \<Rightarrow> string \<Rightarrow> TextRead \<Rightarrow> nat \<Rightarrow> Section list \<Rightarrow> handleStore \<Rightarrow> HandleRecord list result \<times> nat \<times> handleStore" where
  "register_sections E now newID query read n [] s = (Ok [], n, s)"
| "register_sections E now newID query read n (section # rest) s =
     (if Index (sc_Name section) query = None then register_sections E now newID query read n rest s
      else
        (case registerSymbol E now (newID n) read section s of
           (Inl e, s') \<Rightarrow> (Error e, Suc n, s')
         | (Inr record, s') \<Rightarrow>
             (case register_sections E now newID query read (Suc n) rest s' of
                (Inl e, n', s'') \<Rightarrow> (Error e, n', s'')
              | (Inr records, n', s'') \<Rightarrow> (Ok (record # records), n', s''))))"

text \<open>The parser's declarations of a document; one it cannot parse only lowers the coverage.\<close>

definition declarations :: "(string \<Rightarrow> bytes \<Rightarrow> Section list result) \<Rightarrow> TextRead \<Rightarrow> Section list" where
  "declarations sectioner read = (case sectioner (tr_Path read) (tr_Content read) of Inl _ \<Rightarrow> [] | Inr sections \<Rightarrow> sections)"

fun find_in_files ::
  "handle_env \<Rightarrow> world \<Rightarrow> int \<Rightarrow> (nat \<Rightarrow> string) \<Rightarrow> string \<Rightarrow> (string \<Rightarrow> bytes \<Rightarrow> Section list result) \<Rightarrow> nat \<Rightarrow> string list \<Rightarrow>
   handleStore \<Rightarrow> doc_state \<Rightarrow> HandleRecord list handled" where
  "find_in_files E w now newID query sectioner n [] s d = (Ok [], s, d)"
| "find_in_files E w now newID query sectioner n (path # rest) s d =
     (case Read (he_native E) path w d of
        (Inl _, d') \<Rightarrow> find_in_files E w now newID query sectioner n rest s d'
      | (Inr read, d') \<Rightarrow>
          (case register_sections E now newID query read n (declarations sectioner read) s of
             (Inl e, _, s') \<Rightarrow> (Error e, s', d')
           | (Inr records, n', s') \<Rightarrow>
               (case find_in_files E w now newID query sectioner n' rest s' d' of
                  (Inl e, s'', d'') \<Rightarrow> (Error e, s'', d'')
                | (Inr others, s'', d'') \<Rightarrow> (Ok (records @ others), s'', d''))))"

definition FindSymbols ::
  "handle_env \<Rightarrow> world \<Rightarrow> int \<Rightarrow> (nat \<Rightarrow> string) \<Rightarrow> string \<Rightarrow> handleStore \<Rightarrow> doc_state \<Rightarrow> HandleRecord list handled" where
  "FindSymbols E w now newID query s d =
     (if TrimSpace query = [] then (Error (PlainError ''symbol query is required''), s, d)
      else
        (case he_sectioner E of
           None \<Rightarrow> (Ok [], s, d)
         | Some sectioner \<Rightarrow>
             (case he_files E of
                Inl e \<Rightarrow> (Error e, s, d)
              | Inr files \<Rightarrow>
                  (case find_in_files E w now newID query sectioner 0 files s d of
                     (Inl e, s', d') \<Rightarrow> (Error e, s', d')
                   | (Inr records, s', d') \<Rightarrow>
                       (Ok (sort_key (\<lambda>record. (lo_Path (hd_Locator record), lo_ByteStart (hd_Locator record))) records), s', d')))))"

definition FindSymbolsInFile ::
  "handle_env \<Rightarrow> world \<Rightarrow> int \<Rightarrow> (nat \<Rightarrow> string) \<Rightarrow> string \<Rightarrow> string \<Rightarrow> handleStore \<Rightarrow> doc_state \<Rightarrow> HandleRecord list handled" where
  "FindSymbolsInFile E w now newID path query s d =
     (if TrimSpace query = [] then (Error (PlainError ''symbol query is required''), s, d)
      else
        (case he_sectioner E of
           None \<Rightarrow> (Ok [], s, d)
         | Some sectioner \<Rightarrow>
             (case Read (he_native E) path w d of
                (Inl _, d') \<Rightarrow> (Ok [], s, d')
              | (Inr read, d') \<Rightarrow>
                  (case register_sections E now newID query read 0 (declarations sectioner read) s of
                     (Inl e, _, s') \<Rightarrow> (Error e, s', d')
                   | (Inr records, _, s') \<Rightarrow> (Ok (sort_key (\<lambda>record. lo_ByteStart (hd_Locator record)) records), s', d')))))"

type_synonym range_key = "string \<times> int \<times> int \<times> string"

fun unique_records ::
  "handle_env \<Rightarrow> world \<Rightarrow> int \<Rightarrow> string \<Rightarrow> string \<Rightarrow> HandleRecord list \<Rightarrow> (range_key \<times> HandleRecord) list \<Rightarrow> handleStore \<Rightarrow> doc_state \<Rightarrow>
   (range_key \<times> HandleRecord) list \<times> handleStore \<times> doc_state" where
  "unique_records E w now path namePath [] unique s d = (unique, s, d)"
| "unique_records E w now path namePath (record # rest) unique s d =
     (if lo_Path (hd_Locator record) \<noteq> path \<or> lo_NamePath (hd_Locator record) \<noteq> namePath
      then unique_records E w now path namePath rest unique s d
      else
        (case ResolveHandle E w now (hd_Handle record) s d of
           (Inl _, s', d') \<Rightarrow> unique_records E w now path namePath rest unique s' d'
         | (Inr found, s', d') \<Rightarrow>
             (case resolution_range found of
                Inl _ \<Rightarrow> unique_records E w now path namePath rest unique s' d'
              | Inr handle \<Rightarrow>
                  unique_records E w now path namePath rest
                    (AList.update (rh_Path handle, rh_ByteStart handle, rh_ByteEnd handle, rh_ExpectedSHA256 handle) record unique) s' d')))"

definition ResolveSymbolLocator ::
  "handle_env \<Rightarrow> world \<Rightarrow> int \<Rightarrow> (nat \<Rightarrow> string) \<Rightarrow> string \<Rightarrow> string \<Rightarrow> handleStore \<Rightarrow> doc_state \<Rightarrow> HandleRecord handled" where
  "ResolveSymbolLocator E w now newID path namePath s d =
     (case FindSymbolsInFile E w now newID path namePath s d of
        (Inl e, s', d') \<Rightarrow> (Error e, s', d')
      | (Inr records, s', d') \<Rightarrow>
          let live = filter (\<lambda>record. hd_Kind record = HandleSymbol \<and> hd_ExpiresAt record > now) (map snd (hs_handles s'))
          in case unique_records E w now path namePath (records @ live) [] s' d' of
               ([(_, record)], s'', d'') \<Rightarrow> (Ok record, s'', d'')
             | (_, s'', d'') \<Rightarrow> (Error (PlainError ''symbol locator did not resolve to one declaration''), s'', d''))"

section \<open>Result sets\<close>

record SearchResult =
  sq_Hits :: "SearchHit list"
  sq_Coverage :: Coverage
  sq_Query :: string
  sq_Mode :: string
  sq_DocumentRevisions :: "(string \<times> string) list"
  sq_SourceFiles :: "string list"
  sq_Scope :: "string list"

fun adjacent_disjoint :: "SearchHit list \<Rightarrow> bool" where
  "adjacent_disjoint (hit # hit' # rest) =
     (\<not> (sh_Path hit = sh_Path hit' \<and> sh_ByteStart hit' < sh_ByteEnd hit) \<and> adjacent_disjoint (hit' # rest))"
| "adjacent_disjoint _ = True"

definition nonOverlapping :: "SearchHit list \<Rightarrow> bool" where
  "nonOverlapping hits = adjacent_disjoint (sort_key (\<lambda>hit. (sh_Path hit, sh_ByteStart hit)) hits)"

definition retainedHits :: "SearchHit list \<Rightarrow> SearchHit list" where
  "retainedHits hits =
     map (\<lambda>hit. if length (sh_Match hit) > maxRetainedMatchBytes then hit\<lparr> sh_Match := [], sh_MatchTruncated := True \<rparr> else hit) hits"

definition search_set :: "string \<Rightarrow> Identity \<Rightarrow> int \<Rightarrow> SearchResult \<Rightarrow> ResultSet" where
  "search_set newID identity expiresAt result =
     (let complete = cov_Complete (sq_Coverage result); disjoint' = nonOverlapping (sq_Hits result)
      in \<lparr> rs_Handle = newID, rs_Parent = [], rs_Kind = ResultSetCurrentSource, rs_WorkspaceID = id_ID identity, rs_Epoch = id_Epoch identity,
           rs_StateSeq = id_StateSeq identity, rs_ExpiresAt = expiresAt, rs_Matches = retainedHits (sq_Hits result),
           rs_MatchCount = length (sq_Hits result), rs_FileCount = length (remdups (map sh_Path (sq_Hits result))), rs_Complete = complete,
           rs_NonOverlapping = disjoint', rs_AllMatchesEligible = (complete \<and> disjoint'), rs_Retained = length (sq_Hits result), rs_Eliminated = 0,
           rs_Scope = sq_Scope result, rs_Coverage = sq_Coverage result, rs_Query = sq_Query result, rs_Mode = sq_Mode result, rs_Constraints = [],
           rs_DocumentRevisions = sq_DocumentRevisions result, rs_SourceFiles = sq_SourceFiles result \<rparr>)"

definition FreezeSearch :: "int \<Rightarrow> string \<Rightarrow> Identity \<Rightarrow> SearchResult \<Rightarrow> handleStore \<Rightarrow> ResultSet \<times> handleStore" where
  "FreezeSearch now newID identity result s =
     (let set' = search_set newID identity (now + hs_ttl s) result in (set', putSetLocked now set' s))"

definition FreezeHistoricalResultSet :: "int \<Rightarrow> string \<Rightarrow> Identity \<Rightarrow> nat \<Rightarrow> nat \<Rightarrow> Coverage \<Rightarrow> handleStore \<Rightarrow> ResultSet \<times> handleStore" where
  "FreezeHistoricalResultSet now newID identity matchCount fileCount coverage s =
     (case FreezeSearch now newID identity \<lparr> sq_Hits = [], sq_Coverage = coverage, sq_Query = [], sq_Mode = [], sq_DocumentRevisions = [],
        sq_SourceFiles = [], sq_Scope = [] \<rparr> s of
        (set', s') \<Rightarrow>
          let set' = set'\<lparr> rs_Kind := ResultSetHistorical, rs_MatchCount := matchCount, rs_FileCount := fileCount, rs_Retained := matchCount,
                rs_AllMatchesEligible := False, rs_Matches := [] \<rparr>
          in (set', s'\<lparr> hs_sets := AList.update (rs_Handle set') set' (hs_sets s') \<rparr>))"

definition changed_conflict :: "string \<Rightarrow> go_error" where
  "changed_conflict path = revision_conflict ConflictDocumentChanged path [] [] []"

text \<open>The listing and every document must be what they were when the set was frozen.\<close>

fun check_revisions :: "native_env \<Rightarrow> world \<Rightarrow> (string \<times> string) list \<Rightarrow> doc_state \<Rightarrow> unit result \<times> doc_state" where
  "check_revisions N w [] d = (Ok (), d)"
| "check_revisions N w ((path, expected) # rest) d =
     (case Read N path w d of
        (Inl _, d') \<Rightarrow> (Error (changed_conflict path), d')
      | (Inr read, d') \<Rightarrow>
          if expected \<noteq> dn_Revision (tr_Snapshot read) then (Error (changed_conflict path), d') else check_revisions N w rest d')"

definition check_sources :: "handle_env \<Rightarrow> world \<Rightarrow> ResultSet \<Rightarrow> doc_state \<Rightarrow> unit result \<times> doc_state" where
  "check_sources E w set' d =
     (case he_scoped E (rs_Scope set') of
        Inl _ \<Rightarrow> (Error (changed_conflict []), d)
      | Inr files \<Rightarrow>
          if length files \<noteq> length (rs_SourceFiles set') then (Error (changed_conflict []), d)
          else
            (case find (\<lambda>(path, source). path \<noteq> source) (zip files (rs_SourceFiles set')) of
               Some (path, _) \<Rightarrow> (Error (changed_conflict (displayPath (id_Root (dw_identity d)) path)), d)
             | None \<Rightarrow> check_revisions (he_native E) w (rs_DocumentRevisions set') d))"

definition InspectResultSet :: "handle_env \<Rightarrow> world \<Rightarrow> int \<Rightarrow> string \<Rightarrow> handleStore \<Rightarrow> doc_state \<Rightarrow> ResultSet handled" where
  "InspectResultSet E w now id' s d =
     (case map_of (hs_sets s) id' of
        None \<Rightarrow> (Error (PlainError ''unknown result set''), s, d)
      | Some set' \<Rightarrow>
          if rs_ExpiresAt set' \<le> now then (Error (PlainError ''result set expired''), s\<lparr> hs_sets := AList.delete id' (hs_sets s) \<rparr>, d)
          else if rs_WorkspaceID set' \<noteq> id_ID (dw_identity d) \<or> rs_Epoch set' \<noteq> id_Epoch (dw_identity d)
          then (Error (revision_conflict ConflictWorkspaceEpoch [] [] [] []), s, d)
          else
            (case (if rs_Kind set' = ResultSetCurrentSource then check_sources E w set' d else (Ok (), d)) of
               (Inl e, d') \<Rightarrow> (Error e, s, d')
             | (Inr _, d') \<Rightarrow>
                 if rs_StateSeq set' \<noteq> id_StateSeq (dw_identity d') then (Error (changed_conflict []), s, d') else (Ok set', s, d')))"

text \<open>The texts of truncated hits, each document read once.\<close>

definition cached_content :: "native_env \<Rightarrow> world \<Rightarrow> (string \<rightharpoonup> bytes) \<Rightarrow> string \<Rightarrow> doc_state \<Rightarrow> bytes result \<times> doc_state" where
  "cached_content N w contents path d =
     (case contents path of
        Some content \<Rightarrow> (Ok content, d)
      | None \<Rightarrow> (case Read N path w d of (Inl e, d') \<Rightarrow> (Error e, d') | (Inr read, d') \<Rightarrow> (Ok (tr_Content read), d')))"

fun hydrate_loop :: "native_env \<Rightarrow> world \<Rightarrow> (string \<rightharpoonup> bytes) \<Rightarrow> SearchHit list \<Rightarrow> doc_state \<Rightarrow> SearchHit list result \<times> doc_state" where
  "hydrate_loop N w contents [] d = (Ok [], d)"
| "hydrate_loop N w contents (hit # rest) d =
     (if \<not> sh_MatchTruncated hit
      then (case hydrate_loop N w contents rest d of (Inl e, d') \<Rightarrow> (Error e, d') | (Inr hits, d') \<Rightarrow> (Ok (hit # hits), d'))
      else
        (case cached_content N w contents (sh_Path hit) d of
           (Inl e, d') \<Rightarrow> (Error e, d')
         | (Inr content, d') \<Rightarrow>
             if \<not> in_bounds content (sh_ByteStart hit) (sh_ByteEnd hit) then (Error (changed_conflict (sh_Path hit)), d')
             else
               (case hydrate_loop N w (contents(sh_Path hit \<mapsto> content)) rest d' of
                  (Inl e, d'') \<Rightarrow> (Error e, d'')
                | (Inr hits, d'') \<Rightarrow>
                    (Ok (hit\<lparr> sh_Match := int_slice content (sh_ByteStart hit) (sh_ByteEnd hit), sh_MatchTruncated := False \<rparr> # hits), d''))))"

definition hydrateHits :: "native_env \<Rightarrow> world \<Rightarrow> SearchHit list \<Rightarrow> doc_state \<Rightarrow> SearchHit list result \<times> doc_state" where
  "hydrateHits N w = hydrate_loop N w Map.empty"

fun check_matches :: "handle_env \<Rightarrow> world \<Rightarrow> int \<Rightarrow> SearchHit list \<Rightarrow> handleStore \<Rightarrow> doc_state \<Rightarrow> unit handled" where
  "check_matches E w now [] s d = (Ok (), s, d)"
| "check_matches E w now (hit # rest) s d =
     (case sh_MatchHandle hit of
        None \<Rightarrow> (Error (PlainError ''result set contains a match without a handle''), s, d)
      | Some id' \<Rightarrow>
          (case ResolveHandle E w now id' s d of
             (Inl e, s', d') \<Rightarrow> (Error e, s', d')
           | (Inr found, s', d') \<Rightarrow>
               if re_Status found \<noteq> ResolutionExact then (Error (changed_conflict (sh_Path hit)), s', d') else check_matches E w now rest s' d'))"

definition ResolveAllMatches :: "handle_env \<Rightarrow> world \<Rightarrow> int \<Rightarrow> string \<Rightarrow> handleStore \<Rightarrow> doc_state \<Rightarrow> SearchHit list handled" where
  "ResolveAllMatches E w now id' s d =
     (case InspectResultSet E w now id' s d of
        (Inl e, s', d') \<Rightarrow> (Error e, s', d')
      | (Inr set', s', d') \<Rightarrow>
          if rs_Kind set' \<noteq> ResultSetCurrentSource then (Error (PlainError ''historical result sets are not editable''), s', d')
          else if \<not> rs_Complete set' then (Error (PlainError ''incomplete result set is not eligible for all-match replacement''), s', d')
          else if \<not> rs_NonOverlapping set' then (Error (PlainError ''overlapping result set is not eligible for all-match replacement''), s', d')
          else
            (case check_matches E w now (rs_Matches set') s' d' of
               (Inl e, s'', d'') \<Rightarrow> (Error e, s'', d'')
             | (Inr _, s'', d'') \<Rightarrow> (case hydrateHits (he_native E) w (rs_Matches set') d'' of (hits, d3) \<Rightarrow> (hits, s'', d3))))"

record ResultRefinement =
  rn_Path :: string
  rn_MatchLiteral :: bytes
  rn_MatchRegex :: string

definition refined :: "ResultRefinement \<Rightarrow> (bytes \<Rightarrow> bool) option \<Rightarrow> SearchHit \<Rightarrow> bool" where
  "refined refinement expression hit \<longleftrightarrow>
     \<not> (rn_Path refinement \<noteq> [] \<and> Index (sh_Path hit) (rn_Path refinement) = None) \<and>
     \<not> (rn_MatchLiteral refinement \<noteq> [] \<and> Index (sh_Match hit) (rn_MatchLiteral refinement) = None) \<and>
     (case expression of Some MatchString \<Rightarrow> MatchString (sh_Match hit) | None \<Rightarrow> True)"

definition refinement_constraints :: "ResultRefinement \<Rightarrow> (string \<times> string \<times> string) list" where
  "refinement_constraints refinement =
     (if rn_Path refinement \<noteq> [] then [(''path'', rn_Path refinement, [])] else []) @
     (if rn_MatchLiteral refinement \<noteq> [] then [(''matched_text'', rn_MatchLiteral refinement, ''literal'')] else []) @
     (if rn_MatchRegex refinement \<noteq> [] then [(''matched_text'', rn_MatchRegex refinement, ''regex'')] else [])"

definition refine_frozen ::
  "int \<Rightarrow> string \<Rightarrow> ResultRefinement \<Rightarrow> ResultSet \<Rightarrow> SearchHit list \<Rightarrow> Identity \<Rightarrow> handleStore \<Rightarrow> ResultSet \<times> handleStore" where
  "refine_frozen now newID refinement parent hits identity s =
     (case FreezeSearch now newID identity \<lparr> sq_Hits = hits, sq_Coverage = rs_Coverage parent, sq_Query = rs_Query parent, sq_Mode = rs_Mode parent,
        sq_DocumentRevisions = rs_DocumentRevisions parent, sq_SourceFiles = rs_SourceFiles parent, sq_Scope = rs_Scope parent \<rparr> s of
        (child, s') \<Rightarrow>
          let complete = (rs_Complete parent \<and> rs_Complete child);
              child = child\<lparr> rs_Parent := rs_Handle parent, rs_Constraints := rs_Constraints parent @ refinement_constraints refinement,
                rs_Complete := complete, rs_AllMatchesEligible := (complete \<and> rs_NonOverlapping child), rs_Retained := length hits,
                rs_Eliminated := int (length (rs_Matches parent)) - int (length hits) \<rparr>
          in (child\<lparr> rs_Matches := hits \<rparr>, putSetLocked now child s'))"

definition compile_refinement :: "handle_env \<Rightarrow> ResultRefinement \<Rightarrow> (bytes \<Rightarrow> bool) option result" where
  "compile_refinement E refinement =
     (if rn_MatchRegex refinement = [] then Ok None
      else
        (case he_compile E (rn_MatchRegex refinement) of
           Inl e \<Rightarrow> Error (WrappedError ''invalid refinement regular expression'' e)
         | Inr expression \<Rightarrow> Ok (Some expression)))"

definition RefineResultSet ::
  "handle_env \<Rightarrow> world \<Rightarrow> int \<Rightarrow> string \<Rightarrow> string \<Rightarrow> ResultRefinement \<Rightarrow> handleStore \<Rightarrow> doc_state \<Rightarrow> ResultSet handled" where
  "RefineResultSet E w now newID parentID refinement s d =
     (case InspectResultSet E w now parentID s d of
        (Inl e, s', d') \<Rightarrow> (Error e, s', d')
      | (Inr parent, s', d') \<Rightarrow>
          if rs_Kind parent \<noteq> ResultSetCurrentSource
          then (Error (PlainError ''historical result sets cannot be refined as current source''), s', d')
          else
            (case compile_refinement E refinement of
               Inl e \<Rightarrow> (Error e, s', d')
             | Inr expression \<Rightarrow>
                 (case hydrateHits (he_native E) w (rs_Matches parent) d' of
                    (Inl e, d'') \<Rightarrow> (Error e, s', d'')
                  | (Inr parentHits, d'') \<Rightarrow>
                      (case refine_frozen now newID refinement parent (filter (refined refinement expression) parentHits) (dw_identity d'') s' of
                         (child, s'') \<Rightarrow> (Ok child, s'', d'')))))"

end
