(* ===== verification/Literal.thy ===== *)
theory Literal
  imports Native_Edits Preview
begin

text \<open>
  Literal edits (\<^verbatim>\<open>internal/workspace/literal.go\<close>, \<^verbatim>\<open>literal_replace.go\<close>, and \<open>applyLiteral\<close> of
  \<^verbatim>\<open>internal/handlers/edit_literal.go\<close>): locating a text in one document or in all of them, exactly
  or up to white space, adjusting a replacement to the document's indentation, and replacing every
  occurrence through \<open>ApplyReplace\<close>.

  The listing of a workspace's files, which asks Git, is an argument. The texts shown to a client
  are kept as the values they are printed from.
\<close>

section \<open>Matches\<close>

record LiteralHit =
  lh_Path :: string
  lh_Line :: nat
  lh_Column :: nat
  lh_ByteStart :: int
  lh_ByteEnd :: int

datatype literal_hint =
    NoHint
  | HintCollapsed
  | HintKinds string
  | HintIndented bool string

record LiteralMatch =
  lm_Hits :: "LiteralHit list"
  lm_Normalised :: bool
  lm_IndentPrefix :: bytes
  lm_IndentAdded :: bool
  lm_Actual :: bytes
  lm_Hint :: literal_hint

definition no_match :: LiteralMatch where
  "no_match = \<lparr> lm_Hits = [], lm_Normalised = False, lm_IndentPrefix = [], lm_IndentAdded = False, lm_Actual = [], lm_Hint = NoHint \<rparr>"

text \<open>\<open>utf8.RuneCount\<close>: the bytes of the first rune; a byte that begins no rune counts as one.\<close>

definition rune_width :: "bytes \<Rightarrow> nat" where
  "rune_width content =
     (if 2 \<le> length content \<and> utf8_valid (take 2 content) \<and> \<not> utf8_valid (take 1 content) then 2
      else if 3 \<le> length content \<and> utf8_valid (take 3 content) \<and> \<not> utf8_valid (take 1 content) then 3
      else if 4 \<le> length content \<and> utf8_valid (take 4 content) \<and> \<not> utf8_valid (take 1 content) then 4
      else 1)"

function RuneCount :: "bytes \<Rightarrow> nat" where
  "RuneCount content = (if content = [] then 0 else Suc (RuneCount (drop (rune_width content) content)))"
  by auto

termination
  by (relation "measure length") (auto simp: rune_width_def)

declare RuneCount.simps [simp del]

definition bytePosition :: "bytes \<Rightarrow> nat \<Rightarrow> nat \<times> nat" where
  "bytePosition content offset = (1 + count_list (take offset content) newline, RuneCount (line_prefix content offset) + 1)"

definition literal_hit :: "TextRead \<Rightarrow> nat \<times> nat \<Rightarrow> LiteralHit" where
  "literal_hit read span =
     (let (line, column) = bytePosition (tr_Content read) (fst span)
      in \<lparr> lh_Path = tr_Path read, lh_Line = line, lh_Column = column, lh_ByteStart = int (fst span), lh_ByteEnd = int (snd span) \<rparr>)"

text \<open>\<open>matchRanges\<close> returns on every literal that is not empty; the callers exclude the empty one.\<close>

definition literal_spans :: "bytes \<Rightarrow> bytes \<Rightarrow> (nat \<times> nat) list" where
  "literal_spans content literal = (case matchRanges content literal None of Some spans \<Rightarrow> spans | None \<Rightarrow> [])"

section \<open>White space\<close>

text \<open>The bytes \<open>normaliseWhitespace\<close> keeps, each with the offset it came from.\<close>

fun normalise_loop :: "nat \<Rightarrow> bool \<Rightarrow> nat option \<Rightarrow> bytes \<Rightarrow> (char \<times> nat) list" where
  "normalise_loop index lineStart pendingSpace [] = []"
| "normalise_loop index lineStart pendingSpace (c # rest) =
     (if c = blank \<or> c = tabulator
      then normalise_loop (Suc index) lineStart (if \<not> lineStart \<and> pendingSpace = None then Some index else pendingSpace) rest
      else if c = newline then (newline, index) # normalise_loop (Suc index) True None rest
      else (case pendingSpace of Some offset \<Rightarrow> [(blank, offset)] | None \<Rightarrow> []) @
        (c, index) # normalise_loop (Suc index) False None rest)"

definition normaliseWhitespace :: "bytes \<Rightarrow> bytes \<times> nat list" where
  "normaliseWhitespace content =
     (map fst (normalise_loop 0 True None content), map snd (normalise_loop 0 True None content))"

fun extend_left :: "bytes \<Rightarrow> nat \<Rightarrow> nat" where
  "extend_left content 0 = 0"
| "extend_left content (Suc first) =
     (if content ! first = blank \<or> content ! first = tabulator then extend_left content first else Suc first)"

definition originalSpan :: "bytes \<Rightarrow> nat list \<Rightarrow> nat \<times> nat \<Rightarrow> nat \<times> nat" where
  "originalSpan content offsets span = (extend_left content (offsets ! fst span), offsets ! (snd span - 1) + 1)"

section \<open>Indentation\<close>

definition TrimRight_newlines :: "bytes \<Rightarrow> bytes" where
  "TrimRight_newlines text = rev (dropWhile (\<lambda>c. c = newline) (rev text))"

definition HasSuffix :: "bytes \<Rightarrow> bytes \<Rightarrow> bool" where
  "HasSuffix text ending = HasPrefix (rev text) (rev ending)"

definition TrimSuffix :: "bytes \<Rightarrow> bytes \<Rightarrow> bytes" where
  "TrimSuffix text ending = (if HasSuffix text ending then take (length text - length ending) text else text)"

definition TrimPrefix :: "bytes \<Rightarrow> bytes \<Rightarrow> bytes" where
  "TrimPrefix text start = (if HasPrefix text start then drop (length start) text else text)"

text \<open>What the document's line has more, or less, at its beginning than the requested one.\<close>

definition indent_candidate :: "bytes \<Rightarrow> bytes \<Rightarrow> (bytes \<times> bool) option" where
  "indent_candidate want have =
     (if HasSuffix have want then Some (TrimSuffix have want, True)
      else if HasSuffix want have then Some (TrimSuffix want have, False)
      else None)"

fun indent_loop :: "bytes \<Rightarrow> bool \<Rightarrow> (bytes \<times> bytes) list \<Rightarrow> (bytes \<times> bool) option" where
  "indent_loop indent added [] = Some (indent, added)"
| "indent_loop indent added ((want, have) # rest) =
     (if TrimSpace want = [] \<and> TrimSpace have = [] then indent_loop indent added rest
      else
        (case indent_candidate want have of
           None \<Rightarrow> None
         | Some (candidate, candidateAdded) \<Rightarrow>
             if TrimSpace candidate \<noteq> [] then None
             else if indent = [] \<and> \<not> added \<and> candidate = [] then indent_loop indent added rest
             else if indent \<noteq> [] \<and> (candidate \<noteq> indent \<or> candidateAdded \<noteq> added) then None
             else indent_loop candidate candidateAdded rest))"

definition leading :: "bytes \<Rightarrow> bytes" where
  "leading line = takeWhile (\<lambda>c. c = blank \<or> c = tabulator) line"

definition whitespaceKinds :: "bytes \<Rightarrow> string" where
  "whitespaceKinds text =
     (let leads = map leading (split_lines text);
          tabs = list_ex (\<lambda>lead. tabulator \<in> set lead) leads;
          spaces = list_ex (\<lambda>lead. blank \<in> set lead) leads
      in if tabs \<and> spaces then ''the document mixes tabs and spaces''
         else if tabs then ''the document indents with tabs''
         else if spaces then ''the document indents with spaces''
         else ''whitespace differs inside lines'')"

definition describeIndentation :: "bytes \<Rightarrow> bytes \<Rightarrow> bytes \<times> bool \<times> literal_hint" where
  "describeIndentation requested actual =
     (let wantLines = split_lines (TrimRight_newlines requested);
          haveLines = split_lines (TrimRight_newlines actual)
      in if length wantLines \<noteq> length haveLines then ([], False, HintCollapsed)
         else
           (case indent_loop [] False (zip wantLines haveLines) of
              None \<Rightarrow> ([], False, HintKinds (whitespaceKinds actual))
            | Some (indent, added) \<Rightarrow>
                if indent = [] then ([], False, HintCollapsed) else (indent, added, HintIndented added indent)))"

text \<open>\<open>strings.Join\<close> with newlines.\<close>

fun join_lines :: "bytes list \<Rightarrow> bytes" where
  "join_lines [] = []"
| "join_lines [line] = line"
| "join_lines (line # others) = line @ newline # join_lines others"

definition adjust_line :: "bytes \<Rightarrow> bool \<Rightarrow> bytes \<Rightarrow> bytes" where
  "adjust_line indent added line =
     (if TrimSpace line = [] then line else if added then indent @ line else TrimPrefix line indent)"

definition AdjustIndentation :: "LiteralMatch \<Rightarrow> bytes \<Rightarrow> bytes" where
  "AdjustIndentation match replacement =
     (if lm_IndentPrefix match = [] then replacement
      else
        join_lines (map (adjust_line (lm_IndentPrefix match) (lm_IndentAdded match)) (split_lines (TrimSuffix replacement [newline]))) @
          (if HasSuffix replacement [newline] then [newline] else []))"

section \<open>Locating a literal\<close>

text \<open>Both searches read every file in turn and stop at the first that cannot be read.\<close>

fun scan_files :: "native_env \<Rightarrow> world \<Rightarrow> (TextRead \<Rightarrow> 'a list) \<Rightarrow> string list \<Rightarrow> doc_state \<Rightarrow> 'a list result \<times> doc_state" where
  "scan_files N w found [] d = (Ok [], d)"
| "scan_files N w found (name # rest) d =
     (case Read N name w d of
        (Inl e, d') \<Rightarrow> (Error e, d')
      | (Inr read, d') \<Rightarrow>
          (case scan_files N w found rest d' of
             (Inl e, d'') \<Rightarrow> (Error e, d'')
           | (Inr others, d'') \<Rightarrow> (Ok (found read @ others), d'')))"

definition exact_hits :: "bytes \<Rightarrow> TextRead \<Rightarrow> LiteralHit list" where
  "exact_hits old read = map (literal_hit read) (literal_spans (tr_Content read) old)"

definition normalised_hits :: "bytes \<Rightarrow> TextRead \<Rightarrow> (LiteralHit \<times> bytes) list" where
  "normalised_hits wanted read =
     (let (normalised, offsets) = normaliseWhitespace (tr_Content read)
      in map (\<lambda>span. let (start, end) = originalSpan (tr_Content read) offsets span
                    in (literal_hit read (start, end), go_slice (tr_Content read) start end))
           (literal_spans normalised wanted))"

definition locateNormalised :: "native_env \<Rightarrow> world \<Rightarrow> string list \<Rightarrow> bytes \<Rightarrow> doc_state \<Rightarrow> LiteralMatch result \<times> doc_state" where
  "locateNormalised N w files old d =
     (let wanted = fst (normaliseWhitespace old)
      in if TrimSpace wanted = [] then (Ok no_match, d)
         else
           (case scan_files N w (normalised_hits wanted) files d of
              (Inl e, d') \<Rightarrow> (Error e, d')
            | (Inr found, d') \<Rightarrow>
                if found = [] then (Ok no_match, d')
                else
                  let actual = (case filter (\<lambda>text. text \<noteq> []) (map snd found) of [] \<Rightarrow> [] | text # _ \<Rightarrow> text);
                      (indent, added, hint) = describeIndentation old actual
                  in (Ok \<lparr> lm_Hits = map fst found, lm_Normalised = True, lm_IndentPrefix = indent, lm_IndentAdded = added,
                        lm_Actual = actual, lm_Hint = hint \<rparr>, d')))"

definition is_text :: "world \<Rightarrow> string \<Rightarrow> bool" where
  "is_text w name = (case inspectPath (w_files w) name of Inr (disk, _) \<Rightarrow> ds_Kind disk = ObjectRegularText | Inl _ \<Rightarrow> False)"

definition literalCandidates :: "string list result \<Rightarrow> world \<Rightarrow> string \<Rightarrow> string list result" where
  "literalCandidates listing w path =
     (if path \<noteq> [] then (case w_resolve w path of Inl e \<Rightarrow> Error e | Inr absolute \<Rightarrow> Ok [absolute])
      else (case listing of Inl e \<Rightarrow> Error e | Inr files \<Rightarrow> Ok (filter (is_text w) files)))"

definition LocateLiteral ::
  "native_env \<Rightarrow> string list result \<Rightarrow> string \<Rightarrow> bytes \<Rightarrow> world \<Rightarrow> doc_state \<Rightarrow> LiteralMatch result \<times> doc_state" where
  "LocateLiteral N listing path old w d =
     (if old = [] then (Error (PlainError ''old text is required''), d)
      else
        (case literalCandidates listing w path of
           Inl e \<Rightarrow> (Error e, d)
         | Inr files \<Rightarrow>
             (case scan_files N w (exact_hits old) files d of
                (Inl e, d') \<Rightarrow> (Error e, d')
              | (Inr hits, d') \<Rightarrow>
                  if hits \<noteq> [] then (Ok (no_match\<lparr> lm_Hits := hits \<rparr>), d') else locateNormalised N w files old d')))"

section \<open>Replacing the hits\<close>

record LiteralChange =
  lc_Files :: "PlanStageFile list"
  lc_Patches :: "BytePatch list"
  lc_Replacements :: nat
  lc_Revisions :: "string \<rightharpoonup> string"

text \<open>The occurrences of one file, later ones first; \<open>patches\<close> and \<open>after\<close> are the loop's variables.\<close>

fun replace_loop :: "native_env \<Rightarrow> string \<Rightarrow> string \<Rightarrow> TextRead \<Rightarrow> bytes \<Rightarrow> bool \<Rightarrow> LiteralHit list \<Rightarrow> bytes \<Rightarrow> BytePatch list \<Rightarrow>
    doc_state \<Rightarrow> world \<Rightarrow> (bytes \<times> BytePatch list) outcome \<times> doc_state \<times> world" where
  "replace_loop N workspaceID path read replacement preview [] after patches d w = (Done (after, patches), d, w)"
| "replace_loop N workspaceID path read replacement preview (hit # rest) after patches d w =
     (let start = lh_ByteStart hit; end = lh_ByteEnd hit
      in if start < 0 \<or> end > int (length after) \<or> end < start
         then (Fail (PlainError ''literal occurrence is outside the document''), d, w)
         else
           (case NewRange N path start end w d of
              (Inl e, d') \<Rightarrow> (Fail e, d', w)
            | (Inr handle, d') \<Rightarrow>
                let next = splice after (nat start) (nat end) replacement
                in if preview
                   then replace_loop N workspaceID path read replacement preview rest next
                          (patches @ [diff_Patch (exactDiff (hashBytes N) (tr_Path read) (tr_Content read) after (nat start) (nat end) replacement)]) d' w
                   else
                     (case ApplyReplace N workspaceID handle replacement d' w of
                        (Fail e, d'', w') \<Rightarrow> (Fail e, d'', w')
                      | (Crashed, d'', w') \<Rightarrow> (Crashed, d'', w')
                      | (Done (applied, _), d'', w') \<Rightarrow>
                          replace_loop N workspaceID path read replacement preview rest next
                            (patches @ [diff_Patch (tc_Diff applied)]) d'' w')))"

text \<open>The zero snapshot of the file as it will be, which nothing reads, is \<open>missing_snapshot\<close> here.\<close>

definition replaceInFile :: "native_env \<Rightarrow> string \<Rightarrow> string \<Rightarrow> LiteralHit list \<Rightarrow> bytes \<Rightarrow> bool \<Rightarrow> doc_state \<Rightarrow> world \<Rightarrow>
    (PlanStageFile \<times> BytePatch list) outcome \<times> doc_state \<times> world" where
  "replaceInFile N workspaceID path occurrences replacement preview d w =
     (case Read N path w d of
        (Inl e, d') \<Rightarrow> (Fail e, d', w)
      | (Inr read, d') \<Rightarrow>
          (case replace_loop N workspaceID path read replacement preview occurrences (tr_Content read) [] d' w of
             (Fail e, d'', w') \<Rightarrow> (Fail e, d'', w')
           | (Crashed, d'', w') \<Rightarrow> (Crashed, d'', w')
           | (Done (after, patches), d'', w') \<Rightarrow>
               (Done (\<lparr> sf_Path = tr_Path read, sf_Before = tr_Content read, sf_After = after, sf_BeforeExists = True, sf_AfterExists = True,
                  sf_BeforeDisk = dn_Disk (tr_Snapshot read), sf_AfterDisk = missing_snapshot, sf_Patch = patches \<rparr>, patches), d'', w')))"

text \<open>The revision a replaced document has now, when it can be observed.\<close>

definition note_revision :: "native_env \<Rightarrow> string \<Rightarrow> LiteralChange \<Rightarrow> doc_state \<Rightarrow> world \<Rightarrow> LiteralChange \<times> doc_state" where
  "note_revision N path change d w =
     (case Snapshot (env_of N w) path no_layer d of
        (Inl _, d') \<Rightarrow> (change, d')
      | (Inr taken, d') \<Rightarrow> (change\<lparr> lc_Revisions := (lc_Revisions change)(path \<mapsto> dn_Revision taken) \<rparr>, d'))"

definition occurrences_in :: "LiteralHit list \<Rightarrow> string \<Rightarrow> LiteralHit list" where
  "occurrences_in hits path = sort_key (\<lambda>hit. - lh_ByteStart hit) (filter (\<lambda>hit. lh_Path hit = path) hits)"

fun replace_paths :: "native_env \<Rightarrow> string \<Rightarrow> LiteralHit list \<Rightarrow> bytes \<Rightarrow> bool \<Rightarrow> string list \<Rightarrow> LiteralChange \<Rightarrow> doc_state \<Rightarrow> world \<Rightarrow>
    LiteralChange outcome \<times> doc_state \<times> world" where
  "replace_paths N workspaceID hits replacement preview [] change d w = (Done change, d, w)"
| "replace_paths N workspaceID hits replacement preview (path # rest) change d w =
     (let occurrences = occurrences_in hits path
      in case replaceInFile N workspaceID path occurrences replacement preview d w of
           (Fail e, d', w') \<Rightarrow> (Fail e, d', w')
         | (Crashed, d', w') \<Rightarrow> (Crashed, d', w')
         | (Done (file, patches), d', w') \<Rightarrow>
             let change = \<lparr> lc_Files = lc_Files change @ [file], lc_Patches = lc_Patches change @ patches,
                   lc_Replacements = lc_Replacements change + length occurrences, lc_Revisions = lc_Revisions change \<rparr>;
                 (change, d') = (if preview then (change, d') else note_revision N path change d' w')
             in replace_paths N workspaceID hits replacement preview rest change d' w')"

definition ReplaceLiteral :: "native_env \<Rightarrow> string \<Rightarrow> LiteralHit list \<Rightarrow> bytes \<Rightarrow> bool \<Rightarrow> doc_state \<Rightarrow> world \<Rightarrow>
    LiteralChange outcome \<times> doc_state \<times> world" where
  "ReplaceLiteral N workspaceID hits replacement preview =
     replace_paths N workspaceID hits replacement preview (rev (remdups (rev (map lh_Path hits))))
       \<lparr> lc_Files = [], lc_Patches = [], lc_Replacements = 0, lc_Revisions = Map.empty \<rparr>"

section \<open>The edit request\<close>

record editRequest =
  rq_Preview :: bool
  rq_Path :: string
  rq_Old :: bytes
  rq_New :: bytes
  rq_ExpectedCount :: int

datatype literal_refusal =
    InvalidTarget
  | LocateFailed go_error
  | LiteralNotFound
  | LiteralWhitespaceMismatch literal_hint bytes
  | LiteralCountMismatch int nat
  | EditFailed go_error

record appliedEdit =
  ae_files :: "PlanStageFile list"
  ae_patches :: "BytePatch list"
  ae_revisions :: "string \<rightharpoonup> string"
  ae_fromStateSeq :: u64
  ae_replacements :: nat
  ae_warnings :: "literal_hint list"
  ae_locations :: "(string \<times> nat \<times> nat) list"

datatype edit_answer = Applied appliedEdit | Refused literal_refusal | Died

definition literalRefusal :: "editRequest \<Rightarrow> LiteralMatch \<Rightarrow> literal_refusal option" where
  "literalRefusal request match =
     (if lm_Hits match = [] then Some LiteralNotFound
      else if lm_Normalised match \<and> lm_IndentPrefix match = [] then Some (LiteralWhitespaceMismatch (lm_Hint match) (lm_Actual match))
      else if int (length (lm_Hits match)) \<noteq> rq_ExpectedCount request
      then Some (LiteralCountMismatch (rq_ExpectedCount request) (length (lm_Hits match)))
      else None)"

definition literalLocations :: "LiteralHit list \<Rightarrow> (string \<times> nat \<times> nat) list" where
  "literalLocations hits = map (\<lambda>hit. (lh_Path hit, lh_Line hit, lh_Column hit)) hits"

definition applyLiteral :: "native_env \<Rightarrow> string list result \<Rightarrow> editRequest \<Rightarrow> doc_state \<Rightarrow> world \<Rightarrow> edit_answer \<times> doc_state \<times> world" where
  "applyLiteral N listing request d w =
     (if rq_Old request = [] then (Refused InvalidTarget, d, w)
      else
        (case LocateLiteral N listing (rq_Path request) (rq_Old request) w d of
           (Inl e, d') \<Rightarrow> (Refused (LocateFailed e), d', w)
         | (Inr match, d') \<Rightarrow>
             (case literalRefusal request match of
                Some refusal \<Rightarrow> (Refused refusal, d', w)
              | None \<Rightarrow>
                  let replacement = (if lm_Normalised match then AdjustIndentation match (rq_New request) else rq_New request);
                      warnings = (if lm_Normalised match then [lm_Hint match] else []);
                      fromStateSeq = id_StateSeq (dw_identity d')
                  in case ReplaceLiteral N (id_ID (dw_identity d')) (lm_Hits match) replacement (rq_Preview request) d' w of
                       (Fail e, d'', w') \<Rightarrow> (Refused (EditFailed e), d'', w')
                     | (Crashed, d'', w') \<Rightarrow> (Died, d'', w')
                     | (Done change, d'', w') \<Rightarrow>
                         (Applied \<lparr> ae_files = lc_Files change, ae_patches = lc_Patches change, ae_revisions = lc_Revisions change,
                            ae_fromStateSeq = fromStateSeq, ae_replacements = lc_Replacements change, ae_warnings = warnings,
                            ae_locations = literalLocations (lm_Hits match) \<rparr>, d'', w'))))"

end
