(* ===== verification/Literal_Safety.thy ===== *)
theory Literal_Safety
  imports Literal Native_Refinement
begin

text \<open>
  What literal edits guarantee: a hit locates the requested text, exactly or up to white space; an
  edit that succeeds leaves every document with all its hits replaced; and where the document is
  uniformly indented more or less than the request, adjusting turns the request into the document.
\<close>

section \<open>Indentation\<close>

lemma HasSuffix_iff: "HasSuffix content ending \<longleftrightarrow> (\<exists>front. content = front @ ending)"
  unfolding HasSuffix_def HasPrefix_append by (metis rev_append rev_rev_ident)

lemma TrimSuffix_append: "TrimSuffix (front @ ending) ending = front"
  by (auto simp: TrimSuffix_def HasSuffix_iff)

lemma TrimPrefix_append: "TrimPrefix (start @ rest) start = rest"
  by (auto simp: TrimPrefix_def HasPrefix_append)

text \<open>A pair of lines of the request and the document that says something about indentation.\<close>

definition telling :: "bytes \<times> bytes \<Rightarrow> bool" where
  "telling pair = (\<not> (TrimSpace (fst pair) = [] \<and> TrimSpace (snd pair) = []))"

lemma candidate_adjusts:
  assumes "indent_candidate want have = Some (indent, added)" "TrimSpace want \<noteq> []"
  shows "adjust_line indent added want = have"
  using assms by (auto simp: indent_candidate_def adjust_line_def HasSuffix_iff TrimSuffix_append TrimPrefix_append split: if_splits)

lemma candidate_empty: "indent_candidate want have = Some ([], added) \<Longrightarrow> want = have"
  by (auto simp: indent_candidate_def HasSuffix_iff TrimSuffix_append split: if_splits)

lemma indent_loop_Cons:
  "indent_loop indent added (pair # pairs) =
     (if \<not> telling pair then indent_loop indent added pairs
      else
        (case indent_candidate (fst pair) (snd pair) of
           None \<Rightarrow> None
         | Some (candidate, up) \<Rightarrow>
             if TrimSpace candidate \<noteq> [] then None
             else if indent = [] \<and> \<not> added \<and> candidate = [] then indent_loop indent added pairs
             else if indent \<noteq> [] \<and> (candidate \<noteq> indent \<or> up \<noteq> added) then None
             else indent_loop candidate up pairs))"
  by (cases pair) (simp add: telling_def)

lemma indent_loop_uniform:
  "indent_loop indent added pairs = Some (found, up) \<Longrightarrow> indent \<noteq> [] \<Longrightarrow>
   found = indent \<and> up = added \<and> (\<forall>pair \<in> set pairs. telling pair \<longrightarrow> indent_candidate (fst pair) (snd pair) = Some (indent, added))"
  by (induction pairs) (auto simp: indent_loop_Cons simp del: split_paired_All split: if_splits option.splits, fastforce+)

text \<open>The first line that tells is not the same in the request and in the document.\<close>

definition first_moved :: "bytes \<Rightarrow> bytes \<Rightarrow> bool" where
  "first_moved requested actual =
     (case filter telling (zip (split_lines (TrimRight_newlines requested)) (split_lines (TrimRight_newlines actual))) of
        [] \<Rightarrow> False
      | pair # _ \<Rightarrow> fst pair \<noteq> snd pair)"

lemma indent_loop_moved:
  assumes "indent_loop [] False pairs = Some (indent, added)" "filter telling pairs = pair # rest" "fst pair \<noteq> snd pair"
  shows "\<forall>p \<in> set pairs. telling p \<longrightarrow> indent_candidate (fst p) (snd p) = Some (indent, added)"
  using assms
proof (induction pairs)
  case (Cons p pairs)
  show ?case
  proof (cases "telling p")
    case False
    then show ?thesis using Cons by (auto simp: indent_loop_Cons)
  next
    case True
    then have "p = pair" using Cons.prems by simp
    then obtain candidate up where candidate: "indent_candidate (fst p) (snd p) = Some (candidate, up)"
      "indent_loop candidate up pairs = Some (indent, added)" "candidate \<noteq> []"
      using Cons.prems(1,3) True candidate_empty by (auto simp: indent_loop_Cons split: if_splits option.splits)
    from indent_loop_uniform [OF candidate(2,3)] candidate(1) show ?thesis by auto
  qed
qed simp

lemma split_lines_nonempty: "split_lines content \<noteq> []"
  by (cases content) (auto split: list.split)

lemma split_lines_no_newline: "line \<in> set (split_lines content) \<Longrightarrow> newline \<notin> set line"
  by (induction content arbitrary: line) (auto split: list.splits if_splits)

lemma split_plain: "newline \<notin> set line \<Longrightarrow> split_lines line = [line]"
  by (induction line) auto

lemma split_append: "newline \<notin> set line \<Longrightarrow> split_lines (line @ newline # rest) = line # split_lines rest"
  by (induction line) auto

lemma split_join_lines: "lines \<noteq> [] \<Longrightarrow> \<forall>line \<in> set lines. newline \<notin> set line \<Longrightarrow> split_lines (join_lines lines) = lines"
  by (induction lines rule: join_lines.induct) (auto simp: split_plain split_append)

lemma dropWhile_start: "\<not> HasPrefix (dropWhile (\<lambda>c. c = x) xs) [x]"
  by (induction xs) auto

lemma TrimRight_ends: "\<not> HasSuffix (TrimRight_newlines content) [newline]"
  using dropWhile_start [of newline "rev content"] by (simp add: HasSuffix_def TrimRight_newlines_def)

text \<open>
  Where the document's indentation differs from the request's on every line, adjusting is
  exact: the request, adjusted as its replacement will be, has on every line that is not blank the
  document's own line.
\<close>

theorem adjusted_request_is_document:
  assumes "describeIndentation requested actual = (lm_IndentPrefix match, lm_IndentAdded match, hint)" "lm_IndentPrefix match \<noteq> []"
    and "first_moved requested actual"
    and "i < length (split_lines (TrimRight_newlines requested))" "TrimSpace (split_lines (TrimRight_newlines requested) ! i) \<noteq> []"
  shows "split_lines (AdjustIndentation match (TrimRight_newlines requested)) ! i = split_lines (TrimRight_newlines actual) ! i"
proof -
  let ?want = "split_lines (TrimRight_newlines requested)" and ?have = "split_lines (TrimRight_newlines actual)"
  let ?adjust = "adjust_line (lm_IndentPrefix match) (lm_IndentAdded match)"
  have len: "length ?want = length ?have" and loop: "indent_loop [] False (zip ?want ?have) = Some (lm_IndentPrefix match, lm_IndentAdded match)"
    using assms(1,2) by (auto simp: describeIndentation_def Let_def split: if_splits option.splits)
  obtain pair rest where "filter telling (zip ?want ?have) = pair # rest" "fst pair \<noteq> snd pair"
    using assms(3) by (auto simp: first_moved_def split: list.splits)
  note candidates = indent_loop_moved [OF loop this]
  have adjusted: "?adjust (?want ! j) = ?have ! j" if "j < length ?want" "TrimSpace (?want ! j) \<noteq> []" for j
  proof -
    have "(?want ! j, ?have ! j) \<in> set (zip ?want ?have)" using that(1) len by (auto simp: set_zip)
    then have "indent_candidate (?want ! j) (?have ! j) = Some (lm_IndentPrefix match, lm_IndentAdded match)"
      using candidates that(2) by (fastforce simp: telling_def)
    then show ?thesis using candidate_adjusts that(2) by blast
  qed
  have plain: "\<forall>line \<in> set (map ?adjust ?want). newline \<notin> set line"
  proof
    fix line assume "line \<in> set (map ?adjust ?want)"
    then obtain j where j: "j < length ?want" "line = ?adjust (?want ! j)" by (auto simp: in_set_conv_nth)
    show "newline \<notin> set line"
    proof (cases "TrimSpace (?want ! j) = []")
      case True
      then show ?thesis using j split_lines_no_newline [OF nth_mem [OF j(1)]] by (simp add: adjust_line_def)
    next
      case False
      then show ?thesis using j adjusted [OF j(1)] len split_lines_no_newline [OF nth_mem [of j ?have]] by simp
    qed
  qed
  have "AdjustIndentation match (TrimRight_newlines requested) = join_lines (map ?adjust ?want)"
    using assms(2) TrimRight_ends [of requested] by (simp add: AdjustIndentation_def TrimSuffix_def)
  then have "split_lines (AdjustIndentation match (TrimRight_newlines requested)) = map ?adjust ?want"
    using split_join_lines [OF _ plain] split_lines_nonempty by simp
  then show ?thesis using adjusted assms(4,5) by simp
qed

section \<open>White space\<close>

lemma normalise_shift:
  "(p = None \<longleftrightarrow> p' = None) \<Longrightarrow> map fst (normalise_loop k ls p xs) = map fst (normalise_loop k' ls p' xs)"
  by (induction xs arbitrary: k k' ls p p') (auto split: option.split)

text \<open>A kept byte divides the loop: what it kept before, and a fresh start behind it.\<close>

lemma normalise_divides:
  assumes "i < length (normalise_loop k ls p xs)" "normalise_loop k ls p xs ! i = (c, n)" "c \<noteq> blank"
  shows "k \<le> n \<and> n < k + length xs \<and> xs ! (n - k) = c \<and> c \<noteq> tabulator \<and>
    normalise_loop k ls p (take (Suc n - k) xs) = take (Suc i) (normalise_loop k ls p xs) \<and>
    normalise_loop (Suc n) (c = newline) None (drop (Suc n - k) xs) = drop (Suc i) (normalise_loop k ls p xs)"
  using assms
proof (induction xs arbitrary: k ls p i)
  case (Cons x xs)
  have step: ?case if "normalise_loop k ls p (x # xs) = front @ normalise_loop (Suc k) ls' p' xs" "length front \<le> i"
    "\<And>m. normalise_loop k ls p (x # take m xs) = front @ normalise_loop (Suc k) ls' p' (take m xs)" for front ls' p'
  proof -
    have rec: "i - length front < length (normalise_loop (Suc k) ls' p' xs)" "normalise_loop (Suc k) ls' p' xs ! (i - length front) = (c, n)"
      using Cons.prems(1,2) that(1,2) by (auto simp: nth_append)
    note ih = Cons.IH [OF rec Cons.prems(3)]
    then have "Suc n - k = Suc (Suc n - Suc k)" "n - k = Suc (n - Suc k)" by auto
    then show ?thesis using ih that by (auto simp: Suc_diff_le)
  qed
  show ?case
  proof (cases "x = blank \<or> x = tabulator")
    case True
    show ?thesis by (rule step [of "[]"]) (use True in auto)
  next
    case False
    let ?front = "(case p of Some offset \<Rightarrow> if x = newline then [] else [(blank, offset)] | None \<Rightarrow> []) @ [(x, k)]"
    have front: "normalise_loop k ls p (x # ys) = ?front @ normalise_loop (Suc k) (x = newline) None ys" for ys
      using False by (auto split: option.split)
    show ?thesis
    proof (cases "length ?front \<le> i")
      case True
      show ?thesis by (rule step [OF front True front])
    next
      case less: False
      then have "(c, n) = (x, k)" "Suc i = length ?front"
        using Cons.prems(2,3) unfolding front by (auto simp: nth_append less_Suc_eq nth_Cons' split: option.splits if_splits)
      then show ?thesis using False front [of xs] front [of "[]"] by (simp del: normalise_loop.simps(2)) 
    qed
  qed
qed simp

lemma normalise_ends:
  "ps = normalise_loop k ls p xs \<Longrightarrow> ps \<noteq> [] \<Longrightarrow> fst (last ps) \<noteq> blank \<and> (p = None \<longrightarrow> ls \<longrightarrow> fst (hd ps) \<noteq> blank)"
proof (induction xs arbitrary: k ls p ps)
  case (Cons x xs)
  then show ?case by (auto split: option.splits if_splits)
qed simp

lemma normalise_leading:
  "list_all (\<lambda>c. c = blank \<or> c = tabulator) xs \<Longrightarrow> normalise_loop k True None (xs @ ys) = normalise_loop (k + length xs) True None ys"
  by (induction xs arbitrary: k) auto

lemma extend_left_spaces:
  "extend_left content n \<le> n \<and> (\<forall>i. extend_left content n \<le> i \<longrightarrow> i < n \<longrightarrow> content ! i = blank \<or> content ! i = tabulator)"
proof (induction n)
  case (Suc n)
  then show ?case by (auto simp: less_Suc_eq)
qed simp

text \<open>A span of the normalised text, mapped back, normalises to the bytes it spans.\<close>

lemma originalSpan_normalises:
  assumes "normaliseWhitespace content = (normalised, offsets)" "start < end" "end \<le> length normalised"
    and "normalised ! start \<noteq> blank" "normalised ! (end - 1) \<noteq> blank" "originalSpan content offsets (start, end) = (first', last')"
  shows "first' < last' \<and> last' \<le> length content \<and> fst (normaliseWhitespace (go_slice content first' last')) = go_slice normalised start end"
proof -
  define pairs where "pairs = normalise_loop 0 True None content"
  have norm: "normalised = map fst pairs" "offsets = map snd pairs" using assms(1) by (simp_all add: normaliseWhitespace_def pairs_def)
  obtain c0 o0 c1 o1 where at: "pairs ! start = (c0, o0)" "pairs ! (end - 1) = (c1, o1)" by fastforce
  have chars: "c0 \<noteq> blank" "c1 \<noteq> blank" and len: "start < length pairs" "end - 1 < length pairs" "Suc (end - 1) = end"
    using assms(2-5) at by (auto simp: norm)
  note upto = normalise_divides [OF len(2) [unfolded pairs_def] at(2) [unfolded pairs_def] chars(2), folded pairs_def]
  define front where "front = take (Suc o1) content"
  have kept: "normalise_loop 0 True None front = take end pairs" using upto len(3) by (simp add: front_def)
  have in_front: "start < length (normalise_loop 0 True None front)" "normalise_loop 0 True None front ! start = (c0, o0)"
    using kept assms(2) len at(1) by auto
  note within = normalise_divides [OF in_front chars(1), unfolded kept]
  have o0: "o0 < length front" "front ! o0 = c0" "o0 \<le> o1" "o1 < length content" using within upto by (auto simp: front_def)
  have spaces: "extend_left content o0 \<le> o0" "\<forall>i. extend_left content o0 \<le> i \<longrightarrow> i < o0 \<longrightarrow> content ! i = blank \<or> content ! i = tabulator"
    using extend_left_spaces by blast+
  have span: "first' = extend_left content o0" "last' = Suc o1" using assms(2,6) at len by (auto simp: originalSpan_def norm)
  have found: "go_slice content first' last' = go_slice content first' o0 @ c0 # drop (Suc o0) front"
  proof -
    have "go_slice content first' last' = drop first' front" unfolding span go_slice_def front_def by (simp add: drop_take)
    also have "\<dots> = drop first' (take o0 front) @ drop o0 front"
      using spaces(1) o0(1) span(1) by (metis append_take_drop_id drop_append diff_is_0_eq drop0 length_take less_imp_le min.absorb2)
    also have "drop o0 front = c0 # drop (Suc o0) front" using o0(1,2) Cons_nth_drop_Suc by metis
    also have "drop first' (take o0 front) = go_slice content first' o0"
      using o0(3) by (simp add: go_slice_def front_def drop_take min_def)
    finally show ?thesis .
  qed
  have "list_all (\<lambda>c. c = blank \<or> c = tabulator) (go_slice content first' o0)"
    using spaces(2) span(1) o0(3,4) by (auto simp: list_all_length go_slice_def)
  then have "normalise_loop 0 True None (go_slice content first' last') =
      normalise_loop (length (go_slice content first' o0)) True None (c0 # drop (Suc o0) front)"
    unfolding found by (simp add: normalise_leading del: normalise_loop.simps(2))
  moreover have "map fst (normalise_loop k True None (c0 # drop (Suc o0) front)) = c0 # map fst (drop (Suc start) (take end pairs))" for k
    using within chars(1) normalise_shift [of None None "Suc k" "c0 = newline" "drop (Suc o0) front" "Suc o0"] by auto
  moreover have "c0 # map fst (drop (Suc start) (take end pairs)) = map fst (drop start (take end pairs))"
    using at(1) len assms(2) by (subst Cons_nth_drop_Suc [symmetric]) auto
  ultimately have "map fst (normalise_loop 0 True None (go_slice content first' last')) = map fst (drop start (take end pairs))" by simp
  then show ?thesis using span spaces(1) o0(3,4)
    by (simp add: normaliseWhitespace_def norm go_slice_def drop_take drop_map take_map)
qed

section \<open>Hits\<close>

lemma literal_spans_from: "literal \<noteq> [] \<Longrightarrow> spans_from content literal 0 (literal_spans content literal)"
  using matchRanges_loop_returns [of literal content 0 "[]"] by (auto simp: literal_spans_def matchRanges_def)

lemma scan_found:
  "scan_files N w found files d = (Ok all, d') \<Longrightarrow> x \<in> set all \<Longrightarrow>
   \<exists>name d1 read d2. Read N name w d1 = (Ok read, d2) \<and> x \<in> set (found read)"
  by (induction files arbitrary: d d' all) (fastforce split: prod.splits sum.splits)+

lemma read_file:
  assumes "Read N name w d = (Ok read, d')" "confining w"
  obtains absolute meta where "w_resolve w name = Ok absolute" "w_files w absolute = Some (FileNode (tr_Content read) meta)"
    "tr_Path read = displayPath (id_Root (w_identity w)) absolute"
proof -
  obtain absolute taken where taken: "w_resolve w name = Ok absolute" "Refresh (env_of N w) absolute no_layer d = (Ok taken, d')"
    "read_text N w absolute taken = Ok read"
    using assms(1) by (auto simp: Read_def split: prod.splits sum.splits)
  have again: "w_resolve w absolute = Ok absolute" using assms(2) taken(1) by (simp add: confining_def)
  obtain disk where disk: "inspectPath (w_files w) absolute = Ok (disk, tr_Content read)" "ds_Kind (dn_Disk taken) = ObjectRegularText"
    "tr_Path read = displayPath (id_Root (w_identity w)) absolute"
    using taken(3) by (auto simp: read_text_def Let_def split: if_splits sum.splits prod.splits)
  have "ds_Kind disk = ObjectRegularText" using refresh_disk [OF taken(2)] again disk(1,2) by (force simp: env_of_def)
  from inspect_text [OF disk(1) this] show ?thesis using that taken(1) disk(3) by metis
qed

lemma literal_hit_fields [simp]:
  "lh_Path (literal_hit read span) = tr_Path read" "lh_ByteStart (literal_hit read span) = int (fst span)"
  "lh_ByteEnd (literal_hit read span) = int (snd span)"
  by (simp_all add: literal_hit_def split: prod.split)

text \<open>What a search reports: the requested bytes, or bytes that are the same up to white space.\<close>

definition finds :: "bool \<Rightarrow> bytes \<Rightarrow> bytes \<Rightarrow> LiteralHit \<Rightarrow> bool" where
  "finds normalised old content hit \<longleftrightarrow> in_bounds content (lh_ByteStart hit) (lh_ByteEnd hit) \<and>
     (let found = int_slice content (lh_ByteStart hit) (lh_ByteEnd hit)
      in if normalised then fst (normaliseWhitespace found) = fst (normaliseWhitespace old) else found = old)"

lemma exact_finds: "old \<noteq> [] \<Longrightarrow> hit \<in> set (exact_hits old read) \<Longrightarrow> lh_Path hit = tr_Path read \<and> finds False old (tr_Content read) hit"
  using literal_spans_from [of old "tr_Content read"]
  by (fastforce simp: exact_hits_def finds_def spans_from_def in_bounds_def int_slice_def)

lemma TrimSpace_Nil: "TrimSpace [] = []"
  by code_simp

lemma normalised_finds:
  assumes "wanted = fst (normaliseWhitespace old)" "wanted \<noteq> []" "hit \<in> fst ` set (normalised_hits wanted read)"
  shows "lh_Path hit = tr_Path read \<and> finds True old (tr_Content read) hit"
proof -
  obtain normalised offsets where norm: "normaliseWhitespace (tr_Content read) = (normalised, offsets)" by fastforce
  obtain start "end" where span: "(start, end) \<in> set (literal_spans normalised wanted)"
    and hit: "hit = literal_hit read (originalSpan (tr_Content read) offsets (start, end))"
    using assms(3) norm by (auto simp: normalised_hits_def split: prod.splits)
  have spans: "end = start + length wanted" "end \<le> length normalised" "go_slice normalised start end = wanted"
    using literal_spans_from [OF assms(2), of normalised] span by (auto simp: spans_from_def)
  have nth: "normalised ! (start + i) = wanted ! i" if "i < length wanted" for i
  proof -
    have "go_slice normalised start end ! i = normalised ! (start + i)" using that spans(1,2) by (simp add: go_slice_def)
    then show ?thesis using spans(3) by simp
  qed
  have ends: "hd wanted \<noteq> blank" "last wanted \<noteq> blank"
    using normalise_ends [of _ 0 True None old] assms(1,2) by (auto simp: normaliseWhitespace_def hd_map last_map)
  have "normalised ! start \<noteq> blank" "normalised ! (end - 1) \<noteq> blank" "start < end"
    using nth [of 0] nth [of "length wanted - 1"] ends assms(2) spans(1)
    by (auto simp: hd_conv_nth last_conv_nth Nat.add_diff_assoc [symmetric] Suc_le_eq simp del: Nat.add_diff_assoc)
  moreover obtain first' last' where orig: "originalSpan (tr_Content read) offsets (start, end) = (first', last')" by fastforce
  ultimately have "first' < last' \<and> last' \<le> length (tr_Content read) \<and>
      fst (normaliseWhitespace (go_slice (tr_Content read) first' last')) = wanted"
    using originalSpan_normalises [OF norm _ spans(2)] spans(3) by auto
  then show ?thesis using hit orig assms(1) by (simp add: finds_def in_bounds_def int_slice_def Let_def)
qed

text \<open>
  A located literal is there: every hit of a search lies within a document of the tree, under the
  name the document is shown with; the bytes it spans are the requested text when the match is
  exact, and otherwise the same text once runs of blanks are collapsed and line edges trimmed.
\<close>

theorem located_literal_is_there:
  assumes "LocateLiteral N listing path old w d = (Ok match, d')" "confining w" "hit \<in> set (lm_Hits match)"
  shows "\<exists>absolute content meta. w_files w absolute = Some (FileNode content meta) \<and>
    lh_Path hit = displayPath (id_Root (w_identity w)) absolute \<and> finds (lm_Normalised match) old content hit"
proof -
  obtain files where old: "old \<noteq> []" and files: "literalCandidates listing w path = Ok files"
    using assms(1) by (auto simp: LocateLiteral_def split: if_splits sum.splits)
  have shown: ?thesis if "Read N name w d1 = (Ok read, d2)" "lh_Path hit = tr_Path read \<and> finds (lm_Normalised match) old (tr_Content read) hit"
    for name d1 read d2
    using read_file [OF that(1) assms(2)] that(2) by metis
  obtain exact d1 where scan: "scan_files N w (exact_hits old) files d = (Ok exact, d1)"
    using assms(1) old files by (auto simp: LocateLiteral_def split: if_splits sum.splits prod.splits)
  show ?thesis
  proof (cases "exact = []")
    case False
    then have "match = no_match\<lparr> lm_Hits := exact \<rparr>" using assms(1) old files scan by (simp add: LocateLiteral_def)
    then show ?thesis using scan_found [OF scan, of hit] exact_finds [OF old] assms(3) shown by (fastforce simp: no_match_def)
  next
    case True
    define wanted where "wanted = fst (normaliseWhitespace old)"
    have located: "locateNormalised N w files old d1 = (Ok match, d')" using assms(1) old files scan True by (simp add: LocateLiteral_def)
    then have wanted: "TrimSpace wanted \<noteq> []"
      using assms(3) by (auto simp: locateNormalised_def wanted_def no_match_def Let_def split: if_splits)
    then obtain found where found: "scan_files N w (normalised_hits wanted) files d1 = (Ok found, d')" "lm_Hits match = map fst found" "lm_Normalised match"
      using located assms(3) by (auto simp: locateNormalised_def wanted_def [symmetric] no_match_def Let_def split: if_splits sum.splits prod.splits)
    then obtain pair where "pair \<in> set found" "hit = fst pair" using assms(3) by auto
    moreover have "wanted \<noteq> []" using wanted TrimSpace_Nil by auto
    ultimately obtain name d2 read d3 where read: "Read N name w d2 = (Ok read, d3)"
      and "lh_Path hit = tr_Path read \<and> finds True old (tr_Content read) hit"
      using scan_found [OF found(1)] normalised_finds [OF wanted_def] by blast
    then show ?thesis using found(3) by (intro shown [OF read]) simp
  qed
qed

section \<open>Replacing\<close>

text \<open>The reference: the text between the spans, with the replacement for each of them.\<close>

fun replace_spans :: "bytes \<Rightarrow> bytes \<Rightarrow> nat \<Rightarrow> (nat \<times> nat) list \<Rightarrow> bytes" where
  "replace_spans content replacement from [] = drop from content"
| "replace_spans content replacement from ((start, end) # rest) =
     go_slice content from start @ replacement @ replace_spans content replacement end rest"

definition splice_hit_at :: "bytes \<Rightarrow> LiteralHit \<Rightarrow> bytes \<Rightarrow> bytes" where
  "splice_hit_at replacement hit content = splice content (nat (lh_ByteStart hit)) (nat (lh_ByteEnd hit)) replacement"

lemma splice_spans:
  assumes "\<forall>(s, e) \<in> set spans. from \<le> s \<and> s \<le> e \<and> e \<le> length content" "sorted_wrt (\<lambda>(s, e) (s', e'). e \<le> s') spans" "from \<le> length content"
  shows "foldr (\<lambda>span c. splice c (fst span) (snd span) replacement) spans content =
    take from content @ replace_spans content replacement from spans"
  using assms
proof (induction spans arbitrary: "from")
  case (Cons span spans)
  obtain s e where span: "span = (s, e)" by fastforce
  have "foldr (\<lambda>span c. splice c (fst span) (snd span) replacement) spans content = take e content @ replace_spans content replacement e spans"
    using Cons.prems span by (intro Cons.IH) auto
  moreover have "take from content @ go_slice content from s = take s content"
    using Cons.prems(1) span by (auto simp: go_slice_def take_add [symmetric])
  ultimately show ?case using Cons.prems(1) span
    by (simp add: splice_def min_def)
qed simp

lemma splice_hits_of_spans:
  "fold (splice_hit_at replacement) (rev (map (literal_hit read) spans)) content =
   foldr (\<lambda>span c. splice c (fst span) (snd span) replacement) spans content"
  by (induction spans) (simp_all add: splice_hit_at_def)

lemma new_range_path:
  assumes "NewRange N path start end w d = (Ok handle, d')" "w_resolve w path = Ok absolute"
  shows "rh_Path handle = displayPath (id_Root (w_identity w)) absolute \<and> rh_ByteStart handle = start \<and> rh_ByteEnd handle = end"
  using assms by (auto simp: NewRange_def Read_def read_text_def rangeHandle_def Let_def split: prod.splits sum.splits if_splits)

text \<open>The names of one document: what it is called with, and what it is shown with.\<close>

definition names :: "string \<Rightarrow> string \<Rightarrow> world \<Rightarrow> bool" where
  "names path absolute w \<longleftrightarrow> w_resolve w path = Ok absolute \<and> w_resolve w (displayPath (id_Root (w_identity w)) absolute) = Ok absolute"

text \<open>One replacement: the document store is left alone or has the range replaced, the latter on success.\<close>

lemma replace_step:
  assumes "NewRange N path start end w d = (Ok handle, d1)" "ApplyReplace N workspaceID handle replacement d1 w = (r, d', w')"
    and "names path absolute w" "docs_of (w_files w) absolute = Some (content, mode)"
  shows "w_resolve w' = w_resolve w \<and> w_identity w' = w_identity w \<and>
    (docs_of (w_files w') = docs_of (w_files w) \<and> \<not> is_done r \<or>
     docs_of (w_files w') = (docs_of (w_files w))(absolute \<mapsto> (splice content (nat start) (nat end) replacement, and mode permMask)))"
proof -
  have handle: "rh_Path handle = displayPath (id_Root (w_identity w)) absolute" "rh_ByteStart handle = start" "rh_ByteEnd handle = end"
    using new_range_path [OF assms(1)] assms(3) by (auto simp: names_def)
  show ?thesis using assms(2)
  proof (cases rule: replace_cases)
    case refused
    then show ?thesis by simp
  next
    case (applied current d2 target old meta rm)
    have "target = absolute" using applied(3) assms(3) handle(1) by (simp add: names_def)
    moreover from this have "old = content" "nm_Mode meta = mode" using applied(4) assms(4) by (auto simp: docs_of_def)
    ultimately have left: "edit_left w (fresh_journal (w_native w))
        (edit_record absolute True content True (splice content (nat start) (nat end) replacement) mode) rm w'"
      using wp_result [OF wp_mutateFile applied(5)] handle(2,3) by simp
    then have "w_resolve w' = w_resolve w" "w_identity w' = w_identity w" by (auto simp: edit_left_def in_edit_def editing_def)
    then show ?thesis using docs_written [OF left] applied(6) by blast
  qed
qed

text \<open>The document store with the first \<open>n\<close> of some replacements made in a document.\<close>

definition replaced :: "bytes \<Rightarrow> string \<Rightarrow> LiteralHit list \<Rightarrow> nat \<Rightarrow> (string \<Rightarrow> (bytes \<times> u32) option) \<Rightarrow> (string \<Rightarrow> (bytes \<times> u32) option)" where
  "replaced replacement absolute hits n docs =
     (if n = 0 then docs
      else
        (case docs absolute of
           Some (content, mode) \<Rightarrow> docs(absolute \<mapsto> (fold (splice_hit_at replacement) (take n hits) content, and mode permMask))
         | None \<Rightarrow> docs))"

lemma replaced_Suc:
  assumes "docs absolute = Some (content, mode)"
  shows "replaced replacement absolute hits n (docs(absolute \<mapsto> (splice_hit_at replacement hit content, and mode permMask))) =
    replaced replacement absolute (hit # hits) (Suc n) docs"
  using assms by (simp add: replaced_def and.assoc)

text \<open>One turn of the loop.\<close>

lemma replace_loop_cases:
  assumes "replace_loop N workspaceID path read replacement preview (hit # hits) after patches d w = (r, d', w')"
  obtains (stopped) "w' = w" "\<not> is_done r"
  | (previewed) patches' d1 where preview
      "replace_loop N workspaceID path read replacement preview hits (splice_hit_at replacement hit after) patches' d1 w = (r, d', w')"
  | (applied) handle d1 ra d2 w1 where "\<not> preview" "NewRange N path (lh_ByteStart hit) (lh_ByteEnd hit) w d = (Ok handle, d1)"
      "ApplyReplace N workspaceID handle replacement d1 w = (ra, d2, w1)"
      "\<not> is_done ra \<and> w' = w1 \<and> \<not> is_done r \<or> is_done ra \<and>
       (\<exists>patches'. replace_loop N workspaceID path read replacement preview hits (splice_hit_at replacement hit after) patches' d2 w1 = (r, d', w'))"
proof -
  let ?bad = "lh_ByteStart hit < 0 \<or> lh_ByteEnd hit > int (length after) \<or> lh_ByteEnd hit < lh_ByteStart hit"
  obtain found d1 where range: "NewRange N path (lh_ByteStart hit) (lh_ByteEnd hit) w d = (found, d1)" by fastforce
  obtain ra d2 w1 where run: "\<forall>handle. found = Ok handle \<longrightarrow> ApplyReplace N workspaceID handle replacement d1 w = (ra, d2, w1)"
    by (cases found) (auto, metis prod_cases3)
  consider (bad) ?bad | (unreadable) e where "\<not> ?bad" "found = Error e" | (good) handle where "\<not> ?bad" "found = Ok handle" by (cases found) auto
  then show ?thesis
  proof cases
    case bad
    show ?thesis by (rule stopped) (use assms bad in \<open>auto simp only: replace_loop.simps Let_def if_True prod.inject is_done.simps\<close>)
  next
    case unreadable
    show ?thesis by (rule stopped) (use assms unreadable range in \<open>auto simp: Let_def\<close>)
  next
    case good
    show ?thesis
    proof (cases preview)
      case True
      show ?thesis by (rule previewed [OF True]) (use assms good range True in \<open>simp add: Let_def splice_hit_at_def\<close>)
    next
      case False
      show ?thesis
      proof (rule applied [OF False])
        show "NewRange N path (lh_ByteStart hit) (lh_ByteEnd hit) w d = (Ok handle, d1)" using range good(2) by simp
        show "ApplyReplace N workspaceID handle replacement d1 w = (ra, d2, w1)" using run good(2) by simp
      qed (use assms good range False run in \<open>cases ra; auto simp: Let_def splice_hit_at_def\<close>)
    qed
  qed
qed

lemma replace_loop_docs:
  assumes "replace_loop N workspaceID path read replacement preview hits after patches d w = (r, d', w')"
    and "names path absolute w" "\<not> preview \<longrightarrow> docs_of (w_files w) absolute = Some (after, mode)"
  shows "w_resolve w' = w_resolve w \<and> w_identity w' = w_identity w \<and>
    (\<exists>n \<le> length hits. docs_of (w_files w') = replaced replacement absolute hits n (docs_of (w_files w)) \<and> (preview \<longrightarrow> n = 0) \<and>
      (\<forall>final ps. r = Done (final, ps) \<longrightarrow> final = fold (splice_hit_at replacement) hits after \<and> (\<not> preview \<longrightarrow> n = length hits)))"
  using assms
proof (induction hits arbitrary: after patches d w mode)
  case Nil
  then show ?case by (auto simp: replaced_def)
next
  case (Cons hit hits)
  from Cons.prems(1) show ?case
  proof (cases rule: replace_loop_cases)
    case stopped
    then show ?thesis by (intro conjI exI [of _ "0::nat"]) (auto simp: replaced_def)
  next
    case (previewed patches' d1)
    from Cons.IH [OF previewed(2) Cons.prems(2)] previewed(1) show ?thesis by (auto simp: replaced_def)
  next
    case (applied handle d1 ra d2 w1)
    note docs = Cons.prems(3) [rule_format, OF applied(1)]
    note step = replace_step [OF applied(2,3) Cons.prems(2) docs, folded splice_hit_at_def]
    show ?thesis
    proof (cases "is_done ra")
      case False
      then have stop: "w' = w1" "\<not> is_done r" using applied(4) by simp_all
      have same: "w_resolve w' = w_resolve w \<and> w_identity w' = w_identity w" using step stop(1) by simp
      have one: "replaced replacement absolute (hit # hits) (Suc 0) (docs_of (w_files w)) =
          (docs_of (w_files w))(absolute \<mapsto> (splice_hit_at replacement hit after, and mode permMask))"
        using docs by (simp add: replaced_def)
      from step have "docs_of (w_files w') = replaced replacement absolute (hit # hits) 0 (docs_of (w_files w)) \<or>
          docs_of (w_files w') = replaced replacement absolute (hit # hits) (Suc 0) (docs_of (w_files w))"
        unfolding stop(1) one by (auto simp: replaced_def)
      then obtain n where "n \<le> Suc 0" "docs_of (w_files w') = replaced replacement absolute (hit # hits) n (docs_of (w_files w))" by auto
      then show ?thesis using same stop(2) applied(1) by (intro conjI exI [of _ n]) auto
    next
      case True
      then obtain patches' where rest:
        "replace_loop N workspaceID path read replacement preview hits (splice_hit_at replacement hit after) patches' d2 w1 = (r, d', w')"
        using applied(4) by blast
      have next_docs: "docs_of (w_files w1) = (docs_of (w_files w))(absolute \<mapsto> (splice_hit_at replacement hit after, and mode permMask))"
        using step True by simp
      have named: "names path absolute w1" using step Cons.prems(2) by (simp add: names_def)
      have "\<not> preview \<longrightarrow> docs_of (w_files w1) absolute = Some (splice_hit_at replacement hit after, and mode permMask)"
        unfolding next_docs by simp
      from Cons.IH [OF rest named this]
      obtain n where n: "w_resolve w' = w_resolve w1" "w_identity w' = w_identity w1" "n \<le> length hits"
        "docs_of (w_files w') = replaced replacement absolute hits n (docs_of (w_files w1))"
        "\<forall>final ps. r = Done (final, ps) \<longrightarrow> final = fold (splice_hit_at replacement) hits (splice_hit_at replacement hit after) \<and> n = length hits"
        using applied(1) by blast
      have "docs_of (w_files w') = replaced replacement absolute (hit # hits) (Suc n) (docs_of (w_files w))"
        unfolding n(4) next_docs by (rule replaced_Suc [of "docs_of (w_files w)", OF docs])
      moreover have "w_resolve w' = w_resolve w \<and> w_identity w' = w_identity w" using n(1,2) step by simp
      ultimately show ?thesis using n(3,5) applied(1) by (intro conjI exI [of _ "Suc n"]) auto
    qed
  qed
qed

section \<open>The edit\<close>

lemma all_in_one_path: "hits \<noteq> [] \<Longrightarrow> \<forall>hit \<in> set hits. lh_Path hit = path \<Longrightarrow> rev (remdups (rev (map lh_Path hits))) = [path]"
proof -
  assume "hits \<noteq> []" "\<forall>hit \<in> set hits. lh_Path hit = path"
  then have "set (remdups (rev (map lh_Path hits))) = {path}" by (cases hits) auto
  then have "remdups (rev (map lh_Path hits)) = [path]"
    by (metis distinct_remdups distinct_length_2_or_more list.set_intros insert_not_empty list.exhaust list.set(1) set_ConsD singletonD list.set_intros(2))
  then show ?thesis by simp
qed

lemma occurrences_descend:
  assumes "spans_from content old 0 spans" "old \<noteq> []"
  shows "occurrences_in (map (literal_hit read) spans) (tr_Path read) = rev (map (literal_hit read) spans)"
proof -
  have asc: "sorted_wrt (\<lambda>s s'. fst s < fst s') spans"
  proof (rule sorted_wrt_mono_rel [of spans "\<lambda>(s, e) (s', e'). e \<le> s'"])
    show "sorted_wrt (\<lambda>(s, e) (s', e'). e \<le> s') spans" using assms(1) by (simp add: spans_from_def)
    fix x y assume "x \<in> set spans" "(case x of (s, e) \<Rightarrow> \<lambda>(s', e'). e \<le> s') y"
    moreover have "snd x = fst x + length old" using assms(1) calculation(1) by (auto simp: spans_from_def)
    ultimately show "fst x < fst y" using assms(2) by (cases old) (auto simp: split_beta)
  qed
  let ?f = "\<lambda>hit. - lh_ByteStart hit"
  have "sorted (map ?f (rev (map (literal_hit read) spans)))"
    using asc by (simp add: sorted_wrt_rev sorted_wrt_map rev_map [symmetric]) (erule sorted_wrt_mono_rel [rotated], simp)
  moreover have "inj_on ?f (set (map (literal_hit read) spans))"
  proof -
    have same: "snd span = fst span + length old" if "span \<in> set spans" for span using assms(1) that by (auto simp: spans_from_def)
    show ?thesis
    proof (rule inj_onI)
      fix x y assume "x \<in> set (map (literal_hit read) spans)" "y \<in> set (map (literal_hit read) spans)" "?f x = ?f y"
      then obtain sx sy where s: "sx \<in> set spans" "x = literal_hit read sx" "sy \<in> set spans" "y = literal_hit read sy" "fst sx = fst sy" by auto
      then have "sx = sy" using same by (simp add: prod_eq_iff)
      then show "x = y" using s by simp
    qed
  qed
  ultimately have "sort_key ?f (map (literal_hit read) spans) = rev (map (literal_hit read) spans)"
    by (intro sort_key_inj_key_eq) auto
  then show ?thesis by (simp add: occurrences_in_def)
qed

text \<open>The document store with the last \<open>n\<close> of the spans replaced.\<close>

definition spans_replaced ::
  "bytes \<Rightarrow> string \<Rightarrow> (nat \<times> nat) list \<Rightarrow> nat \<Rightarrow> (string \<Rightarrow> (bytes \<times> u32) option) \<Rightarrow> (string \<Rightarrow> (bytes \<times> u32) option)" where
  "spans_replaced replacement absolute spans n docs =
     (if n = 0 then docs
      else
        (case docs absolute of
           Some (content, mode) \<Rightarrow>
             docs(absolute \<mapsto> (replace_spans content replacement 0 (drop (length spans - n) spans), and mode permMask))
         | None \<Rightarrow> docs))"

lemma fold_hits_spans:
  assumes "spans_from content old 0 spans"
  shows "fold (splice_hit_at replacement) (take n (rev (map (literal_hit read) spans))) content =
    replace_spans content replacement 0 (drop (length spans - n) spans)"
proof -
  let ?rest = "drop (length spans - n) spans"
  have "\<forall>(s, e) \<in> set ?rest. 0 \<le> s \<and> s \<le> e \<and> e \<le> length content" "sorted_wrt (\<lambda>(s, e) (s', e'). e \<le> s') ?rest"
    using assms set_drop_subset [of "length spans - n" spans] by (fastforce simp: spans_from_def intro: sorted_wrt_drop)+
  from splice_spans [OF this] show ?thesis using splice_hits_of_spans [of replacement read ?rest content]
    by (simp add: take_rev drop_map)
qed

lemma replace_one_document:
  assumes "ReplaceLiteral N workspaceID (map (literal_hit read) spans) replacement preview d w = (r, d', w')"
    and "spans_from content old 0 spans" "old \<noteq> []" "spans \<noteq> []" "confining w" "names (tr_Path read) absolute w"
    and "docs_of (w_files w) absolute = Some (content, mode)"
  shows "\<exists>n \<le> length spans. docs_of (w_files w') = spans_replaced replacement absolute spans n (docs_of (w_files w)) \<and> (preview \<longrightarrow> n = 0) \<and>
    (\<forall>change. r = Done change \<longrightarrow> map sf_After (lc_Files change) = [replace_spans content replacement 0 spans] \<and> (\<not> preview \<longrightarrow> n = length spans))"
proof -
  let ?hits = "map (literal_hit read) spans"
  have order: "rev (remdups (rev (map lh_Path ?hits))) = [tr_Path read]" using assms(4) by (intro all_in_one_path) auto
  have occ: "occurrences_in ?hits (tr_Path read) = rev ?hits" by (rule occurrences_descend [OF assms(2,3)])
  obtain rf d1 w1 where once: "replaceInFile N workspaceID (tr_Path read) (rev ?hits) replacement preview d w = (rf, d1, w1)" by (metis prod_cases3)
  have outer: "w' = w1" "\<And>change. r = Done change \<Longrightarrow> \<exists>patches. \<exists>file. rf = Done (file, patches) \<and> lc_Files change = [file]"
    using assms(1) once unfolding ReplaceLiteral_def order
    by (auto simp: occ Let_def note_revision_def split: outcome.splits prod.splits sum.splits if_splits)
  show ?thesis
  proof (cases "Read N (tr_Path read) w d")
    case (Pair found d2)
    show ?thesis
    proof (cases found)
      case (Inl e)
      then have "w1 = w" "rf = Fail e" using once Pair by (auto simp: replaceInFile_def)
      then show ?thesis using outer by (intro exI [of _ "0::nat"]) (auto simp: spans_replaced_def)
    next
      case (Inr again)
      obtain rl d3 w2 where loop: "replace_loop N workspaceID (tr_Path read) again replacement preview (rev ?hits) (tr_Content again) [] d2 w = (rl, d3, w2)"
        by (metis prod_cases3)
      have content: "tr_Content again = content"
      proof -
        obtain target meta where "w_resolve w (tr_Path read) = Ok target" "w_files w target = Some (FileNode (tr_Content again) meta)"
          by (rule read_file [OF Pair [unfolded Inr] assms(5)])
        then show ?thesis using assms(6,7) by (auto simp: names_def docs_of_def)
      qed
      have results: "w1 = w2" "\<And>file patches. rf = Done (file, patches) \<Longrightarrow> \<exists>ps. rl = Done (sf_After file, ps)"
        using once Pair Inr loop by (cases rl; fastforce simp: replaceInFile_def)+
      have "\<not> preview \<longrightarrow> docs_of (w_files w) absolute = Some (tr_Content again, mode)" using assms(7) content by simp
      from replace_loop_docs [OF loop assms(6) this]
      obtain n where n: "n \<le> length spans" "docs_of (w_files w2) = replaced replacement absolute (rev ?hits) n (docs_of (w_files w))"
        "preview \<longrightarrow> n = 0" "\<forall>final ps. rl = Done (final, ps) \<longrightarrow>
           final = fold (splice_hit_at replacement) (rev ?hits) content \<and> (\<not> preview \<longrightarrow> n = length spans)"
        using content by auto
      have "docs_of (w_files w') = spans_replaced replacement absolute spans n (docs_of (w_files w))"
        using n(2) outer(1) results(1) assms(7) fold_hits_spans [OF assms(2)] by (simp add: replaced_def spans_replaced_def)
      moreover have "fold (splice_hit_at replacement) (rev ?hits) content = replace_spans content replacement 0 spans"
        using fold_hits_spans [OF assms(2), of replacement "length spans" read] by simp
      ultimately show ?thesis using n outer(2) results(2) by (intro exI [of _ n] conjI) fastforce+
    qed
  qed
qed

lemma locate_one:
  assumes "LocateLiteral N listing path old w d = (Ok match, d')" "path \<noteq> []" "old \<noteq> []" "confining w" "names path absolute w"
    and "docs_of (w_files w) absolute = Some (content, mode)" "literal_spans content old \<noteq> []"
  obtains read where "tr_Path read = displayPath (id_Root (w_identity w)) absolute"
    "match = no_match\<lparr> lm_Hits := map (literal_hit read) (literal_spans content old) \<rparr>"
proof -
  have candidates: "literalCandidates listing w path = Ok [absolute]" using assms(2,5) by (simp add: literalCandidates_def names_def)
  then obtain read d1 where read: "Read N absolute w d = (Ok read, d1)"
    using assms(1,3) by (auto simp: LocateLiteral_def split: sum.splits prod.splits)
  obtain target meta where target: "w_resolve w absolute = Ok target" "w_files w target = Some (FileNode (tr_Content read) meta)"
    "tr_Path read = displayPath (id_Root (w_identity w)) target"
    by (rule read_file [OF read assms(4)])
  have "target = absolute" using assms(4,5) target(1) by (auto simp: confining_def names_def)
  then have "tr_Content read = content" "tr_Path read = displayPath (id_Root (w_identity w)) absolute"
    using target(2,3) assms(6) by (auto simp: docs_of_def)
  then show ?thesis using that assms(1,3,7) candidates read by (simp add: LocateLiteral_def exact_hits_def)
qed


section \<open>Examples\<close>

definition literal_world :: "bytes \<Rightarrow> io_event list \<Rightarrow> world" where
  "literal_world content script =
     (let w = sample_world [] [(''/r'', DirNode sample_meta), (''/r/a'', FileNode content (sample_meta\<lparr> nm_Mode := 4 \<rparr>))] script
      in w\<lparr> w_resolve := confinedPath (w_files w) (w_identity w) [] \<rparr>)"

definition literal_request :: "bytes \<Rightarrow> bytes \<Rightarrow> int \<Rightarrow> editRequest" where
  "literal_request old new number = \<lparr> rq_Preview = False, rq_Path = ''a'', rq_Old = old, rq_New = new, rq_ExpectedCount = number \<rparr>"

definition literal_run :: "bytes \<Rightarrow> bytes \<Rightarrow> int \<Rightarrow> bytes \<Rightarrow> io_event list \<Rightarrow> edit_answer \<times> doc_state \<times> world" where
  "literal_run old new number content script =
     applyLiteral sample_native_env (Ok []) (literal_request old new number) sample_documents (literal_world content script)"

lemma literal_confining: "confining (literal_world content script)"
proof -
  have "id_Root (w_identity (literal_world content script)) = rooted_path [''r'']"
    by (simp add: literal_world_def sample_world_def rooted_path_def Let_def)
  then show ?thesis unfolding confining_def
    using confinedPath_again [of "w_files (literal_world content script)" "w_identity (literal_world content script)" "[]" _ _ "[''r'']"]
    by (simp add: literal_world_def Let_def)
qed

lemma literal_example:
  "names ''a'' ''/r/a'' (literal_world ''abcb'' script)" "docs_of (w_files (literal_world ''abcb'' script)) ''/r/a'' = Some (''abcb'', 4)"
  "literal_spans ''abcb'' ''b'' = [(1, 2), (3, 4)]"
  by (code_simp, code_simp, code_simp)

lemma literal_example_replaced:
  assumes docs: "docs ''/r/a'' = Some (''abcb'', 4)"
  shows "spans_replaced ''XY'' ''/r/a'' [(1, 2), (3, 4)] 0 docs ''/r/a'' = Some (''abcb'', 4)"
    "spans_replaced ''XY'' ''/r/a'' [(1, 2), (3, 4)] 1 docs ''/r/a'' = Some (''abcXY'', 4)"
    "spans_replaced ''XY'' ''/r/a'' [(1, 2), (3, 4)] 2 docs ''/r/a'' = Some (''aXYcXY'', 4)"
proof -
  have mode: "and 4 permMask = (4 :: u32)" by code_simp
  show "spans_replaced ''XY'' ''/r/a'' [(1, 2), (3, 4)] 0 docs ''/r/a'' = Some (''abcb'', 4)" using docs by (simp add: spans_replaced_def)
  have "replace_spans ''abcb'' ''XY'' 0 [(3, 4)] = ''abcXY''" by code_simp
  then show "spans_replaced ''XY'' ''/r/a'' [(1, 2), (3, 4)] 1 docs ''/r/a'' = Some (''abcXY'', 4)"
    using docs mode by (simp add: spans_replaced_def del: replace_spans.simps)
  have "replace_spans ''abcb'' ''XY'' 0 [(1, 2), (3, 4)] = ''aXYcXY''" by code_simp
  then show "spans_replaced ''XY'' ''/r/a'' [(1, 2), (3, 4)] 2 docs ''/r/a'' = Some (''aXYcXY'', 4)"
    using docs mode by (simp add: spans_replaced_def del: replace_spans.simps)
qed


theorem located_literal_is_there_witness:
  "\<exists>absolute content meta. w_files (literal_world ''abcb'' []) absolute = Some (FileNode content meta) \<and> go_slice content 3 4 = ''b''"
proof -
  let ?run = "LocateLiteral sample_native_env (Ok []) ''a'' ''b'' (literal_world ''abcb'' []) sample_documents"
  have "map (\<lambda>hit. (lh_ByteStart hit, lh_ByteEnd hit)) (lm_Hits (projr (fst ?run))) = [(1, 2), (3, 4)]" by code_simp
  then have "(3, 4) \<in> set (map (\<lambda>hit. (lh_ByteStart hit, lh_ByteEnd hit)) (lm_Hits (projr (fst ?run))))" by simp
  then obtain hit where hit: "hit \<in> set (lm_Hits (projr (fst ?run)))" "lh_ByteStart hit = 3" "lh_ByteEnd hit = 4" by auto
  have "is_ok (fst ?run)" "\<not> lm_Normalised (projr (fst ?run))" by code_simp+
  then have run: "?run = (Ok (projr (fst ?run)), snd ?run)" and exact: "\<not> lm_Normalised (projr (fst ?run))"
    by (metis is_okD prod.collapse sum.sel(2), simp)
  show ?thesis using located_literal_is_there [OF run literal_confining hit(1)] exact hit(2,3)
    by (auto simp: finds_def int_slice_def)
qed

definition sample_match :: LiteralMatch where
  "sample_match = no_match\<lparr> lm_IndentPrefix := [tabulator], lm_IndentAdded := True \<rparr>"

theorem adjusted_request_is_document_witness:
  "split_lines (AdjustIndentation sample_match (TrimRight_newlines [CHR ''a'', newline, CHR ''b''])) ! 1 = [tabulator, CHR ''b'']"
proof -
  let ?old = "[CHR ''a'', newline, CHR ''b'']" and ?text = "[tabulator, CHR ''a'', newline, tabulator, CHR ''b'']"
  have "describeIndentation ?old ?text = (lm_IndentPrefix sample_match, lm_IndentAdded sample_match, HintIndented True [tabulator])"
    "lm_IndentPrefix sample_match \<noteq> []" "first_moved ?old ?text" "1 < length (split_lines (TrimRight_newlines ?old))"
    "TrimSpace (split_lines (TrimRight_newlines ?old) ! 1) \<noteq> []" by code_simp+
  note adjusted_request_is_document [OF this]
  moreover have "split_lines (TrimRight_newlines ?text) ! 1 = [tabulator, CHR ''b'']" by code_simp
  ultimately show ?thesis by simp
qed

definition misread_match :: LiteralMatch where
  "misread_match = projr (fst (LocateLiteral sample_native_env (Ok []) ''a'' [CHR ''a'', newline, CHR ''b'']
     (literal_world [CHR ''a'', newline, blank, CHR ''b''] []) sample_documents))"

text \<open>
  A request whose first line is indented like the document's and whose second is not counts as
  uniformly indented. The document has \<^verbatim>\<open>a\<close> without and \<^verbatim>\<open>b\<close> with a blank before it, the request has
  both without: the match offers one blank as the document's indentation, nothing refuses the edit,
  and a replacement that only changes \<^verbatim>\<open>b\<close> moves the first line too.
\<close>

theorem indentation_misread:
  "lm_Hits misread_match \<noteq> [] \<and> lm_Actual misread_match = [CHR ''a'', newline, blank, CHR ''b''] \<and>
   literalRefusal (literal_request [CHR ''a'', newline, CHR ''b''] [CHR ''a'', newline, CHR ''c''] 1) misread_match = None \<and>
   AdjustIndentation misread_match [CHR ''a'', newline, CHR ''c''] = [blank, CHR ''a'', newline, blank, CHR ''c'']"
  by code_simp

end
