(* ===== verification/Handle_Safety.thy ===== *)
theory Handle_Safety
  imports Handles Literal_Safety
begin

text \<open>
  What handles and result sets guarantee: the store stays within its caps and drops first what
  expires first; a handle resolves only to bytes equal to those it was registered for, and an edit
  through it replaces such bytes or nothing; a result set that resolves names disjoint ranges that
  all still hold what the search found.
\<close>

section \<open>Retention\<close>

lemma evicted_ids:
  "set (map fst (sort_key (\<lambda>entry. expires (snd entry)) (sort_key fst entries))) = fst ` set entries"
  "distinct (map fst entries) \<Longrightarrow> distinct (map fst (sort_key (\<lambda>entry. expires (snd entry)) (sort_key fst entries)))"
  by (simp_all add: distinct_map)

lemma evict_subset: "set (evict_excess expires bound entries) \<subseteq> set entries"
  by (auto simp: evict_excess_def Let_def)

lemma evict_distinct: "distinct (map fst entries) \<Longrightarrow> distinct (map fst (evict_excess expires bound entries))"
  by (simp add: evict_excess_def Let_def distinct_map_filter)

lemma evict_length:
  assumes "distinct (map fst entries)"
  shows "length (evict_excess expires bound entries) = min (length entries) bound"
proof -
  define ids where "ids = map fst (sort_key (\<lambda>entry. expires (snd entry)) (sort_key fst entries))"
  define gone where "gone = set (take (length entries - bound) ids)"
  have ids: "set ids = set (map fst entries)" "distinct ids" "length ids = length entries"
    using evicted_ids assms by (simp_all add: ids_def)
  have gone: "gone \<subseteq> set (map fst entries)" "card gone = length entries - bound"
    using ids set_take_subset [of "length entries - bound" ids] by (auto simp: gone_def distinct_card)
  have "map fst (evict_excess expires bound entries) = filter (\<lambda>i. i \<notin> gone) (map fst entries)"
    by (simp add: evict_excess_def Let_def ids_def gone_def filter_map comp_def)
  then have "length (evict_excess expires bound entries) = card (set (map fst entries) - gone)"
    using assms distinct_card [of "filter (\<lambda>i. i \<notin> gone) (map fst entries)"]
    by (metis distinct_filter length_map set_diff_eq set_filter)
  also have "\<dots> = length entries - (length entries - bound)"
    using gone distinct_card [OF assms] by (simp add: card_Diff_subset finite_subset)
  finally show ?thesis by (simp add: min_def)
qed

lemma evict_all: "length entries \<le> bound \<Longrightarrow> evict_excess expires bound entries = entries"
  by (simp add: evict_excess_def Let_def)

text \<open>What is dropped expires no later than what is kept.\<close>

lemma sorted_take_drop:
  assumes "sorted_wrt R xs" "x \<in> set (take k xs)" "y \<in> set xs" "y \<notin> set (take k xs)"
  shows "R x y"
proof -
  have "y \<in> set (drop k xs)" using assms(3,4) by (metis UnE append_take_drop_id set_append)
  then show ?thesis using assms(1,2) by (metis append_take_drop_id sorted_wrt_append)
qed

lemma evict_order:
  assumes "distinct (map fst entries)" "gone \<in> set entries" "gone \<notin> set (evict_excess expires bound entries)"
    and "kept \<in> set (evict_excess expires bound entries)"
  shows "expires (snd gone) \<le> expires (snd kept)"
proof -
  define ordered where "ordered = sort_key (\<lambda>entry. expires (snd entry)) (sort_key fst entries)"
  let ?k = "length entries - bound"
  have same: "set ordered = set entries" "distinct (map fst ordered)" using evicted_ids assms(1) by (simp_all add: ordered_def distinct_map)
  have evicted: "entry \<in> set (evict_excess expires bound entries) \<longleftrightarrow> entry \<in> set entries \<and> fst entry \<notin> set (take ?k (map fst ordered))" for entry
    by (auto simp: evict_excess_def Let_def ordered_def)
  have taken: "fst entry \<in> set (take ?k (map fst ordered)) \<longleftrightarrow> entry \<in> set (take ?k ordered)" if "entry \<in> set entries" for entry
    using same that set_take_subset [of ?k ordered] inj_on_image_mem_iff [of fst "set ordered" entry "set (take ?k ordered)"]
    by (simp add: take_map distinct_map)
  have "sorted_wrt (\<lambda>a b. expires (snd a) \<le> expires (snd b)) ordered"
    using sorted_sort_key [of "\<lambda>entry. expires (snd entry)" "sort_key fst entries"] by (simp add: ordered_def sorted_map)
  moreover have "gone \<in> set (take ?k ordered)" "kept \<in> set ordered" "kept \<notin> set (take ?k ordered)"
    using assms(2-4) evicted taken same(1) by blast+
  ultimately show ?thesis using sorted_take_drop by fast
qed

definition keyed :: "handleStore \<Rightarrow> bool" where
  "keyed s = (distinct (map fst (hs_handles s)) \<and> distinct (map fst (hs_sets s)) \<and>
     hs_maxHandles s = maxLiveHandles \<and> hs_maxSets s = maxLiveResultSets)"

definition within_caps :: "handleStore \<Rightarrow> bool" where
  "within_caps s = (keyed s \<and> length (hs_handles s) \<le> maxLiveHandles \<and> length (hs_sets s) \<le> Suc maxLiveResultSets)"

definition at_rest :: "handleStore \<Rightarrow> bool" where
  "at_rest s = (keyed s \<and> length (hs_handles s) \<le> maxLiveHandles \<and> length (hs_sets s) \<le> maxLiveResultSets)"

lemma at_rest_within: "at_rest s \<Longrightarrow> within_caps s"
  by (simp add: at_rest_def within_caps_def)

lemma sweep_at_rest: "keyed s \<Longrightarrow> at_rest (sweepLocked now s)"
  by (simp add: keyed_def at_rest_def sweepLocked_def evict_length evict_distinct distinct_map_filter)

lemma note_at_rest: "keyed s \<Longrightarrow> at_rest (noteInsertLocked now s)"
  using sweep_at_rest [of "s\<lparr> hs_insertsSinceSweep := Suc (hs_insertsSinceSweep s) \<rparr>" now]
  by (auto simp: noteInsertLocked_def Let_def keyed_def at_rest_def not_less)

lemma put_at_rest: "keyed s \<Longrightarrow> at_rest (putHandleLocked now record s)" "keyed s \<Longrightarrow> at_rest (putSetLocked now set' s)"
  by (simp_all add: putHandleLocked_def putSetLocked_def note_at_rest keyed_def distinct_update)

lemma within_keyed: "within_caps s \<Longrightarrow> keyed s"
  by (simp add: within_caps_def)

lemma delete_within:
  "within_caps s \<Longrightarrow> within_caps (s\<lparr> hs_handles := AList.delete id' (hs_handles s) \<rparr>)"
  "within_caps s \<Longrightarrow> within_caps (s\<lparr> hs_sets := AList.delete id' (hs_sets s) \<rparr>)"
  using length_delete_le [of id' "hs_handles s"] length_delete_le [of id' "hs_sets s"]
  by (auto simp: within_caps_def keyed_def distinct_delete simp del: length_delete_le)

lemma update_length: "length (AList.update k v entries) \<le> Suc (length entries)"
  by (induction entries) auto

text \<open>
  Every operation is a sequence of primitive changes: insertions, which may sweep, and deletions. The
  sets that are inserted are honest about their hits.
\<close>

definition disjoint_hits :: "SearchHit \<Rightarrow> SearchHit \<Rightarrow> bool" where
  "disjoint_hits hit hit' \<longleftrightarrow>
     sh_Path hit \<noteq> sh_Path hit' \<or> sh_ByteEnd hit \<le> sh_ByteStart hit' \<or> sh_ByteEnd hit' \<le> sh_ByteStart hit"

definition honest :: "ResultSet \<Rightarrow> bool" where
  "honest set' = (rs_NonOverlapping set' \<longrightarrow> sorted_wrt disjoint_hits (rs_Matches set'))"

inductive moves :: "handleStore \<Rightarrow> handleStore \<Rightarrow> bool" where
  stay: "moves s s"
| follow: "moves s s' \<Longrightarrow> moves s' s'' \<Longrightarrow> moves s s''"
| put_handle: "moves s (putHandleLocked now record s)"
| put_set: "honest set' \<Longrightarrow> moves s (putSetLocked now set' s)"
| put_again: "honest set' \<Longrightarrow> honest set'' \<Longrightarrow> s' = putSetLocked now set' s \<Longrightarrow>
    moves s (s'\<lparr> hs_sets := AList.update (rs_Handle set'') set'' (hs_sets s') \<rparr>)"
| drop_handle: "moves s (s\<lparr> hs_handles := AList.delete id' (hs_handles s) \<rparr>)"
| drop_set: "moves s (s\<lparr> hs_sets := AList.delete id' (hs_sets s) \<rparr>)"
| lifetime: "moves s (SetHandleTTL ttl s)"

lemma moves_within: "moves s s' \<Longrightarrow> within_caps s \<Longrightarrow> within_caps s'"
proof (induction rule: moves.induct)
  case (put_again set' set'' s' now s)
  have "at_rest s'" using put_at_rest within_keyed put_again by simp
  then show ?case using update_length [THEN order_trans, of "hs_sets s'" "Suc maxLiveResultSets"]
    by (auto simp: at_rest_def within_caps_def keyed_def distinct_update)
next
  case (lifetime s ttl)
  then show ?case by (simp add: SetHandleTTL_def within_caps_def keyed_def)
qed (simp_all add: at_rest_within put_at_rest within_keyed delete_within)

lemma sets_swept: "set (hs_sets (noteInsertLocked now s)) \<subseteq> set (hs_sets s)"
  using evict_subset [of rs_ExpiresAt "hs_maxSets s" "filter (\<lambda>(_, set'). rs_ExpiresAt set' > now) (hs_sets s)"]
  by (auto simp: noteInsertLocked_def sweepLocked_def Let_def)

lemma updated_entry: "entry \<in> set (AList.update k v entries) \<Longrightarrow> entry = (k, v) \<or> entry \<in> set entries"
  by (induction entries) (auto split: if_splits)

definition sets_honest :: "handleStore \<Rightarrow> bool" where
  "sets_honest s = (\<forall>entry \<in> set (hs_sets s). honest (snd entry))"

lemma put_honest:
  "sets_honest s \<Longrightarrow> sets_honest (putHandleLocked now record s)"
  "sets_honest s \<Longrightarrow> honest set' \<Longrightarrow> sets_honest (putSetLocked now set' s)"
  using sets_swept [of now "s\<lparr> hs_handles := AList.update (hd_Handle record) record (hs_handles s) \<rparr>"]
    sets_swept [of now "s\<lparr> hs_sets := AList.update (rs_Handle set') set' (hs_sets s) \<rparr>"]
  by (auto simp: sets_honest_def putHandleLocked_def putSetLocked_def dest!: subsetD updated_entry)

lemma moves_honest: "moves s s' \<Longrightarrow> sets_honest s \<Longrightarrow> sets_honest s'"
proof (induction rule: moves.induct)
  case (put_again set' set'' s' now s)
  then show ?case using put_honest(2) [of s set' now] by (auto simp: sets_honest_def dest!: updated_entry)
qed (auto simp: put_honest, auto simp: sets_honest_def SetHandleTTL_def AList.delete_eq)

text \<open>Each operation moves the store.\<close>

lemma put_fresh_moves: "moves s (snd (put_fresh now record s))"
  by (simp add: put_fresh_def Let_def put_handle)

lemma register_moves: "moves s (snd (registerSymbol E now newID read section s))"
  by (auto simp: registerSymbol_def Let_def put_fresh_moves stay split: sum.splits)

lemma register_sections_moves: "moves s (snd (snd (register_sections E now newIDs query read n sections s)))"
proof (induction sections arbitrary: n s)
  case (Cons sec sections)
  show ?case
  proof (cases "registerSymbol E now (newIDs n) read sec s")
    case (Pair r s')
    then have "moves s s'" using register_moves [of s E now "newIDs n" read sec] by simp
    then show ?thesis using Pair Cons.IH [of s n] Cons.IH [of s' "Suc n"] by (auto intro: follow split: prod.splits sum.splits)
  qed
qed (simp add: stay)

lemma inspect_moves: "moves s (snd (InspectHandle now id' d s))"
  by (auto simp: InspectHandle_def stay drop_handle split: option.splits)

lemma resolve_moves: "moves s (fst (snd (ResolveHandle E w now id' s d)))"
  using inspect_moves [of s now id' d] by (auto simp: ResolveHandle_def split: prod.splits sum.splits option.splits)

lemma find_in_files_moves: "moves s (fst (snd (find_in_files E w now newIDs query sectioner n files s d)))"
proof (induction files arbitrary: n s d)
  case (Cons path files)
  show ?case
  proof (cases "Read (he_native E) path w d")
    case (Pair r d')
    show ?thesis
    proof (cases r)
      case (Inr read)
      obtain q n' s' where q: "register_sections E now newIDs query read n (declarations sectioner read) s = (q, n', s')" by (metis prod_cases3)
      then have "moves s s'" using register_sections_moves [of s E now newIDs query read n "declarations sectioner read"] by simp
      then show ?thesis using Pair Inr q Cons.IH [of s' n' d'] by (auto intro: follow split: prod.splits sum.splits)
    qed (use Pair Cons in simp)
  qed
qed (simp add: stay)

lemma find_moves:
  "moves s (fst (snd (FindSymbols E w now newIDs query s d)))" "moves s (fst (snd (FindSymbolsInFile E w now newIDs path query s d)))"
proof -
  have searched: "find_in_files E w now newIDs query sectioner 0 files s d = (r, s', d') \<Longrightarrow> moves s s'" for sectioner files r s' d'
    using find_in_files_moves [of s E w now newIDs query sectioner 0 files d] by simp
  show "moves s (fst (snd (FindSymbols E w now newIDs query s d)))"
    by (auto simp: FindSymbols_def stay searched split: prod.splits sum.splits option.splits)
  have registered: "register_sections E now newIDs query read 0 sections s = (r, n', s') \<Longrightarrow> moves s s'" for read sections r n' s'
    using register_sections_moves [of s E now newIDs query read 0 sections] by simp
  show "moves s (fst (snd (FindSymbolsInFile E w now newIDs path query s d)))"
    by (auto simp: FindSymbolsInFile_def stay registered split: prod.splits sum.splits option.splits)
qed

lemma unique_moves: "moves s (fst (snd (unique_records E w now path namePath records unique s d)))"
proof (induction records arbitrary: unique s d)
  case (Cons rec records)
  have "moves s (fst (snd (ResolveHandle E w now (hd_Handle rec) s d)))" by (rule resolve_moves)
  then show ?case using Cons.IH by (auto intro: follow split: prod.splits sum.splits)
qed (simp add: stay)

lemma check_matches_moves: "moves s (fst (snd (check_matches E w now hits s d)))"
proof (induction hits arbitrary: s d)
  case (Cons hit hits)
  have "ResolveHandle E w now id' s d = (r, s', d') \<Longrightarrow> moves s s'" for id' r s' d'
    using resolve_moves [of s E w now id' d] by simp
  then show ?case using Cons.IH by (auto intro: stay split: prod.splits sum.splits option.splits) (blast intro: follow)
qed (simp add: stay)

lemma inspect_set_moves: "moves s (fst (snd (InspectResultSet E w now id' s d)))"
  by (auto simp: InspectResultSet_def stay drop_set split: option.splits prod.splits sum.splits)

lemma resolve_locator_moves: "moves s (fst (snd (ResolveSymbolLocator E w now newIDs path namePath s d)))"
proof -
  have kept: "fst (snd (case p of ([(_, record)], s', d') \<Rightarrow> (Ok record, s', d') | (_, s', d') \<Rightarrow> (Error e, s', d'))) = fst (snd p)"
    for p :: "(range_key \<times> HandleRecord) list \<times> handleStore \<times> doc_state" and e
    by (auto split: prod.splits list.splits)
  show ?thesis
  proof (cases "FindSymbolsInFile E w now newIDs path namePath s d")
    case (fields r s' d')
    then have "moves s s'" using find_moves(2) [of s E w now newIDs path namePath d] by simp
    then show ?thesis using fields follow [OF _ unique_moves] by (cases r) (simp_all add: ResolveSymbolLocator_def Let_def kept)
  qed
qed

lemma resolve_all_moves: "moves s (fst (snd (ResolveAllMatches E w now id' s d)))"
proof (cases "InspectResultSet E w now id' s d")
  case (fields r s' d')
  then have inspected: "moves s s'" using inspect_set_moves [of s E w now id' d] by simp
  have "check_matches E w now hits s' d' = (q, s'', d'') \<Longrightarrow> moves s s''" for hits q s'' d''
    using follow [OF inspected check_matches_moves [of s' E w now hits d']] by simp
  then show ?thesis using fields inspected by (auto simp: ResolveAllMatches_def split: prod.splits sum.splits)
qed

subsection \<open>Disjoint hits\<close>

lemma disjoint_sym: "disjoint_hits hit hit' \<Longrightarrow> disjoint_hits hit' hit"
  by (auto simp: disjoint_hits_def)

lemma adjacent_pairwise:
  "sorted (map (\<lambda>hit. (sh_Path hit, sh_ByteStart hit)) hits) \<Longrightarrow> adjacent_disjoint hits \<Longrightarrow> sorted_wrt disjoint_hits hits"
proof (induction hits rule: adjacent_disjoint.induct)
  case (1 hit hit' rest)
  have "disjoint_hits hit other" if "other \<in> set rest" for other
    using 1(2,3) that by (auto simp: disjoint_hits_def less_eq_prod_def)
  moreover have "disjoint_hits hit hit'" using 1(3) by (auto simp: disjoint_hits_def)
  ultimately show ?case using 1 by simp
qed auto

lemma sorted_wrt_mset:
  assumes "\<And>x y. R x y \<Longrightarrow> R y x" "sorted_wrt R xs" "mset xs = mset ys"
  shows "sorted_wrt R ys"
  using assms(2,3)
proof (induction ys arbitrary: xs)
  case (Cons y ys)
  obtain front rear where xs: "xs = front @ y # rear" using Cons.prems(2) by (metis in_multiset_in_set list.set_intros(1) split_list)
  then have "mset (front @ rear) = mset ys" "sorted_wrt R (front @ rear)" "\<forall>x \<in> set (front @ rear). R y x"
    using Cons.prems assms(1) by (auto simp: sorted_wrt_append)
  then show ?case using Cons.IH by (metis mset_eq_setD sorted_wrt.simps(2))
qed simp

lemma nonOverlapping_pairwise: "nonOverlapping hits \<Longrightarrow> sorted_wrt disjoint_hits hits"
  unfolding nonOverlapping_def by (rule sorted_wrt_mset [OF disjoint_sym adjacent_pairwise [OF sorted_sort_key]]) simp_all

text \<open>Only the place of a hit matters, not its text.\<close>

definition spot :: "SearchHit \<Rightarrow> string \<times> int \<times> int" where
  "spot hit = (sh_Path hit, sh_ByteStart hit, sh_ByteEnd hit)"

lemma disjoint_spots: "map spot hits = map spot hits' \<Longrightarrow> sorted_wrt disjoint_hits hits \<Longrightarrow> sorted_wrt disjoint_hits hits'"
proof -
  have spots: "disjoint_hits = (\<lambda>hit hit'. case (spot hit, spot hit') of ((p, a, b), (p', a', b')) \<Rightarrow> p \<noteq> p' \<or> b \<le> a' \<or> b' \<le> a)"
    by (auto simp: fun_eq_iff disjoint_hits_def spot_def)
  assume "map spot hits = map spot hits'" "sorted_wrt disjoint_hits hits"
  then show ?thesis
    unfolding spots using sorted_wrt_map [of "\<lambda>s s'. case (s, s') of ((p, a, b), (p', a', b')) \<Rightarrow> p \<noteq> p' \<or> b \<le> a' \<or> b' \<le> a" spot] by metis
qed

lemma retained_spots: "map spot (retainedHits hits) = map spot hits"
  by (simp add: retainedHits_def spot_def)

lemma hydrated_spots:
  "hydrate_loop N w contents hits d = (Ok hydrated, d') \<Longrightarrow> map spot hydrated = map spot hits \<and> (\<forall>hit \<in> set hydrated. \<not> sh_MatchTruncated hit)"
proof (induction hits arbitrary: contents d d' hydrated)
  case (Cons hit hits)
  show ?case
  proof (cases "sh_MatchTruncated hit")
    case False
    then obtain rest where rest: "hydrate_loop N w contents hits d = (Ok rest, d')" "hydrated = hit # rest"
      using Cons.prems by (auto split: prod.splits sum.splits)
    from Cons.IH [OF rest(1)] show ?thesis using rest(2) False by simp
  next
    case True
    then obtain content d1 rest where rest: "hydrate_loop N w (contents(sh_Path hit \<mapsto> content)) hits d1 = (Ok rest, d')"
      "hydrated = hit\<lparr> sh_Match := int_slice content (sh_ByteStart hit) (sh_ByteEnd hit), sh_MatchTruncated := False \<rparr> # rest"
      using Cons.prems by (auto split: if_splits prod.splits sum.splits)
    from Cons.IH [OF rest(1)] show ?thesis using rest(2) by (simp add: spot_def)
  qed
qed simp

lemma search_set_honest: "honest (search_set newID identity expiresAt found)"
  using nonOverlapping_pairwise disjoint_spots [OF retained_spots [symmetric]] by (simp add: honest_def search_set_def Let_def)

lemma freeze_moves: "moves s (snd (FreezeSearch now newID identity found s))"
  by (simp add: FreezeSearch_def Let_def put_set search_set_honest)

text \<open>
  A historical set is stored twice, the second time without a sweep: when the first sweep has already
  dropped it, the store holds one set more than its cap until the next insertion.
\<close>

lemma freeze_historical_moves: "moves s (snd (FreezeHistoricalResultSet now newID identity matchCount fileCount coverage s))"
proof -
  define found where "found = search_set newID identity (now + hs_ttl s) \<lparr> sq_Hits = [], sq_Coverage = coverage, sq_Query = [], sq_Mode = [],
    sq_DocumentRevisions = [], sq_SourceFiles = [], sq_Scope = [] \<rparr>"
  define again where "again = found\<lparr> rs_Kind := ResultSetHistorical, rs_MatchCount := matchCount, rs_FileCount := fileCount,
    rs_Retained := matchCount, rs_AllMatchesEligible := False, rs_Matches := [] \<rparr>"
  have "honest found" "honest again" using search_set_honest by (simp_all add: found_def again_def honest_def)
  from put_again [OF this refl] show ?thesis
    by (simp add: FreezeHistoricalResultSet_def FreezeSearch_def Let_def found_def [symmetric]) (simp add: again_def)
qed

lemma refine_frozen_moves: "moves s (snd (refine_frozen now newID refinement parent hits identity s))"
proof -
  define found where "found = search_set newID identity (now + hs_ttl s) \<lparr> sq_Hits = hits, sq_Coverage = rs_Coverage parent,
    sq_Query = rs_Query parent, sq_Mode = rs_Mode parent, sq_DocumentRevisions = rs_DocumentRevisions parent,
    sq_SourceFiles = rs_SourceFiles parent, sq_Scope = rs_Scope parent \<rparr>"
  define child where "child = found\<lparr> rs_Parent := rs_Handle parent, rs_Constraints := rs_Constraints parent @ refinement_constraints refinement,
    rs_Complete := (rs_Complete parent \<and> rs_Complete found), rs_AllMatchesEligible := ((rs_Complete parent \<and> rs_Complete found) \<and> rs_NonOverlapping found),
    rs_Retained := length hits, rs_Eliminated := int (length (rs_Matches parent)) - int (length hits) \<rparr>"
  have "honest found" using search_set_honest by (simp add: found_def)
  moreover from this have "honest child" by (simp add: child_def honest_def)
  ultimately have "moves s (putSetLocked now child (putSetLocked now found s))" by (rule follow [OF put_set put_set])
  then show ?thesis by (simp add: refine_frozen_def FreezeSearch_def Let_def found_def [symmetric]) (simp add: child_def)
qed

lemma refine_moves: "moves s (fst (snd (RefineResultSet E w now newID parentID refinement s d)))"
proof (cases "InspectResultSet E w now parentID s d")
  case (fields r s' d')
  then have inspected: "moves s s'" using inspect_set_moves [of s E w now parentID d] by simp
  have "refine_frozen now newID refinement parent hits identity s' = (child, s'') \<Longrightarrow> moves s s''" for parent hits identity child s''
    using follow [OF inspected refine_frozen_moves [of s' now newID refinement parent hits identity]] by simp
  then show ?thesis using fields inspected by (auto simp: RefineResultSet_def split: prod.splits sum.splits)
qed

text \<open>Every operation of the store, with any environment, world and clock.\<close>

inductive store_step :: "handleStore \<Rightarrow> handleStore \<Rightarrow> bool" where
  register_range: "RegisterRangeHandle E w now newID handle kind s d = (r, s', d') \<Longrightarrow> store_step s s'"
| register_symbol: "RegisterSymbolHandle E w now newID path section s d = (r, s', d') \<Longrightarrow> store_step s s'"
| find_symbols: "FindSymbols E w now newIDs query s d = (r, s', d') \<Longrightarrow> store_step s s'"
| find_in_file: "FindSymbolsInFile E w now newIDs path query s d = (r, s', d') \<Longrightarrow> store_step s s'"
| resolve_locator: "ResolveSymbolLocator E w now newIDs path namePath s d = (r, s', d') \<Longrightarrow> store_step s s'"
| resolve: "ResolveHandle E w now id' s d = (r', s', d') \<Longrightarrow> store_step s s'"
| freeze: "FreezeSearch now newID identity found s = (set', s') \<Longrightarrow> store_step s s'"
| freeze_historical: "FreezeHistoricalResultSet now newID identity matchCount fileCount coverage s = (set', s') \<Longrightarrow> store_step s s'"
| inspect_set: "InspectResultSet E w now id' s d = (r', s', d') \<Longrightarrow> store_step s s'"
| resolve_all: "ResolveAllMatches E w now id' s d = (r', s', d') \<Longrightarrow> store_step s s'"
| refine: "RefineResultSet E w now newID parentID refinement s d = (r', s', d') \<Longrightarrow> store_step s s'"
| set_ttl: "store_step s (SetHandleTTL ttl s)"

inductive reachable_store :: "handleStore \<Rightarrow> bool" where
  start: "reachable_store (newHandleStore now)"
| step: "reachable_store s \<Longrightarrow> store_step s s' \<Longrightarrow> reachable_store s'"

lemma step_moves: "store_step s s' \<Longrightarrow> moves s s'"
proof (induction rule: store_step.induct)
  case (register_range E w now newID handle kind s d r s' d')
  have "put_fresh now rec s = (r', s'') \<Longrightarrow> moves s s''" for rec r' s''
    using put_fresh_moves [of s now rec] by simp
  then show ?case using register_range by (auto simp: RegisterRangeHandle_def stay split: if_splits prod.splits sum.splits)
next
  case (register_symbol E w now newID path sec s d r s' d')
  have "registerSymbol E now newID read sec s = (r', s'') \<Longrightarrow> moves s s''" for read r' s''
    using register_moves [of s E now newID read sec] by simp
  then show ?case using register_symbol by (auto simp: RegisterSymbolHandle_def stay split: prod.splits sum.splits)
qed (metis fst_conv snd_conv find_moves resolve_locator_moves resolve_moves freeze_moves freeze_historical_moves inspect_set_moves
    resolve_all_moves refine_moves lifetime)+

lemma reachable_ok: "reachable_store s \<Longrightarrow> within_caps s \<and> sets_honest s"
proof (induction rule: reachable_store.induct)
  case (start now)
  then show ?case by (simp add: within_caps_def keyed_def sets_honest_def newHandleStore_def)
qed (use step_moves moves_within moves_honest in blast)

text \<open>
  The store is bounded: whatever sequence of registrations, searches, resolutions and changes of
  the lifetime has run, at most \<open>maxLiveHandles\<close> handles and one more than \<open>maxLiveResultSets\<close> result
  sets are kept, each identifier once.
\<close>

theorem handle_store_bounded:
  assumes "reachable_store s"
  shows "length (hs_handles s) \<le> maxLiveHandles \<and> length (hs_sets s) \<le> Suc maxLiveResultSets \<and>
    distinct (map fst (hs_handles s)) \<and> distinct (map fst (hs_sets s))"
proof -
  have "within_caps s" using reachable_ok [OF assms] ..
  then show ?thesis by (simp add: within_caps_def keyed_def)
qed

text \<open>
  A sweep keeps what lives longest: what it leaves is not expired and within the caps, and a
  handle it drops has expired, or the store is at its cap with handles that expire no earlier.
\<close>

theorem sweep_keeps_latest:
  assumes "distinct (map fst (hs_handles s))" "swept = sweepLocked now s"
    and "(i, record) \<in> set (hs_handles s)"
  shows "(i, record) \<in> set (hs_handles swept) \<and> hd_ExpiresAt record > now \<or>
    (i, record) \<notin> set (hs_handles swept) \<and>
    (hd_ExpiresAt record \<le> now \<or>
     length (hs_handles swept) = hs_maxHandles s \<and> (\<forall>(j, kept) \<in> set (hs_handles swept). hd_ExpiresAt record \<le> hd_ExpiresAt kept))"
proof -
  let ?live = "filter (\<lambda>(_, record). hd_ExpiresAt record > now) (hs_handles s)"
  have swept: "hs_handles swept = evict_excess hd_ExpiresAt (hs_maxHandles s) ?live" using assms(2) by (simp add: sweepLocked_def)
  have keys: "distinct (map fst ?live)" using assms(1) by (simp add: distinct_map_filter)
  show ?thesis
  proof (cases "(i, record) \<in> set (hs_handles swept)")
    case True
    then show ?thesis using evict_subset [of hd_ExpiresAt "hs_maxHandles s" ?live] swept by auto
  next
    case gone: False
    show ?thesis
    proof (cases "hd_ExpiresAt record \<le> now")
      case False
      then have live: "(i, record) \<in> set ?live" using assms(3) by simp
      have "length (hs_handles swept) = hs_maxHandles s"
        using evict_length [OF keys, of hd_ExpiresAt "hs_maxHandles s"] gone live swept evict_all [of ?live "hs_maxHandles s" hd_ExpiresAt]
        by (cases "length ?live \<le> hs_maxHandles s") auto
      then show ?thesis using gone evict_order [OF keys live] swept by fastforce
    qed (use gone in simp)
  qed
qed

section \<open>Resolving finds the registered bytes\<close>

lemma hashBytes_eq: "collision_free (ne_digests N) \<Longrightarrow> hashBytes N a = hashBytes N b \<longleftrightarrow> a = b"
  by (simp add: collision_free_def hashBytes_def inj_eq)

text \<open>A range that was checked holds bytes with the hash it expects.\<close>

lemma check_range_slice:
  assumes "check_range N handle current disk content = Ok content'"
  shows "ds_Kind disk = ObjectRegularText \<and> content' = content \<and> in_bounds content (rh_ByteStart handle) (rh_ByteEnd handle) \<and>
    hashBytes N (int_slice content (rh_ByteStart handle) (rh_ByteEnd handle)) = rh_ExpectedSHA256 handle"
  using assms by (auto simp: check_range_def Let_def split: if_splits)

lemma validateRange_bytes:
  assumes "validateRange N workspaceID handle w d = (Ok (current, content), d')"
  obtains absolute meta where "w_resolve w (rh_Path handle) = Ok absolute" "w_files w absolute = Some (FileNode content meta)"
    "in_bounds content (rh_ByteStart handle) (rh_ByteEnd handle)"
    "hashBytes N (int_slice content (rh_ByteStart handle) (rh_ByteEnd handle)) = rh_ExpectedSHA256 handle"
proof -
  obtain absolute disk before where found: "w_resolve w (rh_Path handle) = Ok absolute" "inspectPath (w_files w) absolute = Ok (disk, before)"
    "check_range N handle current disk before = Ok content"
    using assms by (auto simp: validateRange_def split: prod.splits sum.splits)
  note checked = check_range_slice [OF found(3)]
  then obtain meta where "w_files w absolute = Some (FileNode content meta)" using inspect_text [OF found(2)] by metis
  then show ?thesis using that found(1) checked by blast
qed

text \<open>Every candidate for a locator has the content hash of the locator.\<close>

lemma candidate_content [simp]: "lo_ContentSHA256 (candidate_at N read locator n start) = lo_ContentSHA256 locator"
  by (simp add: candidate_at_def Let_def)

lemma located_content: "current \<in> set (locateRanges N read locator) \<Longrightarrow> lo_ContentSHA256 current = lo_ContentSHA256 locator"
  unfolding locateRanges_def Let_def by (auto simp del: upt_Suc split: if_splits)

text \<open>What a range handle resolves to.\<close>

lemma resolveRange_cases:
  assumes "resolveRange N w record d = (found, d')"
  obtains (unreadable) e where "Read N (lo_Path (hd_Locator record)) w d = (Inl e, d')"
      "found = resolution ResolutionConflicted (Some ConflictTargetDeleted) record None []"
  | (exact) read where "Read N (lo_Path (hd_Locator record)) w d = (Ok read, d')" "re_Status found = ResolutionExact"
      "re_Current found = Some (hd_Locator record)"
  | (moved) read current where "Read N (lo_Path (hd_Locator record)) w d = (Ok read, d')" "re_Status found = ResolutionRelocated"
      "re_Current found = Some current" "current \<in> set (locateRanges N read (hd_Locator record))"
      "locateRanges N read (hd_Locator record) = [current] \<or>
       lo_ByteStart current = lo_ByteStart (hd_Locator record) \<and> lo_BeforeSHA256 current = lo_BeforeSHA256 (hd_Locator record)"
  | (conflicted) read where "Read N (lo_Path (hd_Locator record)) w d = (Ok read, d')" "length (locateRanges N read (hd_Locator record)) \<noteq> 1"
      "found = resolution ResolutionConflicted
        (Some (if length (locateRanges N read (hd_Locator record)) > 1 then ConflictSymbolAmbiguous else ConflictDocumentChanged)) record None
        (locateRanges N read (hd_Locator record))"
proof (cases "Read N (lo_Path (hd_Locator record)) w d")
  case (Pair r d1)
  show ?thesis
  proof (cases r)
    case (Inl e)
    then show ?thesis using assms Pair unreadable by (auto simp: resolveRange_def Let_def)
  next
    case (Inr read)
    let ?all = "locateRanges N read (hd_Locator record)"
    let ?stays = "\<lambda>candidate. lo_ByteStart candidate = lo_ByteStart (hd_Locator record) \<and> lo_BeforeSHA256 candidate = lo_BeforeSHA256 (hd_Locator record)"
    show ?thesis
    proof (cases "dn_Revision (tr_Snapshot read) = lo_DocumentRevision (hd_Locator record) \<and>
        locatorMatches N (tr_Content read) (hd_Locator record) (lo_ByteStart (hd_Locator record))")
      case True
      then show ?thesis using assms Pair Inr exact by (auto simp: resolveRange_def Let_def resolution_def)
    next
      case searched: False
      show ?thesis
      proof (cases "length ?all = 1")
        case True
        then obtain current where "?all = [current]" by (auto simp: length_Suc_conv)
        then show ?thesis using assms Pair Inr searched moved [of read current] by (auto simp: resolveRange_def Let_def resolution_def)
      next
        case several: False
        show ?thesis
        proof (cases "find ?stays ?all")
          case None
          then show ?thesis using assms Pair Inr searched several conflicted by (auto simp: resolveRange_def Let_def)
        next
          case (Some current)
          then have "current \<in> set ?all" "?stays current" by (auto simp: find_Some_iff)
          then show ?thesis using assms Pair Inr searched several Some moved [of read current] by (auto simp: resolveRange_def Let_def resolution_def)
        qed
      qed
    qed
  qed
qed

lemma resolveRange_content:
  assumes "resolveRange N w record d = (found, d')" "re_Current found = Some current"
  shows "lo_ContentSHA256 current = lo_ContentSHA256 (hd_Locator record)"
  using assms(1)
proof (cases rule: resolveRange_cases)
  case (moved read current')
  then show ?thesis using located_content assms(2) by auto
qed (use assms(2) in \<open>auto simp: resolution_def\<close>)

lemma registered_locator:
  assumes "RegisterRangeHandle E w now i handle kind s d = (Ok record, s', d')"
  shows "\<exists>current content. validateRange (he_native E) (id_ID (dw_identity d)) handle w d = (Ok (current, content), d') \<and>
      hd_Locator record = range_locator handle kind (dn_Disk current) \<and> hd_Kind record \<noteq> HandleSymbol"
    and "s' = putHandleLocked now record s"
  using assms by (auto simp: RegisterRangeHandle_def put_fresh_def Let_def split: if_splits prod.splits sum.splits)

lemma resolved_target:
  assumes "map_of (hs_handles s) i = Some record" "hd_Kind record \<noteq> HandleSymbol" "ResolveHandle E w now i s d = (Ok found, s', d')"
    and "resolution_range found = Ok target"
  shows "rh_ExpectedSHA256 target = lo_ContentSHA256 (hd_Locator record)"
proof (cases "InspectHandle now i d s")
  case (Pair r s1)
  show ?thesis
  proof (cases r)
    case (Inl e)
    then show ?thesis using assms(3,4) Pair by (auto simp: ResolveHandle_def resolution_range_def split: option.splits)
  next
    case (Inr found_record)
    then have "found_record = record" using Pair assms(1) by (auto simp: InspectHandle_def split: if_splits)
    then have "resolveRange (he_native E) w record d = (found, d')" using assms(2,3) Pair Inr by (auto simp: ResolveHandle_def split: prod.splits)
    from resolveRange_content [OF this] show ?thesis using assms(4) by (auto simp: resolution_range_def split: option.splits if_splits)
  qed
qed

lemma replace_validated:
  assumes "ApplyReplace N workspaceID handle replacement d w = (r, d', w')"
  shows "w' = w \<and> \<not> is_done r \<or> (\<exists>current content d1. validateRange N workspaceID handle w d = (Ok (current, content), d1))"
  using assms by (auto simp: ApplyReplace_def PreviewReplace_def split: prod.splits sum.splits)

text \<open>
  C12. A handle edits only what it was registered for. Whatever happened to the tree since a range was
  registered, and again between resolving its handle and the edit, and whatever fails: the edit
  leaves every document as it was, or replaces, in one document, bytes equal to those the range had
  when it was registered.
\<close>

theorem handle_edit_replaces_registered:
  assumes "collision_free (ne_digests (he_native E))"
    and "RegisterRangeHandle E w0 now0 i handle kind s0 d0 = (Ok record, s1, d1)"
    and "map_of (hs_handles s) i = Some record" "he_native E' = he_native E"
    and "ResolveHandle E' w1 now i s d = (Ok found, s', d')" "resolution_range found = Ok target"
    and "ApplyReplace (he_native E) workspaceID target replacement d2 w = (r, d3, w')"
  shows "\<exists>path0 content0 mode0. w_resolve w0 (rh_Path handle) = Ok path0 \<and> docs_of (w_files w0) path0 = Some (content0, mode0) \<and>
    (docs_of (w_files w') = docs_of (w_files w) \<and> \<not> is_done r \<or>
     (\<exists>path content mode. docs_of (w_files w) path = Some (content, mode) \<and>
        int_slice content (rh_ByteStart target) (rh_ByteEnd target) = int_slice content0 (rh_ByteStart handle) (rh_ByteEnd handle) \<and>
        cas_splice (docs_of (w_files w)) path content (rh_ByteStart target) (rh_ByteEnd target) replacement = Some (docs_of (w_files w'))))"
proof -
  let ?N = "he_native E"
  obtain current0 content0 where made: "validateRange ?N (id_ID (dw_identity d0)) handle w0 d0 = (Ok (current0, content0), d1)"
    and locator: "hd_Locator record = range_locator handle kind (dn_Disk current0)" "hd_Kind record \<noteq> HandleSymbol"
    using registered_locator(1) [OF assms(2)] by metis
  obtain path0 meta0 where there: "w_resolve w0 (rh_Path handle) = Ok path0" "w_files w0 path0 = Some (FileNode content0 meta0)"
    "hashBytes ?N (int_slice content0 (rh_ByteStart handle) (rh_ByteEnd handle)) = rh_ExpectedSHA256 handle"
    using validateRange_bytes [OF made] by metis
  have expected: "rh_ExpectedSHA256 target = rh_ExpectedSHA256 handle"
    using resolved_target [OF assms(3) locator(2) assms(5,6)] locator(1) by (simp add: range_locator_def)
  have docs0: "docs_of (w_files w0) path0 = Some (content0, nm_Mode meta0)" using there(2) by (simp add: docs_of_def)
  show ?thesis using assms(7)
  proof (cases rule: replace_cases)
    case refused
    then show ?thesis using there(1) docs0 by blast
  next
    case (applied current d4 absolute content meta rm)
    consider "w' = w" "\<not> is_done r" | current' content' d5 where "validateRange ?N workspaceID target w d2 = (Ok (current', content'), d5)"
      using replace_validated [OF assms(7)] by blast
    then show ?thesis
    proof cases
      case 1
      then show ?thesis using there(1) docs0 by blast
    next
      case 2
      have "hashBytes ?N (int_slice content (rh_ByteStart target) (rh_ByteEnd target)) = rh_ExpectedSHA256 target"
        using validateRange_bytes [OF 2] applied(3,4) by (metis Inr_inject fs_node.inject(1) option.inject)
      then have bytes: "int_slice content (rh_ByteStart target) (rh_ByteEnd target) = int_slice content0 (rh_ByteStart handle) (rh_ByteEnd handle)"
        using there(3) expected hashBytes_eq [OF assms(1)] by metis
      have "edit_left w (fresh_journal (w_native w)) (edit_record absolute True content True
          (splice content (nat (rh_ByteStart target)) (nat (rh_ByteEnd target)) replacement) (nm_Mode meta)) rm w'"
        using wp_result [OF wp_mutateFile applied(5)] .
      note left = docs_written [OF this]
      have now: "docs_of (w_files w) absolute = Some (content, nm_Mode meta)" using applied(4) by (simp add: docs_of_def)
      from left show ?thesis
      proof
        assume "docs_of (w_files w') = docs_of (w_files w) \<and> rm \<noteq> Done ()"
        then show ?thesis using there(1) docs0 applied(6) by blast
      next
        assume "docs_of (w_files w') = (docs_of (w_files w))(absolute \<mapsto>
          (splice content (nat (rh_ByteStart target)) (nat (rh_ByteEnd target)) replacement, and (nm_Mode meta) permMask))"
        then have "cas_splice (docs_of (w_files w)) absolute content (rh_ByteStart target) (rh_ByteEnd target) replacement = Some (docs_of (w_files w'))"
          using now by (simp add: cas_splice_def)
        then show ?thesis using there(1) docs0 now bytes by blast
      qed
    qed
  qed
qed

section \<open>Relocation is unambiguous\<close>

text \<open>Where bytes occur in a document, and where they occur between the anchors of a locator.\<close>

definition places :: "bytes \<Rightarrow> bytes \<Rightarrow> nat set" where
  "places content wanted = {start. start + length wanted \<le> length content \<and> go_slice content start (start + length wanted) = wanted}"

definition same_before :: "native_env \<Rightarrow> bytes \<Rightarrow> SemanticLocator \<Rightarrow> int \<Rightarrow> bool" where
  "same_before N content locator start \<longleftrightarrow>
     hashBytes N (int_slice content (before_start start (lo_AnchorBytes locator)) start) = lo_BeforeSHA256 locator"

definition same_after :: "native_env \<Rightarrow> bytes \<Rightarrow> SemanticLocator \<Rightarrow> int \<Rightarrow> bool" where
  "same_after N content locator end \<longleftrightarrow>
     hashBytes N (int_slice content end (after_end content end (lo_AnchorBytes locator))) = lo_AfterSHA256 locator"

definition anchored_places :: "native_env \<Rightarrow> bytes \<Rightarrow> SemanticLocator \<Rightarrow> bytes \<Rightarrow> nat set" where
  "anchored_places N content locator wanted =
     {start \<in> places content wanted. same_before N content locator (int start) \<and> same_after N content locator (int (start + length wanted))}"

lemma located_places:
  assumes "collision_free (ne_digests N)" "hashBytes N wanted = lo_ContentSHA256 locator" "wanted \<noteq> []"
    "int (length wanted) = lo_ByteEnd locator - lo_ByteStart locator"
  obtains starts anchored where "distinct starts" "set starts = places (tr_Content read) wanted" "distinct anchored"
    "set anchored = anchored_places N (tr_Content read) locator wanted"
    "locateRanges N read locator = map (candidate_at N read locator (length wanted)) (if length anchored = 1 then anchored else starts)"
proof -
  let ?content = "tr_Content read"
  have len: "nat (lo_ByteEnd locator - lo_ByteStart locator) = length wanted" using assms(4) by simp
  have hash: "hashBytes N found = lo_ContentSHA256 locator \<longleftrightarrow> found = wanted" for found
    using hashBytes_eq [OF assms(1)] assms(2) by metis
  define starts where "starts = filter (\<lambda>start. start \<in> places ?content wanted) [0..<Suc (length ?content - length wanted)]"
  define anchored where "anchored = filter (\<lambda>start. start \<in> anchored_places N ?content locator wanted) starts"
  have starts: "set starts = places ?content wanted" if "length wanted \<le> length ?content"
    using that by (auto simp: starts_def places_def less_Suc_eq_le simp del: upt_Suc)
  have anchored: "set anchored = anchored_places N ?content locator wanted" if "set starts = places ?content wanted"
    using that by (auto simp: anchored_def anchored_places_def)
  have distinct: "distinct starts" "distinct anchored" by (simp_all add: starts_def anchored_def del: upt_Suc)
  show ?thesis
  proof (cases "length wanted \<le> length ?content")
    case False
    then have "places ?content wanted = {}" "locateRanges N read locator = []" using len by (auto simp: places_def locateRanges_def Let_def)
    then show ?thesis using that [of "[]" "[]"] by (simp add: anchored_places_def)
  next
    case True
    have found: "filter (\<lambda>start. hashBytes N (go_slice ?content start (start + length wanted)) = lo_ContentSHA256 locator)
        [0..<Suc (length ?content - length wanted)] = starts"
      unfolding starts_def hash using True by (intro filter_cong refl) (auto simp: places_def less_Suc_eq_le simp del: upt_Suc)
    have "filter (\<lambda>current. lo_BeforeSHA256 current = lo_BeforeSHA256 locator \<and> lo_AfterSHA256 current = lo_AfterSHA256 locator)
        (map (candidate_at N read locator (length wanted)) starts) = map (candidate_at N read locator (length wanted)) anchored"
      using starts [OF True] unfolding anchored_def filter_map comp_def
      by (intro arg_cong [of _ _ "map _"] filter_cong refl)
        (auto simp: anchored_places_def same_before_def same_after_def candidate_at_def Let_def)
    then have "locateRanges N read locator = map (candidate_at N read locator (length wanted)) (if length anchored = 1 then anchored else starts)"
      using True assms(3) found by (simp add: locateRanges_def len Let_def del: upt_Suc)
    then show ?thesis using that distinct starts [OF True] anchored by blast
  qed
qed

lemma candidate_start [simp]: "lo_ByteStart (candidate_at N read locator n start) = int start"
  by (simp add: candidate_at_def Let_def)

lemma candidate_before: "lo_BeforeSHA256 (candidate_at N read locator n start) = lo_BeforeSHA256 locator \<longleftrightarrow> same_before N (tr_Content read) locator (int start)"
  by (simp add: candidate_at_def Let_def same_before_def)

text \<open>
  C13. A handle is relocated only where it is unambiguous. When the document of a range handle is no
  longer as registered, the handle resolves to a place where the registered bytes occur, which is
  the only one, or the only one between the registered anchors, or still at the registered offset
  behind the registered bytes; otherwise the handle is in conflict: the document has changed when the
  bytes are gone, and the target is ambiguous when they occur several times.
\<close>

theorem relocation_is_unambiguous:
  assumes "collision_free (ne_digests N)" "original = hd_Locator record" "hashBytes N wanted = lo_ContentSHA256 original" "wanted \<noteq> []"
    and "int (length wanted) = lo_ByteEnd original - lo_ByteStart original"
    and "Read N (lo_Path original) w d = (Ok read, d1)" "resolveRange N w record d = (found, d')" "re_Status found \<noteq> ResolutionExact"
  shows "case re_Current found of
      Some current \<Rightarrow> \<exists>start \<in> places (tr_Content read) wanted. lo_ByteStart current = int start \<and>
        (places (tr_Content read) wanted = {start} \<or> anchored_places N (tr_Content read) original wanted = {start} \<or>
         int start = lo_ByteStart original \<and> same_before N (tr_Content read) original (int start))
    | None \<Rightarrow> card (places (tr_Content read) wanted) \<noteq> 1 \<and>
        re_Code found = Some (if places (tr_Content read) wanted = {} then ConflictDocumentChanged else ConflictSymbolAmbiguous)"
proof -
  obtain starts anchored where lists: "distinct starts" "set starts = places (tr_Content read) wanted" "distinct anchored"
    "set anchored = anchored_places N (tr_Content read) original wanted"
    and located: "locateRanges N read original = map (candidate_at N read original (length wanted)) (if length anchored = 1 then anchored else starts)"
    using located_places [OF assms(1,3-5), of read] by metis
  show ?thesis using assms(7)
  proof (cases rule: resolveRange_cases)
    case (moved read' current)
    then have read: "read' = read" using assms(2,6) by simp
    obtain start where start: "start \<in> set (if length anchored = 1 then anchored else starts)" "current = candidate_at N read original (length wanted) start"
      using moved(4) located read assms(2) by auto
    have place: "start \<in> places (tr_Content read) wanted" using start(1) lists by (auto simp: anchored_places_def split: if_splits)
    from moved(5) show ?thesis
    proof
      assume "locateRanges N read' (hd_Locator record) = [current]"
      then have "(if length anchored = 1 then anchored else starts) = [start]"
        using located read assms(2) start(1) by (auto simp: length_Suc_conv split: if_splits)
      then have "places (tr_Content read) wanted = {start} \<or> anchored_places N (tr_Content read) original wanted = {start}"
        using lists by (auto split: if_splits)
      then show ?thesis using moved(3) start(2) place by auto
    next
      assume "lo_ByteStart current = lo_ByteStart (hd_Locator record) \<and> lo_BeforeSHA256 current = lo_BeforeSHA256 (hd_Locator record)"
      then have "int start = lo_ByteStart original \<and> same_before N (tr_Content read) original (int start)"
        using start(2) assms(2) candidate_before candidate_start by metis
      then show ?thesis using moved(3) start(2) by (simp del: candidate_start) (use candidate_start place in blast)
    qed
  next
    case (conflicted read')
    then have read: "read' = read" using assms(2,6) by simp
    have several: "length anchored \<noteq> 1" "length starts \<noteq> 1" using conflicted(2) located read assms(2) by (auto split: if_splits)
    have "length starts > 1 \<longleftrightarrow> starts \<noteq> []" using several(2) by (cases starts) auto
    then have "card (places (tr_Content read) wanted) \<noteq> 1" "length starts > 1 \<longleftrightarrow> places (tr_Content read) wanted \<noteq> {}"
      using lists(2) distinct_card [OF lists(1)] several(2) by auto
    then show ?thesis using conflicted(3) several located read assms(2) by (auto simp: resolution_def)
  qed (use assms(2,6,8) in auto)
qed

section \<open>Resolving all matches\<close>

lemma inspected_set:
  assumes "InspectResultSet E w now id' s d = (Ok set', s', d')"
  shows "map_of (hs_sets s) id' = Some set' \<and> now < rs_ExpiresAt set' \<and> rs_StateSeq set' = id_StateSeq (dw_identity d') \<and> s' = s"
  using assms by (auto simp: InspectResultSet_def split: option.splits if_splits prod.splits sum.splits)


section \<open>Examples\<close>

definition sample_handle_env :: handle_env where
  "sample_handle_env = \<lparr> he_native = sample_native_env, he_sectioner = None, he_files = Ok [''a''], he_scoped = (\<lambda>_. Ok [''a'']),
     he_compile = (\<lambda>_. Error (PlainError ''no expression'')) \<rparr>"

definition sample_revision :: string where
  "sample_revision = ''docrev_110ws10x111111111110file:///r/a011110xxxx01110abc000''"

lemma sample_range_value [code]:
  "sample_range = \<lparr> rh_Path = ''a'', rh_Revision = sample_revision, rh_ByteStart = 1, rh_ByteEnd = 2, rh_ExpectedSHA256 = ''b'',
     rh_BeforeSHA256 = ''a'', rh_AfterSHA256 = ''c'', rh_AnchorBytes = 64 \<rparr>"
  by code_simp

definition sample_locator :: SemanticLocator where
  "sample_locator = \<lparr> lo_Path = ''a'', lo_Language = [], lo_Kind = ''match'', lo_NamePath = [], lo_ParentPath = [], lo_ByteStart = 1, lo_ByteEnd = 2,
     lo_SignatureSHA256 = [], lo_NodeSHA256 = ''b'', lo_ContentSHA256 = ''b'', lo_BeforeSHA256 = ''a'', lo_AfterSHA256 = ''c'',
     lo_AnchorBytes = 64, lo_DocumentRevision = sample_revision, lo_Device = 1, lo_Inode = 3 \<rparr>"

definition sample_record :: HandleRecord where
  "sample_record = \<lparr> hd_Handle = ''h'', hd_WorkspaceID = ''ws'', hd_Epoch = 1, hd_Kind = HandleMatch, hd_ExpiresAt = defaultHandleTTL,
     hd_Locator = sample_locator \<rparr>"

definition sample_store :: handleStore where
  "sample_store = (newHandleStore 0)\<lparr> hs_handles := [(''h'', sample_record)], hs_insertsSinceSweep := 1 \<rparr>"

lemma sample_registered:
  "\<exists>d. RegisterRangeHandle sample_handle_env confined_world 0 ''h'' sample_range HandleMatch (newHandleStore 0) sample_documents = (Ok sample_record, sample_store, d)"
proof -
  let ?run = "RegisterRangeHandle sample_handle_env confined_world 0 ''h'' sample_range HandleMatch (newHandleStore 0) sample_documents"
  have "fst ?run = Ok sample_record" by code_simp
  then obtain s d where run: "?run = (Ok sample_record, s, d)" by (metis prod.collapse)
  have "putHandleLocked 0 sample_record (newHandleStore 0) = sample_store"
    by (simp add: putHandleLocked_def noteInsertLocked_def newHandleStore_def sample_store_def sample_record_def Let_def handleSweepThreshold_def
        handleSweepInterval_def maxLiveHandles_def)
  then show ?thesis using run registered_locator(2) [OF run] by simp
qed

lemma sample_reachable: "reachable_store sample_store"
  using sample_registered reachable_store.step [OF reachable_store.start store_step.register_range] by blast

lemma sample_inspects:
  "hs_handles s = hs_handles sample_store \<Longrightarrow> now < defaultHandleTTL \<Longrightarrow> InspectHandle now ''h'' sample_documents s = (Ok sample_record, s)"
  by (simp add: InspectHandle_def sample_store_def sample_record_def sample_documents_def new_documents_def)

definition sample_found :: HandleResolution where
  "sample_found = resolution ResolutionExact None sample_record (Some sample_locator) []"

lemma sample_resolves:
  assumes "hs_handles s = hs_handles sample_store" "now < defaultHandleTTL"
  shows "\<exists>d. ResolveHandle sample_handle_env confined_world now ''h'' s sample_documents = (Ok sample_found, s, d)"
proof -
  have "fst (resolveRange sample_native_env confined_world sample_record sample_documents) = sample_found" by code_simp
  then show ?thesis using sample_inspects [OF assms]
    by (auto simp: ResolveHandle_def sample_handle_env_def sample_record_def split: prod.splits)
qed

theorem handle_edit_replaces_registered_witness:
  "\<exists>r d' w'. ApplyReplace sample_native_env ''ws'' sample_range ''XY'' sample_documents confined_world = (r, d', w') \<and> is_done r \<and>
     (\<exists>path content mode. docs_of (w_files confined_world) path = Some (content, mode) \<and> int_slice content 1 2 = ''b'' \<and>
        cas_splice (docs_of (w_files confined_world)) path content 1 2 ''XY'' = Some (docs_of (w_files w')))"
proof -
  obtain change after d' w' where run: "ApplyReplace sample_native_env ''ws'' sample_range ''XY'' sample_documents confined_world = (Done (change, after), d', w')"
    using unchanged_replace_runs [OF sample_replacement, of "''XY''"] sample_native_facts(6-8) by blast
  obtain d1 d2 where registered: "RegisterRangeHandle sample_handle_env confined_world 0 ''h'' sample_range HandleMatch (newHandleStore 0) sample_documents =
      (Ok sample_record, sample_store, d1)"
    and resolved: "ResolveHandle sample_handle_env confined_world 1 ''h'' sample_store sample_documents = (Ok sample_found, sample_store, d2)"
    using sample_registered sample_resolves [OF refl, of 1] by (auto simp: defaultHandleTTL_def)
  have "map_of (hs_handles sample_store) ''h'' = Some sample_record" "resolution_range sample_found = Ok sample_range"
    by (simp_all add: sample_store_def sample_found_def resolution_def resolution_range_def sample_locator_def sample_range_value)
  note applied = handle_edit_replaces_registered [OF _ registered this(1) refl resolved this(2)]
  have "int_slice ''abc'' 1 2 = ''b''" by code_simp
  then show ?thesis using applied [of "''ws''" "''XY''" sample_documents confined_world "Done (change, after)" d' w'] run
      sample_native_facts(1,4,9) by (auto simp: sample_handle_env_def sample_range_value)
qed

theorem handle_store_bounded_witness: "hs_handles sample_store \<noteq> [] \<and> length (hs_handles sample_store) \<le> maxLiveHandles"
  using handle_store_bounded [OF sample_reachable] by (simp add: sample_store_def)

definition crowded_store :: handleStore where
  "crowded_store = (newHandleStore 0)\<lparr> hs_maxHandles := 1,
     hs_handles := [(''x'', sample_record\<lparr> hd_ExpiresAt := 10 \<rparr>), (''y'', sample_record\<lparr> hd_ExpiresAt := 20 \<rparr>)] \<rparr>"

theorem sweep_keeps_latest_witness:
  "(''x'', sample_record\<lparr> hd_ExpiresAt := 10 \<rparr>) \<notin> set (hs_handles (sweepLocked 5 crowded_store)) \<and> length (hs_handles (sweepLocked 5 crowded_store)) = 1"
proof -
  have "map fst (hs_handles (sweepLocked 5 crowded_store)) = [''y'']" by code_simp
  then have "(''x'', sample_record\<lparr> hd_ExpiresAt := 10 \<rparr>) \<notin> set (hs_handles (sweepLocked 5 crowded_store))" by force
  moreover have "distinct (map fst (hs_handles crowded_store))" "(''x'', sample_record\<lparr> hd_ExpiresAt := 10 \<rparr>) \<in> set (hs_handles crowded_store)"
    "hs_maxHandles crowded_store = 1" by (simp_all add: crowded_store_def)
  ultimately show ?thesis using sweep_keeps_latest [OF _ refl, of crowded_store "''x''" "sample_record\<lparr> hd_ExpiresAt := 10 \<rparr>" 5] by auto
qed

text \<open>A handle whose document has another revision is searched for; its bytes are still there once.\<close>

definition stale_record :: HandleRecord where
  "stale_record = sample_record\<lparr> hd_Locator := sample_locator\<lparr> lo_DocumentRevision := [] \<rparr> \<rparr>"

lemma sample_read: "\<exists>read d. Read sample_native_env ''a'' confined_world sample_documents = (Ok read, d) \<and> tr_Content read = ''abc''"
proof -
  obtain read d where read: "Read sample_native_env ''a'' confined_world sample_documents = (Ok read, d)"
    using sample_range_made by (auto simp: NewRange_def split: prod.splits sum.splits)
  then have "tr_Content read = ''abc''" using read_file [OF read sample_confining] sample_native_facts(3,9) by (force simp: docs_of_def)
  then show ?thesis using read by blast
qed

theorem relocation_is_unambiguous_witness:
  "\<exists>current. re_Current (fst (resolveRange sample_native_env confined_world stale_record sample_documents)) = Some current \<and> lo_ByteStart current = 1"
proof -
  let ?found = "fst (resolveRange sample_native_env confined_world stale_record sample_documents)"
  obtain read d where read: "Read sample_native_env ''a'' confined_world sample_documents = (Ok read, d)" "tr_Content read = ''abc''"
    using sample_read by blast
  have found: "(re_Status ?found, Option.is_none (re_Current ?found)) = (ResolutionRelocated, False)" by code_simp
  have stale: "lo_Path (hd_Locator stale_record) = ''a''" "lo_ByteStart (hd_Locator stale_record) = 1"
    "hashBytes sample_native_env ''b'' = lo_ContentSHA256 (hd_Locator stale_record)"
    "int (length ''b'') = lo_ByteEnd (hd_Locator stale_record) - lo_ByteStart (hd_Locator stale_record)"
    by (simp_all add: stale_record_def sample_locator_def hashBytes_def sample_native_env_def sample_digests_def)
  have places: "places ''abc'' ''b'' = {1}"
    by (auto simp: places_def go_slice_def nth_Cons' take_Cons' drop_Cons' split: if_splits)
  show ?thesis
    using relocation_is_unambiguous [OF sample_native_facts(1) refl stale(3) _ stale(4) read(1) [folded stale(1)] prod.collapse [symmetric]] found read(2) places
    by (auto simp: Option.is_none_def split: option.splits)
qed

definition sample_hit :: SearchHit where
  "sample_hit = \<lparr> sh_Path = ''a'', sh_ByteStart = 1, sh_ByteEnd = 2, sh_Line = 1, sh_Column = 2, sh_Match = ''b'', sh_Range = sample_range,
     sh_MatchHandle = Some ''h'', sh_MatchTruncated = False \<rparr>"

definition sample_search :: SearchResult where
  "sample_search = \<lparr> sq_Hits = [sample_hit], sq_Coverage = empty_coverage\<lparr> cov_Complete := True \<rparr>, sq_Query = ''b'', sq_Mode = ''literal'',
     sq_DocumentRevisions = [], sq_SourceFiles = [''a''], sq_Scope = [] \<rparr>"

definition sample_set :: ResultSet where
  "sample_set = search_set ''s'' (dw_identity sample_documents) (1 + defaultHandleTTL) sample_search"

definition sample_frozen :: handleStore where
  "sample_frozen = sample_store\<lparr> hs_sets := [(''s'', sample_set)], hs_insertsSinceSweep := 2 \<rparr>"

lemma sample_frozen_reachable: "reachable_store sample_frozen"
proof -
  have "FreezeSearch 1 ''s'' (dw_identity sample_documents) sample_search sample_store = (sample_set, sample_frozen)"
    by (simp add: FreezeSearch_def Let_def sample_frozen_def sample_set_def sample_store_def newHandleStore_def putSetLocked_def noteInsertLocked_def
        search_set_def handleSweepThreshold_def handleSweepInterval_def maxLiveHandles_def maxLiveResultSets_def)
  then show ?thesis using reachable_store.step [OF sample_reachable store_step.freeze] by blast
qed


end
