(* ===== verification/Normalize.thy ===== *)
theory Normalize
  imports Handles Operation_Order
begin

text \<open>
  Normalising the operations of a plan (\<open>normalizeOperations\<close> of \<^verbatim>\<open>internal/workspace/plan.go\<close>): every operation
  gets a unique identifier, an indentation mode, and what binds it to the tree: a file range for an
  edit, revisions for a file operation, the hash of its source for a copy.

  The arguments are those of the handles it resolves; \<open>newID\<close> draws the identifiers of the declarations
  one operation registers. \<open>cloneOperations\<close>, a copy through JSON, is the identity on operations that
  themselves come from JSON.
\<close>

section \<open>One operation\<close>

definition normalizeIndentation :: "PlanOperation \<Rightarrow> PlanOperation result" where
  "normalizeIndentation operation =
     (let operation = (if op_Indentation operation = [] then operation\<lparr> op_Indentation := ''exact'' \<rparr> else operation);
          mode = op_Indentation operation
      in if mode \<noteq> ''exact'' \<and> mode \<noteq> ''syntax_anchor'' \<and> mode \<noteq> ''formatter'' then Error (PlainError ''invalid indentation mode'')
         else if mode = ''syntax_anchor'' \<and> (case op_Target operation of None \<Rightarrow> True | Some target \<Rightarrow> pt_Handle target = [])
         then Error (PlainError ''syntax_anchor requires one semantic node handle'')
         else Ok operation)"

text \<open>The kind of a resolution without an original is the zero locator's.\<close>

definition original_kind :: "HandleResolution \<Rightarrow> string" where
  "original_kind found = (case re_Original found of Some original \<Rightarrow> lo_Kind original | None \<Rightarrow> [])"

definition editRangeFromHandle ::
  "handle_env \<Rightarrow> world \<Rightarrow> int \<Rightarrow> PlanOperation \<Rightarrow> string \<Rightarrow> handleStore \<Rightarrow> doc_state \<Rightarrow> RangeHandle handled" where
  "editRangeFromHandle E w now operation handle s d =
     (case ResolveHandle E w now handle s d of
        (Inl e, s', d') \<Rightarrow> (Error (WrappedError (op_OpID operation) e), s', d')
      | (Inr found, s', d') \<Rightarrow>
          if re_Status found = ResolutionConflicted then (Error (PlainError (op_OpID operation)), s', d')
          else if op_Indentation operation = ''syntax_anchor'' \<and> (original_kind found = ''range'' \<or> original_kind found = ''match'')
          then (Error (PlainError ''syntax_anchor target is not one parsed node''), s', d')
          else
            (case resolution_range found of
               Inl e \<Rightarrow> (Error (WrappedError (op_OpID operation) e), s', d')
             | Inr range' \<Rightarrow> (Ok range', s', d')))"

definition editRangeFromLocator ::
  "handle_env \<Rightarrow> world \<Rightarrow> int \<Rightarrow> (nat \<Rightarrow> string) \<Rightarrow> PlanOperation \<Rightarrow> PlanSymbolLocator \<Rightarrow> handleStore \<Rightarrow> doc_state \<Rightarrow> RangeHandle handled" where
  "editRangeFromLocator E w now newID operation locator s d =
     (case ResolveSymbolLocator E w now newID (sl_Path locator) (sl_NamePath locator) s d of
        (Inl e, s', d') \<Rightarrow> (Error (WrappedError (op_OpID operation) e), s', d')
      | (Inr selected, s', d') \<Rightarrow>
          (case ResolveHandle E w now (hd_Handle selected) s' d' of
             (Inl e, s'', d'') \<Rightarrow> (Error (WrappedError (op_OpID operation) e), s'', d'')
           | (Inr found, s'', d'') \<Rightarrow>
               (case resolution_range found of
                  Inl e \<Rightarrow> (Error (WrappedError (op_OpID operation) e), s'', d'')
                | Inr range' \<Rightarrow> (Ok range', s'', d''))))"

text \<open>A target that has no range yet gets the one that was found.\<close>

definition range_by_handle ::
  "handle_env \<Rightarrow> world \<Rightarrow> int \<Rightarrow> PlanOperation \<Rightarrow> PlanTarget \<Rightarrow> handleStore \<Rightarrow> doc_state \<Rightarrow> PlanTarget handled" where
  "range_by_handle E w now operation target s d =
     (if pt_FileRange target = None \<and> pt_Handle target \<noteq> []
      then (case editRangeFromHandle E w now operation (pt_Handle target) s d of
              (Inl e, s', d') \<Rightarrow> (Error e, s', d')
            | (Inr range', s', d') \<Rightarrow> (Ok (target\<lparr> pt_FileRange := Some range' \<rparr>), s', d'))
      else (Ok target, s, d))"

definition range_by_locator ::
  "handle_env \<Rightarrow> world \<Rightarrow> int \<Rightarrow> (nat \<Rightarrow> string) \<Rightarrow> PlanOperation \<Rightarrow> PlanTarget \<Rightarrow> handleStore \<Rightarrow> doc_state \<Rightarrow> PlanTarget handled" where
  "range_by_locator E w now newID operation target s d =
     (case (pt_FileRange target, pt_SymbolLocator target) of
        (None, Some locator) \<Rightarrow>
          (case editRangeFromLocator E w now newID operation locator s d of
             (Inl e, s', d') \<Rightarrow> (Error e, s', d')
           | (Inr range', s', d') \<Rightarrow> (Ok (target\<lparr> pt_FileRange := Some range' \<rparr>), s', d'))
      | _ \<Rightarrow> (Ok target, s, d))"

definition bound_edit :: "PlanOperation \<Rightarrow> PlanTarget \<Rightarrow> PlanOperation result" where
  "bound_edit operation target =
     (if pt_FileRange target = None then Error (PlainError ''requires a resolvable handle or symbol_locator'')
      else
        let operation = operation\<lparr> op_Target := Some target \<rparr>
        in Ok (if op_Kind operation = OperationDeleteSymbol then operation\<lparr> op_Content := [] \<rparr> else operation))"

definition normalizeEditTarget ::
  "handle_env \<Rightarrow> world \<Rightarrow> int \<Rightarrow> (nat \<Rightarrow> string) \<Rightarrow> PlanOperation \<Rightarrow> handleStore \<Rightarrow> doc_state \<Rightarrow> PlanOperation handled" where
  "normalizeEditTarget E w now newID operation s d =
     (case op_Target operation of
        None \<Rightarrow> (Error (PlainError ''requires target''), s, d)
      | Some target \<Rightarrow>
          (case range_by_handle E w now operation target s d of
             (Inl e, s', d') \<Rightarrow> (Error e, s', d')
           | (Inr target', s', d') \<Rightarrow>
               (case range_by_locator E w now newID operation target' s' d' of
                  (Inl e, s'', d'') \<Rightarrow> (Error e, s'', d'')
                | (Inr target'', s'', d'') \<Rightarrow> (bound_edit operation target'', s'', d''))))"

definition snapshotRevision :: "handle_env \<Rightarrow> world \<Rightarrow> string \<Rightarrow> string \<Rightarrow> string \<Rightarrow> bool \<Rightarrow> doc_state \<Rightarrow> string result \<times> doc_state" where
  "snapshotRevision E w opID label path expectMissing d =
     (case Snapshot (env_of (he_native E) w) path no_layer d of
        (Inl e, d') \<Rightarrow> (Error (WrappedError opID e), d')
      | (Inr taken, d') \<Rightarrow>
          let missing = (ds_Kind (dn_Disk taken) = ObjectMissing)
          in if expectMissing \<and> \<not> missing then (Error (PlainError (label @ '' already exists'')), d')
             else if \<not> expectMissing \<and> missing then (Error (PlainError (label @ '' is missing'')), d')
             else (Ok (dn_Revision taken), d'))"

text \<open>A revision the caller named is kept.\<close>

definition bind_revision :: "handle_env \<Rightarrow> world \<Rightarrow> string \<Rightarrow> string \<Rightarrow> string \<Rightarrow> bool \<Rightarrow> string \<Rightarrow> doc_state \<Rightarrow> string result \<times> doc_state" where
  "bind_revision E w opID label path expectMissing revision d =
     (if revision \<noteq> [] then (Ok revision, d) else snapshotRevision E w opID label path expectMissing d)"

definition normalize_path :: "handle_env \<Rightarrow> world \<Rightarrow> string \<Rightarrow> bool \<Rightarrow> PlanOperation \<Rightarrow> doc_state \<Rightarrow> PlanOperation result \<times> doc_state" where
  "normalize_path E w label expectMissing operation d =
     (if op_Path operation = [] then (Error (PlainError ''requires path''), d)
      else
        (case bind_revision E w (op_OpID operation) label (op_Path operation) expectMissing (op_Revision operation) d of
           (Inl e, d') \<Rightarrow> (Error e, d')
         | (Inr revision, d') \<Rightarrow> (Ok (operation\<lparr> op_Revision := revision \<rparr>), d')))"

definition normalizeCreateFile :: "handle_env \<Rightarrow> world \<Rightarrow> PlanOperation \<Rightarrow> doc_state \<Rightarrow> PlanOperation result \<times> doc_state" where
  "normalizeCreateFile E w = normalize_path E w ''create target'' True"

definition normalizeDeleteFile :: "handle_env \<Rightarrow> world \<Rightarrow> PlanOperation \<Rightarrow> doc_state \<Rightarrow> PlanOperation result \<times> doc_state" where
  "normalizeDeleteFile E w = normalize_path E w ''delete target'' False"

definition normalizeMoveFile :: "handle_env \<Rightarrow> world \<Rightarrow> PlanOperation \<Rightarrow> doc_state \<Rightarrow> PlanOperation result \<times> doc_state" where
  "normalizeMoveFile E w operation d =
     (if op_From operation = [] \<or> op_To operation = [] then (Error (PlainError ''requires from and to''), d)
      else
        (case bind_revision E w (op_OpID operation) ''move source'' (op_From operation) False (op_Revision operation) d of
           (Inl e, d') \<Rightarrow> (Error e, d')
         | (Inr revision, d') \<Rightarrow>
             (case bind_revision E w (op_OpID operation) ''move destination'' (op_To operation) True (op_DestinationRevision operation) d' of
                (Inl e, d'') \<Rightarrow> (Error e, d'')
              | (Inr destination, d'') \<Rightarrow> (Ok (operation\<lparr> op_Revision := revision, op_DestinationRevision := destination \<rparr>), d''))))"

definition normalizeCopyFile :: "handle_env \<Rightarrow> world \<Rightarrow> PlanOperation \<Rightarrow> doc_state \<Rightarrow> PlanOperation result \<times> doc_state" where
  "normalizeCopyFile E w operation d =
     (if op_From operation = [] \<or> op_To operation = [] then (Error (PlainError ''requires from and to''), d)
      else
        (case Workspace_TransferSource (he_native E) (op_From operation) (op_ExpectedSHA256 operation) w d of
           (Inl e, d') \<Rightarrow> (Error (WrappedError (op_OpID operation) e), d')
         | (Inr source, d') \<Rightarrow>
             (case bind_revision E w (op_OpID operation) ''copy destination'' (op_To operation) True (op_DestinationRevision operation) d' of
                (Inl e, d'') \<Rightarrow> (Error e, d'')
              | (Inr destination, d'') \<Rightarrow>
                  (Ok (operation\<lparr> op_ExpectedSHA256 := ts_SHA256 source, op_DestinationRevision := destination \<rparr>), d''))))"

definition normalizeReplaceMatches :: "handle_env \<Rightarrow> world \<Rightarrow> int \<Rightarrow> PlanOperation \<Rightarrow> handleStore \<Rightarrow> doc_state \<Rightarrow> PlanOperation handled" where
  "normalizeReplaceMatches E w now operation s d =
     (case op_Target operation of
        None \<Rightarrow> (Error (PlainError ''requires a result-set handle''), s, d)
      | Some target \<Rightarrow>
          if pt_Handle target = [] then (Error (PlainError ''requires a result-set handle''), s, d)
          else
            (case ResolveAllMatches E w now (pt_Handle target) s d of
               (Inl e, s', d') \<Rightarrow> (Error (WrappedError (op_OpID operation) e), s', d')
             | (Inr _, s', d') \<Rightarrow> (Ok operation, s', d')))"

definition with_store :: "'a result \<times> doc_state \<Rightarrow> handleStore \<Rightarrow> 'a handled" where
  "with_store run s = (fst run, s, snd run)"

definition operationNormalizers ::
  "handle_env \<Rightarrow> world \<Rightarrow> int \<Rightarrow> (nat \<Rightarrow> string) \<Rightarrow> PlanOperation \<Rightarrow> handleStore \<Rightarrow> doc_state \<Rightarrow> PlanOperation handled" where
  "operationNormalizers E w now newID operation s d =
     (case op_Kind operation of
        OperationCreateFile \<Rightarrow> with_store (normalizeCreateFile E w operation d) s
      | OperationDeleteFile \<Rightarrow> with_store (normalizeDeleteFile E w operation d) s
      | OperationMoveFile \<Rightarrow> with_store (normalizeMoveFile E w operation d) s
      | OperationCopyFile \<Rightarrow> with_store (normalizeCopyFile E w operation d) s
      | OperationReplaceMatches \<Rightarrow> normalizeReplaceMatches E w now operation s d
      | OperationOther _ \<Rightarrow> (Error (PlainError ''unknown operation kind''), s, d)
      | _ \<Rightarrow> normalizeEditTarget E w now newID operation s d)"

section \<open>All operations\<close>

definition normalize_operation ::
  "handle_env \<Rightarrow> world \<Rightarrow> int \<Rightarrow> (nat \<Rightarrow> string) \<Rightarrow> string list \<Rightarrow> PlanOperation \<Rightarrow> handleStore \<Rightarrow> doc_state \<Rightarrow> PlanOperation handled" where
  "normalize_operation E w now newID seen operation s d =
     (let operation = operation\<lparr> op_OpID := TrimSpace (op_OpID operation) \<rparr>
      in if op_OpID operation = [] then (Error (PlainError ''every operation requires op_id''), s, d)
         else if op_OpID operation \<in> set seen then (Error (PlainError ''duplicate op_id''), s, d)
         else
           (case normalizeIndentation operation of
              Inl e \<Rightarrow> (Error e, s, d)
            | Inr operation \<Rightarrow>
                (case operationNormalizers E w now newID operation s d of
                   (Inl e, s', d') \<Rightarrow> (Error e, s', d')
                 | (Inr operation, s', d') \<Rightarrow>
                     if op_OpID operation \<in> set (op_DependsOn operation) then (Error (PlainError ''cannot depend on itself''), s', d')
                     else (Ok operation, s', d'))))"

fun normalize_operations ::
  "handle_env \<Rightarrow> world \<Rightarrow> int \<Rightarrow> (nat \<Rightarrow> nat \<Rightarrow> string) \<Rightarrow> string list \<Rightarrow> PlanOperation list \<Rightarrow> handleStore \<Rightarrow> doc_state \<Rightarrow>
   PlanOperation list handled" where
  "normalize_operations E w now newID seen [] s d = (Ok [], s, d)"
| "normalize_operations E w now newID seen (operation # rest) s d =
     (case normalize_operation E w now (newID (length seen)) seen operation s d of
        (Inl e, s', d') \<Rightarrow> (Error e, s', d')
      | (Inr operation', s', d') \<Rightarrow>
          (case normalize_operations E w now newID (seen @ [op_OpID operation']) rest s' d' of
             (Inl e, s'', d'') \<Rightarrow> (Error e, s'', d'')
           | (Inr others, s'', d'') \<Rightarrow> (Ok (operation' # others), s'', d'')))"

definition known_dependencies :: "PlanOperation list \<Rightarrow> bool" where
  "known_dependencies operations = list_all (\<lambda>operation. set (op_DependsOn operation) \<subseteq> op_OpID ` set operations) operations"

definition normalizeOperations ::
  "handle_env \<Rightarrow> world \<Rightarrow> int \<Rightarrow> (nat \<Rightarrow> nat \<Rightarrow> string) \<Rightarrow> PlanOperation list \<Rightarrow> handleStore \<Rightarrow> doc_state \<Rightarrow> PlanOperation list handled" where
  "normalizeOperations E w now newID operations s d =
     (case normalize_operations E w now newID [] operations s d of
        (Inl e, s', d') \<Rightarrow> (Error e, s', d')
      | (Inr normalized, s', d') \<Rightarrow>
          if \<not> known_dependencies normalized then (Error (PlainError ''depends on unknown op_id''), s', d')
          else
            (case orderOperations normalized of
               Inl e \<Rightarrow> (Error e, s', d')
             | Inr _ \<Rightarrow> (Ok normalized, s', d')))"

end
