(* ===== verification/Normalize_Safety.thy ===== *)
theory Normalize_Safety
  imports Normalize Native_Refinement Plan_Lifecycle
begin

text \<open>
  What normalising guarantees: the operations of a plan are uniquely named, bound to the tree and can
  be ordered; and binding is final, so normalising again changes nothing, whatever has happened to the
  tree in between.
\<close>

section \<open>Trimming\<close>

lemma trim_with_None: "find (\<lambda>e. e \<noteq> [] \<and> HasPrefix s e) encodings = None \<Longrightarrow> trim_with encodings s = s"
  by (subst trim_with.simps) simp

lemma trim_with_Some:
  "find (\<lambda>e. e \<noteq> [] \<and> HasPrefix s e) encodings = Some e \<Longrightarrow> trim_with encodings s = trim_with encodings (drop (length e) s)"
  by (subst trim_with.simps) simp

lemma trim_with_suffix: "\<exists>front. s = front @ trim_with encodings s"
proof (induction encodings s rule: trim_with.induct)
  case (1 encodings s)
  show ?case
  proof (cases "find (\<lambda>e. e \<noteq> [] \<and> HasPrefix s e) encodings")
    case None
    then show ?thesis by (simp add: trim_with_None)
  next
    case (Some e)
    obtain front where front: "drop (length e) s = front @ trim_with encodings (drop (length e) s)" using 1 [OF Some] by blast
    have "s = take (length e) s @ drop (length e) s" by simp
    then have "s = (take (length e) s @ front) @ trim_with encodings s" using front trim_with_Some [OF Some] by (metis append.assoc)
    then show ?thesis by blast
  qed
qed

lemma trim_with_done: "e \<in> set encodings \<Longrightarrow> e \<noteq> [] \<Longrightarrow> \<not> HasPrefix (trim_with encodings s) e"
proof (induction encodings s rule: trim_with.induct)
  case (1 encodings s)
  show ?case
  proof (cases "find (\<lambda>e. e \<noteq> [] \<and> HasPrefix s e) encodings")
    case None
    then have "trim_with encodings s = s" by (rule trim_with_None)
    then show ?thesis using 1(2,3) None by (simp add: find_None_iff) blast
  next
    case (Some e')
    then show ?thesis using 1 by (simp add: trim_with_Some)
  qed
qed

lemma trim_with_fixed: "\<forall>e \<in> set encodings. e \<noteq> [] \<longrightarrow> \<not> HasPrefix s e \<Longrightarrow> trim_with encodings s = s"
  by (rule trim_with_None) (auto simp: find_None_iff)

lemma TrimSpace_idem: "TrimSpace (TrimSpace s) = TrimSpace s"
proof -
  define left right where "left = trim_with white_space s" and "right = trim_with (map rev white_space) (rev left)"
  have trimmed: "TrimSpace s = rev right" by (simp add: TrimSpace_def left_def right_def)
  obtain front where front: "rev left = front @ right" using trim_with_suffix unfolding right_def by blast
  then have start: "left = rev right @ rev front" by (metis rev_append rev_rev_ident)
  have "\<not> HasPrefix (rev right) e" if "e \<in> set white_space" "e \<noteq> []" for e
    using trim_with_done [OF that, of s] start unfolding left_def [symmetric] by (auto simp: HasPrefix_append)
  then have "trim_with white_space (rev right) = rev right" by (intro trim_with_fixed) blast
  moreover have "trim_with (map rev white_space) right = right"
    using trim_with_done [of _ "map rev white_space" "rev left"] by (intro trim_with_fixed) (auto simp: right_def)
  ultimately show ?thesis unfolding trimmed by (simp only: TrimSpace_def rev_rev_ident)
qed

section \<open>Bound operations\<close>

text \<open>What an operation must have for a preview to apply it.\<close>

definition bound :: "PlanOperation \<Rightarrow> bool" where
  "bound operation \<longleftrightarrow> op_OpID operation \<noteq> [] \<and> TrimSpace (op_OpID operation) = op_OpID operation \<and>
     op_OpID operation \<notin> set (op_DependsOn operation) \<and> normalizeIndentation operation = Ok operation \<and>
     (case op_Kind operation of
        OperationCreateFile \<Rightarrow> op_Path operation \<noteq> [] \<and> op_Revision operation \<noteq> []
      | OperationDeleteFile \<Rightarrow> op_Path operation \<noteq> [] \<and> op_Revision operation \<noteq> []
      | OperationMoveFile \<Rightarrow>
          op_From operation \<noteq> [] \<and> op_To operation \<noteq> [] \<and> op_Revision operation \<noteq> [] \<and> op_DestinationRevision operation \<noteq> []
      | OperationCopyFile \<Rightarrow> op_From operation \<noteq> [] \<and> op_To operation \<noteq> [] \<and> op_DestinationRevision operation \<noteq> []
      | OperationReplaceMatches \<Rightarrow> (\<exists>target. op_Target operation = Some target \<and> pt_Handle target \<noteq> [])
      | OperationOther _ \<Rightarrow> False
      | _ \<Rightarrow> (\<exists>target found. op_Target operation = Some target \<and> pt_FileRange target = Some found) \<and>
          (op_Kind operation = OperationDeleteSymbol \<longrightarrow> op_Content operation = []))"

lemma snapshot_nonempty: "Snapshot E path layer d = (Ok taken, d') \<Longrightarrow> dn_Revision taken \<noteq> []"
  by (auto simp: Snapshot_def snapshot_def publish_def new_snapshot_def revisionFor_def Let_def
      split: sum.splits prod.splits if_splits option.splits)

lemma bind_nonempty: "bind_revision E w opID label path expectMissing revision d = (Ok found, d') \<Longrightarrow> found \<noteq> []"
  by (auto simp: bind_revision_def snapshotRevision_def Let_def split: if_splits prod.splits sum.splits dest: snapshot_nonempty)

text \<open>Normalising fills in only the binding fields of an operation.\<close>

definition completes :: "PlanOperation \<Rightarrow> PlanOperation \<Rightarrow> bool" where
  "completes operation operation' \<longleftrightarrow> op_OpID operation' = op_OpID operation \<and> op_Kind operation' = op_Kind operation \<and>
     op_Path operation' = op_Path operation \<and> op_From operation' = op_From operation \<and> op_To operation' = op_To operation \<and>
     op_DependsOn operation' = op_DependsOn operation \<and> op_Indentation operation' = op_Indentation operation \<and>
     (op_Kind operation \<noteq> OperationDeleteSymbol \<longrightarrow> op_Content operation' = op_Content operation) \<and>
     map_option pt_Handle (op_Target operation') = map_option pt_Handle (op_Target operation)"

lemma completes_indentation:
  assumes "completes operation operation'" "normalizeIndentation operation = Ok operation"
  shows "normalizeIndentation operation' = Ok operation'"
  using assms by (auto simp: completes_def normalizeIndentation_def Let_def split: if_splits option.splits)

lemma normalized_indentation: "normalizeIndentation operation = Ok operation' \<Longrightarrow> normalizeIndentation operation' = Ok operation'"
  by (auto simp: normalizeIndentation_def Let_def split: if_splits option.splits)

lemma range_handles:
  "range_by_handle E w now operation target s d = (Ok target', s', d') \<Longrightarrow> pt_Handle target' = pt_Handle target"
  "range_by_locator E w now newID operation target s d = (Ok target', s', d') \<Longrightarrow> pt_Handle target' = pt_Handle target"
  by (auto simp: range_by_handle_def range_by_locator_def split: if_splits prod.splits sum.splits option.splits)

definition is_edit_kind :: "OperationKind \<Rightarrow> bool" where
  "is_edit_kind kind \<longleftrightarrow> kind \<in> {OperationReplaceSymbol, OperationDeleteSymbol, OperationInsertBefore, OperationInsertAfter, OperationReplaceRange}"

lemma edit_normalized:
  assumes "normalizeEditTarget E w now newID operation s d = (Ok operation', s', d')"
  shows "completes operation operation' \<and> (\<exists>target found. op_Target operation' = Some target \<and> pt_FileRange target = Some found) \<and>
    (op_Kind operation = OperationDeleteSymbol \<longrightarrow> op_Content operation' = [])"
proof -
  obtain target target1 s1 d1 target2 where steps: "op_Target operation = Some target"
    "range_by_handle E w now operation target s d = (Ok target1, s1, d1)"
    "range_by_locator E w now newID operation target1 s1 d1 = (Ok target2, s', d')" "bound_edit operation target2 = Ok operation'"
    using assms by (auto simp: normalizeEditTarget_def split: option.splits prod.splits sum.splits)
  have "pt_Handle target2 = pt_Handle target" using range_handles steps(2,3) by metis
  then show ?thesis using steps(1,4) by (auto simp: bound_edit_def completes_def Let_def split: if_splits)
qed

lemma normalizers_complete:
  assumes "operationNormalizers E w now newID operation s d = (Ok operation', s', d')"
  shows "completes operation operation'"
proof (cases "is_edit_kind (op_Kind operation)")
  case True
  then have "normalizeEditTarget E w now newID operation s d = (Ok operation', s', d')"
    using assms(1) by (auto simp: operationNormalizers_def is_edit_kind_def)
  then show ?thesis using edit_normalized by blast
next
  case False
  then show ?thesis using assms
    by (auto simp: operationNormalizers_def with_store_def normalizeCreateFile_def normalizeDeleteFile_def normalize_path_def normalizeMoveFile_def
        normalizeCopyFile_def normalizeReplaceMatches_def is_edit_kind_def completes_def
        split: OperationKind.splits if_splits prod.splits sum.splits option.splits)
qed

lemma operation_normalized:
  assumes "operationNormalizers E w now newID operation s d = (Ok operation', s', d')"
    and "op_OpID operation \<noteq> []" "TrimSpace (op_OpID operation) = op_OpID operation" "normalizeIndentation operation = Ok operation"
    and "op_OpID operation \<notin> set (op_DependsOn operation)"
  shows "completes operation operation' \<and> bound operation'"
proof (cases "is_edit_kind (op_Kind operation)")
  case True
  then have "normalizeEditTarget E w now newID operation s d = (Ok operation', s', d')"
    using assms(1) by (auto simp: operationNormalizers_def is_edit_kind_def)
  note edited = edit_normalized [OF this]
  then have "normalizeIndentation operation' = Ok operation'" using completes_indentation assms(4) by blast
  then show ?thesis using edited assms(2,3,5) True
    by (auto simp: completes_def bound_def is_edit_kind_def split: OperationKind.splits)
next
  case False
  have "completes operation operation'" using assms(1) by (rule normalizers_complete)
  moreover from this have "normalizeIndentation operation' = Ok operation'" using completes_indentation assms(4) by blast
  ultimately show ?thesis
    using assms False
    by (auto simp: operationNormalizers_def with_store_def normalizeCreateFile_def normalizeDeleteFile_def normalize_path_def normalizeMoveFile_def
        normalizeCopyFile_def normalizeReplaceMatches_def is_edit_kind_def bound_def completes_def
        split: OperationKind.splits if_splits prod.splits sum.splits option.splits dest: bind_nonempty)
qed

lemma one_normalized:
  assumes "normalize_operation E w now newID seen operation s d = (Ok operation', s', d')"
  shows "bound operation' \<and> op_OpID operation' = TrimSpace (op_OpID operation) \<and> op_OpID operation' \<notin> set seen \<and>
    op_Kind operation' = op_Kind operation \<and> op_DependsOn operation' = op_DependsOn operation"
proof -
  let ?named = "operation\<lparr> op_OpID := TrimSpace (op_OpID operation) \<rparr>"
  obtain indented where indented: "normalizeIndentation ?named = Ok indented"
    "operationNormalizers E w now newID indented s d = (Ok operation', s', d')" "op_OpID operation' \<notin> set (op_DependsOn operation')"
    and named: "TrimSpace (op_OpID operation) \<noteq> []" "TrimSpace (op_OpID operation) \<notin> set seen"
    using assms by (auto simp: normalize_operation_def Let_def split: if_splits sum.splits prod.splits)
  have same: "op_OpID indented = TrimSpace (op_OpID operation)" "op_Kind indented = op_Kind operation" "op_DependsOn indented = op_DependsOn operation"
    using indented(1) by (auto simp: normalizeIndentation_def Let_def split: if_splits)
  have "completes indented operation'" using normalizers_complete [OF indented(2)] .
  then have "op_OpID indented \<notin> set (op_DependsOn indented)" using indented(3) by (simp add: completes_def)
  from operation_normalized [OF indented(2) _ _ normalized_indentation [OF indented(1)] this] show ?thesis
    using named same by (auto simp: completes_def TrimSpace_idem)
qed

lemma all_normalized:
  "normalize_operations E w now newID seen operations s d = (Ok normalized, s', d') \<Longrightarrow>
   list_all bound normalized \<and> map op_OpID normalized = map (TrimSpace \<circ> op_OpID) operations \<and>
   map op_Kind normalized = map op_Kind operations \<and> map op_DependsOn normalized = map op_DependsOn operations"
  "normalize_operations E w now newID seen operations s d = (Ok normalized, s', d') \<Longrightarrow>
   distinct (map op_OpID normalized) \<and> set (map op_OpID normalized) \<inter> set seen = {}"
proof (induction operations arbitrary: seen s d normalized)
  case (Cons operation operations)
  have split: "\<exists>operation' s1 d1 others. normalize_operation E w now (newID (length seen)) seen operation s d = (Ok operation', s1, d1) \<and>
      normalize_operations E w now newID (seen @ [op_OpID operation']) operations s1 d1 = (Ok others, s', d') \<and> normalized = operation' # others"
    if "normalize_operations E w now newID seen (operation # operations) s d = (Ok normalized, s', d')" for seen s d normalized
    using that by (auto split: prod.splits sum.splits)
  { case 1
    from split [OF this] obtain operation' s1 d1 others where first: "normalize_operation E w now (newID (length seen)) seen operation s d = (Ok operation', s1, d1)"
      and rest: "normalize_operations E w now newID (seen @ [op_OpID operation']) operations s1 d1 = (Ok others, s', d')" "normalized = operation' # others" by blast
    show ?case using one_normalized [OF first] Cons.IH(1) [OF rest(1)] rest(2) by simp
  next
    case 2
    from split [OF this] obtain operation' s1 d1 others where first: "normalize_operation E w now (newID (length seen)) seen operation s d = (Ok operation', s1, d1)"
      and rest: "normalize_operations E w now newID (seen @ [op_OpID operation']) operations s1 d1 = (Ok others, s', d')" "normalized = operation' # others" by blast
    have fresh: "op_OpID operation' \<notin> set seen" using one_normalized [OF first] by blast
    show ?case using fresh Cons.IH(2) [OF rest(1)] unfolding rest(2) by auto }
qed simp_all

text \<open>
  C28. Normalised operations are ready. When the operations of a plan normalise, the result has the
  same kinds and dependencies in the same order; every operation has a name that is not blank, no two
  share one, every dependency is on another operation of the plan, an order of execution exists, and
  every operation is bound: an edit to a file range, a file operation to its paths and their revisions,
  a replacement of matches to a result set.
\<close>

theorem normalized_operations_bound:
  assumes "normalizeOperations E w now newID operations s d = (Ok normalized, s', d')"
  shows "list_all bound normalized \<and> distinct (map op_OpID normalized) \<and> map op_OpID normalized = map (TrimSpace \<circ> op_OpID) operations \<and>
    map op_Kind normalized = map op_Kind operations \<and> map op_DependsOn normalized = map op_DependsOn operations \<and>
    known_dependencies normalized \<and> (\<exists>ordered. orderOperations normalized = Ok ordered)"
proof -
  have loop: "normalize_operations E w now newID [] operations s d = (Ok normalized, s', d')" "known_dependencies normalized"
    "\<exists>ordered. orderOperations normalized = Ok ordered"
    using assms by (auto simp: normalizeOperations_def split: if_splits prod.splits sum.splits)
  then show ?thesis using all_normalized(1) [OF loop(1)] all_normalized(2) [OF loop(1)] by blast
qed

section \<open>Plans hold bound operations\<close>

lemma wp_any: "(\<And>r w'. Q r w') \<Longrightarrow> io_wp m Q w"
  by (simp add: io_wp_def split: prod.split)

lemma created_operations:
  assumes "CreatePlanWithInvariants binding newPlanID operations invariants w = (Done plan, w')"
  shows "binding operations = Ok (pr_Operations plan)"
proof -
  have "io_wp (CreatePlanWithInvariants binding newPlanID operations invariants)
      (\<lambda>r _. \<forall>plan. r = Done plan \<longrightarrow> binding operations = Ok (pr_Operations plan)) w"
  proof (cases "binding operations")
    case (Inr normalized)
    then show ?thesis
      by (cases "normalizeInvariants invariants"; cases newPlanID)
        (simp_all add: CreatePlanWithInvariants_def Let_def update_plan_def delete_plan_def wp_any split: outcome.split sum.split)
  qed (simp add: CreatePlanWithInvariants_def)
  from wp_result [OF this assms] show ?thesis by blast
qed

lemma edited_operations:
  assumes "EditPlan binding planID expected edit w = (Done plan', w')"
  shows "\<exists>operations. binding operations = Ok (pr_Operations plan')"
proof -
  from assms obtain plan where plan: "map_of (w_plans w) planID = Some plan" "expected \<noteq> 0"
    "pr_PlanRevision plan = expected" "canTransition (pr_State plan) PlanOpen" "\<not> pr_Compacted plan"
    by (auto simp: EditPlan_def io_bind_Done io_get_def io_throw_def split: option.splits if_splits)
  from assms this obtain operations normalized invariants where "binding operations = Ok normalized"
    "plan' = recordPlanEventAt ''edit'' ''ok'' (w_now w)
      (plan\<lparr> pr_Operations := normalized, pr_Invariants := resetInvariantProofs invariants, pr_State := PlanOpen,
        pr_PlanRevision := pr_PlanRevision plan + 1, pr_Preview := None, pr_Preparation := None, pr_Conflict := None \<rparr>)"
    by (auto simp: EditPlan_def io_bind_Done io_get_def io_throw_def io_lift_Done record_event_now_def io_now_def
        io_return_def update_plan_def io_update_def split: option.splits if_splits)
  then show ?thesis by (auto simp: recordPlanEventAt_def Let_def)
qed

text \<open>
  The plan store takes normalising as an argument. With the one of this theory, a plan that was created
  or edited holds operations that are bound, uniquely named and can be ordered.
\<close>

theorem stored_plans_bound:
  assumes "binding = (\<lambda>operations. fst (normalizeOperations E w now newID operations s d))"
    and "CreatePlanWithInvariants binding newPlanID operations invariants w1 = (Done plan, w2) \<or>
      EditPlan binding planID expected edit w1 = (Done plan, w2)"
  shows "list_all bound (pr_Operations plan) \<and> distinct (map op_OpID (pr_Operations plan)) \<and>
    (\<exists>ordered. orderOperations (pr_Operations plan) = Ok ordered)"
proof -
  obtain operations' where "fst (normalizeOperations E w now newID operations' s d) = Ok (pr_Operations plan)"
    using assms created_operations edited_operations by blast
  then obtain s' d' where run: "normalizeOperations E w now newID operations' s d = (Ok (pr_Operations plan), s', d')" by (metis prod.collapse)
  then have loop: "normalize_operations E w now newID [] operations' s d = (Ok (pr_Operations plan), s', d')"
    "\<exists>ordered. orderOperations (pr_Operations plan) = Ok ordered"
    by (auto simp: normalizeOperations_def split: if_splits prod.splits sum.splits)
  then show ?thesis using all_normalized(1) [OF loop(1)] all_normalized(2) [OF loop(1)] by blast
qed

section \<open>Binding is final\<close>

lemma bound_again:
  assumes "bound operation" "op_Kind operation \<noteq> OperationCopyFile" "op_Kind operation \<noteq> OperationReplaceMatches"
  shows "operationNormalizers E w now newID operation s d = (Ok operation, s, d)"
  using assms
  by (auto simp: bound_def operationNormalizers_def with_store_def normalizeCreateFile_def normalizeDeleteFile_def normalize_path_def normalizeMoveFile_def
      normalizeEditTarget_def range_by_handle_def range_by_locator_def bound_edit_def bind_revision_def Let_def split: OperationKind.splits)

lemma one_again:
  assumes "bound operation" "op_Kind operation \<noteq> OperationCopyFile" "op_Kind operation \<noteq> OperationReplaceMatches" "op_OpID operation \<notin> set seen"
  shows "normalize_operation E w now newID seen operation s d = (Ok operation, s, d)"
proof -
  have "operation\<lparr> op_OpID := TrimSpace (op_OpID operation) \<rparr> = operation" using assms(1) by (simp add: bound_def)
  then show ?thesis using assms bound_again [OF assms(1-3)] by (simp add: normalize_operation_def bound_def Let_def)
qed

lemma all_again:
  "list_all bound operations \<Longrightarrow> \<forall>operation \<in> set operations. op_Kind operation \<noteq> OperationCopyFile \<and> op_Kind operation \<noteq> OperationReplaceMatches \<Longrightarrow>
   distinct (map op_OpID operations) \<Longrightarrow> set (map op_OpID operations) \<inter> set seen = {} \<Longrightarrow>
   normalize_operations E w now newID seen operations s d = (Ok operations, s, d)"
proof (induction operations arbitrary: seen)
  case (Cons operation operations)
  then have "normalize_operation E w now (newID (length seen)) seen operation s d = (Ok operation, s, d)"
    by (intro one_again) auto
  moreover have "normalize_operations E w now newID (seen @ [op_OpID operation]) operations s d = (Ok operations, s, d)"
    using Cons.prems by (intro Cons.IH) auto
  ultimately show ?case by simp
qed simp

text \<open>
  Binding is final. Operations that have been normalised, other than copies and replacements of
  matches, which look at the tree each time, normalise to themselves in any later world, at any time,
  and touch neither documents nor handles: editing a plan never moves an operation that was bound to
  an older revision to a newer one.
\<close>

theorem normalized_again:
  assumes "normalizeOperations E w now newID operations s d = (Ok normalized, s', d')"
    and "\<forall>operation \<in> set normalized. op_Kind operation \<noteq> OperationCopyFile \<and> op_Kind operation \<noteq> OperationReplaceMatches"
  shows "normalizeOperations E2 w2 now2 newID2 normalized s2 d2 = (Ok normalized, s2, d2)"
proof -
  have loop: "normalize_operations E w now newID [] operations s d = (Ok normalized, s', d')" "known_dependencies normalized"
    and order: "\<exists>ordered. orderOperations normalized = Ok ordered"
    using assms(1) by (auto simp: normalizeOperations_def split: if_splits prod.splits sum.splits)
  have "list_all bound normalized" "distinct (map op_OpID normalized)" using all_normalized(1) [OF loop(1)] all_normalized(2) [OF loop(1)] by blast+
  from all_again [OF this(1) assms(2) this(2)] have "normalize_operations E2 w2 now2 newID2 [] normalized s2 d2 = (Ok normalized, s2, d2)" by simp
  then show ?thesis using loop(2) order by (auto simp: normalizeOperations_def)
qed

section \<open>An example\<close>

definition normal_env :: handle_env where
  "normal_env = \<lparr> he_native = sample_native_env, he_sectioner = None, he_files = Ok [], he_scoped = (\<lambda>_. Ok []),
     he_compile = (\<lambda>_. Error (PlainError ''no expression'')) \<rparr>"

definition create_operation :: PlanOperation where
  "create_operation = \<lparr> op_OpID = '' o '', op_Kind = OperationCreateFile, op_Target = None, op_Content = ''x'', op_Path = ''b'', op_From = [], op_To = [],
     op_Revision = [], op_DestinationRevision = [], op_ExpectedSHA256 = [], op_DependsOn = [], op_Indentation = [], op_DerivedFrom = [] \<rparr>"

lemma normal_run_Ok:
  "\<exists>normalized s d. normalizeOperations normal_env confined_world 0 (\<lambda>_ _. []) [create_operation] (newHandleStore 0) sample_documents = (Ok normalized, s, d)"
proof -
  let ?taken = "snapshotRevision normal_env confined_world ''o'' ''create target'' ''b'' True sample_documents"
  have "is_ok (fst ?taken)" by code_simp
  then obtain revision d where taken: "?taken = (Ok revision, d)" by (metis is_okD prod.collapse)
  have trimmed: "TrimSpace '' o '' = ''o''" by code_simp
  have order: "orderOperations [operation] = Ok [operation]" if "op_DependsOn operation = []" for operation
    using that by (simp add: orderOperations_def operation_edges_def dependency_edges_def implicit_edges_def op_index_def by_id_def successors_of_def Let_def)
  show ?thesis using taken trimmed order
    by (simp add: normalizeOperations_def normalize_operation_def create_operation_def normalizeIndentation_def operationNormalizers_def
        with_store_def normalizeCreateFile_def normalize_path_def bind_revision_def known_dependencies_def Let_def)
qed

theorem normalized_operations_bound_witness:
  "\<exists>operation s d. normalizeOperations normal_env confined_world 0 (\<lambda>_ _. []) [create_operation] (newHandleStore 0) sample_documents = (Ok [operation], s, d) \<and>
     op_OpID operation = ''o'' \<and> op_Revision operation \<noteq> []"
proof -
  have trimmed: "TrimSpace (op_OpID create_operation) = ''o''" by code_simp
  obtain normalized s d where run: "normalizeOperations normal_env confined_world 0 (\<lambda>_ _. []) [create_operation] (newHandleStore 0) sample_documents = (Ok normalized, s, d)"
    using normal_run_Ok by blast
  from normalized_operations_bound [OF run] trimmed obtain operation where "normalized = [operation]" "bound operation" "op_OpID operation = ''o''"
    "op_Kind operation = OperationCreateFile"
    by (auto simp: create_operation_def map_eq_Cons_conv)
  then show ?thesis using run by (auto simp: bound_def)
qed

theorem normalized_again_witness:
  "\<exists>operation. normalizeOperations normal_env (confined_world\<lparr> w_files := (\<lambda>_. None) \<rparr>) 9 (\<lambda>_ _. []) [operation] (newHandleStore 9) sample_documents =
     (Ok [operation], newHandleStore 9, sample_documents) \<and> op_Kind operation = OperationCreateFile"
proof -
  obtain normalized s d where run: "normalizeOperations normal_env confined_world 0 (\<lambda>_ _. []) [create_operation] (newHandleStore 0) sample_documents = (Ok normalized, s, d)"
    using normal_run_Ok by blast
  then have loop: "normalize_operations normal_env confined_world 0 (\<lambda>_ _. []) [] [create_operation] (newHandleStore 0) sample_documents = (Ok normalized, s, d)"
    by (auto simp: normalizeOperations_def split: if_splits prod.splits sum.splits)
  from all_normalized(1) [OF loop] obtain operation where operation: "normalized = [operation]" "op_Kind operation = OperationCreateFile"
    by (auto simp: create_operation_def map_eq_Cons_conv)
  then show ?thesis using normalized_again [OF run] by (intro exI [of _ operation]) auto
qed

end
