(* ===== verification/Evidence.thy ===== *)
theory Evidence
  imports Handles Paths
begin

text \<open>
  The ledger of diagnostics (\<^verbatim>\<open>internal/workspace/evidence.go\<close>, \<^verbatim>\<open>evidence_proof.go\<close>, \<^verbatim>\<open>evidence_prune.go\<close>): what
  providers reported about which document revision, which findings are current, stale or resolved,
  how complete the coverage is, and the notices clients read with a cursor.

  Arguments are the digests (SHA-256 over JSON), the encoding findings are sorted by, the scanner of
  cursors, the clock, and the outcome of writing the ledger's file. A payload is kept as the batch it
  encodes, or as one that does not decode; a cursor is its sequence number, which does not reach
  \<open>2 ^ 64\<close>; a Go map is an association list with distinct keys, the zero time is 0.
\<close>

section \<open>Data\<close>

datatype DiagnosticConfidence =
    ConfidenceAuthoritative
  | ConfidenceCorroborated
  | ConfidenceProvisional
  | ConfidenceUnavailable
  | ConfidenceOther string

datatype DiagnosticEvidenceKind =
    EvidencePush
  | EvidencePull
  | EvidenceWorkspace
  | EvidenceProjectCheck
  | EvidenceUnavailable
  | EvidenceKindOther string

fun kind_text :: "DiagnosticEvidenceKind \<Rightarrow> string" where
  "kind_text EvidencePush = ''lsp_push''"
| "kind_text EvidencePull = ''lsp_pull''"
| "kind_text EvidenceWorkspace = ''workspace_diagnostic''"
| "kind_text EvidenceProjectCheck = ''project_check''"
| "kind_text EvidenceUnavailable = ''unavailable''"
| "kind_text (EvidenceKindOther kind) = kind"

record DiagnosticRange =
  dr_StartLine :: int
  dr_StartCharacter :: int
  dr_EndLine :: int
  dr_EndCharacter :: int

record DiagnosticFinding =
  df_Range :: DiagnosticRange
  df_Severity :: int
  df_Code :: string
  df_Source :: string
  df_Message :: string

record CulpritCandidate =
  cc_TransactionID :: string
  cc_ExactSandbox :: bool
  cc_PostimageVersionMatch :: bool
  cc_ChangedSymbol :: bool
  cc_ImpactPredecessor :: bool
  cc_ExternalChange :: bool

record CulpritAttribution =
  ca_Rank :: string
  ca_Candidates :: "string list"
  ca_Reasons :: "string list"

record DiagnosticBatch =
  db_Kind :: DiagnosticEvidenceKind
  db_ProviderID :: string
  db_Producer :: string
  db_ProducerVersion :: string
  db_Document :: string
  db_DocumentRevision :: string
  db_PreEditDocumentRevision :: string
  db_DocumentVersion :: "int option"
  db_ExpectedVersion :: "int option"
  db_ResultID :: string
  db_TransactionID :: string
  db_StateSeq :: u64
  db_Complete :: bool
  db_TimedOut :: bool
  db_Reason :: string
  db_ProgressPending :: bool
  db_ChangeBarrier :: bool
  db_Selected :: bool
  db_Baseline :: bool
  db_nativeContentChanged :: bool
  db_Staged :: bool
  db_Dimension :: string
  db_Findings :: "DiagnosticFinding list"
  db_Candidates :: "CulpritCandidate list"
  db_ObservedAt :: int

datatype DiagnosticStatus = DiagnosticStatusCurrent | DiagnosticStatusStale | DiagnosticStatusResolved | DiagnosticStatusOther string

record DiagnosticItem =
  di_BaselineMissing :: bool
  di_ID :: string
  di_ProviderID :: string
  di_Producer :: string
  di_ProducerVersion :: string
  di_Document :: string
  di_DocumentRevision :: string
  di_DocumentVersion :: "int option"
  di_TransactionID :: string
  di_StateSeq :: u64
  di_Finding :: DiagnosticFinding
  di_EvidenceKinds :: "DiagnosticEvidenceKind list"
  di_EvidenceIDs :: "string list"
  di_FirstSeen :: int
  di_LastSeen :: int
  di_Attribution :: CulpritAttribution
  di_Status :: DiagnosticStatus
  di_StaleReason :: string
  di_StaleRevision :: string
  di_ResolvedAt :: int

definition diagnosticRetentionWindow :: int where
  "diagnosticRetentionWindow = 24 * 60 * 60 * 1000000000"

definition maxInactiveDiagnosticItems :: nat where
  "maxInactiveDiagnosticItems = 1000"

definition maxUnreferencedDiagnosticEvidence :: nat where
  "maxUnreferencedDiagnosticEvidence = 500"

definition maxDiagnosticNotices :: nat where
  "maxDiagnosticNotices = 1000"

definition maxDiagnosticEvidenceReferences :: nat where
  "maxDiagnosticEvidenceReferences = 8"

record DiagnosticDimension =
  dd_State :: string
  dd_Confidence :: DiagnosticConfidence
  dd_EvidenceIDs :: "string list"
  dd_Reasons :: "string list"

record DiagnosticNotice =
  nt_BaselineMissing :: bool
  nt_Cursor :: nat
  nt_Kind :: string
  nt_ID :: string
  nt_Severity :: int
  nt_Document :: string
  nt_Attribution :: CulpritAttribution

record DiagnosticReport =
  rp_Confidence :: DiagnosticConfidence
  rp_Coverage :: "(string \<times> DiagnosticDimension) list"
  rp_New :: "DiagnosticItem list"
  rp_Current :: "DiagnosticItem list"
  rp_Resolved :: "DiagnosticItem list"
  rp_Stale :: "DiagnosticItem list"
  rp_PreexistingCount :: int
  rp_CurrentCount :: nat
  rp_StaleCount :: nat
  rp_ProvisionalReasons :: "string list"
  rp_EvidenceIDs :: "string list"
  rp_Cursor :: nat
  rp_Notices :: "DiagnosticNotice list"
  rp_NoticesTruncated :: bool

record DiagnosticNoticePage =
  np_Notices :: "DiagnosticNotice list"
  np_Cursor :: nat
  np_Truncated :: bool
  np_More :: bool

record DiagnosticEvidence =
  de_ID :: string
  de_Kind :: string
  de_RecordedAt :: int
  de_Payload :: "DiagnosticBatch option"

record diagnosticState =
  lg_Version :: int
  lg_Sequence :: nat
  lg_Ack :: nat
  lg_Items :: "(string \<times> DiagnosticItem) list"
  lg_Active :: "(string \<times> string list) list"
  lg_Stale :: "(string \<times> string list) list"
  lg_NoticeFloor :: nat
  lg_Evidence :: "(string \<times> DiagnosticEvidence) list"
  lg_Notices :: "DiagnosticNotice list"
  lg_Dimensions :: "(string \<times> DiagnosticDimension) list"
  lg_ProviderDimensions :: "(string \<times> DiagnosticDimension) list"

text \<open>The store: the state, its file if it has one, what was delivered, and the rebuildable index of baselines (\<open>None\<close> is nil).\<close>

record diagnosticStore =
  sto_state :: diagnosticState
  sto_file :: "diagnosticState option"
  sto_persistent :: bool
  sto_delivered :: nat
  sto_baselineIndex :: "(string \<times> string) list option"

record ledger_env =
  le_fingerprint :: "string \<times> string \<times> int \<times> string \<times> string \<times> string \<times> nat \<Rightarrow> string"
  le_evidence :: "DiagnosticBatch \<Rightarrow> nat \<Rightarrow> string"
  le_proof :: "DiagnosticBatch \<Rightarrow> string"
  le_finding :: "DiagnosticFinding \<Rightarrow> string"
  le_scan :: "string \<Rightarrow> nat option"

section \<open>Helpers\<close>

definition nul :: char where
  "nul = CHR 0x00"

fun split_on :: "char \<Rightarrow> string \<Rightarrow> string list" where
  "split_on c [] = [[]]"
| "split_on c (x # xs) = (if x = c then [] # split_on c xs else (case split_on c xs of part # parts \<Rightarrow> (x # part) # parts | [] \<Rightarrow> [[x]]))"

text \<open>\<open>appendUnique\<close> sorts, \<open>appendUniqueKind\<close> does not.\<close>

definition appendUnique :: "string list \<Rightarrow> string list \<Rightarrow> string list" where
  "appendUnique values additions = sort (fold (\<lambda>v found. if v \<in> set found then found else found @ [v]) additions values)"

definition appendUniqueKind :: "DiagnosticEvidenceKind list \<Rightarrow> DiagnosticEvidenceKind \<Rightarrow> DiagnosticEvidenceKind list" where
  "appendUniqueKind values value' = (if value' \<in> set values then values else values @ [value'])"

definition withoutIDs :: "string list \<Rightarrow> string list \<Rightarrow> string list" where
  "withoutIDs ids gone = filter (\<lambda>i. i \<notin> set gone) ids"

definition idsOf :: "DiagnosticItem list \<Rightarrow> string list" where
  "idsOf items = sort (map di_ID items)"

definition last_n :: "nat \<Rightarrow> 'a list \<Rightarrow> 'a list" where
  "last_n n xs = drop (length xs - n) xs"

definition recentEvidenceIDs :: "string list \<Rightarrow> string list \<Rightarrow> string list" where
  "recentEvidenceIDs existing ids =
     fold (\<lambda>i found. last_n maxDiagnosticEvidenceReferences (filter (\<lambda>previous. previous \<noteq> i) found @ [i])) ids
       (last_n maxDiagnosticEvidenceReferences existing)"

fun confidenceRank :: "DiagnosticConfidence \<Rightarrow> nat" where
  "confidenceRank ConfidenceAuthoritative = 3"
| "confidenceRank ConfidenceCorroborated = 2"
| "confidenceRank ConfidenceProvisional = 1"
| "confidenceRank ConfidenceUnavailable = 0"
| "confidenceRank (ConfidenceOther _) = 0"

definition weakestConfidence :: "(string \<times> DiagnosticDimension) list \<Rightarrow> DiagnosticConfidence" where
  "weakestConfidence dimensions =
     (if dimensions = [] then ConfidenceUnavailable
      else fold (\<lambda>(_, d) found. if confidenceRank (dd_Confidence d) < confidenceRank found then dd_Confidence d else found)
        dimensions ConfidenceAuthoritative)"

definition evidenceIDsFromDimensions :: "(string \<times> DiagnosticDimension) list \<Rightarrow> string list" where
  "evidenceIDsFromDimensions dimensions = fold (\<lambda>(_, d) ids. appendUnique ids (dd_EvidenceIDs d)) dimensions []"

definition diagnosticCoverageReasons :: "(string \<times> DiagnosticDimension) list \<Rightarrow> string list" where
  "diagnosticCoverageReasons dimensions = fold (\<lambda>(_, d) reasons. appendUnique reasons (dd_Reasons d)) (sort_key fst dimensions) []"

definition ids_at :: "(string \<times> string list) list \<Rightarrow> string \<Rightarrow> string list" where
  "ids_at memberships key = (case map_of memberships key of Some ids \<Rightarrow> ids | None \<Rightarrow> [])"

section \<open>Findings and confidence\<close>

definition normalizeFinding :: "DiagnosticFinding \<Rightarrow> DiagnosticFinding" where
  "normalizeFinding finding =
     finding\<lparr> df_Message := join_words (fields_loop [] (df_Message finding)), df_Source := TrimSpace (df_Source finding),
       df_Code := TrimSpace (df_Code finding) \<rparr>"

definition signed_decimal :: "int \<Rightarrow> string" where
  "signed_decimal n = (if n < 0 then CHR ''-'' # decimal (nat (- n)) else decimal (nat n))"

definition diagnosticFingerprint :: "ledger_env \<Rightarrow> string \<Rightarrow> string \<Rightarrow> DiagnosticFinding \<Rightarrow> nat \<Rightarrow> string" where
  "diagnosticFingerprint L providerID document finding occurrence =
     le_fingerprint L (providerID, Clean document, df_Severity finding, df_Code finding, df_Source finding, df_Message finding, occurrence)"

definition findingIdentity :: "DiagnosticFinding \<Rightarrow> string" where
  "findingIdentity finding =
     signed_decimal (df_Severity finding) @ [nul] @ df_Code finding @ [nul] @ df_Source finding @ [nul] @ df_Message finding"

definition placement :: "DiagnosticFinding \<Rightarrow> string" where
  "placement finding =
     (let r = df_Range finding
      in findingIdentity finding @ [nul] @ ''{'' @ signed_decimal (dr_StartLine r) @ '' '' @ signed_decimal (dr_StartCharacter r) @ '' '' @
           signed_decimal (dr_EndLine r) @ '' '' @ signed_decimal (dr_EndCharacter r) @ ''}'')"

definition evidenceID :: "ledger_env \<Rightarrow> DiagnosticBatch \<Rightarrow> nat \<Rightarrow> string" where
  "evidenceID L batch sequence = ''ev_'' @ le_evidence L batch sequence"

definition currentPublication :: "DiagnosticBatch \<Rightarrow> bool" where
  "currentPublication batch =
     (case (db_DocumentVersion batch, db_ExpectedVersion batch) of (Some version, Some expected) \<Rightarrow> version \<ge> expected | _ \<Rightarrow> False)"

definition publication_confidence :: "DiagnosticBatch \<Rightarrow> DiagnosticConfidence \<times> string list" where
  "publication_confidence batch =
     (if db_TimedOut batch then (ConfidenceProvisional, [''diagnostic_barrier_timed_out''])
      else if \<not> db_Selected batch then (ConfidenceUnavailable, [''provider_not_selected''])
      else if db_ProgressPending batch then (ConfidenceProvisional, [''work_done_progress_pending''])
      else
        (case db_Kind batch of
           EvidencePush \<Rightarrow>
             if db_Complete batch \<and> currentPublication batch then (ConfidenceAuthoritative, [])
             else (ConfidenceProvisional, [''push_missing_current_document_proof''])
         | EvidencePull \<Rightarrow>
             if db_Complete batch \<and> currentPublication batch then (ConfidenceAuthoritative, [])
             else (ConfidenceProvisional, [''pull_incomplete_or_missing_result_id''])
         | EvidenceWorkspace \<Rightarrow>
             if db_Complete batch \<and> db_ResultID batch \<noteq> [] \<and> currentPublication batch then (ConfidenceAuthoritative, [])
             else (ConfidenceProvisional, [''workspace_diagnostics_incomplete''])
         | EvidenceProjectCheck \<Rightarrow>
             if db_Complete batch then (ConfidenceCorroborated, []) else (ConfidenceUnavailable, [''project_check_unavailable''])
         | _ \<Rightarrow>
             (ConfidenceUnavailable, [if TrimSpace (db_Reason batch) = [] then ''unsupported_diagnostic_evidence'' else TrimSpace (db_Reason batch)])))"

text \<open>The two deferred adjustments, the later one first.\<close>

definition confidenceFor :: "DiagnosticBatch \<Rightarrow> DiagnosticConfidence \<times> string list" where
  "confidenceFor batch =
     (let (confidence, reasons) = publication_confidence batch;
          unresolved = (db_Reason batch = ''python_environment_unresolved'');
          confidence = (if unresolved \<and> (confidence = ConfidenceAuthoritative \<or> confidence = ConfidenceCorroborated) then ConfidenceProvisional else confidence);
          reasons = (if unresolved then reasons @ [''python_environment_unresolved''] else reasons)
      in (confidence,
          if confidence = ConfidenceProvisional \<and> (db_Producer batch = ''rust_analyzer'' \<or> db_Producer batch = ''rust-analyzer'')
          then ''rust_diagnostics_pending'' # reasons else reasons))"

definition is_exact :: "CulpritCandidate \<Rightarrow> bool" where
  "is_exact candidate = cc_ExactSandbox candidate"

definition is_strong :: "CulpritCandidate \<Rightarrow> bool" where
  "is_strong candidate = (\<not> is_exact candidate \<and> cc_PostimageVersionMatch candidate \<and> \<not> cc_ExternalChange candidate)"

definition is_likely :: "CulpritCandidate \<Rightarrow> bool" where
  "is_likely candidate = (\<not> is_exact candidate \<and> \<not> is_strong candidate \<and> (cc_ChangedSymbol candidate \<or> cc_ImpactPredecessor candidate))"

definition culprit_reasons :: "CulpritCandidate \<Rightarrow> string list" where
  "culprit_reasons candidate =
     (if is_exact candidate then [''sandbox_producer_version'']
      else if is_strong candidate then [''postimage_version_match'']
      else if is_likely candidate
      then (if cc_ChangedSymbol candidate then [''changed_symbol''] else []) @ (if cc_ImpactPredecessor candidate then [''impact_predecessor''] else [])
      else [])"

definition rankCulprit :: "CulpritCandidate list \<Rightarrow> CulpritAttribution" where
  "rankCulprit candidates =
     (let named = (\<lambda>P. map cc_TransactionID (filter P candidates)); exact = named is_exact; strong = named is_strong; likely = named is_likely;
          (rank, selected) =
            (if exact \<noteq> [] then (if length exact = 1 then ''exact'' else ''ambiguous'', exact)
             else if strong \<noteq> [] then (if length strong = 1 then ''strong'' else ''ambiguous'', strong)
             else if likely \<noteq> [] then (if length likely = 1 then ''likely'' else ''ambiguous'', likely)
             else (''unattributed'', []))
      in \<lparr> ca_Rank = rank, ca_Candidates = sort selected, ca_Reasons = sort (remdups (concat (map culprit_reasons candidates))) \<rparr>)"

section \<open>Evidence\<close>

definition addNotice :: "string \<Rightarrow> DiagnosticItem \<Rightarrow> diagnosticState \<Rightarrow> diagnosticState" where
  "addNotice kind item s =
     s\<lparr> lg_Sequence := Suc (lg_Sequence s),
        lg_Notices := lg_Notices s @ [\<lparr> nt_BaselineMissing = di_BaselineMissing item, nt_Cursor = Suc (lg_Sequence s), nt_Kind = kind, nt_ID = di_ID item,
          nt_Severity = df_Severity (di_Finding item), nt_Document = di_Document item, nt_Attribution = di_Attribution item \<rparr>] \<rparr>"

definition knownDiagnosticKind :: "DiagnosticEvidenceKind \<Rightarrow> bool" where
  "knownDiagnosticKind kind = (kind \<in> {EvidencePush, EvidencePull, EvidenceWorkspace, EvidenceProjectCheck})"

definition streamCoversItem :: "DiagnosticItem \<Rightarrow> DiagnosticEvidenceKind \<Rightarrow> bool" where
  "streamCoversItem item kind \<longleftrightarrow> di_EvidenceKinds item \<noteq> [] \<and> knownDiagnosticKind kind \<and>
     list_all (\<lambda>origin. knownDiagnosticKind origin \<and> origin = kind) (di_EvidenceKinds item)"

definition dimension_of :: "DiagnosticBatch \<Rightarrow> string" where
  "dimension_of batch = (if db_Dimension batch = [] then ''edited_documents'' else db_Dimension batch)"

definition membership_key :: "DiagnosticBatch \<Rightarrow> string" where
  "membership_key batch = db_ProviderID batch @ [nul] @ db_Document batch"

definition lane_key :: "DiagnosticBatch \<Rightarrow> string" where
  "lane_key batch = dimension_of batch @ [nul] @ membership_key batch @ [nul] @ kind_text (db_Kind batch)"

definition proves_preimage :: "DiagnosticBatch \<Rightarrow> DiagnosticBatch \<Rightarrow> bool" where
  "proves_preimage batch previous \<longleftrightarrow>
     db_DocumentRevision previous = db_PreEditDocumentRevision batch \<and> \<not> db_Staged previous \<and>
     db_Producer previous = db_Producer batch \<and> db_ProducerVersion previous = db_ProducerVersion batch \<and>
     fst (confidenceFor previous) = ConfidenceAuthoritative"

definition payload_of :: "diagnosticState \<Rightarrow> string \<Rightarrow> DiagnosticBatch option" where
  "payload_of s i = (case map_of (lg_Evidence s) i of Some evidence \<Rightarrow> de_Payload evidence | None \<Rightarrow> None)"

definition baselineKnownLocked :: "diagnosticState \<Rightarrow> DiagnosticBatch \<Rightarrow> string list \<Rightarrow> bool" where
  "baselineKnownLocked s batch evidenceIDs \<longleftrightarrow>
     db_Baseline batch \<or>
     db_PreEditDocumentRevision batch \<noteq> [] \<and>
     list_ex (\<lambda>i. case payload_of s i of Some previous \<Rightarrow> proves_preimage batch previous | None \<Rightarrow> False) evidenceIDs"

definition baselineProofKey :: "ledger_env \<Rightarrow> DiagnosticBatch \<Rightarrow> DiagnosticConfidence \<Rightarrow> string" where
  "baselineProofKey L batch confidence =
     (if \<not> db_Baseline batch \<or> db_Staged batch \<or> db_DocumentRevision batch = [] \<or> confidence \<noteq> ConfidenceAuthoritative then []
      else le_proof L (batch\<lparr> db_ObservedAt := 0, db_StateSeq := 0, db_TransactionID := [], db_Candidates := [], db_PreEditDocumentRevision := [],
        db_Dimension := dimension_of batch, db_Findings := sort_key (le_finding L) (map normalizeFinding (db_Findings batch)),
        db_nativeContentChanged := False \<rparr>))"

definition stored_evidence :: "string \<Rightarrow> DiagnosticBatch \<Rightarrow> DiagnosticEvidence" where
  "stored_evidence evID batch =
     \<lparr> de_ID = evID, de_Kind = kind_text (db_Kind batch), de_RecordedAt = db_ObservedAt batch,
       de_Payload = Some (batch\<lparr> db_nativeContentChanged := False \<rparr>) \<rparr>"

definition add_evidence :: "ledger_env \<Rightarrow> DiagnosticBatch \<Rightarrow> diagnosticState \<Rightarrow> string \<times> diagnosticState" where
  "add_evidence L batch s =
     (let sequence = Suc (lg_Sequence s); evID = evidenceID L batch sequence
      in (evID, s\<lparr> lg_Sequence := sequence, lg_Evidence := AList.update evID (stored_evidence evID batch) (lg_Evidence s) \<rparr>))"

definition rebuilt_index :: "ledger_env \<Rightarrow> diagnosticState \<Rightarrow> (string \<times> string) list" where
  "rebuilt_index L s =
     fold (\<lambda>(i, evidence) index.
        case de_Payload evidence of
          None \<Rightarrow> index
        | Some previous \<Rightarrow>
            let key = baselineProofKey L previous (fst (confidenceFor previous)) in if key = [] then index else AList.update key i index)
       (lg_Evidence s) []"

text \<open>The identifier of a batch's evidence: that of a stored baseline with the same proof, or a new one.\<close>

definition store_evidence ::
  "ledger_env \<Rightarrow> DiagnosticBatch \<Rightarrow> DiagnosticConfidence \<Rightarrow> (string \<times> string) list option \<Rightarrow> diagnosticState \<Rightarrow>
   string \<times> (string \<times> string) list option \<times> diagnosticState" where
  "store_evidence L batch confidence index s =
     (let proofKey = baselineProofKey L batch confidence;
          index = (if proofKey \<noteq> [] \<and> index = None then Some (rebuilt_index L s) else index);
          known = (case index of Some entries \<Rightarrow> map_of entries proofKey | None \<Rightarrow> None)
      in case known of
           Some evID \<Rightarrow>
             if evID \<noteq> [] \<and> map_of (lg_Evidence s) evID \<noteq> None then (evID, index, s)
             else (case add_evidence L batch s of (evID, s') \<Rightarrow>
               (evID, if proofKey \<noteq> [] then map_option (AList.update proofKey evID) index else index, s'))
         | None \<Rightarrow> (case add_evidence L batch s of (evID, s') \<Rightarrow>
               (evID, if proofKey \<noteq> [] then map_option (AList.update proofKey evID) index else index, s')))"

section \<open>Coverage\<close>

definition item_reason :: "diagnosticState \<Rightarrow> string \<Rightarrow> string \<Rightarrow> string option" where
  "item_reason s prefix' i =
     (let kinds = (case map_of (lg_Items s) i of Some item \<Rightarrow> di_EvidenceKinds item | None \<Rightarrow> []);
          unknown = (kinds = [] \<or> list_ex (\<lambda>kind. \<not> knownDiagnosticKind kind \<or> map_of (lg_ProviderDimensions s) (prefix' @ kind_text kind) = None) kinds)
      in if unknown then Some ''diagnostic_origin_coverage_unknown''
         else if map_option di_Status (map_of (lg_Items s) i) = Some DiagnosticStatusStale then Some ''document_changed''
         else None)"

definition membership_reasons :: "diagnosticState \<Rightarrow> string \<Rightarrow> string \<times> string list \<Rightarrow> string list" where
  "membership_reasons s dimension entry =
     (let prefix' = dimension @ [nul] @ fst entry @ [nul];
          relevant = (dimension = ''edited_documents'' \<or> list_ex (\<lambda>(lane, _). HasPrefix lane prefix') (lg_ProviderDimensions s))
      in if relevant then List.map_filter (item_reason s prefix') (snd entry) else [])"

definition weaken :: "DiagnosticDimension \<Rightarrow> DiagnosticDimension" where
  "weaken d = (if confidenceRank (dd_Confidence d) > confidenceRank ConfidenceProvisional then d\<lparr> dd_Confidence := ConfidenceProvisional \<rparr> else d)"

definition fold_provider :: "DiagnosticDimension \<Rightarrow> DiagnosticDimension \<Rightarrow> DiagnosticDimension" where
  "fold_provider provider aggregate =
     (let aggregate = aggregate\<lparr> dd_EvidenceIDs := recentEvidenceIDs (dd_EvidenceIDs aggregate) (dd_EvidenceIDs provider),
            dd_Reasons := appendUnique (dd_Reasons aggregate) (dd_Reasons provider) \<rparr>
      in if confidenceRank (dd_Confidence provider) < confidenceRank (dd_Confidence aggregate)
         then aggregate\<lparr> dd_Confidence := dd_Confidence provider, dd_State := dd_State provider \<rparr> else aggregate)"

definition fold_reason :: "string \<Rightarrow> DiagnosticDimension \<Rightarrow> DiagnosticDimension" where
  "fold_reason reason aggregate =
     (let aggregate = (if confidenceRank (dd_Confidence aggregate) > confidenceRank ConfidenceProvisional
            then aggregate\<lparr> dd_State := ''incomplete'', dd_Confidence := ConfidenceProvisional \<rparr> else aggregate)
      in aggregate\<lparr> dd_Reasons := appendUnique (dd_Reasons aggregate) [reason] \<rparr>)"

definition aggregateDimensionLocked :: "diagnosticState \<Rightarrow> string \<Rightarrow> DiagnosticDimension" where
  "aggregateDimensionLocked s dimension =
     (let start = \<lparr> dd_State = ''complete'', dd_Confidence = ConfidenceAuthoritative, dd_EvidenceIDs = [], dd_Reasons = [] \<rparr>;
          lanes = sort_key (\<lambda>(_, d). 3 - confidenceRank (dd_Confidence d)) (sort_key fst (lg_ProviderDimensions s));
          own = filter (\<lambda>(key, _). HasPrefix key (dimension @ [nul])) lanes
      in fold fold_reason (concat (map (membership_reasons s dimension) (lg_Active s @ lg_Stale s))) (fold (\<lambda>(_, d). fold_provider d) own start))"

definition updated_dimension :: "string \<Rightarrow> DiagnosticConfidence \<Rightarrow> string list \<Rightarrow> DiagnosticDimension" where
  "updated_dimension evID confidence reasons =
     \<lparr> dd_State = (if confidence = ConfidenceProvisional \<or> confidence = ConfidenceUnavailable then ''incomplete'' else ''complete''),
       dd_Confidence = confidence, dd_EvidenceIDs = [evID], dd_Reasons = reasons \<rparr>"

definition without_placeholder :: "string \<Rightarrow> (string \<times> DiagnosticDimension) list \<Rightarrow> (string \<times> DiagnosticDimension) list" where
  "without_placeholder holder lanes = filter (\<lambda>(key, _). \<not> (key = holder \<or> HasPrefix key (holder @ [nul]))) lanes"

definition record_lane :: "DiagnosticBatch \<Rightarrow> DiagnosticConfidence \<Rightarrow> string list \<Rightarrow> string \<Rightarrow> diagnosticState \<Rightarrow> diagnosticState" where
  "record_lane batch confidence reasons evID s =
     (let dimension = dimension_of batch; updated = updated_dimension evID confidence reasons
      in if db_Kind batch = EvidenceProjectCheck then s\<lparr> lg_Dimensions := AList.update dimension updated (lg_Dimensions s) \<rparr>
         else
           let updated = (case map_of (lg_ProviderDimensions s) (lane_key batch) of
                 Some prior \<Rightarrow> updated\<lparr> dd_EvidenceIDs := recentEvidenceIDs (dd_EvidenceIDs prior) [evID] \<rparr> | None \<Rightarrow> updated);
               lanes = AList.update (lane_key batch) updated (lg_ProviderDimensions s);
               lanes = (if confidence = ConfidenceAuthoritative \<and> db_Kind batch \<noteq> EvidenceUnavailable
                 then without_placeholder (dimension @ [nul] @ ''nvim_lsp'' @ [nul] @ db_Document batch) lanes else lanes);
               s = s\<lparr> lg_ProviderDimensions := lanes \<rparr>
           in s\<lparr> lg_Dimensions := AList.update dimension (aggregateDimensionLocked s dimension) (lg_Dimensions s) \<rparr>)"

definition recordEvidenceLocked ::
  "ledger_env \<Rightarrow> DiagnosticBatch \<Rightarrow> DiagnosticConfidence \<Rightarrow> string list \<Rightarrow> (string \<times> string) list option \<Rightarrow> diagnosticState \<Rightarrow>
   string \<times> (string \<times> string) list option \<times> diagnosticState" where
  "recordEvidenceLocked L batch confidence reasons index s =
     (case store_evidence L batch confidence index s of
        (evID, index', s') \<Rightarrow> (evID, index', record_lane batch confidence reasons evID s'))"

section \<open>Findings of a batch\<close>

definition new_item :: "DiagnosticBatch \<Rightarrow> string \<Rightarrow> DiagnosticFinding \<Rightarrow> DiagnosticItem" where
  "new_item batch i finding =
     \<lparr> di_BaselineMissing = False, di_ID = i, di_ProviderID = db_ProviderID batch, di_Producer = db_Producer batch,
       di_ProducerVersion = db_ProducerVersion batch, di_Document = db_Document batch, di_DocumentRevision = [], di_DocumentVersion = None,
       di_TransactionID = [], di_StateSeq = 0, di_Finding = finding, di_EvidenceKinds = [], di_EvidenceIDs = [],
       di_FirstSeen = db_ObservedAt batch, di_LastSeen = 0, di_Attribution = rankCulprit (db_Candidates batch),
       di_Status = DiagnosticStatusOther [], di_StaleReason = [], di_StaleRevision = [], di_ResolvedAt = 0 \<rparr>"

text \<open>An item after one more observation; \<open>stored\<close> is the item the ledger holds.\<close>

definition announced :: "DiagnosticBatch \<Rightarrow> DiagnosticItem option \<Rightarrow> bool" where
  "announced batch stored =
     (case stored of None \<Rightarrow> \<not> db_Baseline batch | Some item \<Rightarrow> di_Status item = DiagnosticStatusResolved)"

definition persisting :: "DiagnosticBatch \<Rightarrow> DiagnosticItem option \<Rightarrow> bool" where
  "persisting batch stored = (case stored of None \<Rightarrow> db_Baseline batch | Some item \<Rightarrow> di_Status item = DiagnosticStatusStale)"

definition observed_item :: "DiagnosticBatch \<Rightarrow> string \<Rightarrow> bool \<Rightarrow> string \<Rightarrow> DiagnosticFinding \<Rightarrow> DiagnosticItem option \<Rightarrow> DiagnosticItem" where
  "observed_item batch evID baselineKnown i finding stored =
     (let item = (case stored of Some item \<Rightarrow> item | None \<Rightarrow> new_item batch i finding);
          item = (if stored = None \<or> di_Status item = DiagnosticStatusResolved then item\<lparr> di_BaselineMissing := \<not> baselineKnown \<rparr> else item);
          item = (if db_Baseline batch then item\<lparr> di_BaselineMissing := False, di_Attribution := rankCulprit [] \<rparr> else item);
          kinds = (if stored \<noteq> None \<and> di_EvidenceKinds item = [] then [EvidenceUnavailable] else di_EvidenceKinds item)
      in item\<lparr> di_Status := DiagnosticStatusCurrent, di_StaleReason := [], di_StaleRevision := [], di_ResolvedAt := 0, di_Finding := finding,
           di_DocumentRevision := db_DocumentRevision batch, di_DocumentVersion := db_DocumentVersion batch,
           di_TransactionID := db_TransactionID batch, di_StateSeq := db_StateSeq batch, di_LastSeen := db_ObservedAt batch,
           di_EvidenceIDs := recentEvidenceIDs (di_EvidenceIDs item) [evID], di_EvidenceKinds := appendUniqueKind kinds (db_Kind batch) \<rparr>)"

record finding_run =
  fr_state :: diagnosticState
  fr_current :: "DiagnosticItem list"
  fr_added :: "DiagnosticItem list"
  fr_seen :: "string list"
  fr_occurrences :: "string \<Rightarrow> nat"
  fr_placements :: "string list"

definition record_finding :: "ledger_env \<Rightarrow> DiagnosticBatch \<Rightarrow> string \<Rightarrow> bool \<Rightarrow> DiagnosticFinding \<Rightarrow> finding_run \<Rightarrow> finding_run" where
  "record_finding L batch evID baselineKnown raw run =
     (let finding = normalizeFinding raw; identity = findingIdentity finding; place = placement finding
      in if place \<in> set (fr_placements run) then run
         else
           let i = ''diag_'' @ diagnosticFingerprint L (db_ProviderID batch) (db_Document batch) finding (fr_occurrences run identity);
               run = run\<lparr> fr_placements := place # fr_placements run, fr_occurrences := (fr_occurrences run)(identity := Suc (fr_occurrences run identity)) \<rparr>
           in if i \<in> set (fr_seen run) then run
              else
                let s = fr_state run; stored = map_of (lg_Items s) i;
                    item = observed_item batch evID baselineKnown i finding stored;
                    s = s\<lparr> lg_Items := AList.update i item (lg_Items s) \<rparr>
                in run\<lparr> fr_state := (if announced batch stored then addNotice ''new'' item s
                       else if persisting batch stored then addNotice ''persisting'' item s else s),
                     fr_current := fr_current run @ [item],
                     fr_added := (if announced batch stored \<and> \<not> db_Baseline batch then fr_added run @ [item] else fr_added run),
                     fr_seen := i # fr_seen run \<rparr>)"

definition start_run :: "diagnosticState \<Rightarrow> finding_run" where
  "start_run s = \<lparr> fr_state = s, fr_current = [], fr_added = [], fr_seen = [], fr_occurrences = (\<lambda>_. 0), fr_placements = [] \<rparr>"

definition recordFindingsLocked :: "ledger_env \<Rightarrow> DiagnosticBatch \<Rightarrow> string \<Rightarrow> bool \<Rightarrow> diagnosticState \<Rightarrow> finding_run" where
  "recordFindingsLocked L batch evID baselineKnown s = fold (record_finding L batch evID baselineKnown) (db_Findings batch) (start_run s)"

fun resolveAbsentLocked ::
  "string list \<Rightarrow> string list \<Rightarrow> DiagnosticEvidenceKind \<Rightarrow> int \<Rightarrow> diagnosticState \<Rightarrow> DiagnosticItem list \<times> diagnosticState" where
  "resolveAbsentLocked [] seen kind observedAt s = ([], s)"
| "resolveAbsentLocked (i # ids) seen kind observedAt s =
     (case map_of (lg_Items s) i of
        None \<Rightarrow> resolveAbsentLocked ids seen kind observedAt s
      | Some item \<Rightarrow>
          if i \<in> set seen \<or> \<not> streamCoversItem item kind then resolveAbsentLocked ids seen kind observedAt s
          else
            let item = item\<lparr> di_Status := DiagnosticStatusResolved, di_ResolvedAt := observedAt \<rparr>;
                s = addNotice ''resolved'' item (s\<lparr> lg_Items := AList.update i item (lg_Items s) \<rparr>)
            in (case resolveAbsentLocked ids seen kind observedAt s of (resolved, s') \<Rightarrow> (item # resolved, s')))"

section \<open>Changed documents\<close>

text \<open>\<open>strings.Cut\<close> at the first NUL; a key without one belongs to no document.\<close>

definition key_document :: "string \<Rightarrow> string option" where
  "key_document key = (if nul \<in> set key then Some (drop 1 (dropWhile (\<lambda>c. c \<noteq> nul) key)) else None)"

definition stale_item :: "string \<Rightarrow> DiagnosticItem \<Rightarrow> DiagnosticItem" where
  "stale_item revision item = item\<lparr> di_Status := DiagnosticStatusStale, di_StaleReason := ''document_changed'', di_StaleRevision := revision \<rparr>"

fun stale_ids :: "string \<Rightarrow> string \<Rightarrow> string list \<Rightarrow> diagnosticState \<Rightarrow> string list \<times> bool \<times> diagnosticState" where
  "stale_ids revision key [] s = ([], False, s)"
| "stale_ids revision key (i # ids) s =
     (case map_of (lg_Items s) i of
        None \<Rightarrow> stale_ids revision key ids s
      | Some item \<Rightarrow>
          if revision \<noteq> [] \<and> di_DocumentRevision item = revision
          then (case stale_ids revision key ids s of (remaining, changed, s') \<Rightarrow> (i # remaining, changed, s'))
          else
            let item = stale_item revision item;
                s = addNotice ''stale'' item (s\<lparr> lg_Items := AList.update i item (lg_Items s),
                      lg_Stale := AList.update key (appendUnique (ids_at (lg_Stale s) key) [i]) (lg_Stale s) \<rparr>)
            in (case stale_ids revision key ids s of (remaining, _, s') \<Rightarrow> (remaining, True, s')))"

definition names_key :: "string list \<Rightarrow> string \<Rightarrow> bool" where
  "names_key names key = (case key_document key of Some document \<Rightarrow> document \<in> set names | None \<Rightarrow> False)"

definition stale_key :: "string list \<Rightarrow> string \<Rightarrow> string \<Rightarrow> bool \<times> diagnosticState \<Rightarrow> bool \<times> diagnosticState" where
  "stale_key names revision key run =
     (if \<not> names_key names key then run
      else
        (case stale_ids revision key (ids_at (lg_Active (snd run)) key) (snd run) of
           (remaining, changed, s) \<Rightarrow>
             (fst run \<or> changed,
              s\<lparr> lg_Active := (if remaining = [] then AList.delete key (lg_Active s) else AList.update key remaining (lg_Active s)) \<rparr>)))"

definition lane_current :: "diagnosticState \<Rightarrow> string \<Rightarrow> DiagnosticDimension \<Rightarrow> bool" where
  "lane_current s revision d \<longleftrightarrow>
     dd_EvidenceIDs d \<noteq> [] \<and> revision \<noteq> [] \<and>
     (case payload_of s (last (dd_EvidenceIDs d)) of Some batch \<Rightarrow> db_DocumentRevision batch = revision | None \<Rightarrow> False)"

definition lane_outdated :: "string list \<Rightarrow> string \<Rightarrow> diagnosticState \<Rightarrow> string \<times> DiagnosticDimension \<Rightarrow> bool" where
  "lane_outdated names revision s lane =
     (let parts = split_on nul (fst lane) in length parts \<ge> 3 \<and> parts ! 2 \<in> set names \<and> \<not> lane_current s revision (snd lane))"

definition outdated_lane :: "DiagnosticDimension \<Rightarrow> DiagnosticDimension" where
  "outdated_lane d =
     (weaken (d\<lparr> dd_State := ''incomplete'' \<rparr>))\<lparr> dd_Reasons := appendUnique (dd_Reasons d) [''document_changed''] \<rparr>"

definition aggregate_all :: "string list \<Rightarrow> diagnosticState \<Rightarrow> diagnosticState" where
  "aggregate_all names s =
     s\<lparr> lg_Dimensions := fold (\<lambda>name dimensions. AList.update name (aggregateDimensionLocked s name) dimensions) names (lg_Dimensions s) \<rparr>"

definition documentChangedLocked :: "string list \<Rightarrow> string \<Rightarrow> diagnosticState \<Rightarrow> bool \<times> diagnosticState" where
  "documentChangedLocked documents revision s =
     (let names = map Clean documents;
          (changed, s) = fold (stale_key names revision) (sort (map fst (lg_Active s))) (False, s);
          outdated = filter (lane_outdated names revision s) (lg_ProviderDimensions s);
          s = s\<lparr> lg_ProviderDimensions := map (\<lambda>lane. if lane_outdated names revision s lane then (fst lane, outdated_lane (snd lane)) else lane) (lg_ProviderDimensions s) \<rparr>
      in (changed \<or> outdated \<noteq> [], aggregate_all (remdups (map (\<lambda>lane. hd (split_on nul (fst lane))) outdated)) s))"

section \<open>Recording\<close>

definition count_ids :: "(string \<times> string list) list \<Rightarrow> nat" where
  "count_ids memberships = sum_list (map (\<lambda>(_, ids). length ids) memberships)"

definition items_of :: "diagnosticState \<Rightarrow> (string \<times> string list) list \<Rightarrow> DiagnosticItem list" where
  "items_of s memberships = sort_key di_ID (List.map_filter (map_of (lg_Items s)) (concat (map snd memberships)))"

definition reportLocked :: "diagnosticState \<Rightarrow> DiagnosticItem list \<Rightarrow> DiagnosticItem list \<Rightarrow> string \<Rightarrow> string list \<Rightarrow> DiagnosticReport" where
  "reportLocked s added resolved evID reasons =
     \<lparr> rp_Confidence = weakestConfidence (lg_Dimensions s), rp_Coverage = lg_Dimensions s, rp_New = added, rp_Current = [], rp_Resolved = resolved,
       rp_Stale = items_of s (lg_Stale s), rp_PreexistingCount = int (count_ids (lg_Active s)) - int (length added),
       rp_CurrentCount = count_ids (lg_Active s), rp_StaleCount = count_ids (lg_Stale s),
       rp_ProvisionalReasons = appendUnique reasons (diagnosticCoverageReasons (lg_Dimensions s)), rp_EvidenceIDs = [evID],
       rp_Cursor = lg_Sequence s, rp_Notices = [], rp_NoticesTruncated = False \<rparr>"

text \<open>Staged findings are items for the caller only; placements are not compared.\<close>

definition staged_item :: "DiagnosticBatch \<Rightarrow> string \<Rightarrow> string \<Rightarrow> DiagnosticFinding \<Rightarrow> DiagnosticItem" where
  "staged_item batch evID i finding =
     (new_item batch i finding)\<lparr> di_DocumentRevision := db_DocumentRevision batch, di_DocumentVersion := db_DocumentVersion batch,
       di_TransactionID := db_TransactionID batch, di_StateSeq := db_StateSeq batch, di_EvidenceKinds := [db_Kind batch], di_EvidenceIDs := [evID],
       di_Status := DiagnosticStatusCurrent, di_LastSeen := db_ObservedAt batch \<rparr>"

fun staged_loop :: "ledger_env \<Rightarrow> DiagnosticBatch \<Rightarrow> string \<Rightarrow> string list \<Rightarrow> (string \<Rightarrow> nat) \<Rightarrow> DiagnosticFinding list \<Rightarrow> DiagnosticItem list" where
  "staged_loop L batch evID seen occurrences [] = []"
| "staged_loop L batch evID seen occurrences (raw # rest) =
     (let finding = normalizeFinding raw; identity = findingIdentity finding;
          i = ''diag_'' @ diagnosticFingerprint L (db_ProviderID batch) (db_Document batch) finding (occurrences identity);
          occurrences = occurrences(identity := Suc (occurrences identity))
      in if i \<in> set seen then staged_loop L batch evID seen occurrences rest
         else staged_item batch evID i finding # staged_loop L batch evID (i # seen) occurrences rest)"

definition stagedItems :: "ledger_env \<Rightarrow> DiagnosticBatch \<Rightarrow> string \<Rightarrow> DiagnosticItem list" where
  "stagedItems L batch evID = staged_loop L batch evID [] (\<lambda>_. 0) (db_Findings batch)"

definition recordStagedLocked ::
  "ledger_env \<Rightarrow> DiagnosticBatch \<Rightarrow> DiagnosticConfidence \<Rightarrow> string list \<Rightarrow> diagnosticState \<Rightarrow> DiagnosticReport \<times> diagnosticState" where
  "recordStagedLocked L batch confidence reasons s =
     (case add_evidence L batch s of
        (evID, s') \<Rightarrow>
          let current = stagedItems L batch evID
          in (\<lparr> rp_Confidence = confidence, rp_Coverage = lg_Dimensions s', rp_New = current, rp_Current = current, rp_Resolved = [], rp_Stale = [],
                rp_PreexistingCount = 0, rp_CurrentCount = length current, rp_StaleCount = 0, rp_ProvisionalReasons = reasons, rp_EvidenceIDs = [evID],
                rp_Cursor = lg_Sequence s', rp_Notices = [], rp_NoticesTruncated = False \<rparr>, s'))"

definition withdraws :: "DiagnosticBatch \<Rightarrow> DiagnosticConfidence \<Rightarrow> bool" where
  "withdraws batch confidence \<longleftrightarrow>
     \<not> db_Baseline batch \<and> db_Complete batch \<and> confidenceRank confidence \<ge> confidenceRank ConfidenceCorroborated"

definition not_old :: "DiagnosticBatch \<Rightarrow> bool" where
  "not_old batch \<longleftrightarrow> db_ExpectedVersion batch = None \<or> db_DocumentVersion batch = None \<or> currentPublication batch"

definition record_published ::
  "ledger_env \<Rightarrow> DiagnosticBatch \<Rightarrow> DiagnosticConfidence \<Rightarrow> string list \<Rightarrow> (string \<times> string) list option \<Rightarrow> diagnosticState \<Rightarrow>
   DiagnosticReport \<times> (string \<times> string) list option \<times> diagnosticState" where
  "record_published L batch confidence reasons index s =
     (let key = membership_key batch; dimension = dimension_of batch;
          prior = (case map_of (lg_ProviderDimensions s) (lane_key batch) of Some d \<Rightarrow> dd_EvidenceIDs d | None \<Rightarrow> []);
          baselineKnown = baselineKnownLocked s batch prior;
          (evID, index, s) = recordEvidenceLocked L batch confidence reasons index s;
          previous = ids_at (lg_Active s) key; previousStale = ids_at (lg_Stale s) key;
          run = (if not_old batch then recordFindingsLocked L batch evID baselineKnown s else start_run s);
          (resolved, s) = (if withdraws batch confidence
             then resolveAbsentLocked (previous @ previousStale) (fr_seen run) (db_Kind batch) (db_ObservedAt batch) (fr_state run) else ([], fr_state run));
          s = s\<lparr> lg_Active := AList.update key (appendUnique (withoutIDs previous (map di_ID resolved)) (idsOf (fr_current run))) (lg_Active s),
                lg_Stale := AList.update key (withoutIDs previousStale (map di_ID resolved @ fr_seen run)) (lg_Stale s) \<rparr>;
          s = (if db_Kind batch = EvidenceProjectCheck then s
               else s\<lparr> lg_Dimensions := AList.update dimension (aggregateDimensionLocked s dimension) (lg_Dimensions s) \<rparr>);
          report = reportLocked s (fr_added run) resolved evID reasons;
          report = (if confidenceRank confidence < confidenceRank (rp_Confidence report) then report\<lparr> rp_Confidence := confidence \<rparr> else report)
      in (report\<lparr> rp_Current := fr_current run \<rparr>, index, s))"

definition recordLocked ::
  "ledger_env \<Rightarrow> DiagnosticBatch \<Rightarrow> (string \<times> string) list option \<Rightarrow> diagnosticState \<Rightarrow>
   DiagnosticReport \<times> (string \<times> string) list option \<times> diagnosticState" where
  "recordLocked L batch index s =
     (let s = (if db_Baseline batch \<and> \<not> db_Staged batch \<and> db_nativeContentChanged batch
             then snd (documentChangedLocked [db_Document batch] (db_DocumentRevision batch) s) else s);
          (confidence, reasons) = confidenceFor batch
      in if db_Staged batch then (case recordStagedLocked L batch confidence reasons s of (report, s') \<Rightarrow> (report, index, s'))
         else record_published L batch confidence reasons index s)"

section \<open>Retention\<close>

definition oldest :: "nat \<Rightarrow> (string \<Rightarrow> int) \<Rightarrow> string list \<Rightarrow> string list" where
  "oldest excess at ids = take excess (sort_key at (sort ids))"

definition dropOldest :: "nat \<Rightarrow> ('a \<Rightarrow> int) \<Rightarrow> (string \<times> 'a) list \<Rightarrow> (string \<times> 'a) list \<Rightarrow> (string \<times> 'a) list" where
  "dropOldest bound at candidates entries =
     (let gone = oldest (length candidates - bound) (\<lambda>i. case map_of entries i of Some x \<Rightarrow> at x | None \<Rightarrow> 0) (map fst candidates)
      in filter (\<lambda>(i, _). i \<notin> set gone) entries)"

definition floor_over :: "DiagnosticNotice list \<Rightarrow> nat \<Rightarrow> nat" where
  "floor_over dropped floor' = fold (\<lambda>notice n. if nt_Cursor notice > n then nt_Cursor notice else n) dropped floor'"

definition pruneNoticesLocked :: "diagnosticState \<Rightarrow> diagnosticState" where
  "pruneNoticesLocked s =
     (let retained = filter (\<lambda>notice. nt_Cursor notice > lg_Ack s) (lg_Notices s);
          floor' = floor_over (filter (\<lambda>notice. \<not> nt_Cursor notice > lg_Ack s) (lg_Notices s)) (lg_NoticeFloor s);
          excess = length retained - maxDiagnosticNotices
      in if excess > 0
         then s\<lparr> lg_Notices := drop excess retained, lg_NoticeFloor := floor_over [retained ! (excess - 1)] floor' \<rparr>
         else s\<lparr> lg_Notices := retained, lg_NoticeFloor := floor' \<rparr>)"

definition live_item :: "diagnosticState \<Rightarrow> string \<Rightarrow> bool" where
  "live_item s i \<longleftrightarrow>
     list_ex (\<lambda>(_, ids). i \<in> set ids) (lg_Active s) \<or> list_ex (\<lambda>(_, ids). i \<in> set ids) (lg_Stale s) \<or>
     list_ex (\<lambda>notice. nt_ID notice = i) (lg_Notices s)"

definition pruneItemsLocked :: "int \<Rightarrow> diagnosticState \<Rightarrow> diagnosticState" where
  "pruneItemsLocked now s =
     (let kept = filter (\<lambda>(i, item). live_item s i \<or> \<not> now - di_LastSeen item > diagnosticRetentionWindow) (lg_Items s);
          inactive = filter (\<lambda>(i, _). \<not> live_item s i) kept
      in s\<lparr> lg_Items := dropOldest maxInactiveDiagnosticItems di_LastSeen inactive kept \<rparr>)"

definition bound_references :: "diagnosticState \<Rightarrow> diagnosticState" where
  "bound_references s =
     s\<lparr> lg_Items := map (\<lambda>(i, item). (i, item\<lparr> di_EvidenceIDs := recentEvidenceIDs [] (di_EvidenceIDs item) \<rparr>)) (lg_Items s),
        lg_Dimensions := map (\<lambda>(name, d). (name, d\<lparr> dd_EvidenceIDs := recentEvidenceIDs [] (dd_EvidenceIDs d) \<rparr>)) (lg_Dimensions s),
        lg_ProviderDimensions := map (\<lambda>(key, d). (key, d\<lparr> dd_EvidenceIDs := recentEvidenceIDs [] (dd_EvidenceIDs d) \<rparr>)) (lg_ProviderDimensions s) \<rparr>"

definition referenced :: "string list \<Rightarrow> diagnosticState \<Rightarrow> string \<Rightarrow> bool" where
  "referenced retained s i \<longleftrightarrow>
     i \<in> set retained \<or> list_ex (\<lambda>(_, item). i \<in> set (di_EvidenceIDs item)) (lg_Items s) \<or>
     list_ex (\<lambda>(_, d). i \<in> set (dd_EvidenceIDs d)) (lg_Dimensions s) \<or>
     list_ex (\<lambda>(_, d). i \<in> set (dd_EvidenceIDs d)) (lg_ProviderDimensions s)"

definition pruneEvidenceLocked ::
  "int \<Rightarrow> string list \<Rightarrow> (string \<times> string) list option \<Rightarrow> diagnosticState \<Rightarrow> (string \<times> string) list option \<times> diagnosticState" where
  "pruneEvidenceLocked now retained index s =
     (let s = bound_references s;
          kept = filter (\<lambda>(i, evidence). referenced retained s i \<or> \<not> now - de_RecordedAt evidence > diagnosticRetentionWindow) (lg_Evidence s);
          unreferenced = filter (\<lambda>(i, _). \<not> referenced retained s i) kept;
          s = s\<lparr> lg_Evidence := dropOldest maxUnreferencedDiagnosticEvidence de_RecordedAt unreferenced kept \<rparr>
      in (map_option (filter (\<lambda>(_, i). map_of (lg_Evidence s) i \<noteq> None)) index, s))"

definition pruneLocked ::
  "int \<Rightarrow> string list \<Rightarrow> (string \<times> string) list option \<Rightarrow> diagnosticState \<Rightarrow> (string \<times> string) list option \<times> diagnosticState" where
  "pruneLocked now retained index s = pruneEvidenceLocked now retained index (pruneItemsLocked now (pruneNoticesLocked s))"

section \<open>The store\<close>

text \<open>What became of writing the file: written, not written, or written although the call failed.\<close>

datatype write_outcome = Written | NotWritten go_error | WrittenUnsynced go_error

definition save :: "write_outcome \<Rightarrow> diagnosticStore \<Rightarrow> unit result \<times> diagnosticStore" where
  "save outcome store =
     (if \<not> sto_persistent store then (Ok (), store)
      else
        (case outcome of
           Written \<Rightarrow> (Ok (), store\<lparr> sto_file := Some (sto_state store) \<rparr>)
         | NotWritten e \<Rightarrow> (Error e, store)
         | WrittenUnsynced e \<Rightarrow> (Error e, store\<lparr> sto_file := Some (sto_state store) \<rparr>)))"

definition prepared_batch :: "int \<Rightarrow> DiagnosticBatch \<Rightarrow> DiagnosticBatch" where
  "prepared_batch now batch =
     (let batch = batch\<lparr> db_ObservedAt := (if db_ObservedAt batch = 0 then now else db_ObservedAt batch), db_Document := Clean (db_Document batch) \<rparr>
      in if db_Baseline batch then batch\<lparr> db_TransactionID := [], db_Candidates := [] \<rparr> else batch)"

definition refused_batch :: "DiagnosticBatch \<Rightarrow> go_error option" where
  "refused_batch batch =
     (if db_ProviderID batch = [] \<or> db_Producer batch = [] then Some (PlainError ''diagnostic evidence requires provider_id and producer'')
      else if \<not> db_Selected batch then Some (PlainError ''diagnostic evidence from an unselected provider is rejected'')
      else None)"

fun record_all ::
  "ledger_env \<Rightarrow> DiagnosticBatch list \<Rightarrow> (string \<times> string) list option \<Rightarrow> diagnosticState \<Rightarrow>
   DiagnosticReport list \<times> (string \<times> string) list option \<times> diagnosticState" where
  "record_all L [] index s = ([], index, s)"
| "record_all L (batch # batches) index s =
     (case recordLocked L batch index s of
        (report, index', s') \<Rightarrow> (case record_all L batches index' s' of (reports, index'', s'') \<Rightarrow> (report # reports, index'', s'')))"

definition recordBatches ::
  "ledger_env \<Rightarrow> int \<Rightarrow> string list \<Rightarrow> write_outcome \<Rightarrow> DiagnosticBatch list \<Rightarrow> diagnosticStore \<Rightarrow> DiagnosticReport list result \<times> diagnosticStore" where
  "recordBatches L now retained outcome batches store =
     (if batches = [] then (Ok [], store)
      else
        (case List.map_filter refused_batch batches of
           e # _ \<Rightarrow> (Error e, store)
         | [] \<Rightarrow>
             let previous = sto_state store;
                 (reports, index, s) = record_all L (map (prepared_batch now) batches) (sto_baselineIndex store) previous;
                 (index, s) = pruneLocked now (retained @ concat (map rp_EvidenceIDs reports)) index s
             in (case save outcome (store\<lparr> sto_state := s, sto_baselineIndex := index \<rparr>) of
                   (Inl e, store') \<Rightarrow> (Error e, store'\<lparr> sto_state := previous, sto_baselineIndex := None \<rparr>)
                 | (Inr _, store') \<Rightarrow> (Ok reports, store'))))"

definition documentChanged :: "string list \<Rightarrow> string \<Rightarrow> write_outcome \<Rightarrow> diagnosticStore \<Rightarrow> bool result \<times> diagnosticStore" where
  "documentChanged documents revision outcome store =
     (case documentChangedLocked documents revision (sto_state store) of
        (changed, s) \<Rightarrow>
          if \<not> changed then (Ok False, store\<lparr> sto_state := s \<rparr>)
          else (case save outcome (store\<lparr> sto_state := s \<rparr>) of (Inl e, store') \<Rightarrow> (Error e, store') | (Inr _, store') \<Rightarrow> (Ok True, store')))"

definition parseDiagnosticCursor :: "ledger_env \<Rightarrow> string \<Rightarrow> nat result" where
  "parseDiagnosticCursor L cursor =
     (if cursor = [] then Ok 0
      else (case le_scan L cursor of Some n \<Rightarrow> Ok n | None \<Rightarrow> Error (PlainError ''invalid diagnostic cursor'')))"

definition noticed_items :: "diagnosticState \<Rightarrow> string \<Rightarrow> DiagnosticNotice list \<Rightarrow> DiagnosticItem option list" where
  "noticed_items s kind notices = map (\<lambda>notice. map_of (lg_Items s) (nt_ID notice)) (filter (\<lambda>notice. nt_Kind notice = kind) notices)"

definition zero_item :: DiagnosticItem where
  "zero_item = \<lparr> di_BaselineMissing = False, di_ID = [], di_ProviderID = [], di_Producer = [], di_ProducerVersion = [], di_Document = [],
     di_DocumentRevision = [], di_DocumentVersion = None, di_TransactionID = [], di_StateSeq = 0,
     di_Finding = \<lparr> df_Range = \<lparr> dr_StartLine = 0, dr_StartCharacter = 0, dr_EndLine = 0, dr_EndCharacter = 0 \<rparr>, df_Severity = 0, df_Code = [],
       df_Source = [], df_Message = [] \<rparr>, di_EvidenceKinds = [], di_EvidenceIDs = [], di_FirstSeen = 0, di_LastSeen = 0,
     di_Attribution = \<lparr> ca_Rank = [], ca_Candidates = [], ca_Reasons = [] \<rparr>, di_Status = DiagnosticStatusOther [], di_StaleReason = [],
     di_StaleRevision = [], di_ResolvedAt = 0 \<rparr>"

definition or_zero :: "DiagnosticItem option list \<Rightarrow> DiagnosticItem list" where
  "or_zero items = map (case_option zero_item (\<lambda>item. item)) items"

definition no_coverage :: "(string \<times> DiagnosticDimension) list" where
  "no_coverage = [(''edited_documents'', \<lparr> dd_State = ''unavailable'', dd_Confidence = ConfidenceUnavailable, dd_EvidenceIDs = [],
     dd_Reasons = [''no_diagnostic_evidence''] \<rparr>)]"

definition query_report :: "diagnosticState \<Rightarrow> diagnosticState \<Rightarrow> nat \<Rightarrow> bool \<Rightarrow> DiagnosticReport" where
  "query_report before s seq truncated =
     (let notices = filter (\<lambda>notice. nt_Cursor notice > seq) (lg_Notices before);
          added = or_zero (noticed_items before ''new'' notices); unproven = (lg_Dimensions s = [])
      in \<lparr> rp_Confidence = (if unproven then ConfidenceUnavailable else weakestConfidence (lg_Dimensions s)),
           rp_Coverage = (if unproven then no_coverage else lg_Dimensions s), rp_New = added, rp_Current = items_of s (lg_Active s),
           rp_Resolved = or_zero (noticed_items before ''resolved'' notices), rp_Stale = or_zero (noticed_items before ''stale'' notices),
           rp_PreexistingCount = int (count_ids (lg_Active s) - length added), rp_CurrentCount = count_ids (lg_Active s),
           rp_StaleCount = count_ids (lg_Stale s),
           rp_ProvisionalReasons = (if unproven then [''no_diagnostic_evidence''] else diagnosticCoverageReasons (lg_Dimensions s)),
           rp_EvidenceIDs = evidenceIDsFromDimensions (lg_Dimensions s), rp_Cursor = lg_Sequence s, rp_Notices = notices,
           rp_NoticesTruncated = truncated \<rparr>)"

definition query :: "ledger_env \<Rightarrow> int \<Rightarrow> string list \<Rightarrow> write_outcome \<Rightarrow> string \<Rightarrow> diagnosticStore \<Rightarrow> DiagnosticReport result \<times> diagnosticStore" where
  "query L now retained outcome since store =
     (case parseDiagnosticCursor L since of
        Inl e \<Rightarrow> (Error e, store)
      | Inr seq \<Rightarrow>
          let before = sto_state store;
              before = (if since \<noteq> [] \<and> seq > lg_Ack before then before\<lparr> lg_Ack := seq \<rparr> else before);
              truncated = (seq < lg_NoticeFloor before);
              (index, s) = pruneLocked now retained (sto_baselineIndex store) before
          in (case save outcome (store\<lparr> sto_state := s, sto_baselineIndex := index \<rparr>) of
                (Inl e, store') \<Rightarrow> (Error e, store')
              | (Inr _, store') \<Rightarrow> (Ok (query_report before s seq truncated), store')))"

definition page_limit :: "int \<Rightarrow> nat" where
  "page_limit limit = (if limit \<le> 0 then 20 else nat limit)"

definition pendingNotices :: "int \<Rightarrow> diagnosticStore \<Rightarrow> DiagnosticNotice list \<times> diagnosticStore" where
  "pendingNotices limit store =
     (let floor' = max (lg_Ack (sto_state store)) (sto_delivered store);
          out = take (page_limit limit) (filter (\<lambda>notice. nt_Cursor notice > floor') (lg_Notices (sto_state store)))
      in (out, if out = [] then store else store\<lparr> sto_delivered := nt_Cursor (last out) \<rparr>))"

definition noticeHead :: "diagnosticStore \<Rightarrow> nat" where
  "noticeHead store =
     (if lg_Notices (sto_state store) = [] then lg_NoticeFloor (sto_state store) else nt_Cursor (last (lg_Notices (sto_state store))))"

definition noticesSince :: "ledger_env \<Rightarrow> string \<Rightarrow> int \<Rightarrow> diagnosticStore \<Rightarrow> DiagnosticNoticePage result" where
  "noticesSince L cursor limit store =
     (case parseDiagnosticCursor L cursor of
        Inl e \<Rightarrow> Error e
      | Inr seq \<Rightarrow>
          let later = filter (\<lambda>notice. nt_Cursor notice > seq) (lg_Notices (sto_state store)); page = take (page_limit limit) later
          in Ok \<lparr> np_Notices = page, np_Cursor = (if page = [] then seq else nt_Cursor (last page)),
               np_Truncated = (seq < lg_NoticeFloor (sto_state store)), np_More = (length later > page_limit limit) \<rparr>)"

definition findings :: "diagnosticStore \<Rightarrow> string list \<Rightarrow> (string \<times> DiagnosticFinding) list" where
  "findings store ids =
     List.map_filter (\<lambda>i. map_option (\<lambda>item. (i, di_Finding item)) (map_of (lg_Items (sto_state store)) i)) (remdups ids)"

definition evidenceByID :: "diagnosticStore \<Rightarrow> string \<Rightarrow> DiagnosticEvidence result" where
  "evidenceByID store i =
     (case map_of (lg_Evidence (sto_state store)) i of Some evidence \<Rightarrow> Ok evidence | None \<Rightarrow> Error (PlainError ''evidence not found''))"

section \<open>Opening a ledger\<close>

definition legacy_lane :: "DiagnosticDimension \<Rightarrow> DiagnosticDimension" where
  "legacy_lane d = (weaken (d\<lparr> dd_State := ''incomplete'' \<rparr>))\<lparr> dd_Reasons := appendUnique (dd_Reasons d) [''legacy_stream_coverage_unknown''] \<rparr>"

definition migrateDocumentDimensions :: "diagnosticState \<Rightarrow> diagnosticState" where
  "migrateDocumentDimensions s =
     (let names = remdups (map (\<lambda>(key, _). takeWhile (\<lambda>c. c \<noteq> nul) key) (lg_ProviderDimensions s));
          s = s\<lparr> lg_ProviderDimensions := map (\<lambda>(key, d). (key, if length (filter (\<lambda>c. c = nul) key) < 3 then legacy_lane d else d)) (lg_ProviderDimensions s) \<rparr>;
          s = aggregate_all names s
      in if lg_Version s \<noteq> 3
         then s\<lparr> lg_Dimensions := map (\<lambda>(name, d). (name, if name \<in> set names then d else legacy_lane d)) (lg_Dimensions s) \<rparr>
         else s)"

definition empty_ledger :: diagnosticState where
  "empty_ledger = \<lparr> lg_Version = 3, lg_Sequence = 0, lg_Ack = 0, lg_Items = [], lg_Active = [], lg_Stale = [], lg_NoticeFloor = 0,
     lg_Evidence = [], lg_Notices = [], lg_Dimensions = [], lg_ProviderDimensions = [] \<rparr>"

datatype ledger_file = NoLedger | UnreadableLedger go_error | UndecodableLedger go_error | LedgerFile diagnosticState

definition opened :: "diagnosticState \<Rightarrow> diagnosticState option \<Rightarrow> bool \<Rightarrow> diagnosticStore" where
  "opened s content persistent =
     \<lparr> sto_state = s, sto_file = content, sto_persistent = persistent, sto_delivered = 0, sto_baselineIndex = None \<rparr>"

definition newDiagnosticStore :: "bool \<Rightarrow> write_outcome \<Rightarrow> ledger_file \<Rightarrow> diagnosticStore result" where
  "newDiagnosticStore persistent outcome content =
     (if \<not> persistent then Ok (opened empty_ledger None False)
      else
        (case content of
           NoLedger \<Rightarrow> Ok (opened empty_ledger None True)
         | UnreadableLedger e \<Rightarrow> Error (WrappedError ''read diagnostic state'' e)
         | UndecodableLedger e \<Rightarrow> Error (WrappedError ''decode diagnostic state'' e)
         | LedgerFile s \<Rightarrow>
             if lg_Version s \<notin> {1, 2, 3} then Error (PlainError ''unsupported diagnostic state version'')
             else
               let migrated = migrateDocumentDimensions s
               in if lg_Version s = 3 then Ok (opened migrated (Some s) True)
                  else
                    (case save outcome (opened (migrated\<lparr> lg_Version := 3 \<rparr>) (Some s) True) of
                       (Inl e, _) \<Rightarrow> Error e
                     | (Inr _, store) \<Rightarrow> Ok store)))"

section \<open>The workspace's ledger\<close>

definition retainedDiagnosticEvidence :: "world \<Rightarrow> string list" where
  "retainedDiagnosticEvidence w =
     concat (map (\<lambda>(_, plan).
       (case pr_Preparation plan of Some preparation \<Rightarrow> concat (map vs_EvidenceIDs (pp_Verification preparation)) | None \<Rightarrow> []) @
       concat (map iv_EvidenceIDs (pr_Invariants plan))) (w_plans w))"

definition RecordDiagnosticEvidenceBatches ::
  "ledger_env \<Rightarrow> int \<Rightarrow> write_outcome \<Rightarrow> world \<Rightarrow> DiagnosticBatch list \<Rightarrow> diagnosticStore \<Rightarrow> DiagnosticReport list result \<times> diagnosticStore" where
  "RecordDiagnosticEvidenceBatches L now outcome w batches store =
     recordBatches L now (retainedDiagnosticEvidence w) outcome
       (map (\<lambda>batch. if db_StateSeq batch = 0 then batch\<lparr> db_StateSeq := id_StateSeq (w_identity w) \<rparr> else batch) batches) store"

definition snapshot_at :: "Identity \<Rightarrow> string \<Rightarrow> DiskSnapshot \<Rightarrow> string \<Rightarrow> DocumentSnapshot" where
  "snapshot_at identity absolute disk contentHash =
     \<lparr> dn_Workspace = identity, dn_URI = file_uri absolute, dn_Revision = [], dn_ContentSHA256 = contentHash, dn_Disk = disk,
       dn_ChangedTick = 0, dn_Dirty = False, dn_LSPVersions = [] \<rparr>"

definition DiagnosticPreEditRevision :: "digests \<Rightarrow> world \<Rightarrow> doc_state \<Rightarrow> PlanStageFile \<Rightarrow> string result" where
  "DiagnosticPreEditRevision H w d staged =
     (case w_resolve w (sf_Path staged) of
        Inl e \<Rightarrow> Error e
      | Inr absolute \<Rightarrow>
          Ok (revisionFor H (snapshot_at (dw_identity d) absolute (sf_BeforeDisk staged) (if sf_BeforeExists staged then dg_hash H (sf_Before staged) else []))))"

definition diagnosticBaselineRevision :: "digests \<Rightarrow> world \<Rightarrow> doc_state \<Rightarrow> string \<Rightarrow> (string \<times> bool) result" where
  "diagnosticBaselineRevision H w d path =
     (case w_resolve w path of
        Inl e \<Rightarrow> Error e
      | Inr absolute \<Rightarrow>
          (case inspectPath (w_files w) absolute of
             Inl e \<Rightarrow> Error e
           | Inr (disk, content) \<Rightarrow>
               if ds_Kind disk \<noteq> ObjectRegularText then Error (PlainError ''baseline document is not native regular text'')
               else
                 let contentHash = dg_hash H content
                 in Ok (revisionFor H (snapshot_at (dw_identity d) absolute disk contentHash),
                     case map_of (dw_documents d) absolute of Some previous \<Rightarrow> cd_contentHash previous \<noteq> contentHash | None \<Rightarrow> False)))"

definition accepted_baseline :: "digests \<Rightarrow> world \<Rightarrow> doc_state \<Rightarrow> DiagnosticBatch \<Rightarrow> DiagnosticBatch option" where
  "accepted_baseline H w d batch =
     (if db_Staged batch \<or> fst (confidenceFor batch) \<noteq> ConfidenceAuthoritative then None
      else
        (case diagnosticBaselineRevision H w d (db_Document batch) of
           Inl _ \<Rightarrow> None
         | Inr (revision, changed) \<Rightarrow>
             Some (batch\<lparr> db_Baseline := True, db_DocumentRevision := revision, db_nativeContentChanged := changed \<rparr>)))"

definition RecordDiagnosticBaselines ::
  "ledger_env \<Rightarrow> digests \<Rightarrow> int \<Rightarrow> write_outcome \<Rightarrow> world \<Rightarrow> doc_state \<Rightarrow> DiagnosticBatch list \<Rightarrow> diagnosticStore \<Rightarrow>
   DiagnosticReport list result \<times> diagnosticStore" where
  "RecordDiagnosticBaselines L H now outcome w d batches store =
     RecordDiagnosticEvidenceBatches L now outcome w (List.map_filter (accepted_baseline H w d) batches) store"

definition Diagnostics :: "ledger_env \<Rightarrow> int \<Rightarrow> write_outcome \<Rightarrow> world \<Rightarrow> string \<Rightarrow> diagnosticStore \<Rightarrow> DiagnosticReport result \<times> diagnosticStore" where
  "Diagnostics L now outcome w since store = query L now (retainedDiagnosticEvidence w) outcome since store"

definition noteDocumentContentChanged :: "string \<Rightarrow> string \<Rightarrow> string \<Rightarrow> write_outcome \<Rightarrow> diagnosticStore \<Rightarrow> unit result \<times> diagnosticStore" where
  "noteDocumentContentChanged root absolute revision outcome store =
     (case documentChanged [absolute, displayPath root absolute] revision outcome store of
        (Inl e, store') \<Rightarrow> (Error e, store') | (Inr _, store') \<Rightarrow> (Ok (), store'))"

end
