(* ===== verification/Evidence_Steps.thy ===== *)
theory Evidence_Steps
  imports Evidence
begin

text \<open>
  What every operation on the ledger is made of: storing an item, adding a notice, changing
  memberships or coverage, and storing evidence. A relation between ledgers that these steps respect
  holds across every operation; the locale makes that argument once.
\<close>

locale ledger_relation =
  fixes R :: "diagnosticState \<Rightarrow> diagnosticState \<Rightarrow> bool"
  assumes R_refl: "R s s"
    and R_trans: "R s s' \<Longrightarrow> R s' s'' \<Longrightarrow> R s s''"
    and R_item: "R s (s\<lparr> lg_Items := AList.update i item (lg_Items s) \<rparr>)"
    and R_notice: "R s (addNotice kind item s)"
    and R_active: "R s (s\<lparr> lg_Active := memberships \<rparr>)"
    and R_stale: "R s (s\<lparr> lg_Stale := memberships \<rparr>)"
    and R_dimensions: "R s (s\<lparr> lg_Dimensions := coverage \<rparr>)"
    and R_lanes: "R s (s\<lparr> lg_ProviderDimensions := coverage \<rparr>)"
    and R_evidence: "R s (snd (add_evidence L batch s))"
begin

lemma R_trans3: "R s s' \<Longrightarrow> R s' s'' \<Longrightarrow> R s'' s''' \<Longrightarrow> R s s'''"
  using R_trans by blast

lemma R_noticed_item: "R s (addNotice kind item' (s\<lparr> lg_Items := AList.update i item (lg_Items s) \<rparr>))"
  by (rule R_trans [OF R_item R_notice])

lemma R_stale_item: "R s (addNotice kind item' (s\<lparr> lg_Items := AList.update i item (lg_Items s), lg_Stale := memberships \<rparr>))"
  by (rule R_trans3 [OF R_item R_stale R_notice])

lemma R_store_evidence: "R s (snd (snd (store_evidence L batch confidence index s)))"
proof -
  define key where "key = baselineProofKey L batch confidence"
  define index' where "index' = (if key \<noteq> [] \<and> index = None then Some (rebuilt_index L s) else index)"
  define known where "known = (case index' of Some entries \<Rightarrow> map_of entries key | None \<Rightarrow> None)"
  obtain evID s' where add: "add_evidence L batch s = (evID, s')" by fastforce
  then have "R s s'" using R_evidence [of s L batch] by simp
  then show ?thesis using R_refl
    by (cases known) (simp_all add: store_evidence_def Let_def key_def [symmetric] index'_def [symmetric] known_def [symmetric] add)
qed

lemma R_lane: "R s (record_lane batch confidence reasons evID s)"
  using R_trans [OF R_lanes R_dimensions] R_dimensions by (simp add: record_lane_def Let_def)

lemma R_recordEvidence: "R s (snd (snd (recordEvidenceLocked L batch confidence reasons index s)))"
proof -
  obtain evID index' s' where "store_evidence L batch confidence index s = (evID, index', s')" by (metis prod_cases3)
  then show ?thesis using R_trans [OF R_store_evidence [of s L batch confidence index] R_lane] by (simp add: recordEvidenceLocked_def)
qed

lemma R_finding: "R (fr_state run) (fr_state (record_finding L batch evID known raw run))"
  by (simp add: record_finding_def Let_def R_refl R_item R_noticed_item)

lemma R_findings: "R (fr_state run) (fr_state (fold (record_finding L batch evID known) raws run))"
proof (induction raws arbitrary: run)
  case (Cons raw raws)
  show ?case using R_trans [OF R_finding Cons.IH] by simp
qed (simp add: R_refl)

lemma R_recordFindings: "R s (fr_state (recordFindingsLocked L batch evID known s))"
  using R_findings [of "start_run s"] by (simp add: recordFindingsLocked_def start_run_def)

lemma R_resolve: "R s (snd (resolveAbsentLocked ids seen kind observedAt s))"
proof (induction ids arbitrary: s)
  case (Cons i ids)
  show ?case
  proof (cases "map_of (lg_Items s) i")
    case (Some item)
    then show ?thesis using Cons.IH [of s] R_trans [OF R_noticed_item Cons.IH] by (simp add: Let_def case_prod_beta)
  qed (simp add: Cons.IH)
qed (simp add: R_refl)

lemma R_stale_ids: "R s (snd (snd (stale_ids revision key ids s)))"
proof (induction ids arbitrary: s)
  case (Cons i ids)
  show ?case
  proof (cases "map_of (lg_Items s) i")
    case (Some item)
    then show ?thesis using Cons.IH [of s] R_trans [OF R_stale_item Cons.IH] by (simp add: Let_def case_prod_beta)
  qed (simp add: Cons.IH)
qed (simp add: R_refl)

lemma R_stale_key: "R (snd run) (snd (stale_key names revision key run))"
  using R_trans [OF R_stale_ids R_active] R_refl by (simp add: stale_key_def case_prod_beta)

lemma R_stale_keys: "R (snd run) (snd (fold (stale_key names revision) keys run))"
proof (induction keys arbitrary: run)
  case (Cons key keys)
  show ?case using R_trans [OF R_stale_key Cons.IH] by simp
qed (simp add: R_refl)

lemma R_documentChanged: "R s (snd (documentChangedLocked documents revision s))"
  using R_trans3 [OF R_stale_keys [of "(False, s)" "map Clean documents" revision "sort (map fst (lg_Active s))"] R_lanes R_dimensions]
  by (simp add: documentChangedLocked_def aggregate_all_def Let_def case_prod_beta)

lemma R_published: "R s (snd (snd (record_published L batch confidence reasons index s)))"
proof -
  define known where "known = baselineKnownLocked s batch (case map_of (lg_ProviderDimensions s) (lane_key batch) of Some d \<Rightarrow> dd_EvidenceIDs d | None \<Rightarrow> [])"
  obtain evID index1 s1 where evidence: "recordEvidenceLocked L batch confidence reasons index s = (evID, index1, s1)" by (metis prod_cases3)
  then have one: "R s s1" using R_recordEvidence [of s L batch confidence reasons index] by simp
  define run where "run = (if not_old batch then recordFindingsLocked L batch evID known s1 else start_run s1)"
  have two: "R s1 (fr_state run)" by (simp add: run_def R_recordFindings) (simp add: start_run_def R_refl)
  define previous where "previous = ids_at (lg_Active s1) (membership_key batch) @ ids_at (lg_Stale s1) (membership_key batch)"
  obtain resolved s2 where resolved: "(if withdraws batch confidence
      then resolveAbsentLocked previous (fr_seen run) (db_Kind batch) (db_ObservedAt batch) (fr_state run) else ([], fr_state run)) = (resolved, s2)"
    by fastforce
  then have three: "R (fr_state run) s2"
    using R_resolve [of "fr_state run" previous "fr_seen run" "db_Kind batch" "db_ObservedAt batch"] R_refl by (auto split: if_splits)
  have four: "R s2 (s2\<lparr> lg_Active := active, lg_Stale := stale \<rparr>)" "R s2 (s2\<lparr> lg_Active := active, lg_Stale := stale, lg_Dimensions := dimensions \<rparr>)"
    for active stale dimensions by (rule R_trans [OF R_active R_stale], rule R_trans3 [OF R_active R_stale R_dimensions])
  have "R s2 (snd (snd (record_published L batch confidence reasons index s)))"
    unfolding record_published_def Let_def evidence prod.case known_def [symmetric] run_def [symmetric] previous_def [symmetric] resolved
    by (simp add: four)
  then show ?thesis using R_trans3 [OF one two three] R_trans by blast
qed

lemma R_record: "R s (snd (snd (recordLocked L batch index s)))"
proof -
  define s1 where "s1 = (if db_Baseline batch \<and> \<not> db_Staged batch \<and> db_nativeContentChanged batch
    then snd (documentChangedLocked [db_Document batch] (db_DocumentRevision batch) s) else s)"
  have "R s s1" by (simp add: s1_def R_documentChanged R_refl)
  moreover have "R s1 (snd (snd (recordLocked L batch index s)))"
    using R_published [of s1 L batch "fst (confidenceFor batch)" "snd (confidenceFor batch)" index] R_evidence [of s1 L batch]
    by (simp add: recordLocked_def s1_def [symmetric] recordStagedLocked_def Let_def case_prod_beta)
  ultimately show ?thesis by (rule R_trans)
qed

lemma R_record_all: "R s (snd (snd (record_all L batches index s)))"
proof (induction batches arbitrary: index s)
  case (Cons batch batches)
  obtain report index' s1 where first: "recordLocked L batch index s = (report, index', s1)" by (metis prod_cases3)
  then have "R s s1" using R_record [of s L batch index] by simp
  then have "R s (snd (snd (record_all L batches index' s1)))" using Cons.IH R_trans by blast
  then show ?case using first by (simp add: case_prod_beta)
qed (simp add: R_refl)

end

end
