(* ===== verification/Evidence_Safety.thy ===== *)
theory Evidence_Safety
  imports Evidence_Steps
begin

text \<open>
  What the ledger of diagnostics guarantees: a finding is withdrawn only by proof that covers it,
  findings about older bytes do not stay current, staged bytes never enter the ledger, a failed write
  changes nothing, retention drops nothing that is live or referenced, and a client that is not told
  its delta is truncated misses no notice.
\<close>

section \<open>Notices\<close>

text \<open>Between two states only notices were added, with the next sequence numbers.\<close>

definition extends :: "diagnosticState \<Rightarrow> diagnosticState \<Rightarrow> bool" where
  "extends s s' \<longleftrightarrow> lg_Ack s' = lg_Ack s \<and> lg_NoticeFloor s' = lg_NoticeFloor s \<and> lg_Sequence s \<le> lg_Sequence s' \<and>
     (\<exists>added. lg_Notices s' = lg_Notices s @ added \<and> sorted_wrt (<) (map nt_Cursor added) \<and>
        (\<forall>notice \<in> set added. lg_Sequence s < nt_Cursor notice \<and> nt_Cursor notice \<le> lg_Sequence s'))"

lemma extends_trans:
  assumes "extends s s'" "extends s' s''"
  shows "extends s s''"
proof -
  obtain one where one: "lg_Notices s' = lg_Notices s @ one" "sorted_wrt (<) (map nt_Cursor one)"
    "\<forall>notice \<in> set one. lg_Sequence s < nt_Cursor notice \<and> nt_Cursor notice \<le> lg_Sequence s'" using assms(1) by (auto simp: extends_def)
  obtain two where two: "lg_Notices s'' = lg_Notices s' @ two" "sorted_wrt (<) (map nt_Cursor two)"
    "\<forall>notice \<in> set two. lg_Sequence s' < nt_Cursor notice \<and> nt_Cursor notice \<le> lg_Sequence s''" using assms(2) by (auto simp: extends_def)
  have "sorted_wrt (<) (map nt_Cursor (one @ two))" using one two by (fastforce simp: sorted_wrt_append)
  moreover have "\<forall>notice \<in> set (one @ two). lg_Sequence s < nt_Cursor notice \<and> nt_Cursor notice \<le> lg_Sequence s''"
    using one(3) two(3) assms by (fastforce simp: extends_def)
  moreover have "lg_Notices s'' = lg_Notices s @ one @ two" using one(1) two(1) by simp
  ultimately show ?thesis using assms unfolding extends_def by (metis le_trans)
qed

interpretation noticing: ledger_relation extends
proof
  show "extends s s''" if "extends s s'" "extends s' s''" for s s' s'' using that by (rule extends_trans)
qed (auto simp: extends_def addNotice_def add_evidence_def Let_def)

text \<open>Cursors grow along the list, above the floor and up to the sequence number.\<close>

definition notices_wf :: "diagnosticState \<Rightarrow> bool" where
  "notices_wf s \<longleftrightarrow> sorted_wrt (<) (map nt_Cursor (lg_Notices s)) \<and> lg_NoticeFloor s \<le> lg_Sequence s \<and>
     (\<forall>notice \<in> set (lg_Notices s). lg_NoticeFloor s < nt_Cursor notice \<and> nt_Cursor notice \<le> lg_Sequence s)"

text \<open>Every notice of the first state is still there, or at or below the floor of the second.\<close>

definition keeps_notices :: "diagnosticState \<Rightarrow> diagnosticState \<Rightarrow> bool" where
  "keeps_notices s s' \<longleftrightarrow> lg_NoticeFloor s \<le> lg_NoticeFloor s' \<and> lg_Sequence s \<le> lg_Sequence s' \<and>
     (\<forall>notice \<in> set (lg_Notices s). notice \<in> set (lg_Notices s') \<or> nt_Cursor notice \<le> lg_NoticeFloor s')"

lemma keeps_notices_refl [simp]: "keeps_notices s s"
  by (simp add: keeps_notices_def)

lemma keeps_notices_trans: "keeps_notices s s' \<Longrightarrow> keeps_notices s' s'' \<Longrightarrow> keeps_notices s s''"
  by (fastforce simp: keeps_notices_def)

lemma extends_keeps: "extends s s' \<Longrightarrow> keeps_notices s s'"
  by (auto simp: extends_def keeps_notices_def)

lemma extends_wf:
  assumes "extends s s'" "notices_wf s"
  shows "notices_wf s'"
proof -
  obtain added where added: "lg_Notices s' = lg_Notices s @ added" "sorted_wrt (<) (map nt_Cursor added)"
    "\<forall>notice \<in> set added. lg_Sequence s < nt_Cursor notice \<and> nt_Cursor notice \<le> lg_Sequence s'" using assms(1) by (auto simp: extends_def)
  have "sorted_wrt (<) (map nt_Cursor (lg_Notices s'))"
    using added assms(2) by (fastforce simp: sorted_wrt_append notices_wf_def)
  then show ?thesis using added assms by (fastforce simp: notices_wf_def extends_def)
qed

lemma floor_over_bounds: "floor_over dropped n \<ge> n" "notice \<in> set dropped \<Longrightarrow> nt_Cursor notice \<le> floor_over dropped n"
    "(\<And>notice. notice \<in> set dropped \<Longrightarrow> nt_Cursor notice < b) \<Longrightarrow> n < b \<Longrightarrow> floor_over dropped n < b"
proof -
  show grows: "floor_over dropped n \<ge> n" for dropped n
    by (induction dropped arbitrary: n) (auto simp: floor_over_def intro: order_trans less_imp_le)
  show "notice \<in> set dropped \<Longrightarrow> nt_Cursor notice \<le> floor_over dropped n"
  proof (induction dropped arbitrary: n)
    case (Cons x dropped)
    have unfold: "floor_over (x # dropped) n = floor_over dropped (max n (nt_Cursor x))" by (simp add: floor_over_def max_def)
    show ?case
    proof (cases "notice = x")
      case True
      then show ?thesis using grows [of "max n (nt_Cursor x)" dropped] by (simp add: unfold)
    qed (use Cons in \<open>auto simp: unfold\<close>)
  qed simp
  show "(\<And>notice. notice \<in> set dropped \<Longrightarrow> nt_Cursor notice < b) \<Longrightarrow> n < b \<Longrightarrow> floor_over dropped n < b"
    by (induction dropped arbitrary: n) (auto simp: floor_over_def)
qed

lemma sorted_filter_drop:
  fixes f :: "'a \<Rightarrow> nat"
  assumes "sorted_wrt (<) (map f xs)"
  shows "filter (\<lambda>x. a < f x) xs = drop (length (filter (\<lambda>x. \<not> a < f x) xs)) xs \<and>
    filter (\<lambda>x. \<not> a < f x) xs = take (length (filter (\<lambda>x. \<not> a < f x) xs)) xs"
  using assms
proof (induction xs)
  case (Cons x xs)
  show ?case
  proof (cases "a < f x")
    case True
    have "a < f y" if "y \<in> set xs" for y using Cons.prems True that by fastforce
    then have none: "filter (\<lambda>x. \<not> a < f x) xs = []" and all: "filter (\<lambda>x. a < f x) xs = xs" by (auto simp: filter_empty_conv filter_id_conv)
    show ?thesis using True none all by simp
  qed (use Cons in auto)
qed simp

lemma floor_over_one: "floor_over [notice] n = max n (nt_Cursor notice)"
  by (auto simp: floor_over_def)

text \<open>Pruning keeps a suffix of the notices and raises the floor over what it drops.\<close>

lemma pruneNotices_shape:
  assumes "notices_wf s"
  shows "\<exists>n. lg_Notices (pruneNoticesLocked s) = drop n (lg_Notices s) \<and>
    (\<forall>notice \<in> set (take n (lg_Notices s)). nt_Cursor notice \<le> lg_NoticeFloor (pruneNoticesLocked s)) \<and>
    lg_NoticeFloor s \<le> lg_NoticeFloor (pruneNoticesLocked s) \<and> lg_NoticeFloor (pruneNoticesLocked s) \<le> lg_Sequence s \<and>
    (\<forall>notice \<in> set (drop n (lg_Notices s)). lg_NoticeFloor (pruneNoticesLocked s) < nt_Cursor notice)"
proof -
  define xs where "xs = lg_Notices s"
  define out where "out = filter (\<lambda>notice. \<not> lg_Ack s < nt_Cursor notice) xs"
  define kept where "kept = filter (\<lambda>notice. lg_Ack s < nt_Cursor notice) xs"
  define base where "base = floor_over out (lg_NoticeFloor s)"
  define excess where "excess = length kept - maxDiagnosticNotices"
  have sorted: "sorted_wrt (<) (map nt_Cursor xs)" and bounds: "\<forall>notice \<in> set xs. lg_NoticeFloor s < nt_Cursor notice \<and> nt_Cursor notice \<le> lg_Sequence s"
    and floor: "lg_NoticeFloor s \<le> lg_Sequence s" using assms by (auto simp: notices_wf_def xs_def)
  have kept: "kept = drop (length out) xs" and out: "out = take (length out) xs"
    using sorted_filter_drop [OF sorted, of "lg_Ack s"] by (simp_all add: kept_def out_def)
  have base_ge: "lg_NoticeFloor s \<le> base" and base_out: "\<forall>notice \<in> set out. nt_Cursor notice \<le> base"
    using floor_over_bounds by (auto simp: base_def)
  have base_le: "base \<le> lg_Sequence s"
    using floor_over_bounds(3) [of out "Suc (lg_Sequence s)" "lg_NoticeFloor s"] bounds floor
    by (auto simp: base_def out_def less_Suc_eq_le)
  have base_kept: "base < nt_Cursor notice" if "notice \<in> set kept" for notice
  proof -
    have "nt_Cursor earlier < nt_Cursor notice" if "earlier \<in> set out" for earlier
      using that \<open>notice \<in> set kept\<close> by (auto simp: out_def kept_def)
    then show ?thesis using floor_over_bounds(3) [of out "nt_Cursor notice" "lg_NoticeFloor s"] bounds that by (auto simp: base_def kept_def)
  qed
  show ?thesis
  proof (cases "excess > 0")
    case True
    define pivot where "pivot = kept ! (excess - 1)"
    have within: "excess - 1 < length kept" "excess \<le> length kept" using True by (auto simp: excess_def)
    then have pivot: "pivot \<in> set kept" by (simp add: pivot_def)
    have ks: "sorted_wrt (<) (map nt_Cursor kept)" using sorted by (simp add: kept sorted_wrt_drop drop_map [symmetric])
    have low: "nt_Cursor notice \<le> nt_Cursor pivot" if member: "notice \<in> set (take excess kept)" for notice
    proof -
      obtain i where "i \<in> {0..<excess}" "notice = kept ! i"
        using member unfolding nth_image [OF within(2), symmetric] by blast
      then have i: "i < excess" "notice = kept ! i" "i < length kept" using within(2) by auto
      show ?thesis
      proof (cases "i < excess - 1")
        case False
        then have "i = excess - 1" using i by linarith
        then show ?thesis using i by (simp add: pivot_def)
      qed (use i within sorted_wrt_nth_less [OF ks, of i "excess - 1"] in \<open>auto simp: pivot_def\<close>)
    qed
    have high: "nt_Cursor pivot < nt_Cursor notice" if member: "notice \<in> set (drop excess kept)" for notice
    proof -
      obtain i where i: "i < length kept - excess" "notice = kept ! (excess + i)" using member by (auto simp: in_set_conv_nth)
      show ?thesis using i True within sorted_wrt_nth_less [OF ks, of "excess - 1" "excess + i"] by (auto simp: pivot_def)
    qed
    have result: "lg_Notices (pruneNoticesLocked s) = drop excess kept" "lg_NoticeFloor (pruneNoticesLocked s) = nt_Cursor pivot"
      using True base_kept [OF pivot]
      by (simp_all add: pruneNoticesLocked_def Let_def kept_def [symmetric, unfolded xs_def] out_def [symmetric, unfolded xs_def]
        excess_def base_def [symmetric] floor_over_one pivot_def)
    have split: "take (length out + excess) xs = out @ take excess kept" using out kept by (simp add: take_add)
    show ?thesis
    proof (intro exI [of _ "length out + excess"] conjI ballI)
      show "nt_Cursor notice \<le> lg_NoticeFloor (pruneNoticesLocked s)" if "notice \<in> set (take (length out + excess) (lg_Notices s))" for notice
        using that low base_out base_kept [OF pivot] by (auto simp: split xs_def [symmetric] result)
      show "lg_NoticeFloor (pruneNoticesLocked s) < nt_Cursor notice" if "notice \<in> set (drop (length out + excess) (lg_Notices s))" for notice
        using that high by (auto simp: xs_def [symmetric] result kept add.commute)
      show "lg_NoticeFloor (pruneNoticesLocked s) \<le> lg_Sequence s" using pivot bounds by (auto simp: result kept_def)
    qed (use base_ge base_kept [OF pivot] in \<open>auto simp: result kept xs_def add.commute\<close>)
  next
    case False
    then have "lg_Notices (pruneNoticesLocked s) = kept" "lg_NoticeFloor (pruneNoticesLocked s) = base"
      by (simp_all add: pruneNoticesLocked_def Let_def kept_def xs_def out_def base_def excess_def)
    then show ?thesis using base_ge base_le base_out base_kept out kept by (intro exI [of _ "length out"]) (auto simp: xs_def)
  qed
qed

lemma bound_references_notices [simp]:
  "lg_Notices (bound_references s) = lg_Notices s" "lg_NoticeFloor (bound_references s) = lg_NoticeFloor s"
  "lg_Sequence (bound_references s) = lg_Sequence s"
  by (simp_all add: bound_references_def)

lemma pruneEvidence_notices [simp]:
  "lg_Notices (snd (pruneEvidenceLocked now retained index s)) = lg_Notices s"
  "lg_NoticeFloor (snd (pruneEvidenceLocked now retained index s)) = lg_NoticeFloor s"
  "lg_Sequence (snd (pruneEvidenceLocked now retained index s)) = lg_Sequence s"
  by (simp_all add: pruneEvidenceLocked_def Let_def)

lemma pruneItems_notices [simp]:
  "lg_Notices (pruneItemsLocked now s) = lg_Notices s" "lg_NoticeFloor (pruneItemsLocked now s) = lg_NoticeFloor s"
  "lg_Sequence (pruneItemsLocked now s) = lg_Sequence s"
  by (simp_all add: pruneItemsLocked_def Let_def)

lemma pruneNotices_sequence [simp]: "lg_Sequence (pruneNoticesLocked s) = lg_Sequence s"
  by (simp add: pruneNoticesLocked_def Let_def)

lemma prune_notice_fields [simp]:
  "lg_Notices (snd (pruneLocked now retained index s)) = lg_Notices (pruneNoticesLocked s)"
  "lg_NoticeFloor (snd (pruneLocked now retained index s)) = lg_NoticeFloor (pruneNoticesLocked s)"
  "lg_Sequence (snd (pruneLocked now retained index s)) = lg_Sequence s"
  by (simp_all add: pruneLocked_def)

lemma prune_keeps_wf:
  assumes "notices_wf s"
  shows "notices_wf (snd (pruneLocked now retained index s)) \<and> keeps_notices s (snd (pruneLocked now retained index s))"
proof -
  obtain n where n: "lg_Notices (pruneNoticesLocked s) = drop n (lg_Notices s)"
    "\<forall>notice \<in> set (take n (lg_Notices s)). nt_Cursor notice \<le> lg_NoticeFloor (pruneNoticesLocked s)"
    "lg_NoticeFloor s \<le> lg_NoticeFloor (pruneNoticesLocked s)" "lg_NoticeFloor (pruneNoticesLocked s) \<le> lg_Sequence s"
    "\<forall>notice \<in> set (drop n (lg_Notices s)). lg_NoticeFloor (pruneNoticesLocked s) < nt_Cursor notice"
    using pruneNotices_shape [OF assms] by blast
  have "set (lg_Notices s) = set (take n (lg_Notices s)) \<union> set (drop n (lg_Notices s))" by (metis append_take_drop_id set_append)
  then have "keeps_notices s (snd (pruneLocked now retained index s))" using n by (auto simp: keeps_notices_def)
  moreover have "sorted_wrt (<) (map nt_Cursor (drop n (lg_Notices s)))"
    using assms sorted_wrt_drop [of "(<)" "map nt_Cursor (lg_Notices s)" n] by (simp add: notices_wf_def drop_map)
  ultimately show ?thesis using n assms by (auto simp: notices_wf_def dest: in_set_dropD)
qed

text \<open>The operations that change a store, and its sequences of them.\<close>

datatype ledger_op =
    RecordOp int "string list" write_outcome "DiagnosticBatch list"
  | ChangedOp "string list" string write_outcome
  | QueryOp int "string list" write_outcome string
  | PendingOp int

fun ledger_step :: "ledger_env \<Rightarrow> ledger_op \<Rightarrow> diagnosticStore \<Rightarrow> diagnosticStore" where
  "ledger_step L (RecordOp now retained outcome batches) store = snd (recordBatches L now retained outcome batches store)"
| "ledger_step L (ChangedOp documents revision outcome) store = snd (documentChanged documents revision outcome store)"
| "ledger_step L (QueryOp now retained outcome since) store = snd (query L now retained outcome since store)"
| "ledger_step L (PendingOp limit) store = snd (pendingNotices limit store)"

definition ledger_run :: "ledger_env \<Rightarrow> ledger_op list \<Rightarrow> diagnosticStore \<Rightarrow> diagnosticStore" where
  "ledger_run L ops store = fold (ledger_step L) ops store"

abbreviation good_step :: "diagnosticState \<Rightarrow> diagnosticState \<Rightarrow> bool" where
  "good_step s s' \<equiv> notices_wf s' \<and> keeps_notices s s'"

lemma prune_good: "good_step s0 s \<Longrightarrow> good_step s0 (snd (pruneLocked now retained index s))"
  using prune_keeps_wf keeps_notices_trans by blast

lemma save_state [simp]: "sto_state (snd (save outcome store)) = sto_state store"
  by (auto simp: save_def split: write_outcome.splits)

lemma record_good:
  assumes "notices_wf (sto_state store)"
  shows "good_step (sto_state store) (sto_state (snd (recordBatches L now retained outcome batches store)))"
proof (cases "batches = [] \<or> List.map_filter refused_batch batches \<noteq> []")
  case True
  then show ?thesis using assms by (auto simp: recordBatches_def split: list.splits)
next
  case False
  define previous where "previous = sto_state store"
  obtain reports index s where all: "record_all L (map (prepared_batch now) batches) (sto_baselineIndex store) previous = (reports, index, s)"
    by (metis prod_cases3)
  obtain index' s' where prune: "pruneLocked now (retained @ concat (map rp_EvidenceIDs reports)) index s = (index', s')" by fastforce
  have "good_step previous s" using noticing.R_record_all [of previous L "map (prepared_batch now) batches" "sto_baselineIndex store"] all assms
    by (auto simp: previous_def intro: extends_wf extends_keeps)
  then have "good_step previous s'" using prune_good [of s previous now "retained @ concat (map rp_EvidenceIDs reports)" index] prune by simp
  moreover obtain saved store' where "save outcome (store\<lparr> sto_state := s', sto_baselineIndex := index' \<rparr>) = (saved, store')" "sto_state store' = s'"
    using save_state [of outcome "store\<lparr> sto_state := s', sto_baselineIndex := index' \<rparr>"] by (cases "save outcome (store\<lparr> sto_state := s', sto_baselineIndex := index' \<rparr>)") auto
  ultimately show ?thesis
    using False all prune assms by (cases saved) (auto simp: recordBatches_def Let_def previous_def)
qed

lemma changed_good:
  assumes "notices_wf (sto_state store)"
  shows "good_step (sto_state store) (sto_state (snd (documentChanged documents revision outcome store)))"
proof -
  obtain changed s where locked: "documentChangedLocked documents revision (sto_state store) = (changed, s)" by fastforce
  then have "good_step (sto_state store) s" using noticing.R_documentChanged [of "sto_state store" documents revision] assms by (auto intro: extends_wf extends_keeps)
  moreover obtain saved store' where "save outcome (store\<lparr> sto_state := s \<rparr>) = (saved, store')" "sto_state store' = s"
    using save_state [of outcome "store\<lparr> sto_state := s \<rparr>"] by (cases "save outcome (store\<lparr> sto_state := s \<rparr>)") auto
  ultimately show ?thesis using locked by (cases saved) (auto simp: documentChanged_def)
qed

lemma query_good:
  assumes "notices_wf (sto_state store)"
  shows "good_step (sto_state store) (sto_state (snd (query L now retained outcome since store)))"
proof (cases "parseDiagnosticCursor L since")
  case (Inr seq)
  define before where "before = (if since \<noteq> [] \<and> seq > lg_Ack (sto_state store) then (sto_state store)\<lparr> lg_Ack := seq \<rparr> else sto_state store)"
  have "good_step (sto_state store) before" using assms by (auto simp: before_def notices_wf_def keeps_notices_def)
  obtain index s where prune: "pruneLocked now retained (sto_baselineIndex store) before = (index, s)" by fastforce
  then have "good_step (sto_state store) s"
    using prune_good [OF \<open>good_step (sto_state store) before\<close>, of now retained "sto_baselineIndex store"] by simp
  moreover obtain saved store' where "save outcome (store\<lparr> sto_state := s, sto_baselineIndex := index \<rparr>) = (saved, store')" "sto_state store' = s"
    using save_state [of outcome "store\<lparr> sto_state := s, sto_baselineIndex := index \<rparr>"]
    by (cases "save outcome (store\<lparr> sto_state := s, sto_baselineIndex := index \<rparr>)") auto
  ultimately show ?thesis using Inr prune by (cases saved) (auto simp: query_def Let_def before_def [symmetric])
qed (use assms in \<open>simp add: query_def\<close>)

lemma ledger_step_good:
  assumes "notices_wf (sto_state store)"
  shows "good_step (sto_state store) (sto_state (ledger_step L op store))"
  using assms by (cases op) (simp_all add: record_good changed_good query_good pendingNotices_def Let_def)

lemma ledger_run_good:
  assumes "notices_wf (sto_state store)"
  shows "good_step (sto_state store) (sto_state (ledger_run L ops store))"
  using assms
proof (induction ops arbitrary: store)
  case (Cons op ops)
  have "good_step (sto_state store) (sto_state (ledger_step L op store))" by (rule ledger_step_good [OF Cons.prems])
  then show ?case using Cons.IH [of "ledger_step L op store"] keeps_notices_trans by (auto simp: ledger_run_def)
qed (simp add: ledger_run_def)

lemma fresh_notices_wf: "notices_wf (sto_state (opened empty_ledger content persistent))"
  by (simp add: notices_wf_def opened_def empty_ledger_def)

text \<open>A page holds the next notices after the cursor; the cursor it returns is below every notice it leaves out.\<close>

lemma page_covers:
  assumes "notices_wf (sto_state store)" "noticesSince L cursor limit store = Ok page" "parseDiagnosticCursor L cursor = Ok seq"
    "notice \<in> set (lg_Notices (sto_state store))" "seq < nt_Cursor notice"
  shows "notice \<in> set (np_Notices page) \<or> np_More page \<and> seq < np_Cursor page \<and> np_Cursor page < nt_Cursor notice"
proof -
  define later where "later = filter (\<lambda>notice. seq < nt_Cursor notice) (lg_Notices (sto_state store))"
  define n where "n = page_limit limit"
  have n: "n > 0" by (simp add: n_def page_limit_def)
  have page: "np_Notices page = take n later" "np_More page = (length later > n)"
      "np_Cursor page = (if take n later = [] then seq else nt_Cursor (last (take n later)))"
    using assms(2,3) by (auto simp: noticesSince_def Let_def later_def n_def)
  have sorted: "sorted_wrt (<) (map nt_Cursor later)"
    using assms(1) unfolding notices_wf_def later_def sorted_wrt_map by (blast intro: sorted_wrt_filter)
  have member: "notice \<in> set (take n later @ drop n later)" using assms(4,5) by (simp add: later_def)
  show ?thesis
  proof (cases "notice \<in> set (take n later)")
    case False
    then have rest: "notice \<in> set (drop n later)" using member unfolding set_append by blast
    then have more: "length later > n" by (cases "length later > n") auto
    then have some: "take n later \<noteq> []" "last (take n later) \<in> set (take n later)" using n by (auto intro: last_in_set)
    have "sorted_wrt (<) (map nt_Cursor (take n later @ drop n later))" using sorted by simp
    then have "nt_Cursor (last (take n later)) < nt_Cursor notice" using some rest by (auto simp: sorted_wrt_append simp del: append_take_drop_id)
    moreover have "last (take n later) \<in> set later" using some(2) by (rule in_set_takeD)
    then have "seq < nt_Cursor (last (take n later))" by (simp add: later_def)
    ultimately show ?thesis using page more some by simp
  qed (simp add: page)
qed

text \<open>
  C16. Notices are not lost: a client that has read up to some cursor and asks again, however many
  records, document changes, queries and deliveries later, and with whatever write failures, gets
  every later notice it could have been given before, on this page or on one that still follows,
  unless the page says the delta is truncated.
\<close>

theorem notices_not_lost:
  assumes "store = ledger_run L earlier (opened empty_ledger content persistent)" "notice \<in> set (lg_Notices (sto_state store))"
    "parseDiagnosticCursor L cursor = Ok seq" "seq < nt_Cursor notice" "noticesSince L cursor limit (ledger_run L ops store) = Ok page"
  shows "np_Truncated page \<or> notice \<in> set (np_Notices page) \<or> np_More page \<and> seq < np_Cursor page \<and> np_Cursor page < nt_Cursor notice"
proof -
  have "notices_wf (sto_state store)" using ledger_run_good [OF fresh_notices_wf] assms(1) by blast
  then have after: "good_step (sto_state store) (sto_state (ledger_run L ops store))" by (rule ledger_run_good)
  then consider "notice \<in> set (lg_Notices (sto_state (ledger_run L ops store)))"
    | "nt_Cursor notice \<le> lg_NoticeFloor (sto_state (ledger_run L ops store))" using assms(2) by (auto simp: keeps_notices_def)
  then show ?thesis
  proof cases
    case 1
    then show ?thesis using page_covers [OF _ assms(5,3) 1 assms(4)] after by blast
  next
    case 2
    then show ?thesis using assms(3-5) by (auto simp: noticesSince_def Let_def)
  qed
qed

text \<open>A client that follows the pages; \<open>encode\<close> writes a cursor.\<close>

fun read_pages :: "nat \<Rightarrow> ledger_env \<Rightarrow> (nat \<Rightarrow> string) \<Rightarrow> int \<Rightarrow> diagnosticStore \<Rightarrow> string \<Rightarrow> DiagnosticNotice list" where
  "read_pages 0 L encode limit store cursor = []"
| "read_pages (Suc fuel) L encode limit store cursor =
     (case noticesSince L cursor limit store of
        Inl _ \<Rightarrow> []
      | Inr page \<Rightarrow> np_Notices page @ (if np_More page then read_pages fuel L encode limit store (encode (np_Cursor page)) else []))"

lemma later_after_page:
  fixes f :: "'a \<Rightarrow> nat"
  assumes "sorted_wrt (<) (map f xs)" "0 < n" "n < length xs"
  shows "filter (\<lambda>x. f (last (take n xs)) < f x) xs = drop n xs"
proof -
  define ys where "ys = take n xs"
  have sorted: "sorted_wrt (<) (map f (ys @ drop n xs))" using assms(1) by (simp add: ys_def)
  have "ys \<noteq> []" using assms(2,3) by (auto simp: ys_def)
  then have ys: "ys = butlast ys @ [last ys]" by simp
  have "sorted_wrt (<) (map f (butlast ys @ [last ys]))" using sorted ys by (metis map_append sorted_wrt_append)
  then have low: "\<not> f (last ys) < f x" if "x \<in> set ys" for x
    using that by (subst (asm) ys) (fastforce simp: sorted_wrt_append)
  have "last ys \<in> set ys" using ys by (metis in_set_conv_decomp)
  then have high: "f (last ys) < f x" if "x \<in> set (drop n xs)" for x using sorted that by (auto simp: sorted_wrt_append)
  have "filter (\<lambda>x. f (last ys) < f x) (ys @ drop n xs) = drop n xs" using low high by (auto simp: filter_empty_conv filter_id_conv)
  then show ?thesis by (simp add: ys_def)
qed

lemma read_pages_all:
  assumes "sorted_wrt (<) (map nt_Cursor (lg_Notices (sto_state store)))" "\<forall>n. encode n \<noteq> [] \<and> le_scan L (encode n) = Some n"
    "parseDiagnosticCursor L cursor = Ok seq" "length (filter (\<lambda>notice. seq < nt_Cursor notice) (lg_Notices (sto_state store))) < fuel"
  shows "read_pages fuel L encode limit store cursor = filter (\<lambda>notice. seq < nt_Cursor notice) (lg_Notices (sto_state store))"
  using assms(3,4)
proof (induction fuel arbitrary: cursor seq)
  case (Suc fuel)
  define later where "later = filter (\<lambda>notice. seq < nt_Cursor notice) (lg_Notices (sto_state store))"
  define n where "n = page_limit limit"
  define c where "c = (if take n later = [] then seq else nt_Cursor (last (take n later)))"
  have n: "n > 0" by (simp add: n_def page_limit_def)
  have read: "read_pages (Suc fuel) L encode limit store cursor =
      take n later @ (if length later > n then read_pages fuel L encode limit store (encode c) else [])"
    using Suc.prems(1) by (simp add: noticesSince_def Let_def later_def n_def c_def)
  show ?case
  proof (cases "length later > n")
    case True
    have sorted: "sorted_wrt (<) (map nt_Cursor later)" using assms(1) unfolding later_def sorted_wrt_map by (rule sorted_wrt_filter)
    have some: "take n later \<noteq> []" using True n by auto
    then have c: "c = nt_Cursor (last (take n later))" "last (take n later) \<in> set later"
      using in_set_takeD [OF last_in_set [OF some]] by (simp_all add: c_def)
    then have "seq < c" by (simp add: later_def)
    then have "filter (\<lambda>notice. c < nt_Cursor notice) (lg_Notices (sto_state store)) = filter (\<lambda>notice. c < nt_Cursor notice) later"
      by (auto simp: later_def intro: filter_cong)
    also have "\<dots> = drop n later" using later_after_page [OF sorted n True] by (simp add: c(1))
    finally have rest: "filter (\<lambda>notice. c < nt_Cursor notice) (lg_Notices (sto_state store)) = drop n later" .
    have "parseDiagnosticCursor L (encode c) = Ok c" using assms(2) by (simp add: parseDiagnosticCursor_def)
    then have "read_pages fuel L encode limit store (encode c) = drop n later"
      using Suc.IH [of "encode c" c] Suc.prems(2) True n by (simp add: rest later_def [symmetric])
    then show ?thesis using True by (simp add: read later_def [symmetric] del: read_pages.simps)
  qed (simp add: read later_def [symmetric] del: read_pages.simps)
qed simp

text \<open>
  C26. Following the pages ends and gives exactly the notices after the cursor, once each and in
  order, whatever the page size.
\<close>

theorem pages_give_all:
  assumes "store = ledger_run L ops (opened empty_ledger content persistent)" "parseDiagnosticCursor L cursor = Ok seq"
    "\<forall>n. encode n \<noteq> [] \<and> le_scan L (encode n) = Some n" "length (lg_Notices (sto_state store)) < fuel"
  shows "read_pages fuel L encode limit store cursor = filter (\<lambda>notice. seq < nt_Cursor notice) (lg_Notices (sto_state store))"
proof (rule read_pages_all [OF _ assms(3,2)])
  show "sorted_wrt (<) (map nt_Cursor (lg_Notices (sto_state store)))"
    using ledger_run_good [OF fresh_notices_wf] assms(1) by (simp add: notices_wf_def)
  show "length (filter (\<lambda>notice. seq < nt_Cursor notice) (lg_Notices (sto_state store))) < fuel"
    using assms(4) length_filter_le le_less_trans by blast
qed

end
