(* ===== verification/Evidence_Proof.thy ===== *)
theory Evidence_Proof
  imports Evidence
begin

text \<open>
  When a finding may leave the ledger and when it may stay current: a finding is withdrawn exactly by
  complete, current proof of its own stream that no longer reports it, findings about older bytes do
  not stay current, and staged bytes never enter the ledger.
\<close>

section \<open>Items\<close>

abbreviation item_at :: "diagnosticState \<Rightarrow> string \<Rightarrow> DiagnosticItem option" where
  "item_at s i \<equiv> map_of (lg_Items s) i"

abbreviation resolved_at :: "diagnosticState \<Rightarrow> string \<Rightarrow> bool" where
  "resolved_at s i \<equiv> map_option di_Status (item_at s i) = Some DiagnosticStatusResolved"

text \<open>Items are stored under their own identifiers.\<close>

definition items_keyed :: "diagnosticState \<Rightarrow> bool" where
  "items_keyed s \<longleftrightarrow> (\<forall>i item. item_at s i = Some item \<longrightarrow> di_ID item = i)"

text \<open>The fields that recording evidence and its lane leave alone.\<close>

definition same_findings :: "diagnosticState \<Rightarrow> diagnosticState \<Rightarrow> bool" where
  "same_findings s s' \<longleftrightarrow> lg_Items s' = lg_Items s \<and> lg_Active s' = lg_Active s \<and> lg_Stale s' = lg_Stale s"

lemma addNotice_fields [simp]:
  "lg_Items (addNotice kind item s) = lg_Items s" "lg_Active (addNotice kind item s) = lg_Active s" "lg_Stale (addNotice kind item s) = lg_Stale s"
  by (simp_all add: addNotice_def)

lemma add_evidence_findings: "same_findings s (snd (add_evidence L batch s))"
  by (simp add: same_findings_def add_evidence_def Let_def)

lemma store_evidence_findings: "same_findings s (snd (snd (store_evidence L batch confidence index s)))"
proof -
  define key where "key = baselineProofKey L batch confidence"
  define index' where "index' = (if key \<noteq> [] \<and> index = None then Some (rebuilt_index L s) else index)"
  define known where "known = (case index' of Some entries \<Rightarrow> map_of entries key | None \<Rightarrow> None)"
  obtain evID s' where add: "add_evidence L batch s = (evID, s')" by fastforce
  then have "same_findings s s'" using add_evidence_findings [of s L batch] by simp
  then show ?thesis
    by (cases known) (simp_all add: store_evidence_def Let_def key_def [symmetric] index'_def [symmetric] known_def [symmetric] add same_findings_def)
qed

lemma record_lane_findings: "same_findings s (record_lane batch confidence reasons evID s)"
  by (simp add: record_lane_def same_findings_def Let_def)

lemma recordEvidence_findings: "same_findings s (snd (snd (recordEvidenceLocked L batch confidence reasons index s)))"
proof -
  obtain evID index' s' where "store_evidence L batch confidence index s = (evID, index', s')" by (metis prod_cases3)
  then show ?thesis using store_evidence_findings [of s L batch confidence index] record_lane_findings [of s' batch confidence reasons evID]
    by (simp add: recordEvidenceLocked_def same_findings_def)
qed

text \<open>An observed finding is current and keeps its identifier.\<close>

lemma observed_item_fields [simp]:
  "di_Status (observed_item batch evID known i finding stored) = DiagnosticStatusCurrent"
  "di_ID (observed_item batch evID known i finding stored) = (case stored of Some item \<Rightarrow> di_ID item | None \<Rightarrow> i)"
  by (auto simp: observed_item_def Let_def new_item_def split: option.splits)

text \<open>What a run over findings has done: the seen identifiers are current items, the others are as before.\<close>

definition run_from :: "diagnosticState \<Rightarrow> finding_run \<Rightarrow> bool" where
  "run_from s run \<longleftrightarrow> lg_Active (fr_state run) = lg_Active s \<and> lg_Stale (fr_state run) = lg_Stale s \<and>
     (\<forall>i \<in> set (fr_seen run). \<exists>item. item_at (fr_state run) i = Some item \<and> di_Status item = DiagnosticStatusCurrent) \<and>
     (\<forall>i. i \<notin> set (fr_seen run) \<longrightarrow> item_at (fr_state run) i = item_at s i) \<and>
     (items_keyed s \<longrightarrow> items_keyed (fr_state run) \<and> map di_ID (fr_current run) = rev (fr_seen run))"

lemma run_from_start: "run_from s (start_run s)"
  by (simp add: run_from_def start_run_def)

lemma run_from_step:
  assumes "run_from s run"
  shows "run_from s (record_finding L batch evID known raw run)"
proof -
  define finding where "finding = normalizeFinding raw"
  define i where "i = ''diag_'' @ diagnosticFingerprint L (db_ProviderID batch) (db_Document batch) finding (fr_occurrences run (findingIdentity finding))"
  define item where "item = observed_item batch evID known i finding (item_at (fr_state run) i)"
  consider "placement finding \<in> set (fr_placements run)" | "i \<in> set (fr_seen run)" "placement finding \<notin> set (fr_placements run)"
    | "i \<notin> set (fr_seen run)" "placement finding \<notin> set (fr_placements run)" by blast
  then show ?thesis
  proof cases
    case 3
    define run' where "run' = record_finding L batch evID known raw run"
    have run': "lg_Items (fr_state run') = AList.update i item (lg_Items (fr_state run))" "fr_seen run' = i # fr_seen run"
      "fr_current run' = fr_current run @ [item]" "lg_Active (fr_state run') = lg_Active (fr_state run)" "lg_Stale (fr_state run') = lg_Stale (fr_state run)"
      using 3 by (simp_all add: run'_def record_finding_def Let_def finding_def [symmetric] i_def [symmetric, simplified] item_def)
    have keyed: "di_ID item = i" if "items_keyed s"
      using that assms by (auto simp: item_def run_from_def items_keyed_def split: option.splits)
    have at: "item_at (fr_state run') j = (if j = i then Some item else item_at (fr_state run) j)" for j by (simp add: run'(1) update_conv')
    have "items_keyed (fr_state run')" if "items_keyed s" using that keyed assms at by (auto simp: items_keyed_def run_from_def split: if_splits)
    moreover have "di_Status item = DiagnosticStatusCurrent" by (simp add: item_def)
    ultimately have "run_from s run'" using assms keyed 3(1) unfolding run_from_def at run'(2-5) by auto
    then show ?thesis by (simp add: run'_def)
  qed (use assms in \<open>simp_all add: record_finding_def Let_def finding_def [symmetric] i_def [symmetric, simplified] run_from_def\<close>)
qed

lemma run_from_findings: "run_from s (recordFindingsLocked L batch evID known s)"
proof -
  have "run_from s run \<Longrightarrow> run_from s (fold (record_finding L batch evID known) raws run)" for raws run
    by (induction raws arbitrary: run) (simp_all add: run_from_step)
  then show ?thesis by (simp add: recordFindingsLocked_def run_from_start)
qed

text \<open>Resolving: exactly the listed items that were not seen and that the stream covers.\<close>

definition resolvable :: "string list \<Rightarrow> string list \<Rightarrow> DiagnosticEvidenceKind \<Rightarrow> string \<Rightarrow> DiagnosticItem \<Rightarrow> bool" where
  "resolvable ids seen kind i item \<longleftrightarrow> i \<in> set ids \<and> i \<notin> set seen \<and> streamCoversItem item kind"

definition as_resolved :: "int \<Rightarrow> DiagnosticItem \<Rightarrow> DiagnosticItem" where
  "as_resolved observedAt item = item\<lparr> di_Status := DiagnosticStatusResolved, di_ResolvedAt := observedAt \<rparr>"

lemma as_resolved_simps [simp]:
  "streamCoversItem (as_resolved at item) kind = streamCoversItem item kind" "as_resolved at (as_resolved at item) = as_resolved at item"
  "di_Status (as_resolved at item) = DiagnosticStatusResolved" "di_ID (as_resolved at item) = di_ID item"
  by (simp_all add: as_resolved_def streamCoversItem_def)

lemma resolve_items:
  "item_at (snd (resolveAbsentLocked ids seen kind at s)) i =
     map_option (\<lambda>item. if resolvable ids seen kind i item then as_resolved at item else item) (item_at s i)"
proof (induction ids arbitrary: s)
  case (Cons j ids)
  show ?case
  proof (cases "item_at s j")
    case None
    then show ?thesis using Cons by (cases "item_at s i") (auto simp: resolvable_def)
  next
    case (Some item)
    show ?thesis
    proof (cases "j \<in> set seen \<or> \<not> streamCoversItem item kind")
      case True
      then show ?thesis using Cons Some by (cases "item_at s i") (auto simp: resolvable_def)
    next
      case False
      define s1 where "s1 = addNotice ''resolved'' (as_resolved at item) (s\<lparr> lg_Items := AList.update j (as_resolved at item) (lg_Items s) \<rparr>)"
      have "resolveAbsentLocked (j # ids) seen kind at s =
          (as_resolved at item # fst (resolveAbsentLocked ids seen kind at s1), snd (resolveAbsentLocked ids seen kind at s1))"
        using Some False by (simp add: Let_def s1_def as_resolved_def case_prod_beta)
      moreover have "item_at s1 i = (if i = j then Some (as_resolved at item) else item_at s i)" by (simp add: s1_def update_conv')
      ultimately show ?thesis using Cons.IH [of s1] Some False by (cases "item_at s i") (auto simp: resolvable_def)
    qed
  qed
qed (auto simp: resolvable_def option.map_ident)

lemma resolve_memberships:
  "lg_Active (snd (resolveAbsentLocked ids seen kind at s)) = lg_Active s \<and> lg_Stale (snd (resolveAbsentLocked ids seen kind at s)) = lg_Stale s"
  by (induction ids arbitrary: s) (simp_all add: Let_def case_prod_beta split: option.splits)

text \<open>A changed document turns findings stale; it resolves none and adds none.\<close>

lemma stale_ids_items:
  "item_at (snd (snd (stale_ids revision key ids s))) i =
     map_option (\<lambda>item. if i \<in> set ids \<and> \<not> (revision \<noteq> [] \<and> di_DocumentRevision item = revision) then stale_item revision item else item) (item_at s i)"
proof (induction ids arbitrary: s)
  case (Cons j ids)
  show ?case
  proof (cases "item_at s j")
    case None
    then show ?thesis using Cons by (cases "item_at s i") auto
  next
    case (Some item)
    show ?thesis
    proof (cases "revision \<noteq> [] \<and> di_DocumentRevision item = revision")
      case True
      then show ?thesis using Cons Some by (cases "item_at s i") (auto simp: case_prod_beta)
    next
      case False
      define s1 where "s1 = addNotice ''stale'' (stale_item revision item) (s\<lparr> lg_Items := AList.update j (stale_item revision item) (lg_Items s),
        lg_Stale := AList.update key (appendUnique (ids_at (lg_Stale s) key) [j]) (lg_Stale s) \<rparr>)"
      have "snd (snd (stale_ids revision key (j # ids) s)) = snd (snd (stale_ids revision key ids s1))"
        using Some False by (auto simp: Let_def s1_def case_prod_beta)
      moreover have "item_at s1 i = (if i = j then Some (stale_item revision item) else item_at s i)" by (simp add: s1_def update_conv')
      ultimately show ?thesis using Cons.IH [of s1] Some False by (cases "item_at s i") (auto simp: stale_item_def)
    qed
  qed
qed (auto simp: option.map_ident)

lemma stale_ids_active: "lg_Active (snd (snd (stale_ids revision key ids s))) = lg_Active s"
  by (induction ids arbitrary: s) (simp_all add: Let_def case_prod_beta split: option.splits)

text \<open>Items of the second state are those of the first, some of them stale.\<close>

definition only_stales :: "string \<Rightarrow> diagnosticState \<Rightarrow> diagnosticState \<Rightarrow> bool" where
  "only_stales revision s s' \<longleftrightarrow> (\<forall>i. item_at s' i = item_at s i \<or> item_at s' i = map_option (stale_item revision) (item_at s i))"

lemma only_stales_cases:
  assumes "only_stales revision s s'"
  obtains (same) "item_at s' i = item_at s i"
    | (stale) item where "item_at s i = Some item" "item_at s' i = Some (stale_item revision item)"
  using assms unfolding only_stales_def by (cases "item_at s i") fastforce+

lemma only_stales_trans: "only_stales revision s s' \<Longrightarrow> only_stales revision s' s'' \<Longrightarrow> only_stales revision s s''"
proof -
  have "map_option (stale_item revision) (map_option (stale_item revision) found) = map_option (stale_item revision) found" for found
    by (cases found) (simp_all add: stale_item_def)
  then show "only_stales revision s s' \<Longrightarrow> only_stales revision s' s'' \<Longrightarrow> only_stales revision s s''" unfolding only_stales_def by metis
qed

lemma stale_key_only_stales: "only_stales revision (snd run) (snd (stale_key names revision key run))"
proof (cases "names_key names key")
  case True
  have "item_at (snd (stale_key names revision key run)) i = item_at (snd (snd (stale_ids revision key (ids_at (lg_Active (snd run)) key) (snd run)))) i" for i
    using True by (simp add: stale_key_def case_prod_beta)
  then have "item_at (snd (stale_key names revision key run)) i = item_at (snd run) i \<or>
      item_at (snd (stale_key names revision key run)) i = map_option (stale_item revision) (item_at (snd run) i)" for i
    by (cases "item_at (snd run) i") (simp_all add: stale_ids_items)
  then show ?thesis by (simp add: only_stales_def)
qed (simp add: stale_key_def only_stales_def)

lemma stale_keys_only_stales: "only_stales revision (snd run) (snd (fold (stale_key names revision) keys run))"
proof (induction keys arbitrary: run)
  case (Cons key keys)
  show ?case using only_stales_trans [OF stale_key_only_stales Cons.IH] by simp
qed (simp add: only_stales_def)

lemma documentChanged_fields:
  "lg_Items (snd (documentChangedLocked documents revision s)) =
     lg_Items (snd (fold (stale_key (map Clean documents) revision) (sort (map fst (lg_Active s))) (False, s)))"
  "lg_Active (snd (documentChangedLocked documents revision s)) =
     lg_Active (snd (fold (stale_key (map Clean documents) revision) (sort (map fst (lg_Active s))) (False, s)))"
  "lg_Stale (snd (documentChangedLocked documents revision s)) =
     lg_Stale (snd (fold (stale_key (map Clean documents) revision) (sort (map fst (lg_Active s))) (False, s)))"
  by (simp_all add: documentChangedLocked_def aggregate_all_def Let_def case_prod_beta)

lemma documentChanged_only_stales: "only_stales revision s (snd (documentChangedLocked documents revision s))"
  using stale_keys_only_stales [of revision "(False, s)"] by (simp add: only_stales_def documentChanged_fields)

section \<open>Withdrawal\<close>

text \<open>The items a published batch leaves, in terms of its run over the findings.\<close>

lemma published_items:
  assumes "record_published L batch confidence reasons index s = (report, index', s')"
  obtains run where "run_from s run" "rp_Current report = fr_current run"
    "\<And>i. item_at s' i = map_option (\<lambda>item. if withdraws batch confidence \<and>
        resolvable (ids_at (lg_Active s) (membership_key batch) @ ids_at (lg_Stale s) (membership_key batch)) (fr_seen run) (db_Kind batch) i item
      then as_resolved (db_ObservedAt batch) item else item) (item_at (fr_state run) i)"
proof -
  define known where "known = baselineKnownLocked s batch (case map_of (lg_ProviderDimensions s) (lane_key batch) of Some d \<Rightarrow> dd_EvidenceIDs d | None \<Rightarrow> [])"
  obtain evID index1 s1 where evidence: "recordEvidenceLocked L batch confidence reasons index s = (evID, index1, s1)" by (metis prod_cases3)
  then have same: "lg_Items s1 = lg_Items s" "lg_Active s1 = lg_Active s" "lg_Stale s1 = lg_Stale s"
    using recordEvidence_findings [of s L batch confidence reasons index] by (simp_all add: same_findings_def)
  define run where "run = (if not_old batch then recordFindingsLocked L batch evID known s1 else start_run s1)"
  have "run_from s1 run" by (simp add: run_def run_from_findings run_from_start)
  then have run: "run_from s run" unfolding run_from_def items_keyed_def same .
  define previous where "previous = ids_at (lg_Active s) (membership_key batch) @ ids_at (lg_Stale s) (membership_key batch)"
  obtain resolved s2 where resolved: "(if withdraws batch confidence
      then resolveAbsentLocked previous (fr_seen run) (db_Kind batch) (db_ObservedAt batch) (fr_state run) else ([], fr_state run)) = (resolved, s2)"
    by fastforce
  have items: "item_at s2 i = map_option (\<lambda>item. if withdraws batch confidence \<and> resolvable previous (fr_seen run) (db_Kind batch) i item
      then as_resolved (db_ObservedAt batch) item else item) (item_at (fr_state run) i)" for i
    using resolve_items [of previous "fr_seen run" "db_Kind batch" "db_ObservedAt batch" "fr_state run" i] resolved
    by (auto simp: option.map_ident split: if_splits)
  have "lg_Items (snd (snd (record_published L batch confidence reasons index s))) = lg_Items s2"
    "rp_Current (fst (record_published L batch confidence reasons index s)) = fr_current run"
    unfolding record_published_def Let_def evidence prod.case known_def [symmetric] run_def [symmetric] same previous_def [symmetric] resolved
    by simp_all
  then show ?thesis using that [OF run] items assms by (simp add: previous_def)
qed

lemma staged_keeps_findings:
  assumes "recordLocked L batch index s = (report, index', s')" "db_Staged batch"
  shows "same_findings s s'"
  using assms add_evidence_findings [of s L batch]
  by (auto simp: recordLocked_def recordStagedLocked_def Let_def same_findings_def split: prod.splits)

lemma only_stales_keyed: "only_stales revision s s' \<Longrightarrow> items_keyed s \<Longrightarrow> items_keyed s'"
  unfolding items_keyed_def
proof (intro allI impI)
  fix i item
  assume stales: "only_stales revision s s'" and keyed: "\<forall>i item. item_at s i = Some item \<longrightarrow> di_ID item = i" and found: "item_at s' i = Some item"
  from stales show "di_ID item = i"
    by (cases rule: only_stales_cases [of revision s s' i]) (use keyed found in \<open>auto simp: stale_item_def\<close>)
qed

lemma only_stales_unresolved:
  assumes "only_stales revision s s'" "item_at s i = Some item" "di_Status item \<noteq> DiagnosticStatusResolved"
  shows "\<exists>item'. item_at s' i = Some item' \<and> di_Status item' \<noteq> DiagnosticStatusResolved"
proof -
  have "item_at s' i = Some item \<or> item_at s' i = Some (stale_item revision item)" using assms(1,2) by (auto simp: only_stales_def dest: spec [of _ i])
  then show ?thesis using assms(3) by (auto simp: stale_item_def)
qed

lemma corroborated_rank: "2 \<le> confidenceRank confidence \<longleftrightarrow> confidence \<in> {ConfidenceAuthoritative, ConfidenceCorroborated}"
  by (cases confidence) simp_all


section \<open>Changed documents\<close>

text \<open>The findings of a key that are about the given revision, and those about other bytes.\<close>

definition about_revision :: "string \<Rightarrow> diagnosticState \<Rightarrow> string \<Rightarrow> bool" where
  "about_revision revision s i \<longleftrightarrow> (\<exists>item. item_at s i = Some item \<and> revision \<noteq> [] \<and> di_DocumentRevision item = revision)"

definition about_older :: "string \<Rightarrow> diagnosticState \<Rightarrow> string \<Rightarrow> bool" where
  "about_older revision s i \<longleftrightarrow> (\<exists>item. item_at s i = Some item \<and> \<not> (revision \<noteq> [] \<and> di_DocumentRevision item = revision))"

lemma only_stales_about:
  assumes "only_stales revision s s'"
  shows "about_revision revision s' i = about_revision revision s i" "about_older revision s' i = about_older revision s i"
  using assms by (cases rule: only_stales_cases [of revision s s' i]; simp add: about_revision_def about_older_def stale_item_def)+

lemma set_appendUnique [simp]: "set (appendUnique vs additions) = set vs \<union> set additions"
proof -
  have "set (fold (\<lambda>v found. if v \<in> set found then found else found @ [v]) additions vs) = set vs \<union> set additions"
    by (induction additions arbitrary: vs) auto
  then show ?thesis by (simp add: appendUnique_def)
qed

lemma ids_at_update: "ids_at (AList.update key ids memberships) key' = (if key' = key then ids else ids_at memberships key')"
  by (simp add: ids_at_def update_conv')

lemma ids_at_delete: "ids_at (AList.delete key memberships) key' = (if key' = key then [] else ids_at memberships key')"
  by (simp add: ids_at_def delete_conv')

lemma stale_ids_remaining: "set (fst (stale_ids revision key ids s)) = {i \<in> set ids. about_revision revision s i}"
proof (induction ids arbitrary: s)
  case (Cons j ids)
  show ?case
  proof (cases "item_at s j")
    case None
    then show ?thesis using Cons by (auto simp: about_revision_def)
  next
    case (Some item)
    show ?thesis
    proof (cases "revision \<noteq> [] \<and> di_DocumentRevision item = revision")
      case True
      then show ?thesis using Cons Some by (auto simp: case_prod_beta about_revision_def)
    next
      case False
      define s1 where "s1 = addNotice ''stale'' (stale_item revision item) (s\<lparr> lg_Items := AList.update j (stale_item revision item) (lg_Items s),
        lg_Stale := AList.update key (appendUnique (ids_at (lg_Stale s) key) [j]) (lg_Stale s) \<rparr>)"
      have "fst (stale_ids revision key (j # ids) s) = fst (stale_ids revision key ids s1)"
        using Some False by (auto simp: Let_def s1_def case_prod_beta)
      moreover have "about_revision revision s1 i = about_revision revision s i" for i
        using Some by (auto simp: s1_def update_conv' about_revision_def stale_item_def)
      ultimately show ?thesis using Cons.IH [of s1] Some False by (auto simp: about_revision_def)
    qed
  qed
qed simp

lemma stale_ids_stale:
  "set (ids_at (lg_Stale (snd (snd (stale_ids revision key ids s)))) key') =
     set (ids_at (lg_Stale s) key') \<union> (if key' = key then {i \<in> set ids. about_older revision s i} else {})"
proof (induction ids arbitrary: s)
  case (Cons j ids)
  show ?case
  proof (cases "item_at s j")
    case None
    then show ?thesis using Cons by (auto simp: about_older_def)
  next
    case (Some item)
    show ?thesis
    proof (cases "revision \<noteq> [] \<and> di_DocumentRevision item = revision")
      case True
      then show ?thesis using Cons Some by (auto simp: case_prod_beta about_older_def)
    next
      case False
      define s1 where "s1 = addNotice ''stale'' (stale_item revision item) (s\<lparr> lg_Items := AList.update j (stale_item revision item) (lg_Items s),
        lg_Stale := AList.update key (appendUnique (ids_at (lg_Stale s) key) [j]) (lg_Stale s) \<rparr>)"
      have "snd (snd (stale_ids revision key (j # ids) s)) = snd (snd (stale_ids revision key ids s1))"
        using Some False by (auto simp: Let_def s1_def case_prod_beta)
      moreover have "about_older revision s1 i = about_older revision s i" for i
        using Some by (auto simp: s1_def update_conv' about_older_def stale_item_def)
      moreover have "set (ids_at (lg_Stale s1) key') = set (ids_at (lg_Stale s) key') \<union> (if key' = key then {j} else {})"
        by (auto simp: s1_def ids_at_update)
      moreover have "about_older revision s j" using Some False by (auto simp: about_older_def)
      ultimately show ?thesis using Cons.IH [of s1] by auto
    qed
  qed
qed simp

lemma stale_key_memberships:
  fixes revision key key' names
  defines "named \<equiv> names_key names key \<and> key' = key"
  shows "set (ids_at (lg_Active (snd (stale_key names revision key run))) key') =
      (if named then {i \<in> set (ids_at (lg_Active (snd run)) key'). about_revision revision (snd run) i} else set (ids_at (lg_Active (snd run)) key'))"
    "set (ids_at (lg_Stale (snd (stale_key names revision key run))) key') =
      set (ids_at (lg_Stale (snd run)) key') \<union>
        (if named then {i \<in> set (ids_at (lg_Active (snd run)) key'). about_older revision (snd run) i} else {})"
proof -
  define out where "out = stale_ids revision key (ids_at (lg_Active (snd run)) key) (snd run)"
  have remaining: "set (fst out) = {i \<in> set (ids_at (lg_Active (snd run)) key). about_revision revision (snd run) i}"
    by (simp add: out_def stale_ids_remaining)
  have key: "names_key names key \<Longrightarrow> lg_Active (snd (stale_key names revision key run)) =
      (if fst out = [] then AList.delete key (lg_Active (snd run)) else AList.update key (fst out) (lg_Active (snd run)))"
    "names_key names key \<Longrightarrow> lg_Stale (snd (stale_key names revision key run)) = lg_Stale (snd (snd out))"
    by (simp_all add: stale_key_def out_def [symmetric] case_prod_beta) (simp_all add: out_def stale_ids_active)
  show "set (ids_at (lg_Active (snd (stale_key names revision key run))) key') =
      (if named then {i \<in> set (ids_at (lg_Active (snd run)) key'). about_revision revision (snd run) i} else set (ids_at (lg_Active (snd run)) key'))"
    using remaining key(1) by (cases "names_key names key") (auto simp: named_def ids_at_update ids_at_delete stale_key_def)
  show "set (ids_at (lg_Stale (snd (stale_key names revision key run))) key') =
      set (ids_at (lg_Stale (snd run)) key') \<union>
        (if named then {i \<in> set (ids_at (lg_Active (snd run)) key'). about_older revision (snd run) i} else {})"
    using key(2) by (cases "names_key names key") (auto simp: named_def out_def stale_ids_stale stale_key_def)
qed

lemma stale_keys_memberships:
  fixes names revision keys key
  defines "named \<equiv> names_key names key \<and> key \<in> set keys"
  shows "set (ids_at (lg_Active (snd (fold (stale_key names revision) keys run))) key) =
      (if named then {i \<in> set (ids_at (lg_Active (snd run)) key). about_revision revision (snd run) i} else set (ids_at (lg_Active (snd run)) key))
    \<and> (named \<longrightarrow> {i \<in> set (ids_at (lg_Active (snd run)) key). about_older revision (snd run) i} \<subseteq>
         set (ids_at (lg_Stale (snd (fold (stale_key names revision) keys run))) key))
    \<and> set (ids_at (lg_Stale (snd run)) key) \<subseteq> set (ids_at (lg_Stale (snd (fold (stale_key names revision) keys run))) key)"
  unfolding named_def
proof (induction keys arbitrary: run)
  case (Cons k keys)
  define run' where "run' = stale_key names revision k run"
  note step = stale_key_memberships [where run = run and names = names and revision = revision and key = k and key' = key, folded run'_def]
  have about: "about_revision revision (snd run') i = about_revision revision (snd run) i" "about_older revision (snd run') i = about_older revision (snd run) i" for i
    using only_stales_about [OF stale_key_only_stales [of revision run names k]] by (simp_all add: run'_def)
  have split: "fold (stale_key names revision) (k # keys) run = fold (stale_key names revision) keys run'" by (simp add: run'_def)
  show ?case using Cons.IH [of run'] step unfolding split about by (cases "k = key") (auto split: if_splits)
qed simp

lemma stale_keys_status:
  assumes "key \<in> set keys" "names_key names key" "i \<in> set (ids_at (lg_Active (snd run)) key)" "about_older revision (snd run) i"
  shows "map_option di_Status (item_at (snd (fold (stale_key names revision) keys run)) i) = Some DiagnosticStatusStale"
  using assms
proof (induction keys arbitrary: run)
  case (Cons k keys)
  define run' where "run' = stale_key names revision k run"
  note step = stale_key_memberships [where run = run and names = names and revision = revision and key = k and key' = key, folded run'_def]
  have older: "about_older revision (snd run') i" using only_stales_about [OF stale_key_only_stales [of revision run names k]] Cons.prems(4) by (simp add: run'_def)
  show ?case
  proof (cases "k = key")
    case True
    obtain item where item: "item_at (snd run) i = Some item" "\<not> (revision \<noteq> [] \<and> di_DocumentRevision item = revision)"
      using Cons.prems(4) by (auto simp: about_older_def)
    have stale: "item_at (snd run') i = Some (stale_item revision item)"
      using True Cons.prems(2,3) item by (auto simp: run'_def stale_key_def case_prod_beta stale_ids_items)
    have "only_stales revision (snd run') (snd (fold (stale_key names revision) keys run'))" by (rule stale_keys_only_stales)
    then have "map_option di_Status (item_at (snd (fold (stale_key names revision) keys run')) i) = Some DiagnosticStatusStale"
      by (cases rule: only_stales_cases [of revision "snd run'" "snd (fold (stale_key names revision) keys run')" i]) (use stale in \<open>auto simp: stale_item_def\<close>)
    then show ?thesis by (simp add: run'_def)
  next
    case False
    then have "i \<in> set (ids_at (lg_Active (snd run')) key)" using step(1) Cons.prems(3) by auto
    then show ?thesis using Cons.IH [of run'] Cons.prems(1,2) False older by (simp add: run'_def)
  qed
qed simp

text \<open>
  C17. Findings about older bytes do not stay current: when a document changed to a revision, a
  current finding of that document about this revision stays active, and every other one is active
  no more, is listed as stale and has the status stale.
\<close>

theorem changed_document_goes_stale:
  assumes "documentChangedLocked documents revision s = (changed, s')" "names_key (map Clean documents) key"
    "i \<in> set (ids_at (lg_Active s) key)" "item_at s i = Some item"
  shows "if revision \<noteq> [] \<and> di_DocumentRevision item = revision then i \<in> set (ids_at (lg_Active s') key)
    else i \<notin> set (ids_at (lg_Active s') key) \<and> i \<in> set (ids_at (lg_Stale s') key) \<and>
      map_option di_Status (item_at s' i) = Some DiagnosticStatusStale"
proof -
  define names where "names = map Clean documents"
  define keys where "keys = sort (map fst (lg_Active s))"
  define run where "run = fold (stale_key names revision) keys (False, s)"
  have "map_of (lg_Active s) key \<noteq> None" using assms(3) by (cases "map_of (lg_Active s) key") (simp_all add: ids_at_def)
  then have "key \<in> fst ` set (lg_Active s)" by (simp add: map_of_eq_None_iff)
  then have key: "key \<in> set keys" by (simp add: keys_def)
  have fields: "lg_Items s' = lg_Items (snd run)" "lg_Active s' = lg_Active (snd run)" "lg_Stale s' = lg_Stale (snd run)"
    using assms(1) documentChanged_fields [of documents revision s] by (simp_all add: run_def names_def keys_def)
  note memberships = stale_keys_memberships [where key = key and names = names and revision = revision and keys = keys and run = "(False, s)", folded run_def]
  show ?thesis
  proof (cases "revision \<noteq> [] \<and> di_DocumentRevision item = revision")
    case True
    then have "about_revision revision s i" using assms(4) by (simp add: about_revision_def)
    then show ?thesis using True memberships key assms(2,3) by (simp add: fields names_def)
  next
    case False
    then have "\<not> about_revision revision s i" "about_older revision s i" using assms(4) by (auto simp: about_revision_def about_older_def)
    then show ?thesis
      using False memberships key assms(2,3) stale_keys_status [of key keys names i "(False, s)" revision]
      by (auto simp: fields names_def run_def)
  qed
qed

lemma weaken_rank: "confidenceRank (dd_Confidence (weaken d)) \<le> 1"
  by (auto simp: weaken_def)

text \<open>
  Coverage claimed for older bytes is withdrawn: after a document changed to a revision, every
  coverage lane of the document is at most provisional, unless its newest evidence is about that
  very revision.
\<close>

theorem changed_document_weakens_lanes:
  assumes "documentChangedLocked documents revision s = (changed, s')" "(lane, d) \<in> set (lg_ProviderDimensions s')"
    "length (split_on nul lane) \<ge> 3" "split_on nul lane ! 2 \<in> set (map Clean documents)"
  shows "confidenceRank (dd_Confidence d) \<le> confidenceRank ConfidenceProvisional \<or> lane_current s' revision d"
proof -
  define names where "names = map Clean documents"
  define s1 where "s1 = snd (fold (stale_key names revision) (sort (map fst (lg_Active s))) (False, s))"
  have fields: "lg_ProviderDimensions s' = map (\<lambda>lane. if lane_outdated names revision s1 lane then (fst lane, outdated_lane (snd lane)) else lane) (lg_ProviderDimensions s1)"
    "lg_Evidence s' = lg_Evidence s1"
    using assms(1) by (auto simp: documentChangedLocked_def aggregate_all_def Let_def names_def s1_def case_prod_beta)
  obtain before where before: "(lane, before) \<in> set (lg_ProviderDimensions s1)"
    "d = (if lane_outdated names revision s1 (lane, before) then outdated_lane before else before)"
    using assms(2) by (auto simp: fields split: if_splits)
  show ?thesis
  proof (cases "lane_outdated names revision s1 (lane, before)")
    case True
    then show ?thesis using before(2) weaken_rank by (simp add: outdated_lane_def)
  next
    case False
    then have "lane_current s1 revision before" using assms(3,4) by (simp add: lane_outdated_def names_def)
    then have "lane_current s' revision d" using before(2) False by (simp add: lane_current_def payload_of_def fields cong: option.case_cong)
    then show ?thesis by simp
  qed
qed

section \<open>Confidence and failures\<close>

text \<open>
  A batch is authoritative exactly if it is a complete push or pull, or a complete workspace
  report with a result identifier, of a selected provider that neither timed out nor still works,
  for a document version at least the expected one, in a resolved Python environment.
\<close>

theorem authoritative_exactly_when:
  "fst (confidenceFor batch) = ConfidenceAuthoritative \<longleftrightarrow>
     db_Complete batch \<and> db_Selected batch \<and> \<not> db_TimedOut batch \<and> \<not> db_ProgressPending batch \<and>
     (\<exists>version expected. db_DocumentVersion batch = Some version \<and> db_ExpectedVersion batch = Some expected \<and> expected \<le> version) \<and>
     (db_Kind batch \<in> {EvidencePush, EvidencePull} \<or> db_Kind batch = EvidenceWorkspace \<and> db_ResultID batch \<noteq> []) \<and>
     db_Reason batch \<noteq> ''python_environment_unresolved''"
proof -
  have current: "currentPublication batch \<longleftrightarrow>
      (\<exists>version expected. db_DocumentVersion batch = Some version \<and> db_ExpectedVersion batch = Some expected \<and> expected \<le> version)"
    by (auto simp: currentPublication_def split: option.splits)
  show ?thesis unfolding current [symmetric]
    by (cases "db_Kind batch") (auto simp: confidenceFor_def publication_confidence_def Let_def)
qed

text \<open>
  A batch over staged bytes records its evidence and nothing else: findings, memberships,
  coverage and notices of the ledger stay as they are, even when it is marked as a baseline.
\<close>

theorem staged_stays_out:
  assumes "recordLocked L batch index s = (report, index', s')" "db_Staged batch"
  shows "s' = s\<lparr> lg_Sequence := Suc (lg_Sequence s),
    lg_Evidence := AList.update (evidenceID L batch (Suc (lg_Sequence s))) (stored_evidence (evidenceID L batch (Suc (lg_Sequence s))) batch) (lg_Evidence s) \<rparr>"
  using assms by (auto simp: recordLocked_def recordStagedLocked_def add_evidence_def Let_def split: prod.splits)

text \<open>
  C24. Recording is all or nothing: a refused or failed call leaves the ledger in memory as it was,
  and a call that succeeds leaves exactly the recorded ledger in memory and in the file of a
  persistent store.
\<close>

theorem recordBatches_all_or_nothing:
  assumes "recordBatches L now retained outcome batches store = (result, store')" "batches \<noteq> []"
  shows "(case result of
      Inl e \<Rightarrow> sto_state store' = sto_state store
    | Inr reports \<Rightarrow> (\<forall>batch \<in> set batches. refused_batch batch = None) \<and>
        (\<exists>index s. record_all L (map (prepared_batch now) batches) (sto_baselineIndex store) (sto_state store) = (reports, index, s) \<and>
          sto_state store' = snd (pruneLocked now (retained @ concat (map rp_EvidenceIDs reports)) index s)) \<and>
        (sto_persistent store \<longrightarrow> sto_file store' = Some (sto_state store')))"
proof (cases "List.map_filter refused_batch batches")
  case (Cons e es)
  then show ?thesis using assms by (auto simp: recordBatches_def)
next
  case Nil
  define previous where "previous = sto_state store"
  obtain reports index s where all: "record_all L (map (prepared_batch now) batches) (sto_baselineIndex store) previous = (reports, index, s)"
    by (metis prod_cases3)
  obtain index' s' where prune: "pruneLocked now (retained @ concat (map rp_EvidenceIDs reports)) index s = (index', s')" by fastforce
  obtain saved store1 where save: "save outcome (store\<lparr> sto_state := s', sto_baselineIndex := index' \<rparr>) = (saved, store1)" by fastforce
  have stored: "saved = Ok () \<Longrightarrow> sto_state store1 = s' \<and> (sto_persistent store \<longrightarrow> sto_file store1 = Some s')"
    using save by (auto simp: save_def split: if_splits write_outcome.splits)
  have recorded: "(result, store') = (case saved of Inl e \<Rightarrow> (Error e, store1\<lparr> sto_state := previous, sto_baselineIndex := None \<rparr>) | Inr _ \<Rightarrow> (Ok reports, store1))"
    using assms Nil all prune save by (simp add: recordBatches_def Let_def previous_def cong: sum.case_cong)
  have accepted: "\<forall>batch \<in> set batches. refused_batch batch = None"
    using Nil by (auto simp: List.map_filter_def filter_empty_conv)
  show ?thesis
  proof (cases saved)
    case (Inl e)
    then show ?thesis using recorded by (simp add: previous_def)
  next
    case (Inr u)
    then show ?thesis using recorded stored accepted all prune by (simp add: previous_def)
  qed
qed

end
