(* ===== verification/Evidence_Retention.thy ===== *)
theory Evidence_Retention
  imports Evidence_Safety Evidence_Proof
begin

text \<open>
  What the ledger keeps and what it forgets: its maps stay well formed over every run, pruning bounds
  what nothing refers to and drops nothing that is live or referenced, and the evidence a caller is
  told about can be fetched.
\<close>

section \<open>Bounded forgetting\<close>

lemma length_filter_keys:
  assumes "distinct (map fst xs)" "distinct keys" "set keys \<subseteq> set (map fst xs)"
  shows "length (filter (\<lambda>x. fst x \<notin> set keys) xs) = length xs - length keys"
proof -
  have "map fst (filter (\<lambda>x. fst x \<in> set keys) xs) = filter (\<lambda>k. k \<in> set keys) (map fst xs)" by (simp add: filter_map comp_def)
  moreover have "distinct (filter (\<lambda>k. k \<in> set keys) (map fst xs))" "set (filter (\<lambda>k. k \<in> set keys) (map fst xs)) = set keys"
    using assms by auto
  ultimately have "length (filter (\<lambda>x. fst x \<in> set keys) xs) = length keys"
    using assms(2) by (metis distinct_card length_map)
  then show ?thesis using sum_length_filter_compl [of "\<lambda>x. fst x \<in> set keys" xs] by simp
qed

lemma oldest_keys: "set (oldest excess at ids) \<subseteq> set ids" "distinct ids \<Longrightarrow> distinct (oldest excess at ids)"
    "length (oldest excess at ids) = min excess (length ids)"
  by (auto simp: oldest_def dest: in_set_takeD intro: distinct_take)

lemma dropOldest_bound:
  assumes "distinct (map fst entries)"
  shows "length (filter (\<lambda>(i, _). P i) (dropOldest bound at (filter (\<lambda>(i, _). P i) entries) entries)) \<le> bound"
proof -
  define candidates where "candidates = filter (\<lambda>(i, _). P i) entries"
  define gone where "gone = oldest (length candidates - bound) (\<lambda>i. case map_of entries i of Some x \<Rightarrow> at x | None \<Rightarrow> 0) (map fst candidates)"
  have "distinct (map fst candidates)" using assms by (simp add: candidates_def distinct_map_filter)
  then have "length (filter (\<lambda>x. fst x \<notin> set gone) candidates) = length candidates - length gone"
    using oldest_keys length_filter_keys unfolding gone_def by metis
  also have "\<dots> \<le> bound" by (simp add: gone_def oldest_keys(3))
  finally have "length (filter (\<lambda>x. fst x \<notin> set gone) candidates) \<le> bound" .
  moreover have "filter (\<lambda>(i, _). P i) (dropOldest bound at candidates entries) = filter (\<lambda>x. fst x \<notin> set gone) candidates"
    unfolding dropOldest_def Let_def gone_def [symmetric] by (simp add: candidates_def conj_commute case_prod_beta)
  ultimately show ?thesis by (simp add: candidates_def)
qed

lemma map_of_filter_key: "map_of (filter (\<lambda>(i, _). P i) xs) i = (if P i then map_of xs i else None)"
  by (induction xs) auto

lemma dropOldest_keeps:
  assumes "\<not> P i"
  shows "map_of (dropOldest bound at (filter (\<lambda>(i, _). P i) entries) entries) i = map_of entries i"
proof -
  define candidates where "candidates = filter (\<lambda>(i, _). P i) entries"
  define gone where "gone = oldest (length candidates - bound) (\<lambda>i. case map_of entries i of Some x \<Rightarrow> at x | None \<Rightarrow> 0) (map fst candidates)"
  have "i \<notin> set gone" using oldest_keys(1) assms by (fastforce simp: gone_def candidates_def)
  then show ?thesis by (simp add: dropOldest_def Let_def gone_def [symmetric] candidates_def [symmetric] map_of_filter_key)
qed

lemma dropOldest_keys: "distinct (map fst entries) \<Longrightarrow> distinct (map fst (dropOldest bound at candidates entries))"
  by (simp add: dropOldest_def Let_def distinct_map_filter)

lemma map_of_map_value: "map_of (map (\<lambda>(i, x). (i, f x)) xs) i = map_option f (map_of xs i)"
  by (induction xs) auto

text \<open>The states between the three prunings.\<close>

abbreviation shortened :: "DiagnosticItem \<Rightarrow> DiagnosticItem" where
  "shortened item \<equiv> item\<lparr> di_EvidenceIDs := recentEvidenceIDs [] (di_EvidenceIDs item) \<rparr>"

lemma live_item_fields:
  assumes "lg_Active s' = lg_Active s" "lg_Stale s' = lg_Stale s" "lg_Notices s' = lg_Notices s"
  shows "live_item s' = live_item s"
  using assms by (simp add: live_item_def fun_eq_iff)

lemma referenced_fields:
  assumes "lg_Items s' = lg_Items s" "lg_Dimensions s' = lg_Dimensions s" "lg_ProviderDimensions s' = lg_ProviderDimensions s"
  shows "referenced retained s' = referenced retained s"
  using assms by (simp add: referenced_def fun_eq_iff)

lemma pruneItems_memberships [simp]:
  "lg_Active (pruneItemsLocked now s) = lg_Active s" "lg_Stale (pruneItemsLocked now s) = lg_Stale s"
  "lg_Evidence (pruneItemsLocked now s) = lg_Evidence s"
  by (simp_all add: pruneItemsLocked_def Let_def)

lemma pruneNotices_memberships [simp]:
  "lg_Active (pruneNoticesLocked s) = lg_Active s" "lg_Stale (pruneNoticesLocked s) = lg_Stale s"
  "lg_Evidence (pruneNoticesLocked s) = lg_Evidence s" "lg_Items (pruneNoticesLocked s) = lg_Items s"
  by (simp_all add: pruneNoticesLocked_def Let_def)

lemma bound_references_memberships [simp]:
  "lg_Active (bound_references s) = lg_Active s" "lg_Stale (bound_references s) = lg_Stale s" "lg_Evidence (bound_references s) = lg_Evidence s"
  by (simp_all add: bound_references_def)

text \<open>Items.\<close>

lemma pruneItems_bounded:
  assumes "distinct (map fst (lg_Items s))"
  shows "length (filter (\<lambda>(i, _). \<not> live_item s i) (lg_Items (pruneItemsLocked now s))) \<le> maxInactiveDiagnosticItems"
    "distinct (map fst (lg_Items (pruneItemsLocked now s)))"
  using assms by (simp_all add: pruneItemsLocked_def Let_def dropOldest_bound dropOldest_keys distinct_map_filter del: filter_filter)

lemma map_of_filter_kept:
  assumes "\<And>x. P (i, x)"
  shows "map_of (filter P xs) i = map_of xs i"
  using assms by (induction xs) auto

lemma pruneItems_keeps: "live_item s i \<Longrightarrow> item_at (pruneItemsLocked now s) i = item_at s i"
  by (simp add: pruneItemsLocked_def Let_def dropOldest_keeps map_of_filter_kept del: filter_filter)

text \<open>Evidence.\<close>

lemma pruneEvidence_fields:
  fixes retained s
  defines "s1 \<equiv> bound_references s"
  shows "lg_Evidence (snd (pruneEvidenceLocked now retained index s)) =
      dropOldest maxUnreferencedDiagnosticEvidence de_RecordedAt
        (filter (\<lambda>(i, _). \<not> referenced retained s1 i) (filter (\<lambda>(i, evidence). referenced retained s1 i \<or> \<not> now - de_RecordedAt evidence > diagnosticRetentionWindow) (lg_Evidence s)))
        (filter (\<lambda>(i, evidence). referenced retained s1 i \<or> \<not> now - de_RecordedAt evidence > diagnosticRetentionWindow) (lg_Evidence s))"
    "referenced retained (snd (pruneEvidenceLocked now retained index s)) = referenced retained s1"
    "lg_Items (snd (pruneEvidenceLocked now retained index s)) = map (\<lambda>(i, item). (i, shortened item)) (lg_Items s)"
    "lg_Active (snd (pruneEvidenceLocked now retained index s)) = lg_Active s" "lg_Stale (snd (pruneEvidenceLocked now retained index s)) = lg_Stale s"
proof -
  define kept where "kept = filter (\<lambda>(i, evidence). referenced retained s1 i \<or> \<not> now - de_RecordedAt evidence > diagnosticRetentionWindow) (lg_Evidence s)"
  have prune: "snd (pruneEvidenceLocked now retained index s) =
      s1\<lparr> lg_Evidence := dropOldest maxUnreferencedDiagnosticEvidence de_RecordedAt (filter (\<lambda>(i, _). \<not> referenced retained s1 i) kept) kept \<rparr>"
    by (simp add: pruneEvidenceLocked_def Let_def s1_def kept_def)
  show "lg_Evidence (snd (pruneEvidenceLocked now retained index s)) =
      dropOldest maxUnreferencedDiagnosticEvidence de_RecordedAt
        (filter (\<lambda>(i, _). \<not> referenced retained s1 i) (filter (\<lambda>(i, evidence). referenced retained s1 i \<or> \<not> now - de_RecordedAt evidence > diagnosticRetentionWindow) (lg_Evidence s)))
        (filter (\<lambda>(i, evidence). referenced retained s1 i \<or> \<not> now - de_RecordedAt evidence > diagnosticRetentionWindow) (lg_Evidence s))"
    by (simp add: prune kept_def)
  show "referenced retained (snd (pruneEvidenceLocked now retained index s)) = referenced retained s1"
    unfolding prune by (rule referenced_fields) simp_all
  show "lg_Items (snd (pruneEvidenceLocked now retained index s)) = map (\<lambda>(i, item). (i, shortened item)) (lg_Items s)"
    by (simp add: prune s1_def bound_references_def)
  show "lg_Active (snd (pruneEvidenceLocked now retained index s)) = lg_Active s" "lg_Stale (snd (pruneEvidenceLocked now retained index s)) = lg_Stale s"
    by (simp_all add: prune s1_def)
qed

lemma pruneEvidence_bounded:
  assumes "distinct (map fst (lg_Evidence s))"
  shows "length (filter (\<lambda>(i, _). \<not> referenced retained (snd (pruneEvidenceLocked now retained index s)) i) (lg_Evidence (snd (pruneEvidenceLocked now retained index s))))
      \<le> maxUnreferencedDiagnosticEvidence"
    "distinct (map fst (lg_Evidence (snd (pruneEvidenceLocked now retained index s))))"
  unfolding pruneEvidence_fields(1,2) using assms by (simp_all add: dropOldest_bound dropOldest_keys distinct_map_filter del: filter_filter)

lemma pruneEvidence_keeps:
  "referenced retained (snd (pruneEvidenceLocked now retained index s)) i \<Longrightarrow>
     map_of (lg_Evidence (snd (pruneEvidenceLocked now retained index s))) i = map_of (lg_Evidence s) i"
  unfolding pruneEvidence_fields(1,2) by (simp add: dropOldest_keeps map_of_filter_kept del: filter_filter)

lemma pruneNotices_bounded: "length (lg_Notices (pruneNoticesLocked s)) \<le> maxDiagnosticNotices"
  by (auto simp: pruneNoticesLocked_def Let_def)

section \<open>Well-formed ledgers\<close>

text \<open>Keys stay distinct and no evidence disappears.\<close>

definition grows :: "diagnosticState \<Rightarrow> diagnosticState \<Rightarrow> bool" where
  "grows s s' \<longleftrightarrow> (distinct (map fst (lg_Items s)) \<longrightarrow> distinct (map fst (lg_Items s'))) \<and>
     (distinct (map fst (lg_Evidence s)) \<longrightarrow> distinct (map fst (lg_Evidence s'))) \<and> fst ` set (lg_Evidence s) \<subseteq> fst ` set (lg_Evidence s')"

interpretation growing: ledger_relation grows
  by unfold_locales (auto simp: grows_def addNotice_def add_evidence_def Let_def distinct_update dom_update)

text \<open>The evidence of a batch is in the ledger, newly stored or of an equal baseline.\<close>

lemma store_evidence_found:
  "fst (store_evidence L batch confidence index s) \<in> fst ` set (lg_Evidence (snd (snd (store_evidence L batch confidence index s))))"
proof -
  define key where "key = baselineProofKey L batch confidence"
  define index' where "index' = (if key \<noteq> [] \<and> index = None then Some (rebuilt_index L s) else index)"
  define known where "known = (case index' of Some entries \<Rightarrow> map_of entries key | None \<Rightarrow> None)"
  obtain evID s' where add: "add_evidence L batch s = (evID, s')" by fastforce
  have new: "evID \<in> fst ` set (lg_Evidence s')" using add by (auto simp: add_evidence_def Let_def dom_update)
  have old: "map_of (lg_Evidence s) i \<noteq> None \<Longrightarrow> i \<in> fst ` set (lg_Evidence s)" for i by (simp add: map_of_eq_None_iff)
  show ?thesis using new old
    by (cases known) (auto simp: store_evidence_def Let_def key_def [symmetric] index'_def [symmetric] known_def [symmetric] add simp del: not_None_eq)
qed

lemma recordEvidence_found:
  assumes "recordEvidenceLocked L batch confidence reasons index s = (evID, index', s')"
  shows "evID \<in> fst ` set (lg_Evidence s')"
  using assms store_evidence_found [of L batch confidence index s]
  by (auto simp: recordEvidenceLocked_def record_lane_def Let_def split: prod.splits if_splits)

lemma published_evidence:
  assumes "record_published L batch confidence reasons index s = (report, index', s')"
  shows "\<forall>i \<in> set (rp_EvidenceIDs report). i \<in> fst ` set (lg_Evidence s')"
proof -
  define known where "known = baselineKnownLocked s batch (case map_of (lg_ProviderDimensions s) (lane_key batch) of Some d \<Rightarrow> dd_EvidenceIDs d | None \<Rightarrow> [])"
  obtain evID index1 s1 where evidence: "recordEvidenceLocked L batch confidence reasons index s = (evID, index1, s1)" by (metis prod_cases3)
  define run where "run = (if not_old batch then recordFindingsLocked L batch evID known s1 else start_run s1)"
  define previous where "previous = ids_at (lg_Active s1) (membership_key batch) @ ids_at (lg_Stale s1) (membership_key batch)"
  obtain resolved s2 where resolved: "(if withdraws batch confidence
      then resolveAbsentLocked previous (fr_seen run) (db_Kind batch) (db_ObservedAt batch) (fr_state run) else ([], fr_state run)) = (resolved, s2)"
    by fastforce
  have run: "grows s1 (fr_state run)" by (simp add: run_def growing.R_recordFindings) (simp add: start_run_def growing.R_refl)
  have "grows (fr_state run) s2"
    using growing.R_resolve [of "fr_state run" previous "fr_seen run" "db_Kind batch" "db_ObservedAt batch"] growing.R_refl resolved by (auto split: if_splits)
  then have chain: "grows s1 s2" using run growing.R_trans by blast
  have "lg_Evidence (snd (snd (record_published L batch confidence reasons index s))) = lg_Evidence s2"
    "rp_EvidenceIDs (fst (record_published L batch confidence reasons index s)) = [evID]"
    unfolding record_published_def Let_def evidence prod.case known_def [symmetric] run_def [symmetric] previous_def [symmetric] resolved
    by (simp_all add: reportLocked_def)
  then show ?thesis using assms recordEvidence_found [OF evidence] chain by (auto simp: grows_def)
qed

lemma record_evidence_found:
  assumes "recordLocked L batch index s = (report, index', s')"
  shows "\<forall>i \<in> set (rp_EvidenceIDs report). i \<in> fst ` set (lg_Evidence s')"
proof -
  define s1 where "s1 = (if db_Baseline batch \<and> \<not> db_Staged batch \<and> db_nativeContentChanged batch
    then snd (documentChangedLocked [db_Document batch] (db_DocumentRevision batch) s) else s)"
  obtain confidence reasons where confidence: "confidenceFor batch = (confidence, reasons)" by fastforce
  show ?thesis
  proof (cases "db_Staged batch")
    case True
    then show ?thesis using assms
      by (auto simp: recordLocked_def recordStagedLocked_def add_evidence_def Let_def dom_update split: prod.splits)
  next
    case False
    then have "record_published L batch confidence reasons index s1 = (report, index', s')"
      using assms confidence by (simp add: recordLocked_def Let_def s1_def)
    then show ?thesis by (rule published_evidence)
  qed
qed

lemma record_keyed:
  assumes "recordLocked L batch index s = (report, index', s')" "items_keyed s"
  shows "items_keyed s'"
proof (cases "db_Staged batch")
  case True
  then show ?thesis using staged_keeps_findings [OF assms(1)] assms(2) by (simp add: same_findings_def items_keyed_def)
next
  case False
  define s1 where "s1 = (if db_Baseline batch \<and> db_nativeContentChanged batch
    then snd (documentChangedLocked [db_Document batch] (db_DocumentRevision batch) s) else s)"
  have keyed: "items_keyed s1" using only_stales_keyed [OF documentChanged_only_stales assms(2)] assms(2) by (simp add: s1_def)
  obtain confidence reasons where confidence: "confidenceFor batch = (confidence, reasons)" by fastforce
  have published: "record_published L batch confidence reasons index s1 = (report, index', s')"
    using assms(1) False confidence by (simp add: recordLocked_def Let_def s1_def)
  obtain run where "run_from s1 run" and at: "\<And>i. item_at s' i = map_option (\<lambda>item. if withdraws batch confidence \<and>
        resolvable (ids_at (lg_Active s1) (membership_key batch) @ ids_at (lg_Stale s1) (membership_key batch)) (fr_seen run) (db_Kind batch) i item
      then as_resolved (db_ObservedAt batch) item else item) (item_at (fr_state run) i)"
    using published_items [OF published] by blast
  then have "items_keyed (fr_state run)" using keyed by (simp add: run_from_def)
  then show ?thesis by (auto simp: items_keyed_def at)
qed

lemma record_all_keyed:
  "record_all L batches index s = (reports, index', s') \<Longrightarrow>
    (items_keyed s \<longrightarrow> items_keyed s') \<and> (\<forall>report \<in> set reports. \<forall>i \<in> set (rp_EvidenceIDs report). i \<in> fst ` set (lg_Evidence s'))"
proof (induction batches arbitrary: index s reports)
  case (Cons batch batches)
  obtain report index1 s1 where one: "recordLocked L batch index s = (report, index1, s1)" by (metis prod_cases3)
  obtain rest where rest: "record_all L batches index1 s1 = (rest, index', s')" "reports = report # rest"
    using Cons.prems one by (auto split: prod.splits)
  have "grows s1 s'" using growing.R_record_all [of s1 L batches index1] rest(1) by simp
  then have "\<forall>i \<in> set (rp_EvidenceIDs report). i \<in> fst ` set (lg_Evidence s')" using record_evidence_found [OF one] by (auto simp: grows_def)
  then show ?case using Cons.IH [OF rest(1)] record_keyed [OF one] rest(2) by auto
qed simp

definition ledger_wf :: "diagnosticState \<Rightarrow> bool" where
  "ledger_wf s \<longleftrightarrow> notices_wf s \<and> items_keyed s \<and> distinct (map fst (lg_Items s)) \<and> distinct (map fst (lg_Evidence s))"

lemma map_of_filter_weaker: "distinct (map fst xs) \<Longrightarrow> map_of (filter P xs) i = Some x \<Longrightarrow> map_of xs i = Some x"
  by (auto simp: map_of_eq_Some_iff distinct_map_filter)

lemma pruneItems_subset:
  assumes "distinct (map fst (lg_Items s))" "item_at (pruneItemsLocked now s) i = Some item"
  shows "item_at s i = Some item"
proof -
  have "\<exists>P. lg_Items (pruneItemsLocked now s) = filter P (lg_Items s)"
    by (simp add: pruneItemsLocked_def dropOldest_def Let_def) blast
  then show ?thesis using assms map_of_filter_weaker by metis
qed

lemma prune_wf:
  assumes "ledger_wf s"
  shows "ledger_wf (snd (pruneLocked now retained index s))"
proof -
  define s1 where "s1 = pruneItemsLocked now (pruneNoticesLocked s)"
  have items: "distinct (map fst (lg_Items s1))" using pruneItems_bounded(2) [of "pruneNoticesLocked s"] assms by (simp add: s1_def ledger_wf_def)
  have evidence: "distinct (map fst (lg_Evidence s1))" using assms by (simp add: s1_def ledger_wf_def)
  have "items_keyed s1"
    using assms pruneItems_subset [of "pruneNoticesLocked s" now] by (fastforce simp: ledger_wf_def items_keyed_def s1_def)
  then have "items_keyed (snd (pruneEvidenceLocked now retained index s1))"
    by (auto simp: items_keyed_def pruneEvidence_fields(3) map_of_map_value)
  moreover have "distinct (map fst (lg_Items (snd (pruneEvidenceLocked now retained index s1))))"
    unfolding pruneEvidence_fields(3) using items by (simp add: case_prod_beta comp_def)
  ultimately show ?thesis
    using prune_keeps_wf [of s now retained index] pruneEvidence_bounded(2) [OF evidence] items assms
    unfolding ledger_wf_def pruneLocked_def s1_def [symmetric] by simp
qed

lemma changed_wf: "ledger_wf s \<Longrightarrow> ledger_wf (snd (documentChangedLocked documents revision s))"
  using extends_wf [OF noticing.R_documentChanged] only_stales_keyed [OF documentChanged_only_stales] growing.R_documentChanged [of s documents revision]
  by (auto simp: ledger_wf_def grows_def)

lemma record_all_wf:
  assumes "record_all L batches index s = (reports, index', s')" "ledger_wf s"
  shows "ledger_wf s'"
  using record_all_keyed [OF assms(1)] growing.R_record_all [of s L batches index] extends_wf [OF noticing.R_record_all [of s L batches index]] assms
  by (auto simp: ledger_wf_def grows_def)

lemma fresh_ledger_wf: "ledger_wf (sto_state (opened empty_ledger content persistent))"
  by (simp add: ledger_wf_def fresh_notices_wf) (simp add: opened_def empty_ledger_def items_keyed_def)

lemma save_stateD: "save outcome store = (answer, store') \<Longrightarrow> sto_state store' = sto_state store"
  using save_state [of outcome store] by simp

text \<open>A recording that succeeds, in its parts.\<close>

lemma recorded_parts:
  assumes "recordBatches L now retained outcome batches store = (Ok reports, store')" "batches \<noteq> []"
  obtains index s where "record_all L (map (prepared_batch now) batches) (sto_baselineIndex store) (sto_state store) = (reports, index, s)"
    "sto_state store' = snd (pruneLocked now (retained @ concat (map rp_EvidenceIDs reports)) index s)"
proof (cases "List.map_filter refused_batch batches")
  case Nil
  obtain reports1 index s where all: "record_all L (map (prepared_batch now) batches) (sto_baselineIndex store) (sto_state store) = (reports1, index, s)"
    by (metis prod_cases3)
  obtain index' s' where prune: "pruneLocked now (retained @ concat (map rp_EvidenceIDs reports1)) index s = (index', s')" by fastforce
  obtain saved store1 where save: "save outcome (store\<lparr> sto_state := s', sto_baselineIndex := index' \<rparr>) = (saved, store1)" by fastforce
  then have "sto_state store1 = s'" using save_state [of outcome "store\<lparr> sto_state := s', sto_baselineIndex := index' \<rparr>"] by simp
  moreover have "(Ok reports, store') =
      (case saved of Inl e \<Rightarrow> (Error e, store1\<lparr> sto_state := sto_state store, sto_baselineIndex := None \<rparr>) | Inr _ \<Rightarrow> (Ok reports1, store1))"
    using assms Nil all prune save by (simp add: recordBatches_def Let_def cong: sum.case_cong)
  ultimately have "reports = reports1" "sto_state store' = s'" by (auto split: sum.splits)
  then show ?thesis using that all prune by simp
qed (use assms in \<open>simp add: recordBatches_def\<close>)

lemma ledger_step_wf:
  assumes "ledger_wf (sto_state store)"
  shows "ledger_wf (sto_state (ledger_step L op store))"
proof (cases op)
  case (RecordOp now retained outcome batches)
  obtain answer store' where run: "recordBatches L now retained outcome batches store = (answer, store')" by fastforce
  consider (none) "batches = [] \<or> List.map_filter refused_batch batches \<noteq> []" | (failed) e where "answer = Error e" "batches \<noteq> []" "List.map_filter refused_batch batches = []"
    | (stored) reports where "answer = Ok reports" "batches \<noteq> []" by (cases answer) auto
  then show ?thesis
  proof cases
    case none
    then show ?thesis using run assms RecordOp by (auto simp: recordBatches_def split: list.splits if_splits)
  next
    case failed
    then have "sto_state store' = sto_state store" using run by (auto simp: recordBatches_def Let_def split: prod.splits sum.splits)
    then show ?thesis using run assms RecordOp by simp
  next
    case stored
    then obtain index s where "record_all L (map (prepared_batch now) batches) (sto_baselineIndex store) (sto_state store) = (reports, index, s)"
      "sto_state store' = snd (pruneLocked now (retained @ concat (map rp_EvidenceIDs reports)) index s)" using run by (auto elim: recorded_parts)
    then show ?thesis using run RecordOp record_all_wf assms prune_wf by auto
  qed
next
  case (ChangedOp documents revision outcome)
  obtain changed s where locked: "documentChangedLocked documents revision (sto_state store) = (changed, s)" by fastforce
  have "sto_state (snd (documentChanged documents revision outcome store)) = s"
    using locked by (auto simp: documentChanged_def dest: save_stateD split: prod.splits sum.splits)
  then show ?thesis using ChangedOp changed_wf [OF assms, of documents revision] locked by simp
next
  case (QueryOp now retained outcome since)
  show ?thesis
  proof (cases "parseDiagnosticCursor L since")
    case (Inr seq)
    define before where "before = (if since \<noteq> [] \<and> seq > lg_Ack (sto_state store) then (sto_state store)\<lparr> lg_Ack := seq \<rparr> else sto_state store)"
    have "ledger_wf before" using assms by (simp add: before_def ledger_wf_def notices_wf_def items_keyed_def)
    moreover obtain index s where prune: "pruneLocked now retained (sto_baselineIndex store) before = (index, s)" by fastforce
    ultimately have "ledger_wf s" using prune_wf [of before now retained "sto_baselineIndex store"] by simp
    moreover have "sto_state (snd (query L now retained outcome since store)) = s"
      using Inr prune by (auto simp: query_def Let_def before_def [symmetric] dest: save_stateD split: prod.splits sum.splits)
    ultimately show ?thesis using QueryOp by simp
  qed (use assms QueryOp in \<open>simp add: query_def\<close>)
qed (use assms in \<open>simp add: pendingNotices_def Let_def\<close>)

lemma ledger_run_wf: "ledger_wf (sto_state store) \<Longrightarrow> ledger_wf (sto_state (ledger_run L ops store))"
  by (induction ops arbitrary: store) (simp_all add: ledger_run_def ledger_step_wf)

section \<open>Retention\<close>

text \<open>
  C22. The ledger is bounded: after a recording that succeeds, in any reachable store, it holds at
  most 1000 notices, at most 1000 findings that are neither active nor stale nor noticed, and at most
  500 pieces of evidence that nothing refers to.
\<close>

theorem recorded_ledger_bounded:
  assumes "store = ledger_run L ops (opened empty_ledger content persistent)" "batches \<noteq> []"
    "recordBatches L now retained outcome batches store = (Ok reports, store')"
  shows "length (lg_Notices (sto_state store')) \<le> maxDiagnosticNotices \<and>
    length (filter (\<lambda>(i, _). \<not> live_item (sto_state store') i) (lg_Items (sto_state store'))) \<le> maxInactiveDiagnosticItems \<and>
    length (filter (\<lambda>(i, _). \<not> referenced (retained @ concat (map rp_EvidenceIDs reports)) (sto_state store') i) (lg_Evidence (sto_state store')))
      \<le> maxUnreferencedDiagnosticEvidence"
proof -
  define keep where "keep = retained @ concat (map rp_EvidenceIDs reports)"
  obtain index s where all: "record_all L (map (prepared_batch now) batches) (sto_baselineIndex store) (sto_state store) = (reports, index, s)"
    and prune: "sto_state store' = snd (pruneLocked now keep index s)" using recorded_parts [OF assms(3,2)] by (metis keep_def)
  have "ledger_wf (sto_state store)" using ledger_run_wf [OF fresh_ledger_wf] assms(1) by blast
  then have "ledger_wf s" using record_all_wf [OF all] by blast
  then have distinct: "distinct (map fst (lg_Items s))" "distinct (map fst (lg_Evidence s))" by (simp_all add: ledger_wf_def)
  define s1 where "s1 = pruneNoticesLocked s"
  define s2 where "s2 = pruneItemsLocked now s1"
  have final: "sto_state store' = snd (pruneEvidenceLocked now keep index s2)" by (simp add: prune pruneLocked_def s1_def s2_def)
  have live: "live_item (sto_state store') = live_item s1" unfolding final
    by (rule live_item_fields) (simp_all add: pruneEvidence_fields(4,5) s2_def)
  have "filter (\<lambda>(i, _). \<not> live_item s1 i) (map (\<lambda>(i, item). (i, shortened item)) (lg_Items s2)) =
      map (\<lambda>(i, item). (i, shortened item)) (filter (\<lambda>(i, _). \<not> live_item s1 i) (lg_Items s2))"
    by (simp add: filter_map comp_def case_prod_unfold)
  then have "length (filter (\<lambda>(i, _). \<not> live_item (sto_state store') i) (lg_Items (sto_state store'))) \<le> maxInactiveDiagnosticItems"
    using pruneItems_bounded(1) [of s1 now] distinct(1) unfolding live by (simp add: final pruneEvidence_fields(3) s1_def s2_def)
  moreover have "length (lg_Notices (sto_state store')) \<le> maxDiagnosticNotices" by (simp add: prune pruneNotices_bounded)
  ultimately show ?thesis using pruneEvidence_bounded(1) [of s2] distinct(2) unfolding keep_def [symmetric] by (simp add: final s2_def s1_def)
qed


text \<open>
  What a caller is told can be looked up: every identifier of evidence in the reports of a
  recording that succeeds is found in the ledger afterwards.
\<close>

theorem reported_evidence_is_found:
  assumes "recordBatches L now retained outcome batches store = (Ok reports, store')" "batches \<noteq> []" "report \<in> set reports" "i \<in> set (rp_EvidenceIDs report)"
  shows "\<exists>evidence. evidenceByID store' i = Ok evidence"
proof -
  define keep where "keep = retained @ concat (map rp_EvidenceIDs reports)"
  obtain index s where all: "record_all L (map (prepared_batch now) batches) (sto_baselineIndex store) (sto_state store) = (reports, index, s)"
    and prune: "sto_state store' = snd (pruneLocked now keep index s)" using recorded_parts [OF assms(1,2)] by (metis keep_def)
  define s2 where "s2 = pruneItemsLocked now (pruneNoticesLocked s)"
  have final: "sto_state store' = snd (pruneEvidenceLocked now keep index s2)" by (simp add: prune pruneLocked_def s2_def)
  have "i \<in> fst ` set (lg_Evidence s)" using record_all_keyed [OF all] assms(3,4) by blast
  then have found: "map_of (lg_Evidence s) i \<noteq> None" by (simp add: map_of_eq_None_iff)
  have "referenced keep (sto_state store') i" using assms(3,4) by (auto simp: referenced_def keep_def)
  then have "map_of (lg_Evidence (sto_state store')) i = map_of (lg_Evidence s) i"
    using pruneEvidence_keeps [of keep now index s2 i] by (simp add: final s2_def)
  then show ?thesis using found by (auto simp: evidenceByID_def)
qed

end
