(* ===== verification/Evidence_Examples.thy ===== *)
theory Evidence_Examples
  imports Evidence_Retention
begin

text \<open>
  The properties of the ledger at concrete inputs: one provider, one document, one finding.
\<close>

text \<open>A provider that reports one finding of document \<open>a\<close>, or none.\<close>

definition sample_env :: ledger_env where
  "sample_env = \<lparr> le_fingerprint = (\<lambda>(provider, document, severity, code, source, message, n). message @ replicate n CHR ''+''),
     le_evidence = (\<lambda>batch n. replicate n CHR ''e''), le_proof = (\<lambda>batch. []), le_finding = df_Message, le_scan = (\<lambda>cursor. Some (length cursor - 1)) \<rparr>"

definition sample_finding :: DiagnosticFinding where
  "sample_finding = \<lparr> df_Range = \<lparr> dr_StartLine = 0, dr_StartCharacter = 0, dr_EndLine = 0, dr_EndCharacter = 1 \<rparr>, df_Severity = 1, df_Code = ''c'',
     df_Source = ''s'', df_Message = ''m'' \<rparr>"

definition sample_batch :: "DiagnosticFinding list \<Rightarrow> DiagnosticBatch" where
  "sample_batch found = \<lparr> db_Kind = EvidencePush, db_ProviderID = ''p'', db_Producer = ''q'', db_ProducerVersion = [], db_Document = ''a'',
     db_DocumentRevision = ''r'', db_PreEditDocumentRevision = [], db_DocumentVersion = Some 1, db_ExpectedVersion = Some 1, db_ResultID = [],
     db_TransactionID = [], db_StateSeq = 0, db_Complete = True, db_TimedOut = False, db_Reason = [], db_ProgressPending = False,
     db_ChangeBarrier = False, db_Selected = True, db_Baseline = False, db_nativeContentChanged = False, db_Staged = False, db_Dimension = [],
     db_Findings = found, db_Candidates = [], db_ObservedAt = 5 \<rparr>"

definition sample_store :: diagnosticStore where
  "sample_store = ledger_run sample_env [RecordOp 5 [] Written [sample_batch [sample_finding]]] (opened empty_ledger None True)"

lemma sample_fields [simp]:
  "db_Findings (sample_batch found) = found" "db_Baseline (sample_batch found) = False" "db_Staged (sample_batch found) = False"
  "db_Kind (sample_batch found) = EvidencePush" "db_Complete (sample_batch found) = True" "db_Candidates (sample_batch found) = []"
  "membership_key (sample_batch found) = ''p'' @ [nul] @ ''a''" "not_old (sample_batch found) = True" "df_Message sample_finding = ''m''"
  "le_fingerprint sample_env (provider, document, severity, code, source, message, n) = message @ replicate n CHR ''+''"
  "le_scan sample_env cursor = Some (length cursor - 1)"
  by (simp_all add: sample_batch_def membership_key_def not_old_def currentPublication_def sample_finding_def sample_env_def)

lemma sample_confidence: "confidenceFor (sample_batch found) = (ConfidenceAuthoritative, [])"
  by (simp add: confidenceFor_def publication_confidence_def currentPublication_def sample_batch_def Let_def)

lemma sample_normal: "normalizeFinding sample_finding = sample_finding"
  by code_simp

lemma sample_prepared: "prepared_batch 5 (sample_batch found) = sample_batch found"
proof -
  have "Clean ''a'' = ''a''" by code_simp
  then show ?thesis by (simp add: prepared_batch_def sample_batch_def Let_def)
qed

lemma sample_accepted: "refused_batch (sample_batch found) = None"
  by (simp add: refused_batch_def sample_batch_def)

text \<open>Recording the finding in a ledger without items announces it.\<close>

lemma record_lane_notices [simp]:
  "lg_Notices (record_lane batch confidence reasons evID s) = lg_Notices s" "lg_Items (record_lane batch confidence reasons evID s) = lg_Items s"
  by (simp_all add: record_lane_def Let_def)

lemma sample_announced:
  assumes "lg_Items s = []"
  shows "map nt_ID (lg_Notices (fr_state (recordFindingsLocked sample_env (sample_batch [sample_finding]) evID known s))) = map nt_ID (lg_Notices s) @ [''diag_m'']"
  using assms
  by (simp add: recordFindingsLocked_def record_finding_def start_run_def Let_def sample_normal announced_def addNotice_def observed_item_def new_item_def
    diagnosticFingerprint_def)

lemma sample_notice: "map nt_ID (lg_Notices (sto_state sample_store)) = [''diag_m'']"
proof -
  have empty: "lg_Items empty_ledger = []" "lg_Active empty_ledger = []" "lg_Stale empty_ledger = []" "lg_Notices empty_ledger = []" "lg_Ack empty_ledger = 0"
    by (simp_all add: empty_ledger_def)
  define batch where "batch = sample_batch [sample_finding]"
  define known where "known = baselineKnownLocked empty_ledger batch
    (case map_of (lg_ProviderDimensions empty_ledger) (lane_key batch) of Some d \<Rightarrow> dd_EvidenceIDs d | None \<Rightarrow> [])"
  obtain evID index1 s1 where evidence: "recordEvidenceLocked sample_env batch ConfidenceAuthoritative [] None empty_ledger = (evID, index1, s1)"
    by (metis prod_cases3)
  have s1: "lg_Items s1 = []" "lg_Active s1 = []" "lg_Stale s1 = []"
    using recordEvidence_findings [of empty_ledger sample_env batch ConfidenceAuthoritative "[]" None] evidence by (simp_all add: same_findings_def empty)
  have "lg_Notices s1 = []"
    using evidence by (auto simp: recordEvidenceLocked_def store_evidence_def baselineProofKey_def add_evidence_def Let_def batch_def empty split: prod.splits)
  define run where "run = recordFindingsLocked sample_env batch evID known s1"
  have ids: "map nt_ID (lg_Notices (fr_state run)) = [''diag_m'']"
    using sample_announced [OF s1(1), of evID known] \<open>lg_Notices s1 = []\<close> by (simp add: run_def batch_def)
  have none: "ids_at (lg_Active s1) key = []" "ids_at (lg_Stale s1) key = []" for key by (simp_all add: s1 ids_at_def)
  have "lg_Notices (snd (snd (record_published sample_env batch ConfidenceAuthoritative [] None empty_ledger))) = lg_Notices (fr_state run)"
    unfolding record_published_def Let_def evidence prod.case known_def [symmetric] none by (simp add: batch_def run_def)
  moreover obtain reports index s where all: "record_all sample_env [batch] None empty_ledger = (reports, index, s)" by (metis prod_cases3)
  ultimately have notices: "map nt_ID (lg_Notices s) = [''diag_m'']"
    using ids by (auto simp: recordLocked_def batch_def sample_confidence Let_def split: prod.splits)
  have extended: "extends empty_ledger s" using noticing.R_record_all [of empty_ledger sample_env "[batch]" None] all by simp
  then have "notices_wf s" using extends_wf fresh_notices_wf [of None True] by (simp add: opened_def)
  then have positive: "\<forall>notice \<in> set (lg_Notices s). 0 < nt_Cursor notice" by (auto simp: notices_wf_def)
  have "lg_Ack s = 0" using extended by (simp add: extends_def empty)
  then have kept: "filter (\<lambda>notice. lg_Ack s < nt_Cursor notice) (lg_Notices s) = lg_Notices s" using positive by (simp add: filter_id_conv)
  have "length (lg_Notices s) = 1" using arg_cong [OF notices, of length] by simp
  then have "lg_Notices (pruneNoticesLocked s) = lg_Notices s" by (simp add: pruneNoticesLocked_def Let_def kept maxDiagnosticNotices_def)
  moreover have "lg_Notices (sto_state sample_store) = lg_Notices (pruneNoticesLocked s)"
  proof -
    have "sto_state sample_store = snd (pruneLocked 5 (concat (map rp_EvidenceIDs reports)) index s)"
      using all by (simp add: sample_store_def ledger_run_def opened_def recordBatches_def sample_accepted List.map_filter_def sample_prepared
        batch_def Let_def save_def case_prod_beta del: record_all.simps)
    then show ?thesis by simp
  qed
  ultimately show ?thesis using notices by simp
qed

text \<open>The notice of the example is still there after the document changed and the change was not written.\<close>

lemma notices_not_lost_witness:
  "\<exists>notice page. notice \<in> set (lg_Notices (sto_state sample_store)) \<and> nt_ID notice = ''diag_m'' \<and>
    noticesSince sample_env [] 1 (ledger_run sample_env [ChangedOp [''a''] ''r2'' (NotWritten (PlainError ''full'')), PendingOp 1] sample_store) = Ok page \<and>
    (np_Truncated page \<or> notice \<in> set (np_Notices page) \<or> np_More page \<and> 0 < np_Cursor page \<and> np_Cursor page < nt_Cursor notice)"
proof -
  obtain notice where notice: "notice \<in> set (lg_Notices (sto_state sample_store))" "nt_ID notice = ''diag_m''"
    using sample_notice by (auto simp: map_eq_Cons_conv)
  have "ledger_wf (sto_state sample_store)" unfolding sample_store_def by (rule ledger_run_wf [OF fresh_ledger_wf])
  then have positive: "0 < nt_Cursor notice" using notice(1) by (auto simp: ledger_wf_def notices_wf_def)
  have parsed: "parseDiagnosticCursor sample_env [] = Ok 0" by (simp add: parseDiagnosticCursor_def)
  obtain page where page: "noticesSince sample_env [] 1 (ledger_run sample_env [ChangedOp [''a''] ''r2'' (NotWritten (PlainError ''full'')), PendingOp 1] sample_store) = Ok page"
    by (simp add: noticesSince_def parsed Let_def)
  show ?thesis using notices_not_lost [OF sample_store_def notice(1) parsed positive page] page notice by blast
qed

lemma pages_give_all_witness:
  "map nt_ID (read_pages 2 sample_env (\<lambda>n. replicate (Suc n) CHR ''x'') 1 sample_store ''x'') = [''diag_m'']"
proof -
  have "length (lg_Notices (sto_state sample_store)) = 1" using arg_cong [OF sample_notice, of length] by simp
  then have pages: "read_pages 2 sample_env (\<lambda>n. replicate (Suc n) CHR ''x'') 1 sample_store ''x'' =
      filter (\<lambda>notice. 0 < nt_Cursor notice) (lg_Notices (sto_state sample_store))"
    by (intro pages_give_all [OF sample_store_def]) (simp_all add: parseDiagnosticCursor_def)
  have "ledger_wf (sto_state sample_store)" unfolding sample_store_def by (rule ledger_run_wf [OF fresh_ledger_wf])
  then have "\<forall>notice \<in> set (lg_Notices (sto_state sample_store)). 0 < nt_Cursor notice" by (auto simp: ledger_wf_def notices_wf_def)
  then show ?thesis using sample_notice pages by (simp add: filter_id_conv)
qed

text \<open>A ledger with one current finding of the document.\<close>

definition sample_key :: string where
  "sample_key = ''p'' @ [nul] @ ''a''"

definition sample_ledger :: diagnosticState where
  "sample_ledger = empty_ledger\<lparr> lg_Items := [(''diag_m'', observed_item (sample_batch [sample_finding]) ''ev_e'' True ''diag_m'' sample_finding None)],
     lg_Active := [(sample_key, [''diag_m''])] \<rparr>"

lemma sample_item: "map_of (lg_Items sample_ledger) ''diag_m'' = Some (observed_item (sample_batch [sample_finding]) ''ev_e'' True ''diag_m'' sample_finding None)"
  by (simp add: sample_ledger_def)

lemma sample_ids: "ids_at (lg_Active sample_ledger) sample_key = [''diag_m'']"
  by (simp add: sample_ledger_def ids_at_def)


lemma changed_document_goes_stale_witness:
  "''diag_m'' \<in> set (ids_at (lg_Stale (snd (documentChangedLocked [''a''] ''r2'' sample_ledger))) sample_key)"
proof -
  obtain changed s where run: "documentChangedLocked [''a''] ''r2'' sample_ledger = (changed, s)" by fastforce
  have key: "names_key (map Clean [''a'']) sample_key" by code_simp
  have older: "\<not> (''r2'' \<noteq> [] \<and> di_DocumentRevision (observed_item (sample_batch [sample_finding]) ''ev_e'' True ''diag_m'' sample_finding None) = ''r2'')"
    by (simp add: observed_item_def Let_def sample_batch_def)
  show ?thesis using changed_document_goes_stale [OF run key _ sample_item] older run sample_ids by simp
qed

lemma recordBatches_all_or_nothing_witness:
  "sto_state (snd (recordBatches sample_env 5 [] (NotWritten (PlainError ''full'')) [sample_batch []] (opened sample_ledger None True))) = sample_ledger"
proof -
  define store where "store = opened sample_ledger None True"
  obtain answer store' where run: "recordBatches sample_env 5 [] (NotWritten (PlainError ''full'')) [sample_batch []] store = (answer, store')" by fastforce
  have "sto_persistent store" by (simp add: store_def opened_def)
  then have "\<exists>e. answer = Error e"
    using run by (auto simp: recordBatches_def sample_accepted List.map_filter_def Let_def save_def simp del: record_all.simps split: prod.splits)
  then show ?thesis using recordBatches_all_or_nothing [OF run] run by (auto simp: store_def opened_def)
qed

lemma recorded_ledger_bounded_witness:
  "length (lg_Notices (sto_state (snd (recordBatches sample_env 5 [] Written [sample_batch []] (opened empty_ledger None True))))) \<le> maxDiagnosticNotices"
proof -
  define store where "store = opened empty_ledger None True"
  have store: "store = ledger_run sample_env [] (opened empty_ledger None True)" by (simp add: store_def ledger_run_def)
  obtain answer store' where run: "recordBatches sample_env 5 [] Written [sample_batch []] store = (answer, store')" by fastforce
  then obtain reports where "answer = Ok reports"
    by (auto simp: recordBatches_def sample_accepted List.map_filter_def Let_def save_def simp del: record_all.simps split: prod.splits if_splits)
  then show ?thesis using recorded_ledger_bounded [OF store _ run [unfolded \<open>answer = Ok reports\<close>]] run by (simp add: store_def)
qed


end
