(* ===== verification/Diagnostic_Delta.thy ===== *)
theory Diagnostic_Delta
  imports Evidence "HOL-Library.Multiset"
begin

text \<open>
  What a proposal did to the diagnostics and which of its operations did that
  (\<^verbatim>\<open>internal/workspace/diagnostic_delta.go\<close>): the comparison of the prepared report with the base one,
  and the ranking of who caused a finding.
\<close>

section \<open>Data\<close>

datatype DiagnosticDeltaKind = DeltaNew | DeltaResolved | DeltaUnchanged | DeltaBaselineIncomplete

record OperationCulprit =
  oc_Rank :: string
  oc_Operations :: "string list"
  oc_Tool :: string
  oc_Reasons :: "string list"

record DeltaFinding =
  dl_Kind :: DiagnosticDeltaKind
  dl_Path :: string
  dl_Line :: int
  dl_Severity :: int
  dl_Code :: string
  dl_Message :: string
  dl_Attribution :: OperationCulprit

record DiagnosticDelta =
  dd_BaseRevision :: string
  dd_PreparedRevision :: string
  dd_BaselineComplete :: bool
  dd_New :: "DeltaFinding list"
  dd_Resolved :: "DeltaFinding list"
  dd_UnchangedCount :: nat

record ComparableFinding =
  cmf_Path :: string
  cmf_Line :: int
  cmf_Severity :: int
  cmf_Code :: string
  cmf_Message :: string

record AttributionInput =
  ai_Hunks :: "PlanHunk list"
  ai_ToolPaths :: "(string \<times> string) list"
  ai_Targets :: "(string \<times> string list) list"
  ai_Reachable :: "(string \<times> string list) list"

text \<open>Of an analysis only the paths of its nodes and the ends of its facts are read.\<close>

record AnalysisNode =
  an_ID :: string
  an_Path :: string

record AnalysisFact =
  af_From :: string
  af_To :: string

record AnalysisSnapshot =
  as_Nodes :: "AnalysisNode list"
  as_Facts :: "AnalysisFact list"

section \<open>Attribution\<close>

definition uniqueSorted :: "string list \<Rightarrow> string list" where
  "uniqueSorted found = sort (remdups (filter (\<lambda>v. v \<noteq> []) found))"

definition identity :: "ComparableFinding \<Rightarrow> string" where
  "identity f = cmf_Path f @ [nul] @ cmf_Code f @ [nul] @ cmf_Message f"

definition no_culprit :: OperationCulprit where
  "no_culprit = \<lparr> oc_Rank = [], oc_Operations = [], oc_Tool = [], oc_Reasons = [] \<rparr>"

definition decide :: "string list \<Rightarrow> string \<Rightarrow> string \<Rightarrow> OperationCulprit option" where
  "decide candidates rank reason =
     (case uniqueSorted candidates of
        [] \<Rightarrow> None
      | [operation] \<Rightarrow> Some (no_culprit\<lparr> oc_Rank := rank, oc_Operations := [operation], oc_Reasons := [reason] \<rparr>)
      | operations \<Rightarrow> Some (no_culprit\<lparr> oc_Rank := ''ambiguous'', oc_Operations := operations, oc_Reasons := [reason, ''several_candidates''] \<rparr>))"

definition hunk_covers :: "ComparableFinding \<Rightarrow> PlanHunk \<Rightarrow> bool" where
  "hunk_covers finding hunk \<longleftrightarrow>
     \<not> ph_Superseded hunk \<and> ph_Path hunk = cmf_Path finding \<and> cmf_Line finding \<noteq> 0 \<and>
     int (ph_StartLine hunk) \<le> cmf_Line finding \<and> cmf_Line finding \<le> int (ph_EndLine hunk)"

definition AttributeFinding :: "ComparableFinding \<Rightarrow> AttributionInput \<Rightarrow> OperationCulprit" where
  "AttributeFinding finding input =
     (let tool = (case map_of (ai_ToolPaths input) (cmf_Path finding) of Some t \<Rightarrow> t | None \<Rightarrow> [])
      in if tool \<noteq> [] then no_culprit\<lparr> oc_Rank := ''exact'', oc_Tool := tool, oc_Reasons := [''tool_delta_owns_file''] \<rparr>
         else
           (case decide (map ph_OpID (filter (hunk_covers finding) (ai_Hunks input))) ''exact'' ''postimage_hunk'' of
              Some culprit \<Rightarrow> culprit
            | None \<Rightarrow>
                (case decide (ids_at (ai_Targets input) (cmf_Path finding)) ''strong'' ''declared_target'' of
                   Some culprit \<Rightarrow> culprit
                 | None \<Rightarrow>
                     (case decide (ids_at (ai_Reachable input) (cmf_Path finding)) ''likely'' ''impact_path'' of
                        Some culprit \<Rightarrow> culprit
                      | None \<Rightarrow> no_culprit\<lparr> oc_Rank := ''unattributed'', oc_Reasons := [''no_supporting_evidence''] \<rparr>))))"

section \<open>Comparison\<close>

definition delta_of :: "DiagnosticDeltaKind \<Rightarrow> OperationCulprit \<Rightarrow> ComparableFinding \<Rightarrow> DeltaFinding" where
  "delta_of kind culprit finding =
     \<lparr> dl_Kind = kind, dl_Path = cmf_Path finding, dl_Line = cmf_Line finding, dl_Severity = cmf_Severity finding, dl_Code = cmf_Code finding,
       dl_Message = cmf_Message finding, dl_Attribution = culprit \<rparr>"

text \<open>The counters of the base report, an identity that is absent counting 0.\<close>

fun count_base :: "ComparableFinding list \<Rightarrow> string \<Rightarrow> nat" where
  "count_base [] = (\<lambda>_. 0)"
| "count_base (f # fs) = (let counts = count_base fs in counts(identity f := Suc (counts (identity f))))"

text \<open>The findings that are not used up by the counters, the counters left, and how many were used up.\<close>

fun unmatched :: "(string \<Rightarrow> nat) \<Rightarrow> ComparableFinding list \<Rightarrow> ComparableFinding list \<times> (string \<Rightarrow> nat) \<times> nat" where
  "unmatched counts [] = ([], counts, 0)"
| "unmatched counts (f # fs) =
     (if counts (identity f) > 0
      then (case unmatched (counts(identity f := counts (identity f) - 1)) fs of (rest, counts', n) \<Rightarrow> (rest, counts', Suc n))
      else (case unmatched counts fs of (rest, counts', n) \<Rightarrow> (f # rest, counts', n)))"

fun leftover :: "(string \<Rightarrow> nat) \<Rightarrow> ComparableFinding list \<Rightarrow> ComparableFinding list" where
  "leftover counts [] = []"
| "leftover counts (f # fs) =
     (if counts (identity f) > 0 then f # leftover (counts(identity f := counts (identity f) - 1)) fs else leftover counts fs)"

definition CompareDiagnostics ::
  "string \<Rightarrow> string \<Rightarrow> ComparableFinding list \<Rightarrow> ComparableFinding list \<Rightarrow> bool \<Rightarrow> AttributionInput \<Rightarrow> DiagnosticDelta" where
  "CompareDiagnostics baseRevision preparedRevision base prepared baselineComplete input =
     (case unmatched (count_base base) prepared of
        (added, counts, unchanged) \<Rightarrow>
          \<lparr> dd_BaseRevision = baseRevision, dd_PreparedRevision = preparedRevision, dd_BaselineComplete = baselineComplete,
            dd_New = map (\<lambda>f. delta_of (if baselineComplete then DeltaNew else DeltaBaselineIncomplete) (AttributeFinding f input) f) added,
            dd_Resolved = map (delta_of DeltaResolved no_culprit) (leftover counts base), dd_UnchangedCount = unchanged \<rparr>)"

definition node_paths :: "AnalysisSnapshot \<Rightarrow> (string \<times> string) list" where
  "node_paths analysis = fold (\<lambda>node nodes. AList.update (an_ID node) (an_Path node) nodes) (as_Nodes analysis) []"

definition reach_fact ::
  "(string \<times> string) list \<Rightarrow> (string \<times> string list) list \<Rightarrow> AnalysisFact \<Rightarrow> (string \<times> string list) list \<Rightarrow> (string \<times> string list) list" where
  "reach_fact nodes targets relation reachable =
     (case (map_of nodes (af_To relation), map_of nodes (af_From relation)) of
        (Some changed, Some user) \<Rightarrow>
          fold (\<lambda>operation found. AList.update user (ids_at found user @ [operation]) found) (ids_at targets changed) reachable
      | _ \<Rightarrow> reachable)"

definition ReachableFrom :: "AnalysisSnapshot \<Rightarrow> (string \<times> string list) list \<Rightarrow> (string \<times> string list) list" where
  "ReachableFrom analysis targets =
     map (\<lambda>(path, operations). (path, uniqueSorted operations)) (fold (reach_fact (node_paths analysis) targets) (as_Facts analysis) [])"

section \<open>Every finding is accounted for\<close>

abbreviation identities :: "ComparableFinding list \<Rightarrow> string multiset" where
  "identities fs \<equiv> mset (map identity fs)"

definition delta_identity :: "DeltaFinding \<Rightarrow> string" where
  "delta_identity d = dl_Path d @ [nul] @ dl_Code d @ [nul] @ dl_Message d"

lemma delta_identity_of [simp]: "delta_identity (delta_of kind culprit f) = identity f"
  by (simp add: delta_identity_def delta_of_def identity_def)

lemma delta_kind_of [simp]: "dl_Kind (delta_of kind culprit f) = kind"
  by (simp add: delta_of_def)

lemma count_base: "count_base fs i = count (identities fs) i"
  by (induction fs) (auto simp: Let_def)

lemma unmatched_counts:
  assumes "unmatched (count m) fs = (rest, counts, n)"
  shows "identities rest = identities fs - m \<and> counts = count (m - identities fs) \<and> n = size (identities fs \<inter># m)"
  using assms
proof (induction fs arbitrary: m rest counts n)
  case (Cons f fs)
  show ?case
  proof (cases "identity f \<in># m")
    case True
    then obtain m' where m: "m = add_mset (identity f) m'" by (metis insert_DiffM)
    have "(count m)(identity f := count m (identity f) - 1) = count m'" by (auto simp: m)
    then obtain n' where "unmatched (count m') fs = (rest, counts, n')" "n = Suc n'"
      using Cons.prems True by (auto split: prod.splits)
    then show ?thesis using Cons.IH by (auto simp: m)
  next
    case False
    then have "count m (identity f) = 0" by (simp add: not_in_iff)
    then obtain rest' where rest: "unmatched (count m) fs = (rest', counts, n)" "rest = f # rest'"
      using Cons.prems by (auto split: prod.splits)
    have "add_mset (identity f) (identities fs) - m = add_mset (identity f) (identities fs - m)"
      "m - add_mset (identity f) (identities fs) = m - identities fs" "add_mset (identity f) (identities fs) \<inter># m = identities fs \<inter># m"
      using False by (simp_all add: diff_add_mset_swap inter_add_left1 multiset_eq_iff not_in_iff)
    then show ?thesis using Cons.IH [OF rest(1)] rest(2) by simp
  qed
qed simp

lemma leftover_counts: "m \<subseteq># identities fs \<Longrightarrow> identities (leftover (count m) fs) = m"
proof (induction fs arbitrary: m)
  case (Cons f fs)
  show ?case
  proof (cases "identity f \<in># m")
    case True
    define m' where "m' = m - {#identity f#}"
    then have m: "m = add_mset (identity f) m'" using True by simp
    have "(count m)(identity f := count m (identity f) - 1) = count m'" by (auto simp: m'_def)
    then have "leftover (count m) (f # fs) = f # leftover (count m') fs" using True by simp
    moreover have "m' \<subseteq># identities fs" using Cons.prems by (simp add: m)
    ultimately have "identities (leftover (count m) (f # fs)) = add_mset (identity f) m'" using Cons.IH by simp
    then show ?thesis by (simp only: m)
  next
    case False
    have "count m i \<le> count (identities fs) i" for i
      using mset_subset_eq_count [OF Cons.prems, of i] False by (cases "i = identity f") (auto simp: not_in_iff)
    then have "m \<subseteq># identities fs" by (rule mset_subset_eqI)
    then show ?thesis using Cons.IH False by (simp add: not_in_iff)
  qed
qed simp

text \<open>
  C25. The comparison accounts for every finding, each by path, code and message and with its
  multiplicity: the new ones are those of the prepared report the base report does not have, the
  resolved ones those of the base report the prepared one does not have, and the rest is counted as
  unchanged; without a complete baseline no finding is called new.
\<close>

theorem comparison_accounts_for_all:
  "mset (map delta_identity (dd_New (CompareDiagnostics before after base prepared complete input))) = identities prepared - identities base \<and>
   mset (map delta_identity (dd_Resolved (CompareDiagnostics before after base prepared complete input))) = identities base - identities prepared \<and>
   dd_UnchangedCount (CompareDiagnostics before after base prepared complete input) = size (identities prepared \<inter># identities base) \<and>
   dl_Kind ` set (dd_New (CompareDiagnostics before after base prepared complete input)) \<subseteq> {if complete then DeltaNew else DeltaBaselineIncomplete}"
proof -
  obtain added counts unchanged where run: "unmatched (count (identities base)) prepared = (added, counts, unchanged)" by (metis prod_cases3)
  have "count_base base = count (identities base)" by (simp add: fun_eq_iff count_base)
  moreover have parts: "identities added = identities prepared - identities base" "counts = count (identities base - identities prepared)"
    "unchanged = size (identities prepared \<inter># identities base)" using unmatched_counts [OF run] by blast+
  moreover have "identities (leftover (count (identities base - identities prepared)) base) = identities base - identities prepared"
    by (rule leftover_counts) (rule diff_subset_eq_self)
  ultimately show ?thesis using run by (auto simp: CompareDiagnostics_def comp_def)
qed

section \<open>Blame rests on evidence\<close>

lemma set_uniqueSorted [simp]: "set (uniqueSorted found) = set found - {[]}"
  by (auto simp: uniqueSorted_def)

lemma decide_Some:
  assumes "decide candidates rank reason = Some culprit"
  shows "set (oc_Operations culprit) = set candidates - {[]} \<and> oc_Tool culprit = [] \<and> oc_Reasons culprit \<noteq> [] \<and> hd (oc_Reasons culprit) = reason \<and>
    (oc_Rank culprit = rank \<and> (\<exists>operation. oc_Operations culprit = [operation]) \<or> oc_Rank culprit = ''ambiguous'' \<and> 2 \<le> length (oc_Operations culprit))"
proof -
  have "oc_Operations culprit = uniqueSorted candidates \<and> oc_Tool culprit = [] \<and> oc_Reasons culprit \<noteq> [] \<and> hd (oc_Reasons culprit) = reason \<and>
    (oc_Rank culprit = rank \<and> (\<exists>operation. oc_Operations culprit = [operation]) \<or> oc_Rank culprit = ''ambiguous'' \<and> 2 \<le> length (oc_Operations culprit))"
    using assms unfolding decide_def by (auto simp: no_culprit_def split: list.splits)
  moreover have "set (uniqueSorted candidates) = set candidates - {[]}" by simp
  ultimately show ?thesis by metis
qed

lemma decide_rank: "decide candidates rank reason = Some culprit \<Longrightarrow> oc_Rank culprit = rank \<or> oc_Rank culprit = ''ambiguous''"
  using decide_Some by blast

lemma decide_None: "decide candidates rank reason = None \<longleftrightarrow> set candidates \<subseteq> {[]}"
proof -
  have "uniqueSorted candidates = [] \<longleftrightarrow> set candidates \<subseteq> {[]}" using set_uniqueSorted [of candidates] by (metis Diff_eq_empty_iff set_empty)
  then show ?thesis by (auto simp: decide_def split: list.splits)
qed

text \<open>
  A finding blamed exactly on operations is blamed on one, whose standing hunk holds its line, and
  every other operation with such a hunk is that one; no tool wrote the file.
\<close>

theorem exact_blame_is_unique:
  assumes "oc_Rank (AttributeFinding finding input) = ''exact''" "oc_Tool (AttributeFinding finding input) = []"
  shows "\<exists>operation. oc_Operations (AttributeFinding finding input) = [operation] \<and>
    (\<exists>hunk \<in> set (ai_Hunks input). hunk_covers finding hunk \<and> ph_OpID hunk = operation) \<and>
    (\<forall>hunk \<in> set (ai_Hunks input). hunk_covers finding hunk \<longrightarrow> ph_OpID hunk = operation \<or> ph_OpID hunk = [])"
proof -
  define tool where "tool = (case map_of (ai_ToolPaths input) (cmf_Path finding) of Some t \<Rightarrow> t | None \<Rightarrow> [])"
  define candidates where "candidates = map ph_OpID (filter (hunk_covers finding) (ai_Hunks input))"
  have "tool = []"
  proof (rule ccontr)
    assume "tool \<noteq> []"
    then have "oc_Tool (AttributeFinding finding input) = tool" unfolding AttributeFinding_def Let_def tool_def [symmetric] by simp
    then show False using assms(2) \<open>tool \<noteq> []\<close> by simp
  qed
  then have later: "AttributeFinding finding input =
      (case decide candidates ''exact'' ''postimage_hunk'' of Some culprit \<Rightarrow> culprit
       | None \<Rightarrow> (case decide (ids_at (ai_Targets input) (cmf_Path finding)) ''strong'' ''declared_target'' of Some culprit \<Rightarrow> culprit
         | None \<Rightarrow> (case decide (ids_at (ai_Reachable input) (cmf_Path finding)) ''likely'' ''impact_path'' of Some culprit \<Rightarrow> culprit
           | None \<Rightarrow> no_culprit\<lparr> oc_Rank := ''unattributed'', oc_Reasons := [''no_supporting_evidence''] \<rparr>)))"
    by (simp add: AttributeFinding_def Let_def tool_def [symmetric] candidates_def)
  show ?thesis
  proof (cases "decide candidates ''exact'' ''postimage_hunk''")
    case (Some culprit)
    then have "AttributeFinding finding input = culprit" by (simp add: later)
    then obtain operation where operation: "oc_Operations (AttributeFinding finding input) = [operation]" "set candidates - {[]} = {operation}"
      using decide_Some [OF Some] assms(1) by auto
    have "operation \<in> set candidates" using operation(2) by blast
    then have holds: "\<exists>hunk \<in> set (ai_Hunks input). hunk_covers finding hunk \<and> ph_OpID hunk = operation" by (auto simp: candidates_def)
    have only: "ph_OpID hunk = operation \<or> ph_OpID hunk = []" if "hunk \<in> set (ai_Hunks input)" "hunk_covers finding hunk" for hunk
    proof -
      have "ph_OpID hunk \<in> set candidates" using that by (simp add: candidates_def)
      then show ?thesis using operation(2) by blast
    qed
    show ?thesis using operation(1) holds only by (intro exI [of _ operation] conjI) simp_all
  next
    case None
    then have "oc_Rank (AttributeFinding finding input) \<noteq> ''exact''"
    proof (cases "decide (ids_at (ai_Targets input) (cmf_Path finding)) ''strong'' ''declared_target''")
      case (Some culprit)
      then have "AttributeFinding finding input = culprit" by (simp only: later None option.case)
      then show ?thesis using decide_rank [OF Some] by auto
    next
      case no_target: None
      show ?thesis
      proof (cases "decide (ids_at (ai_Reachable input) (cmf_Path finding)) ''likely'' ''impact_path''")
        case (Some culprit)
        then have "AttributeFinding finding input = culprit" by (simp only: later None no_target option.case)
        then show ?thesis using decide_rank [OF Some] by auto
      next
        case no_path: None
        show ?thesis by (simp only: later None no_target no_path option.case) (simp add: no_culprit_def)
      qed
    qed
    then show ?thesis using assms(1) by simp
  qed
qed

end
