(* ===== verification/Scheduler.thy ===== *)
theory Scheduler
  imports Prelude
begin

text \<open>
  The call scheduler of the service (\<^verbatim>\<open>internal/service/scheduler.go\<close>, the classes of
  \<^verbatim>\<open>internal/mcpapi/class.go\<close> and the tool table of \<^verbatim>\<open>internal/mcpapi/catalog.go\<close>).

  A buffered channel is a semaphore: its capacity and the number of tokens in it. Channels are
  allocated in a heap, because \<open>forget\<close> drops a lane from the map while calls may still refer to its
  channel. Calls run concurrently: \<open>sched_step\<close> interleaves them at every point where another
  goroutine can intervene, that is around the lock of \<open>lane\<close> and \<open>sandboxLane\<close>, every send, every
  receive and the cancellation of a call's context.
\<close>

section \<open>Classes of calls\<close>

datatype SchedulerClass = ClassPureRead | ClassProviderRead | ClassCanonicalWrite | ClassSandboxWrite | ClassOther string

fun KnownClass :: "SchedulerClass \<Rightarrow> bool" where
  "KnownClass (ClassOther _) = False"
| "KnownClass _ = True"

definition Tools :: "(string \<times> SchedulerClass) list" where
  "Tools =
     [(''workspace_open'', ClassProviderRead), (''workspace_inspect'', ClassProviderRead), (''search'', ClassPureRead),
      (''symbol_find'', ClassProviderRead), (''navigate'', ClassProviderRead), (''read'', ClassPureRead),
      (''language_server_status'', ClassProviderRead), (''diagnostics'', ClassPureRead), (''evidence_get'', ClassPureRead),
      (''language_server_setup'', ClassCanonicalWrite), (''edit_apply'', ClassCanonicalWrite),
      (''change_plan'', ClassSandboxWrite), (''revision_diff'', ClassCanonicalWrite)]"

definition ToolClass :: "string \<Rightarrow> SchedulerClass" where
  "ToolClass name = (case map_of Tools name of Some class \<Rightarrow> class | None \<Rightarrow> ClassCanonicalWrite)"

text \<open>The two arguments the refinement looks at: the action, and whether the target is a symbol locator.\<close>

definition ClassForCall :: "string \<Rightarrow> string \<Rightarrow> bool \<Rightarrow> SchedulerClass" where
  "ClassForCall name action symbol =
     (if name = ''change_plan'' \<and> action \<noteq> ''prepare'' then ClassCanonicalWrite
      else if name = ''read'' \<and> symbol then ClassProviderRead
      else ToolClass name)"

section \<open>Channels and lanes\<close>

record channel =
  ch_cap :: nat
  ch_len :: nat

record workspaceScheduler =
  ws_lanes :: "string \<Rightarrow> nat option"
  ws_sandboxLanes :: "string \<Rightarrow> nat option"
  ws_channels :: "channel list"

definition providerSlots :: nat where
  "providerSlots = 0"

definition sandboxSlots :: nat where
  "sandboxSlots = 1"

definition make_channel :: "nat \<Rightarrow> channel" where
  "make_channel capacity = \<lparr> ch_cap = capacity, ch_len = 0 \<rparr>"

definition newWorkspaceScheduler :: "int \<Rightarrow> workspaceScheduler" where
  "newWorkspaceScheduler providerQuota =
     (let quota = (if providerQuota < 1 then 1 else providerQuota)
      in \<lparr> ws_lanes = Map.empty, ws_sandboxLanes = Map.empty, ws_channels = [make_channel (nat quota), make_channel 4] \<rparr>)"

definition lane :: "string \<Rightarrow> workspaceScheduler \<Rightarrow> nat \<times> workspaceScheduler" where
  "lane workspaceID s =
     (case ws_lanes s workspaceID of
        Some c \<Rightarrow> (c, s)
      | None \<Rightarrow>
          let c = length (ws_channels s)
          in (c, s\<lparr> ws_lanes := (ws_lanes s)(workspaceID \<mapsto> c), ws_channels := ws_channels s @ [make_channel 1] \<rparr>))"

definition sandboxLane :: "string \<Rightarrow> workspaceScheduler \<Rightarrow> nat \<times> workspaceScheduler" where
  "sandboxLane workspaceID s =
     (case ws_sandboxLanes s workspaceID of
        Some c \<Rightarrow> (c, s)
      | None \<Rightarrow>
          let c = length (ws_channels s)
          in (c, s\<lparr> ws_sandboxLanes := (ws_sandboxLanes s)(workspaceID \<mapsto> c), ws_channels := ws_channels s @ [make_channel 2] \<rparr>))"

definition tokens :: "workspaceScheduler \<Rightarrow> nat \<Rightarrow> nat" where
  "tokens s c = ch_len (ws_channels s ! c)"

definition capacity :: "workspaceScheduler \<Rightarrow> nat \<Rightarrow> nat" where
  "capacity s c = ch_cap (ws_channels s ! c)"

definition lane_tokens :: "workspaceScheduler \<Rightarrow> nat option \<Rightarrow> nat" where
  "lane_tokens s found = (case found of Some c \<Rightarrow> tokens s c | None \<Rightarrow> 0)"

definition busy :: "string \<Rightarrow> workspaceScheduler \<Rightarrow> bool" where
  "busy workspaceID s = (lane_tokens s (ws_lanes s workspaceID) > 0 \<or> lane_tokens s (ws_sandboxLanes s workspaceID) > 0)"

definition forget :: "string \<Rightarrow> workspaceScheduler \<Rightarrow> workspaceScheduler" where
  "forget workspaceID s =
     (let s1 = (if lane_tokens s (ws_lanes s workspaceID) = 0 then s\<lparr> ws_lanes := (ws_lanes s)(workspaceID := None) \<rparr> else s)
      in if lane_tokens s1 (ws_sandboxLanes s1 workspaceID) = 0
         then s1\<lparr> ws_sandboxLanes := (ws_sandboxLanes s1)(workspaceID := None) \<rparr> else s1)"

definition send :: "nat \<Rightarrow> workspaceScheduler \<Rightarrow> workspaceScheduler" where
  "send c s = s\<lparr> ws_channels := (ws_channels s)[c := (ws_channels s ! c)\<lparr> ch_len := tokens s c + 1 \<rparr>] \<rparr>"

definition receive :: "nat \<Rightarrow> workspaceScheduler \<Rightarrow> workspaceScheduler" where
  "receive c s = s\<lparr> ws_channels := (ws_channels s)[c := (ws_channels s ! c)\<lparr> ch_len := tokens s c - 1 \<rparr>] \<rparr>"

section \<open>Calls\<close>

text \<open>The slots \<open>acquire\<close> takes one after the other. Both release functions give them back in reverse order.\<close>

datatype slot = ProviderSlot | SandboxSlot | Lane string | SandboxLane string

fun acquire_slots :: "string \<Rightarrow> SchedulerClass \<Rightarrow> slot list option" where
  "acquire_slots workspaceID ClassPureRead = Some []"
| "acquire_slots workspaceID ClassProviderRead = Some [ProviderSlot, Lane workspaceID]"
| "acquire_slots workspaceID ClassCanonicalWrite = Some [Lane workspaceID]"
| "acquire_slots workspaceID ClassSandboxWrite = Some [ProviderSlot, SandboxSlot, SandboxLane workspaceID]"
| "acquire_slots workspaceID (ClassOther _) = None"

fun resolve_slot :: "slot \<Rightarrow> workspaceScheduler \<Rightarrow> nat \<times> workspaceScheduler" where
  "resolve_slot ProviderSlot s = (providerSlots, s)"
| "resolve_slot SandboxSlot s = (sandboxSlots, s)"
| "resolve_slot (Lane workspaceID) s = lane workspaceID s"
| "resolve_slot (SandboxLane workspaceID) s = sandboxLane workspaceID s"

text \<open>
  Where a call is: resolving its next slot, in the select of \<open>acquireSlot\<close>, executing, giving its
  slots back, or done (with whether it was executed). The held slots are a stack, newest first,
  each with the channel the release function captured.
\<close>

datatype phase =
  Acquiring "(slot \<times> nat) list" "slot list"
| Waiting "(slot \<times> nat) list" slot nat "slot list"
| Executing "(slot \<times> nat) list"
| Releasing "(slot \<times> nat) list" bool
| Finished bool

record scheduled_call =
  sc_workspaceID :: string
  sc_class :: SchedulerClass
  sc_phase :: phase

record service_state =
  sv_sched :: workspaceScheduler
  sv_calls :: "scheduled_call list"

definition phase_of :: "service_state \<Rightarrow> nat \<Rightarrow> phase option" where
  "phase_of v i = (if i < length (sv_calls v) then Some (sc_phase (sv_calls v ! i)) else None)"

definition new_service :: "int \<Rightarrow> service_state" where
  "new_service providerQuota = \<lparr> sv_sched = newWorkspaceScheduler providerQuota, sv_calls = [] \<rparr>"

definition put_call :: "nat \<Rightarrow> phase \<Rightarrow> workspaceScheduler \<Rightarrow> service_state \<Rightarrow> service_state" where
  "put_call i p s v = v\<lparr> sv_sched := s, sv_calls := (sv_calls v)[i := (sv_calls v ! i)\<lparr> sc_phase := p \<rparr>] \<rparr>"

definition start_call :: "string \<Rightarrow> SchedulerClass \<Rightarrow> scheduled_call" where
  "start_call workspaceID class = \<lparr> sc_workspaceID = workspaceID, sc_class = class,
     sc_phase = (case acquire_slots workspaceID class of Some slots \<Rightarrow> Acquiring [] slots | None \<Rightarrow> Finished False) \<rparr>"

text \<open>One step of call \<open>i\<close>.\<close>

inductive call_step :: "nat \<Rightarrow> service_state \<Rightarrow> service_state \<Rightarrow> bool" where
  resolve: "phase_of v i = Some (Acquiring held (slot # todo)) \<Longrightarrow> resolve_slot slot (sv_sched v) = (c, s) \<Longrightarrow>
    call_step i v (put_call i (Waiting held slot c todo) s v)"
| sent: "phase_of v i = Some (Waiting held slot c todo) \<Longrightarrow> tokens (sv_sched v) c < capacity (sv_sched v) c \<Longrightarrow>
    call_step i v (put_call i (Acquiring ((slot, c) # held) todo) (send c (sv_sched v)) v)"
| acquired: "phase_of v i = Some (Acquiring held []) \<Longrightarrow>
    call_step i v (put_call i (Executing held) (sv_sched v) v)"
| executed: "phase_of v i = Some (Executing held) \<Longrightarrow>
    call_step i v (put_call i (Releasing held True) (sv_sched v) v)"
| received: "phase_of v i = Some (Releasing ((slot, c) # held) served) \<Longrightarrow> tokens (sv_sched v) c > 0 \<Longrightarrow>
    call_step i v (put_call i (Releasing held served) (receive c (sv_sched v)) v)"
| released: "phase_of v i = Some (Releasing [] served) \<Longrightarrow>
    call_step i v (put_call i (Finished served) (sv_sched v) v)"

text \<open>A step of the service: a call moves, a context ends while its call waits, a call arrives, a workspace is forgotten.\<close>

datatype event = Moves nat | Cancelled nat | Arrives string SchedulerClass | Forgotten string

inductive sched_step :: "service_state \<Rightarrow> event \<Rightarrow> service_state \<Rightarrow> bool" where
  moves: "call_step i v v' \<Longrightarrow> sched_step v (Moves i) v'"
| cancelled: "phase_of v i = Some (Waiting held slot c todo) \<Longrightarrow>
    sched_step v (Cancelled i) (put_call i (Releasing held False) (sv_sched v) v)"
| arrives: "sched_step v (Arrives workspaceID class) (v\<lparr> sv_calls := sv_calls v @ [start_call workspaceID class] \<rparr>)"
| forgotten: "sched_step v (Forgotten workspaceID) (v\<lparr> sv_sched := forget workspaceID (sv_sched v) \<rparr>)"

inductive_cases call_stepE: "call_step i v v'"
inductive_cases sched_stepE: "sched_step v e v'"

text \<open>
  Runs in which every step satisfies a side condition. The condition \<open>any_event\<close> allows all of them;
  \<open>quiet_forget\<close> allows to forget a workspace only while no call refers to one of its lanes.
\<close>

inductive sched_run :: "(service_state \<Rightarrow> event \<Rightarrow> bool) \<Rightarrow> int \<Rightarrow> service_state \<Rightarrow> bool" for ok quota where
  begins: "sched_run ok quota (new_service quota)"
| goes_on: "sched_run ok quota v \<Longrightarrow> ok v e \<Longrightarrow> sched_step v e v' \<Longrightarrow> sched_run ok quota v'"

fun held_slots :: "phase \<Rightarrow> (slot \<times> nat) list" where
  "held_slots (Acquiring held _) = held"
| "held_slots (Waiting held _ _ _) = held"
| "held_slots (Executing held) = held"
| "held_slots (Releasing held _) = held"
| "held_slots (Finished _) = []"

fun referred_slots :: "phase \<Rightarrow> (slot \<times> nat) list" where
  "referred_slots (Waiting held slot c _) = (slot, c) # held"
| "referred_slots p = held_slots p"

definition any_event :: "service_state \<Rightarrow> event \<Rightarrow> bool" where
  "any_event v e = True"

definition quiet_forget :: "service_state \<Rightarrow> event \<Rightarrow> bool" where
  "quiet_forget v e =
     (case e of
        Forgotten workspaceID \<Rightarrow>
          list_all (\<lambda>p. list_all (\<lambda>(slot, _). slot \<noteq> Lane workspaceID \<and> slot \<noteq> SandboxLane workspaceID) (referred_slots (sc_phase p))) (sv_calls v)
      | _ \<Rightarrow> True)"

definition holders :: "service_state \<Rightarrow> nat \<Rightarrow> nat" where
  "holders v c = sum_list (map (\<lambda>p. count_list (map snd (held_slots (sc_phase p))) c) (sv_calls v))"


text \<open>
  The same steps as a function: the phase of a call decides which rule applies to it, and a send on a
  full channel or a receive from an empty one blocks. \<open>play\<close> runs a sequence of events.
\<close>

definition move :: "nat \<Rightarrow> service_state \<Rightarrow> service_state option" where
  "move i v =
     (case phase_of v i of
        None \<Rightarrow> None
      | Some (Acquiring held []) \<Rightarrow> Some (put_call i (Executing held) (sv_sched v) v)
      | Some (Acquiring held (slot # todo)) \<Rightarrow>
          let (c, s) = resolve_slot slot (sv_sched v) in Some (put_call i (Waiting held slot c todo) s v)
      | Some (Waiting held slot c todo) \<Rightarrow>
          if tokens (sv_sched v) c < capacity (sv_sched v) c
          then Some (put_call i (Acquiring ((slot, c) # held) todo) (send c (sv_sched v)) v) else None
      | Some (Executing held) \<Rightarrow> Some (put_call i (Releasing held True) (sv_sched v) v)
      | Some (Releasing [] served) \<Rightarrow> Some (put_call i (Finished served) (sv_sched v) v)
      | Some (Releasing ((slot, c) # held) served) \<Rightarrow>
          if tokens (sv_sched v) c > 0 then Some (put_call i (Releasing held served) (receive c (sv_sched v)) v) else None
      | Some (Finished _) \<Rightarrow> None)"

fun play_event :: "event \<Rightarrow> service_state \<Rightarrow> service_state option" where
  "play_event (Moves i) v = move i v"
| "play_event (Cancelled i) v =
     (case phase_of v i of Some (Waiting held slot c todo) \<Rightarrow> Some (put_call i (Releasing held False) (sv_sched v) v) | _ \<Rightarrow> None)"
| "play_event (Arrives workspaceID kind) v = Some (v\<lparr> sv_calls := sv_calls v @ [start_call workspaceID kind] \<rparr>)"
| "play_event (Forgotten workspaceID) v = Some (v\<lparr> sv_sched := forget workspaceID (sv_sched v) \<rparr>)"

fun play :: "(service_state \<Rightarrow> event \<Rightarrow> bool) \<Rightarrow> event list \<Rightarrow> service_state \<Rightarrow> service_state option" where
  "play ok [] v = Some v"
| "play ok (e # es) v = (if ok v e then case play_event e v of Some v' \<Rightarrow> play ok es v' | None \<Rightarrow> None else None)"

lemma move_iff: "move i v = Some v' \<longleftrightarrow> call_step i v v'"
proof
  assume "move i v = Some v'"
  then show "call_step i v v'"
    by (auto simp: move_def intro: call_step.intros split: option.splits phase.splits list.splits prod.splits if_splits)
next
  assume "call_step i v v'"
  then show "move i v = Some v'" by cases (auto simp: move_def)
qed

lemma play_event_step: "play_event e v = Some v' \<Longrightarrow> sched_step v e v'"
  by (cases e) (auto simp: move_iff intro: sched_step.intros split: option.splits phase.splits)

lemma play_run:
  assumes "play ok es v = Some v'" "sched_run ok quota v"
  shows "sched_run ok quota v'"
  using assms
  by (induction es arbitrary: v) (auto intro: sched_run.goes_on play_event_step split: if_splits option.splits)

end
