(* ===== verification/Scheduler_Safety.thy ===== *)
theory Scheduler_Safety
  imports Scheduler "HOL-Library.Sublist"
begin

text \<open>
  What the scheduler guarantees over every interleaving: the tokens in a channel are exactly the
  slots calls hold, so that no release blocks and no quota is exceeded; a lane excludes while no
  workspace is forgotten under a waiting call; and calls never deadlock, because every call takes
  its slots in the order provider, sandbox, lane.
\<close>

section \<open>Capacities\<close>

abbreviation caps :: "workspaceScheduler \<Rightarrow> nat list" where
  "caps s \<equiv> map ch_cap (ws_channels s)"

fun slot_cap :: "nat list \<Rightarrow> slot \<times> nat \<Rightarrow> bool" where
  "slot_cap cs (ProviderSlot, c) = (c = providerSlots \<and> c < length cs)"
| "slot_cap cs (SandboxSlot, c) = (c = sandboxSlots \<and> c < length cs)"
| "slot_cap cs (Lane _, c) = (2 \<le> c \<and> c < length cs \<and> cs ! c = 1)"
| "slot_cap cs (SandboxLane _, c) = (2 \<le> c \<and> c < length cs \<and> cs ! c = 2)"

fun slot_rank :: "slot \<Rightarrow> nat" where
  "slot_rank ProviderSlot = 0"
| "slot_rank SandboxSlot = 1"
| "slot_rank (Lane _) = 2"
| "slot_rank (SandboxLane _) = 2"

definition sched_ok :: "int \<Rightarrow> workspaceScheduler \<Rightarrow> bool" where
  "sched_ok quota s \<longleftrightarrow> prefix [nat (max 1 quota), 4] (caps s) \<and> (\<forall>cap \<in> set (caps s). 1 \<le> cap) \<and>
     (\<forall>ws c. ws_lanes s ws = Some c \<longrightarrow> slot_cap (caps s) (Lane ws, c)) \<and>
     (\<forall>ws c. ws_sandboxLanes s ws = Some c \<longrightarrow> slot_cap (caps s) (SandboxLane ws, c))"

lemma slot_cap_length: "slot_cap cs ref \<Longrightarrow> snd ref < length cs"
  by (cases "(cs, ref)" rule: slot_cap.cases) auto

lemma slot_cap_rank: "slot_cap cs (slot, c) \<Longrightarrow> slot_rank slot = min c 2"
  by (cases slot) (auto simp: providerSlots_def sandboxSlots_def)

lemma slot_cap_prefix: "slot_cap cs ref \<Longrightarrow> prefix cs ds \<Longrightarrow> slot_cap ds ref"
  by (cases "(cs, ref)" rule: slot_cap.cases) (auto simp: prefix_def nth_append)

lemma caps_send [simp]: "caps (send c s) = caps s" "ws_lanes (send c s) = ws_lanes s" "ws_sandboxLanes (send c s) = ws_sandboxLanes s"
  by (auto simp: send_def map_update) (metis list_update_id map_update nth_map)

lemma caps_receive [simp]:
  "caps (receive c s) = caps s" "ws_lanes (receive c s) = ws_lanes s" "ws_sandboxLanes (receive c s) = ws_sandboxLanes s"
  by (auto simp: receive_def map_update) (metis list_update_id map_update nth_map)

lemma sched_ok_send: "sched_ok quota (send c s) = sched_ok quota s" "sched_ok quota (receive c s) = sched_ok quota s"
  unfolding sched_ok_def caps_send caps_receive by (rule refl)+

lemma tokens_send: "c < length (ws_channels s) \<Longrightarrow> tokens (send c s) d = (if d = c then tokens s c + 1 else tokens s d)"
  by (auto simp: send_def tokens_def)

lemma tokens_receive: "c < length (ws_channels s) \<Longrightarrow> tokens (receive c s) d = (if d = c then tokens s c - 1 else tokens s d)"
  by (auto simp: receive_def tokens_def)

lemma capacity_caps: "c < length (ws_channels s) \<Longrightarrow> capacity s c = caps s ! c"
  by (simp add: capacity_def)

text \<open>Resolving a slot allocates at most one channel, which is empty.\<close>

lemma sched_ok_room: "sched_ok quota s \<Longrightarrow> 2 \<le> length (ws_channels s)"
  unfolding sched_ok_def by (metis length_map One_nat_def Suc_1 list.size(3,4) prefix_length_le plus_1_eq_Suc add.commute)

lemma sched_ok_alloc:
  assumes "sched_ok quota s" "1 \<le> cap" "ws_channels s' = ws_channels s @ [make_channel cap]"
    and "\<And>ws c. ws_lanes s' ws = Some c \<Longrightarrow> ws_lanes s ws = Some c \<or> c = length (ws_channels s) \<and> cap = 1"
    and "\<And>ws c. ws_sandboxLanes s' ws = Some c \<Longrightarrow> ws_sandboxLanes s ws = Some c \<or> c = length (ws_channels s) \<and> cap = 2"
  shows "sched_ok quota s'"
proof -
  have caps: "caps s' = caps s @ [cap]" using assms(3) by (simp add: make_channel_def)
  have old: "slot_cap (caps s) ref \<Longrightarrow> slot_cap (caps s') ref" for ref by (rule slot_cap_prefix) (auto simp: caps)
  have new: "slot_cap (caps s') (Lane ws, length (ws_channels s))" if "cap = 1" for ws
    using that sched_ok_room [OF assms(1)] by (simp add: caps nth_append)
  have new_sandbox: "slot_cap (caps s') (SandboxLane ws, length (ws_channels s))" if "cap = 2" for ws
    using that sched_ok_room [OF assms(1)] by (simp add: caps nth_append)
  have "slot_cap (caps s') (Lane ws, c)" if "ws_lanes s' ws = Some c" for ws c
    using assms(4) [OF that] old new assms(1) unfolding sched_ok_def by blast
  moreover have "slot_cap (caps s') (SandboxLane ws, c)" if "ws_sandboxLanes s' ws = Some c" for ws c
    using assms(5) [OF that] old new_sandbox assms(1) unfolding sched_ok_def by blast
  moreover have "prefix [nat (max 1 quota), 4] (caps s')" "\<forall>cap \<in> set (caps s'). 1 \<le> cap"
    using assms(1,2) caps unfolding sched_ok_def by (auto intro: prefix_prefix)
  ultimately show ?thesis unfolding sched_ok_def by blast
qed

lemma resolve_slot_cases:
  assumes "resolve_slot slot s = (c, s')"
  obtains (kept) "s' = s" "slot = ProviderSlot \<and> c = providerSlots \<or> slot = SandboxSlot \<and> c = sandboxSlots \<or>
      (\<exists>ws. slot = Lane ws \<and> ws_lanes s ws = Some c \<or> slot = SandboxLane ws \<and> ws_sandboxLanes s ws = Some c)"
  | (lane) ws where "slot = Lane ws" "c = length (ws_channels s)"
      "s' = s\<lparr> ws_lanes := (ws_lanes s)(ws \<mapsto> c), ws_channels := ws_channels s @ [make_channel 1] \<rparr>"
  | (sandbox) ws where "slot = SandboxLane ws" "c = length (ws_channels s)"
      "s' = s\<lparr> ws_sandboxLanes := (ws_sandboxLanes s)(ws \<mapsto> c), ws_channels := ws_channels s @ [make_channel 2] \<rparr>"
proof (cases slot)
  case (Lane ws)
  show ?thesis
  proof (cases "ws_lanes s ws")
    case None
    show ?thesis by (rule lane [of ws]) (use assms Lane None in \<open>auto simp: lane_def Let_def\<close>)
  next
    case (Some d)
    show ?thesis by (rule kept) (use assms Lane Some in \<open>auto simp: lane_def Let_def\<close>)
  qed
next
  case (SandboxLane ws)
  show ?thesis
  proof (cases "ws_sandboxLanes s ws")
    case None
    show ?thesis by (rule sandbox [of ws]) (use assms SandboxLane None in \<open>auto simp: sandboxLane_def Let_def\<close>)
  next
    case (Some d)
    show ?thesis by (rule kept) (use assms SandboxLane Some in \<open>auto simp: sandboxLane_def Let_def\<close>)
  qed
next
  case ProviderSlot
  show ?thesis by (rule kept) (use assms ProviderSlot in auto)
next
  case SandboxSlot
  show ?thesis by (rule kept) (use assms SandboxSlot in auto)
qed

lemma resolve_slot_result:
  assumes "sched_ok quota s" "resolve_slot slot s = (c, s')"
  shows "sched_ok quota s' \<and> slot_cap (caps s') (slot, c) \<and>
    (ws_channels s' = ws_channels s \<or> (\<exists>cap \<ge> 1. ws_channels s' = ws_channels s @ [make_channel cap]))"
  using assms(2)
proof (cases rule: resolve_slot_cases)
  case kept
  have "slot_cap (caps s) (slot, c)" using kept(2) assms(1) sched_ok_room [OF assms(1)]
    by (auto simp: sched_ok_def providerSlots_def sandboxSlots_def simp del: slot_cap.simps(3,4))
  then show ?thesis using assms(1) kept(1) by simp
next
  case (lane ws)
  have "sched_ok quota s'"
    by (rule sched_ok_alloc [OF assms(1), of 1]) (auto simp: lane split: if_splits)
  then show ?thesis using lane sched_ok_room [OF assms(1)] by (auto simp: make_channel_def nth_append)
next
  case (sandbox ws)
  have "sched_ok quota s'"
    by (rule sched_ok_alloc [OF assms(1), of 2]) (auto simp: sandbox split: if_splits)
  then show ?thesis using sandbox sched_ok_room [OF assms(1)] by (auto simp: make_channel_def nth_append)
qed

lemma forget_fields [simp]: "ws_channels (forget ws s) = ws_channels s"
  by (simp add: forget_def Let_def)

lemma forget_lanes:
  "ws_lanes (forget ws s) w = Some c \<Longrightarrow> ws_lanes s w = Some c"
  "ws_sandboxLanes (forget ws s) w = Some c \<Longrightarrow> ws_sandboxLanes s w = Some c"
  by (auto simp: forget_def Let_def split: if_splits)

lemma forget_ok: "sched_ok quota s \<Longrightarrow> sched_ok quota (forget ws s)"
  unfolding sched_ok_def forget_fields using forget_lanes by metis

lemma forget_tokens [simp]: "tokens (forget ws s) c = tokens s c"
  by (simp add: tokens_def)

section \<open>Tokens are held slots\<close>

lemma phase_of_Some: "phase_of v i = Some p \<longleftrightarrow> i < length (sv_calls v) \<and> sc_phase (sv_calls v ! i) = p"
  by (auto simp: phase_of_def)

lemma holders_put:
  assumes "phase_of v i = Some p"
  shows "holders (put_call i q s v) c + count_list (map snd (held_slots p)) c = holders v c + count_list (map snd (held_slots q)) c"
proof -
  let ?f = "\<lambda>p. count_list (map snd (held_slots (sc_phase p))) c"
  have i: "i < length (sv_calls v)" "sc_phase (sv_calls v ! i) = p" using assms by (auto simp: phase_of_Some)
  have "?f (sv_calls v ! i) \<le> sum_list (map ?f (sv_calls v))"
    using i(1) by (intro member_le_sum_list) auto
  then show ?thesis using i by (simp add: holders_def put_call_def map_update sum_list_update)
qed

text \<open>What the call still plans to take, after what it holds: the slots of its class in their order.\<close>

fun planned :: "phase \<Rightarrow> slot list option" where
  "planned (Acquiring held todo) = Some (rev (map fst held) @ todo)"
| "planned (Waiting held slot c todo) = Some (rev (map fst held) @ slot # todo)"
| "planned (Executing held) = Some (rev (map fst held))"
| "planned _ = None"

definition call_ok :: "nat list \<Rightarrow> scheduled_call \<Rightarrow> bool" where
  "call_ok cs call \<longleftrightarrow> list_all (slot_cap cs) (referred_slots (sc_phase call)) \<and>
     (planned (sc_phase call) \<noteq> None \<longrightarrow> planned (sc_phase call) = acquire_slots (sc_workspaceID call) (sc_class call))"

definition service_ok :: "int \<Rightarrow> service_state \<Rightarrow> bool" where
  "service_ok quota v \<longleftrightarrow> sched_ok quota (sv_sched v) \<and> list_all (call_ok (caps (sv_sched v))) (sv_calls v) \<and>
     (\<forall>c < length (ws_channels (sv_sched v)). tokens (sv_sched v) c = holders v c \<and> tokens (sv_sched v) c \<le> capacity (sv_sched v) c)"

lemma held_referred: "set (held_slots p) \<subseteq> set (referred_slots p)"
  by (cases p) auto

lemma call_ok_prefix: "call_ok cs call \<Longrightarrow> prefix cs ds \<Longrightarrow> call_ok ds call"
  by (auto simp: call_ok_def list_all_iff slot_cap_prefix)

lemma service_ok_call:
  assumes "service_ok quota v" "phase_of v i = Some p"
  shows "call_ok (caps (sv_sched v)) (sv_calls v ! i)"
  using assms by (auto simp: service_ok_def list_all_length phase_of_Some)

lemma fresh_channel_unheld:
  assumes "list_all (call_ok cs) (sv_calls v)" "length cs \<le> c"
  shows "holders v c = 0"
proof -
  have "count_list (map snd (held_slots (sc_phase call))) c = 0" if "call \<in> set (sv_calls v)" for call
  proof -
    have "list_all (slot_cap cs) (held_slots (sc_phase call))"
      using assms(1) that held_referred by (fastforce simp: list_all_iff call_ok_def)
    then have "c \<notin> snd ` set (held_slots (sc_phase call))"
      using assms(2) slot_cap_length by (fastforce simp: list_all_iff)
    then show ?thesis by (simp add: count_list_0_iff)
  qed
  then show ?thesis by (simp add: holders_def)
qed


lemma channels_length: "length (ws_channels s) = length (caps s)"
  by simp

text \<open>A call moves on: its own record changes, the channels keep their capacities or grow.\<close>

lemma service_ok_put:
  assumes ok: "service_ok quota v" and p: "phase_of v i = Some p" and s: "sched_ok quota s" "prefix (caps (sv_sched v)) (caps s)"
    and q: "call_ok (caps s) ((sv_calls v ! i)\<lparr> sc_phase := q \<rparr>)"
    and toks: "\<And>c. c < length (caps s) \<Longrightarrow> tokens s c \<le> caps s ! c \<and>
      tokens s c + count_list (map snd (held_slots p)) c = holders v c + count_list (map snd (held_slots q)) c"
  shows "service_ok quota (put_call i q s v)"
proof -
  have "call_ok (caps s) call" if "call \<in> set (sv_calls v)" for call
    using ok s(2) that call_ok_prefix unfolding service_ok_def list_all_iff by blast
  then have "list_all (call_ok (caps s)) (sv_calls (put_call i q s v))"
    using q by (auto simp: put_call_def list_all_iff dest!: subsetD [OF set_update_subset_insert])
  moreover have "tokens s c = holders (put_call i q s v) c" if "c < length (caps s)" for c
    using toks [OF that] holders_put [OF p, of q s c] by linarith
  ultimately show ?thesis using s(1) toks by (auto simp: service_ok_def put_call_def capacity_def)
qed

lemma service_tokens:
  assumes "service_ok quota v" "c < length (caps (sv_sched v))"
  shows "tokens (sv_sched v) c = holders v c" "tokens (sv_sched v) c \<le> caps (sv_sched v) ! c"
  using assms by (auto simp: service_ok_def capacity_def)

lemma call_ok_phase:
  assumes "call_ok cs call" "list_all (slot_cap cs) (referred_slots p)"
    and "planned p \<noteq> None \<longrightarrow> planned p = planned (sc_phase call) \<and> planned (sc_phase call) \<noteq> None"
  shows "call_ok cs (call\<lparr> sc_phase := p \<rparr>)"
  using assms by (auto simp: call_ok_def)

lemma resolve_ok:
  assumes ok: "service_ok quota v" and p: "phase_of v i = Some (Acquiring held (slot # todo))"
    and r: "resolve_slot slot (sv_sched v) = (c, s)"
  shows "service_ok quota (put_call i (Waiting held slot c todo) s v)"
proof -
  have sched: "sched_ok quota (sv_sched v)" using ok by (simp add: service_ok_def)
  note res = resolve_slot_result [OF sched r]
  have pre: "prefix (caps (sv_sched v)) (caps s)" using res by auto
  have call: "call_ok (caps s) (sv_calls v ! i)" using service_ok_call [OF ok p] call_ok_prefix pre by blast
  have phase: "sc_phase (sv_calls v ! i) = Acquiring held (slot # todo)" using p by (simp add: phase_of_Some)
  have "call_ok (caps s) ((sv_calls v ! i)\<lparr> sc_phase := Waiting held slot c todo \<rparr>)"
    by (rule call_ok_phase [OF call]) (use call phase res in \<open>auto simp: call_ok_def\<close>)
  moreover have "tokens s d \<le> caps s ! d \<and> tokens s d = holders v d" if d: "d < length (caps s)" for d
  proof (cases "d < length (caps (sv_sched v))")
    case True
    then have "tokens s d = tokens (sv_sched v) d" "caps s ! d = caps (sv_sched v) ! d"
      using res by (auto simp: tokens_def nth_append)
    then show ?thesis using service_tokens [OF ok True] by simp
  next
    case False
    then obtain cap where "ws_channels s = ws_channels (sv_sched v) @ [make_channel cap]" "d = length (ws_channels (sv_sched v))"
      using res d by auto
    moreover have "holders v d = 0" using ok False by (intro fresh_channel_unheld) (auto simp: service_ok_def)
    ultimately show ?thesis by (simp add: tokens_def make_channel_def)
  qed
  ultimately show ?thesis by (intro service_ok_put [OF ok p conjunct1 [OF res] pre]) fastforce+
qed

lemma call_step_ok:
  assumes ok: "service_ok quota v" and step: "call_step i v v'"
  shows "service_ok quota v'"
  using step
proof cases
  case (resolve held slot todo c s)
  then show ?thesis using resolve_ok [OF ok] by simp
next
  case (sent held slot c todo)
  note put = service_ok_put [OF ok sent(2)]
  have call: "call_ok (caps (sv_sched v)) (sv_calls v ! i)" "sc_phase (sv_calls v ! i) = Waiting held slot c todo"
    using service_ok_call [OF ok sent(2)] sent(2) by (auto simp: phase_of_Some)
  have c: "c < length (caps (sv_sched v))" using call slot_cap_length by (fastforce simp: call_ok_def)
  show ?thesis unfolding sent(1)
  proof (rule put)
    show "call_ok (caps (send c (sv_sched v))) ((sv_calls v ! i)\<lparr> sc_phase := Acquiring ((slot, c) # held) todo \<rparr>)"
      using call by (simp add: call_ok_def)
  qed (use ok sent(3) c service_tokens [OF ok] in \<open>auto simp: service_ok_def sched_ok_send tokens_send capacity_def\<close>)
next
  case (acquired held)
  have call: "call_ok (caps (sv_sched v)) (sv_calls v ! i)" "sc_phase (sv_calls v ! i) = Acquiring held []"
    using service_ok_call [OF ok acquired(2)] acquired(2) by (auto simp: phase_of_Some)
  show ?thesis unfolding acquired(1)
    by (rule service_ok_put [OF ok acquired(2)]) (use ok call service_tokens [OF ok] in \<open>auto simp: service_ok_def call_ok_def\<close>)
next
  case (executed held)
  have call: "call_ok (caps (sv_sched v)) (sv_calls v ! i)" "sc_phase (sv_calls v ! i) = Executing held"
    using service_ok_call [OF ok executed(2)] executed(2) by (auto simp: phase_of_Some)
  show ?thesis unfolding executed(1)
    by (rule service_ok_put [OF ok executed(2)]) (use ok call service_tokens [OF ok] in \<open>auto simp: service_ok_def call_ok_def\<close>)
next
  case (received slot c held served)
  have call: "call_ok (caps (sv_sched v)) (sv_calls v ! i)" "sc_phase (sv_calls v ! i) = Releasing ((slot, c) # held) served"
    using service_ok_call [OF ok received(2)] received(2) by (auto simp: phase_of_Some)
  have c: "c < length (caps (sv_sched v))" using call slot_cap_length by (fastforce simp: call_ok_def)
  show ?thesis unfolding received(1)
  proof (rule service_ok_put [OF ok received(2)])
    fix d assume "d < length (caps (receive c (sv_sched v)))"
    then have d: "d < length (caps (sv_sched v))" by simp
    show "tokens (receive c (sv_sched v)) d \<le> caps (receive c (sv_sched v)) ! d \<and>
      tokens (receive c (sv_sched v)) d + count_list (map snd (held_slots (Releasing ((slot, c) # held) served))) d =
      holders v d + count_list (map snd (held_slots (Releasing held served))) d"
      using received(3) c service_tokens [OF ok d] by (auto simp: tokens_receive)
  qed (use ok call in \<open>auto simp: service_ok_def sched_ok_send call_ok_def\<close>)
next
  case (released served)
  have call: "call_ok (caps (sv_sched v)) (sv_calls v ! i)" "sc_phase (sv_calls v ! i) = Releasing [] served"
    using service_ok_call [OF ok released(2)] released(2) by (auto simp: phase_of_Some)
  show ?thesis unfolding released(1)
    by (rule service_ok_put [OF ok released(2)]) (use ok call service_tokens [OF ok] in \<open>auto simp: service_ok_def call_ok_def\<close>)
qed

lemma sched_step_ok:
  assumes ok: "service_ok quota v" and step: "sched_step v e v'"
  shows "service_ok quota v'"
  using step
proof cases
  case (moves i)
  then show ?thesis using call_step_ok [OF ok] by simp
next
  case (cancelled i held slot c todo)
  have call: "call_ok (caps (sv_sched v)) (sv_calls v ! i)" "sc_phase (sv_calls v ! i) = Waiting held slot c todo"
    using service_ok_call [OF ok cancelled(3)] cancelled(3) by (auto simp: phase_of_Some)
  show ?thesis unfolding cancelled(2)
    by (rule service_ok_put [OF ok cancelled(3)]) (use ok call service_tokens [OF ok] in \<open>auto simp: service_ok_def call_ok_def\<close>)
next
  case (arrives workspaceID kind)
  have "held_slots (sc_phase (start_call workspaceID kind)) = []" "call_ok cs (start_call workspaceID kind)" for cs
    by (auto simp: start_call_def call_ok_def split: option.splits)
  then show ?thesis using ok arrives by (fastforce simp: service_ok_def holders_def)
next
  case (forgotten workspaceID)
  then show ?thesis using ok forget_ok by (fastforce simp: service_ok_def holders_def capacity_def)
qed

lemma new_service_ok: "service_ok quota (new_service quota)"
  by (auto simp: service_ok_def sched_ok_def new_service_def newWorkspaceScheduler_def make_channel_def holders_def tokens_def
      capacity_def less_Suc_eq Let_def)

lemma run_ok: "sched_run ok quota v \<Longrightarrow> service_ok quota v"
  by (induction rule: sched_run.induct) (auto intro: new_service_ok sched_step_ok)


section \<open>Quotas\<close>

text \<open>The calls that are executing and satisfy a predicate on their class and workspace.\<close>

definition executing :: "service_state \<Rightarrow> (scheduled_call \<Rightarrow> bool) \<Rightarrow> nat set" where
  "executing v P = {i. i < length (sv_calls v) \<and> P (sv_calls v ! i) \<and> (\<exists>held. sc_phase (sv_calls v ! i) = Executing held)}"

definition uses_provider :: "scheduled_call \<Rightarrow> bool" where
  "uses_provider call = (sc_class call \<in> {ClassProviderRead, ClassSandboxWrite})"

definition sandboxed :: "scheduled_call \<Rightarrow> bool" where
  "sandboxed call = (sc_class call = ClassSandboxWrite)"

definition laned :: "string \<Rightarrow> scheduled_call \<Rightarrow> bool" where
  "laned ws call = (sc_workspaceID call = ws \<and> sc_class call \<in> {ClassProviderRead, ClassCanonicalWrite})"

lemma executing_holds:
  assumes "service_ok quota v" "i \<in> executing v P"
    and "\<And>slots. acquire_slots (sc_workspaceID (sv_calls v ! i)) (sc_class (sv_calls v ! i)) = Some slots \<Longrightarrow> slot \<in> set slots"
  obtains c where "(slot, c) \<in> set (held_slots (sc_phase (sv_calls v ! i)))" "slot_cap (caps (sv_sched v)) (slot, c)"
proof -
  obtain held where held: "sc_phase (sv_calls v ! i) = Executing held" "i < length (sv_calls v)"
    using assms(2) by (auto simp: executing_def)
  then have call: "call_ok (caps (sv_sched v)) (sv_calls v ! i)" using service_ok_call [OF assms(1)] by (simp add: phase_of_Some)
  then have "slot \<in> fst ` set held" using assms(3) [of "rev (map fst held)"] held by (auto simp: call_ok_def)
  then obtain c where "(slot, c) \<in> set held" by auto
  then show ?thesis using that call held by (auto simp: call_ok_def list_all_iff)
qed

lemma card_le_holders:
  assumes "I \<subseteq> {..<length (sv_calls v)}" "\<And>i. i \<in> I \<Longrightarrow> c \<in> snd ` set (held_slots (sc_phase (sv_calls v ! i)))"
  shows "card I \<le> holders v c"
proof -
  let ?f = "\<lambda>i. count_list (map snd (held_slots (sc_phase (sv_calls v ! i)))) c"
  have "1 \<le> ?f i" if "i \<in> I" for i
    using assms(2) [OF that] by (metis One_nat_def Suc_leI count_list_0_iff list.set_map neq0_conv)
  then have "card I \<le> sum ?f I" using sum_mono [of I "\<lambda>_. 1" ?f] by simp
  also have "\<dots> \<le> sum ?f {..<length (sv_calls v)}" using assms(1) by (intro sum_mono2) auto
  also have "\<dots> = holders v c" by (simp add: holders_def sum_list_sum_nth atLeast0LessThan)
  finally show ?thesis .
qed

lemma executing_subset: "executing v P \<subseteq> {..<length (sv_calls v)}"
  by (auto simp: executing_def)

text \<open>
  The scheduler keeps its quotas. Over every interleaving of calls, cancellations and forgotten
  workspaces the tokens in a channel are exactly the slots that calls hold and never more than its
  capacity; at most as many calls as the provider quota execute with a provider, and at most
  four in a sandbox.
\<close>

theorem scheduler_quotas:
  assumes "sched_run any_event quota v"
  shows "(\<forall>c < length (ws_channels (sv_sched v)). tokens (sv_sched v) c = holders v c \<and> holders v c \<le> capacity (sv_sched v) c) \<and>
    card (executing v uses_provider) \<le> nat (max 1 quota) \<and> card (executing v sandboxed) \<le> 4"
proof -
  note ok = run_ok [OF assms]
  have caps: "2 \<le> length (caps (sv_sched v))" "caps (sv_sched v) ! providerSlots = nat (max 1 quota)" "caps (sv_sched v) ! sandboxSlots = 4"
    using ok by (auto simp: service_ok_def sched_ok_def prefix_def providerSlots_def sandboxSlots_def)
  have "card (executing v uses_provider) \<le> holders v providerSlots"
  proof (rule card_le_holders [OF executing_subset])
    fix i assume i: "i \<in> executing v uses_provider"
    then have "ProviderSlot \<in> set slots" if "acquire_slots (sc_workspaceID (sv_calls v ! i)) (sc_class (sv_calls v ! i)) = Some slots" for slots
      using that by (auto simp: executing_def uses_provider_def)
    from executing_holds [OF ok i this]
    obtain c where "(ProviderSlot, c) \<in> set (held_slots (sc_phase (sv_calls v ! i)))" "slot_cap (caps (sv_sched v)) (ProviderSlot, c)" .
    then show "providerSlots \<in> snd ` set (held_slots (sc_phase (sv_calls v ! i)))" by force
  qed
  moreover have "card (executing v sandboxed) \<le> holders v sandboxSlots"
  proof (rule card_le_holders [OF executing_subset])
    fix i assume i: "i \<in> executing v sandboxed"
    then have "SandboxSlot \<in> set slots" if "acquire_slots (sc_workspaceID (sv_calls v ! i)) (sc_class (sv_calls v ! i)) = Some slots" for slots
      using that by (auto simp: executing_def sandboxed_def)
    from executing_holds [OF ok i this]
    obtain c where "(SandboxSlot, c) \<in> set (held_slots (sc_phase (sv_calls v ! i)))" "slot_cap (caps (sv_sched v)) (SandboxSlot, c)" .
    then show "sandboxSlots \<in> snd ` set (held_slots (sc_phase (sv_calls v ! i)))" by force
  qed
  moreover have "tokens (sv_sched v) c = holders v c \<and> holders v c \<le> capacity (sv_sched v) c" if "c < length (ws_channels (sv_sched v))" for c
    using ok that by (auto simp: service_ok_def)
  moreover have "providerSlots < length (ws_channels (sv_sched v))" "sandboxSlots < length (ws_channels (sv_sched v))"
    using caps(1) by (auto simp: providerSlots_def sandboxSlots_def)
  ultimately show ?thesis using caps(2,3) by (metis capacity_caps le_trans)
qed


section \<open>Exclusion\<close>

fun current_slot :: "workspaceScheduler \<Rightarrow> slot \<times> nat \<Rightarrow> bool" where
  "current_slot s (Lane ws, c) = (ws_lanes s ws = Some c)"
| "current_slot s (SandboxLane ws, c) = (ws_sandboxLanes s ws = Some c)"
| "current_slot s _ = True"

definition lanes_current :: "service_state \<Rightarrow> bool" where
  "lanes_current v = list_all (\<lambda>call. list_all (current_slot (sv_sched v)) (referred_slots (sc_phase call))) (sv_calls v)"

lemma lanes_currentD:
  assumes "lanes_current v" "phase_of v i = Some p"
  shows "list_all (current_slot (sv_sched v)) (referred_slots p)"
  using assms by (auto simp: lanes_current_def list_all_length phase_of_Some)

lemma lanes_current_put:
  assumes "lanes_current v" "phase_of v i = Some p" "\<And>ref. current_slot (sv_sched v) ref \<Longrightarrow> current_slot s ref"
    and "list_all (current_slot s) (referred_slots q)"
  shows "lanes_current (put_call i q s v)"
  using assms by (auto simp: lanes_current_def put_call_def list_all_iff dest!: subsetD [OF set_update_subset_insert])

lemma current_slot_send [simp]: "current_slot (send c s) = current_slot s" "current_slot (receive c s) = current_slot s"
  by (rule ext, case_tac "(send c s, x)" rule: current_slot.cases, auto,
      rule ext, case_tac "(receive c s, x)" rule: current_slot.cases, auto)

lemma resolve_current:
  assumes "resolve_slot slot s = (c, s')" "sched_ok quota s"
  shows "current_slot s' (slot, c)" "current_slot s ref \<Longrightarrow> current_slot s' ref"
proof -
  show "current_slot s' (slot, c)" using assms(1) by (cases rule: resolve_slot_cases) auto
  have same: "ws_lanes s ws = Some d \<Longrightarrow> ws_lanes s' ws = Some d" "ws_sandboxLanes s ws = Some d \<Longrightarrow> ws_sandboxLanes s' ws = Some d" for ws d
    using assms(1) by (cases slot; auto simp: lane_def sandboxLane_def Let_def split: option.splits)+
  show "current_slot s' ref" if "current_slot s ref"
    using that by (cases "(s, ref)" rule: current_slot.cases) (auto intro: same)
qed

lemma forget_current:
  assumes "slot \<noteq> Lane ws \<and> slot \<noteq> SandboxLane ws" "current_slot s (slot, c)"
  shows "current_slot (forget ws s) (slot, c)"
  using assms by (cases slot) (auto simp: forget_def Let_def)

lemma lanes_current_step:
  assumes cur: "lanes_current v" and ok: "service_ok quota v" and quiet: "quiet_forget v e" and step: "sched_step v e v'"
  shows "lanes_current v'"
  using step
proof cases
  case (moves i)
  from moves(2) show ?thesis
  proof cases
    case (resolve held slot todo c s)
    have "sched_ok quota (sv_sched v)" using ok by (simp add: service_ok_def)
    note res = resolve_current [OF resolve(3) this]
    have "list_all (current_slot (sv_sched v)) held" using lanes_currentD [OF cur resolve(2)] by simp
    then have "list_all (current_slot s) (referred_slots (Waiting held slot c todo))" using res by (auto simp: list_all_iff)
    then show ?thesis unfolding resolve(1) using lanes_current_put [OF cur resolve(2)] res(2) by blast
  qed (use lanes_currentD [OF cur] in \<open>fastforce intro!: lanes_current_put [OF cur]\<close>)+
next
  case (cancelled i held slot c todo)
  then show ?thesis using lanes_current_put [OF cur cancelled(3)] lanes_currentD [OF cur cancelled(3)] by simp
next
  case (arrives workspaceID kind)
  have "referred_slots (sc_phase (start_call workspaceID kind)) = []" by (auto simp: start_call_def split: option.splits)
  then show ?thesis using cur arrives by (simp add: lanes_current_def)
next
  case (forgotten workspaceID)
  then show ?thesis using cur quiet forget_current by (fastforce simp: lanes_current_def quiet_forget_def list_all_iff)
qed

lemma run_lanes_current: "sched_run quiet_forget quota v \<Longrightarrow> lanes_current v"
proof (induction rule: sched_run.induct)
  case begins
  then show ?case by (simp add: lanes_current_def new_service_def)
next
  case (goes_on v e v')
  then show ?case using lanes_current_step run_ok by blast
qed

text \<open>
  C18. A lane excludes. As long as a workspace is forgotten only while no call holds or waits for one of
  its lanes, at most one call of the class provider read or canonical write executes on a
  workspace at a time, and at most two prepare a plan for it.
\<close>

theorem lane_exclusion:
  assumes "sched_run quiet_forget quota v"
  shows "card (executing v (laned ws)) \<le> 1 \<and> card (executing v (\<lambda>call. sandboxed call \<and> sc_workspaceID call = ws)) \<le> 2"
proof -
  note ok = run_ok [OF assms] and cur = run_lanes_current [OF assms]
  have held_current: "current_slot (sv_sched v) (slot, c)"
    if "(slot, c) \<in> set (held_slots (sc_phase (sv_calls v ! i)))" "i < length (sv_calls v)" for i slot c
    using lanes_currentD [OF cur, of i] that held_referred by (auto simp: phase_of_Some list_all_iff)
  have bound: "card (executing v P) \<le> n"
    if slots: "\<And>call slots. P call \<Longrightarrow> acquire_slots (sc_workspaceID call) (sc_class call) = Some slots \<Longrightarrow> slot \<in> set slots"
      and unique: "\<And>c d. current_slot (sv_sched v) (slot, c) \<Longrightarrow> current_slot (sv_sched v) (slot, d) \<Longrightarrow> c = d"
      and cap: "\<And>c. slot_cap (caps (sv_sched v)) (slot, c) \<Longrightarrow> caps (sv_sched v) ! c = n" for P slot n
  proof (cases "executing v P = {}")
    case False
    have holds: "\<exists>c. (slot, c) \<in> set (held_slots (sc_phase (sv_calls v ! i))) \<and> slot_cap (caps (sv_sched v)) (slot, c)"
      if "i \<in> executing v P" for i
      using executing_holds [OF ok that, of slot] slots that by (metis (mono_tags, lifting) executing_def mem_Collect_eq)
    from False obtain i c where c: "(slot, c) \<in> set (held_slots (sc_phase (sv_calls v ! i)))" "i < length (sv_calls v)"
      "slot_cap (caps (sv_sched v)) (slot, c)"
      using holds executing_subset by fast
    have "c \<in> snd ` set (held_slots (sc_phase (sv_calls v ! j)))" if "j \<in> executing v P" for j
      using holds [OF that] held_current c unique that executing_subset by (metis imageI lessThan_iff snd_conv subsetD)
    then have "card (executing v P) \<le> holders v c" by (rule card_le_holders [OF executing_subset])
    moreover have "c < length (caps (sv_sched v))" using slot_cap_length [OF c(3)] by simp
    ultimately show ?thesis using service_tokens [OF ok] cap [OF c(3)] by (metis le_trans)
  qed simp
  have "card (executing v (laned ws)) \<le> 1"
    by (rule bound [of _ "Lane ws"]) (auto simp: laned_def)
  moreover have "card (executing v (\<lambda>call. sandboxed call \<and> sc_workspaceID call = ws)) \<le> 2"
    by (rule bound [of _ "SandboxLane ws"]) (auto simp: sandboxed_def)
  ultimately show ?thesis by blast
qed


section \<open>Progress\<close>

text \<open>The steps a call still takes by itself.\<close>

fun phase_work :: "phase \<Rightarrow> nat" where
  "phase_work (Acquiring held todo) = 3 * length todo + length held + 3"
| "phase_work (Waiting held slot c todo) = 3 * length todo + length held + 5"
| "phase_work (Executing held) = length held + 2"
| "phase_work (Releasing held served) = length held + 1"
| "phase_work (Finished served) = 0"

definition work :: "service_state \<Rightarrow> nat" where
  "work v = sum_list (map (phase_work \<circ> sc_phase) (sv_calls v))"

definition calls_move :: "service_state \<Rightarrow> service_state \<Rightarrow> bool" where
  "calls_move v v' = (\<exists>i. call_step i v v')"

definition all_finished :: "service_state \<Rightarrow> bool" where
  "all_finished v = list_all (\<lambda>call. \<exists>served. sc_phase call = Finished served) (sv_calls v)"

lemma work_put:
  assumes "phase_of v i = Some p" "phase_work q < phase_work p"
  shows "work (put_call i q s v) < work v"
proof -
  have i: "i < length (sv_calls v)" "sc_phase (sv_calls v ! i) = p" using assms by (auto simp: phase_of_Some)
  then have "phase_work p \<le> work v" unfolding work_def by (intro member_le_sum_list) (auto simp: image_iff intro!: bexI [of _ "sv_calls v ! i"])
  then show ?thesis using i assms(2) by (simp add: work_def put_call_def map_update sum_list_update)
qed

lemma call_step_work: "call_step i v v' \<Longrightarrow> work v' < work v"
  by (erule call_step.cases) (auto intro!: work_put)

lemma acquire_slots_ranked: "acquire_slots ws kind = Some slots \<Longrightarrow> sorted_wrt (<) (map slot_rank slots)"
  by (cases kind) auto

lemma held_below:
  assumes "call_ok cs call" "sc_phase call = Waiting held slot c todo" "d \<in> snd ` set held"
  shows "min d 2 < min c 2"
proof -
  obtain s where s: "(s, d) \<in> set held" using assms(3) by auto
  have "sorted_wrt (<) (map slot_rank (rev (map fst held) @ slot # todo))"
    using assms(1,2) acquire_slots_ranked by (metis call_ok_def option.distinct(1) planned.simps(2))
  then have "slot_rank s < slot_rank slot" using s by (force simp: sorted_wrt_append)
  moreover have "slot_cap cs (s, d)" "slot_cap cs (slot, c)" using assms(1,2) s by (auto simp: call_ok_def list_all_iff)
  ultimately show ?thesis using slot_cap_rank by metis
qed

lemma holder_exists:
  assumes "0 < holders v c"
  obtains i where "i < length (sv_calls v)" "c \<in> snd ` set (held_slots (sc_phase (sv_calls v ! i)))"
proof -
  obtain call where "call \<in> set (sv_calls v)" "count_list (map snd (held_slots (sc_phase call))) c \<noteq> 0"
    using assms unfolding holders_def by (auto simp flip: neq0_conv)
  then show ?thesis using that by (auto simp: in_set_conv_nth count_list_0_iff)
qed

text \<open>
  A call that cannot move waits on a full channel, and the holder of one of its slots is in the same
  situation on a channel further along the order.
\<close>

lemma stuck_call_waits:
  assumes ok: "service_ok quota v" and i: "phase_of v i = Some p" and stuck: "\<nexists>v'. call_step i v v'" and live: "\<forall>served. p \<noteq> Finished served"
  obtains held slot c todo where "p = Waiting held slot c todo" "capacity (sv_sched v) c \<le> tokens (sv_sched v) c"
proof (cases p)
  case (Acquiring held todo)
  have "\<exists>v'. call_step i v v'"
  proof (cases todo)
    case Nil
    then show ?thesis using Acquiring i call_step.acquired by blast
  next
    case (Cons slot rest)
    then show ?thesis using Acquiring i call_step.resolve [OF _ prod.collapse [symmetric]] by blast
  qed
  then show ?thesis using stuck by blast
next
  case (Waiting held slot c todo)
  then have "capacity (sv_sched v) c \<le> tokens (sv_sched v) c" using i stuck call_step.sent not_le by metis
  then show ?thesis using that Waiting by metis
next
  case (Executing held)
  then show ?thesis using i stuck call_step.executed by blast
next
  case (Releasing held served)
  show ?thesis
  proof (cases held)
    case Nil
    then show ?thesis using Releasing i stuck call_step.released by blast
  next
    case (Cons ref rest)
    obtain slot c where ref: "ref = (slot, c)" by fastforce
    have call: "call_ok (caps (sv_sched v)) (sv_calls v ! i)" "sc_phase (sv_calls v ! i) = p" "i < length (sv_calls v)"
      using service_ok_call [OF ok i] i by (auto simp: phase_of_Some)
    have c: "c < length (caps (sv_sched v))"
      using call ref Cons Releasing slot_cap_length by (fastforce simp: call_ok_def)
    have "card {i} \<le> holders v c" by (rule card_le_holders) (use call ref Cons Releasing in auto)
    then have "0 < tokens (sv_sched v) c" using service_tokens(1) [OF ok c] by simp
    then show ?thesis using i stuck Releasing Cons ref call_step.received by blast
  qed
next
  case (Finished served)
  then show ?thesis using live by blast
qed

lemma stuck_is_finished:
  assumes ok: "service_ok quota v" and stuck: "\<nexists>v'. calls_move v v'"
  shows "all_finished v"
proof (rule ccontr)
  assume "\<not> all_finished v"
  have waits: "\<exists>held slot c todo. p = Waiting held slot c todo \<and> capacity (sv_sched v) c \<le> tokens (sv_sched v) c"
    if "phase_of v i = Some p" "\<forall>served. p \<noteq> Finished served" for i p
    using stuck_call_waits [OF ok that(1) _ that(2)] stuck unfolding calls_move_def by metis
  define W where "W = {c. \<exists>i held slot todo. phase_of v i = Some (Waiting held slot c todo) \<and> capacity (sv_sched v) c \<le> tokens (sv_sched v) c}"
  have climb: "\<exists>d \<in> W. min c 2 < min d 2" if "c \<in> W" for c
  proof -
    obtain i held slot todo where i: "phase_of v i = Some (Waiting held slot c todo)" "capacity (sv_sched v) c \<le> tokens (sv_sched v) c"
      using \<open>c \<in> W\<close> by (auto simp: W_def)
    have "slot_cap (caps (sv_sched v)) (slot, c)" using service_ok_call [OF ok i(1)] i(1) by (auto simp: call_ok_def phase_of_Some)
    then have c: "c < length (caps (sv_sched v))" using slot_cap_length by fastforce
    have "1 \<le> caps (sv_sched v) ! c" using ok c nth_mem unfolding service_ok_def sched_ok_def by blast
    then have "0 < holders v c" using i(2) service_tokens [OF ok c] c by (simp add: capacity_def)
    then obtain j where j: "j < length (sv_calls v)" "c \<in> snd ` set (held_slots (sc_phase (sv_calls v ! j)))" by (rule holder_exists)
    then have "phase_of v j = Some (sc_phase (sv_calls v ! j))" "\<forall>served. sc_phase (sv_calls v ! j) \<noteq> Finished served"
      by (auto simp: phase_of_Some)
    from waits [OF this] obtain held' slot' d todo' where d: "sc_phase (sv_calls v ! j) = Waiting held' slot' d todo'"
      "capacity (sv_sched v) d \<le> tokens (sv_sched v) d" by blast
    then have "phase_of v j = Some (Waiting held' slot' d todo')" using j by (simp add: phase_of_Some)
    then have "min c 2 < min d 2" "d \<in> W" using held_below [OF service_ok_call [OF ok]] d j by (auto simp: W_def)
    then show ?thesis by blast
  qed
  have "W = {}"
  proof (rule ccontr)
    assume "W \<noteq> {}"
    then obtain c0 where "c0 \<in> W" by blast
    then obtain c1 where c1: "c1 \<in> W" "min c0 2 < min c1 2" using climb by blast
    then obtain c2 where c2: "c2 \<in> W" "min c1 2 < min c2 2" using climb by blast
    then obtain c3 where "min c2 2 < min c3 2" using climb by blast
    then show False using c1(2) c2(2) by linarith
  qed
  moreover from \<open>\<not> all_finished v\<close> obtain i where "i < length (sv_calls v)" "\<forall>served. sc_phase (sv_calls v ! i) \<noteq> Finished served"
    by (auto simp: all_finished_def list_all_length)
  moreover from this obtain held slot c todo where "sc_phase (sv_calls v ! i) = Waiting held slot c todo"
    "capacity (sv_sched v) c \<le> tokens (sv_sched v) c"
    using waits [of i "sc_phase (sv_calls v ! i)"] by (auto simp: phase_of_Some)
  ultimately have "c \<in> W" unfolding W_def phase_of_Some by blast
  then show False using \<open>W = {}\<close> by blast
qed

lemma calls_move_steps:
  assumes "(calls_move ^^ n) v v'" "service_ok quota v"
  shows "service_ok quota v' \<and> work v' + n \<le> work v"
  using assms(1)
proof (induction n arbitrary: v')
  case 0
  then show ?case using assms(2) by simp
next
  case (Suc n)
  then obtain u where u: "(calls_move ^^ n) v u" "calls_move u v'" by auto
  then obtain i where i: "call_step i u v'" by (auto simp: calls_move_def)
  show ?case using Suc.IH [OF u(1)] call_step_ok [OF _ i, of quota] call_step_work [OF i] by simp
qed

text \<open>
  C21. Calls never deadlock. From every state the service can reach, however the calls in flight
  are interleaved, they take at most a bounded number of steps, and when none of them can take
  another one all of them have finished: no call is left waiting for a slot or blocked while it
  gives one back.
\<close>

theorem calls_finish:
  assumes "sched_run any_event quota v" "(calls_move ^^ n) v v'"
  shows "n \<le> work v \<and> ((\<nexists>u. calls_move v' u) \<longrightarrow> all_finished v')"
  using calls_move_steps [OF assms(2) run_ok [OF assms(1)]] stuck_is_finished by (auto intro: add_leD2)


section \<open>Examples\<close>

definition sample_run :: "event list" where
  "sample_run = [Arrives ''w'' ClassCanonicalWrite, Moves 0, Moves 0, Moves 0, Arrives ''w'' ClassProviderRead, Moves 1, Moves 1, Moves 1]"

definition after_events :: "event list \<Rightarrow> service_state" where
  "after_events es = the (play any_event es (new_service 1))"

lemma events_run:
  assumes "play any_event es (new_service 1) \<noteq> None"
  shows "sched_run any_event 1 (after_events es)"
  using assms play_run [OF _ sched_run.begins] unfolding after_events_def by force

lemma quiet_play:
  assumes "play quiet_forget es v = Some v'"
  shows "play any_event es v = Some v'"
  using assms by (induction es arbitrary: v) (auto simp: any_event_def split: if_splits option.splits)

lemma sample_plays: "play quiet_forget sample_run (new_service 1) \<noteq> None"
  by code_simp

lemma quiet_sample_run: "sched_run quiet_forget 1 (after_events sample_run)"
  using sample_plays play_run [OF _ sched_run.begins] quiet_play unfolding after_events_def by fastforce

theorem scheduler_quotas_witness:
  "card (executing (after_events sample_run) uses_provider) \<le> 1 \<and> tokens (sv_sched (after_events sample_run)) providerSlots = 1"
proof -
  have "play any_event sample_run (new_service 1) \<noteq> None" using sample_plays quiet_play by fastforce
  moreover have "tokens (sv_sched (after_events sample_run)) providerSlots = 1" by code_simp
  ultimately show ?thesis using scheduler_quotas [OF events_run] by force
qed

theorem lane_exclusion_witness:
  "card (executing (after_events sample_run) (laned ''w'')) \<le> 1 \<and> phase_of (after_events sample_run) 0 = Some (Executing [(Lane ''w'', 2)])"
proof -
  have "phase_of (after_events sample_run) 0 = Some (Executing [(Lane ''w'', 2)])" by code_simp
  then show ?thesis using lane_exclusion [OF quiet_sample_run] by blast
qed

theorem calls_finish_witness: "\<exists>v. calls_move (after_events sample_run) v \<and> 1 \<le> work (after_events sample_run)"
proof -
  have "play any_event sample_run (new_service 1) \<noteq> None" using sample_plays quiet_play by fastforce
  note run = events_run [OF this]
  have "move 0 (after_events sample_run) \<noteq> None" by code_simp
  then obtain v where v: "calls_move (after_events sample_run) v" using move_iff by (auto simp: calls_move_def)
  then have "(calls_move ^^ 1) (after_events sample_run) v" by auto
  then show ?thesis using calls_finish [OF run] v by blast
qed

definition race_start :: "event list" where
  "race_start = [Arrives ''w'' ClassCanonicalWrite, Moves 0]"

definition race_end :: "event list" where
  "race_end = race_start @ [Forgotten ''w'', Arrives ''w'' ClassCanonicalWrite, Moves 1, Moves 1, Moves 1, Moves 0, Moves 0]"


end
