(* ===== verification/Spec2Isabelle.thy ===== *)
theory Spec2Isabelle
  imports Operation_Order Recovery_Progress Native_Refinement Preview_Safety Handle_Safety Normalize_Safety Evidence_Examples Diagnostic_Delta Scheduler_Safety
begin

text \<open>
  \<^bold>\<open>Verified parts of huyang.\<close>

  huyang is a server through which a coding agent reads and changes a source tree. A request reaches
  \<^verbatim>\<open>internal/service\<close>, whose scheduler lets it run, and a handler of \<^verbatim>\<open>internal/handlers\<close>, which works on
  an open workspace of \<^verbatim>\<open>internal/workspace\<close>. The workspace observes documents and names every state of
  a document with a revision token; it confines every path to its root; it edits single files under a
  write-ahead journal; and it keeps change plans, which are previewed, prepared in a sandbox, checked
  against declared invariants, and committed through a second journal that is replayed at the next
  start. This development models that core and proves that nothing is lost or half done, whatever
  fails and wherever the process dies.

  \<^bold>\<open>Theories and sources.\<close> Paths are relative to \<^verbatim>\<open>internal/workspace\<close> unless they say otherwise.

  \<^item> \<open>Prelude\<close>: bytes, words, slices and searches of the Go library, association lists, and the interface
    \<open>bounded_store\<close> of a store that never exceeds its bound.
  \<^item> \<open>Errors\<close>: \<^verbatim>\<open>errors.go\<close> and the conflicts of \<^verbatim>\<open>workspace.go\<close>. An error is a value; every early return of
    the code is a branch of the model. Messages are abbreviated; codes and wrapped causes are kept.
  \<^item> \<open>Text_Spans\<close>: splices, hash-bound ranges, the narrowest changed span and literal matches of \<^verbatim>\<open>text.go\<close>
    and \<^verbatim>\<open>plan_preview.go\<close>; the line windows of \<^verbatim>\<open>internal/handlers/lines.go\<close>.
  \<^item> \<open>Plan_Types\<close>: the data of \<^verbatim>\<open>plan.go\<close>, \<^verbatim>\<open>prepare.go\<close>, \<^verbatim>\<open>invariant.go\<close> and \<^verbatim>\<open>pipeline.go\<close>.
  \<^item> \<open>Operation_Order\<close>: \<open>orderOperations\<close> of \<^verbatim>\<open>plan.go\<close>, with its explicit and implied dependencies.
  \<^item> \<open>World\<close>: the file tree, the durable records and the journals of a workspace, and the calls that write
    them (\<^verbatim>\<open>workspace.go\<close>, \<^verbatim>\<open>commit.go\<close>, \<^verbatim>\<open>text.go\<close>).
  \<^item> \<open>Plan_State\<close>, \<open>Plan_Invariants\<close>, \<open>Plan_Store\<close>, \<open>Plan_Lifecycle\<close>: the transition table and the event log, the
    declared invariants and verification gaps, every operation on the plan store, and what they keep
    (\<^verbatim>\<open>plan.go\<close>, \<^verbatim>\<open>plan_expiry.go\<close>, \<^verbatim>\<open>plan_recovery.go\<close>, \<^verbatim>\<open>pending.go\<close>, \<^verbatim>\<open>invariant.go\<close>, \<^verbatim>\<open>prepare.go\<close>).
  \<^item> \<open>Stage_Request\<close>, \<open>Plan_Prepare\<close>: the write set of a plan and its preparation (\<^verbatim>\<open>commit.go\<close>, \<^verbatim>\<open>prepare.go\<close>).
  \<^item> \<open>Commit\<close>, \<open>Commit_Safety\<close>, \<open>Commit_Atomicity\<close>: committing a plan (\<^verbatim>\<open>commit.go\<close>).
  \<^item> \<open>Recovery\<close>, \<open>Recovery_Safety\<close>, \<open>Recovery_Progress\<close>: replaying journals at the start, undoing a commit, and the
    older prepared transactions (\<^verbatim>\<open>recovery.go\<close>, \<^verbatim>\<open>commit.go\<close>).
  \<^item> \<open>Documents\<close>, \<open>Document_History\<close>, \<open>Document_Guard\<close>: observing documents, the bounded history of revisions and the
    mutation guard (\<^verbatim>\<open>workspace.go\<close>, \<^verbatim>\<open>revision_budget.go\<close>, \<^verbatim>\<open>observed_changes.go\<close>).
  \<^item> \<open>Paths\<close>, \<open>Path_Safety\<close>: confining a path through symbolic links (\<^verbatim>\<open>workspace.go\<close>, \<^verbatim>\<open>sandbox.go\<close>).
  \<^item> \<open>Native_Journal\<close>, \<open>Native_Safety\<close>, \<open>Native_Edits\<close>, \<open>Native_Refinement\<close>: edits of single files outside plans, their
    journal and its recovery (\<^verbatim>\<open>text.go\<close>, \<^verbatim>\<open>native_recovery.go\<close>, \<^verbatim>\<open>lifecycle.go\<close>).
  \<^item> \<open>Preview\<close>, \<open>Preview_Safety\<close>: the preview of a plan (\<^verbatim>\<open>plan_preview.go\<close>).
  \<^item> \<open>Literal\<close>, \<open>Literal_Safety\<close>: locating and replacing a literal text (\<^verbatim>\<open>literal.go\<close>, \<^verbatim>\<open>literal_replace.go\<close>,
    \<^verbatim>\<open>internal/handlers/edit_literal.go\<close>).
  \<^item> \<open>Handles\<close>, \<open>Handle_Safety\<close>: opaque handles to ranges and declarations, and the frozen result sets of a
    search (\<^verbatim>\<open>handles.go\<close>).
  \<^item> \<open>Normalize\<close>, \<open>Normalize_Safety\<close>: naming, checking and binding the operations of a plan before it is stored
    (\<open>normalizeOperations\<close> of \<^verbatim>\<open>plan.go\<close>); the plan store takes it as an argument, and \<open>stored_plans_bound\<close> puts the
    two together.
  \<^item> \<open>Evidence\<close>: the ledger of diagnostics, what providers reported about which revision (\<^verbatim>\<open>evidence.go\<close>,
    \<^verbatim>\<open>evidence_proof.go\<close>, \<^verbatim>\<open>evidence_prune.go\<close>). \<open>Evidence_Steps\<close> makes the argument about the steps every operation
    consists of once, in the locale \<open>ledger_relation\<close>; \<open>Evidence_Safety\<close> is about notices, \<open>Evidence_Proof\<close> about
    withdrawal and staleness, \<open>Evidence_Retention\<close> about pruning, \<open>Evidence_Examples\<close> holds the examples.
  \<^item> \<open>Diagnostic_Delta\<close>: what a proposal did to the diagnostics and which operation is to blame
    (\<^verbatim>\<open>diagnostic_delta.go\<close>).
  \<^item> \<open>Scheduler\<close>, \<open>Scheduler_Safety\<close>: the classes of calls and the scheduler (\<^verbatim>\<open>internal/service/scheduler.go\<close>,
    \<^verbatim>\<open>internal/mcpapi/class.go\<close>).

  \<^bold>\<open>State and effects.\<close> A \<open>world\<close> holds what survives or is shared: the tree as a map from absolute paths to
  nodes, the plan records in memory and on disk, the commit journals, the native journals, and the
  identity of the workspace. Code that writes is of type \<open>'a io\<close>: a function from a world to an outcome
  and a world. Every call to the operating system consumes one event of the script \<open>w_io\<close>: it succeeds,
  it fails with an error, or the process dies there (\<open>Crashed\<close>); when the script is used up, calls
  succeed. A theorem over all worlds is therefore a theorem over all failures and crash points.
  Effects are durable when the code has synced them; a journal that is being written may be left
  partial. \<open>io_wp\<close> is the weakest precondition of such code, and most safety proofs are stated with it.
  The document state (\<open>doc_state\<close>) is passed next to the world, because observing never writes the tree.

  \<^bold>\<open>What is shown.\<close>

  \<^item> Plans. A plan follows the transition table and is committed only when it was prepared and proven;
    the operations of the store keep it well formed, retention forgets only finished plans no journal
    needs, opening a workspace leaves no plan in the middle of an operation; preparing never writes the
    canonical tree.
  \<^item> Commits. For every script of failures a commit leaves the tree untouched, or every change is a
    postimage of an open journal that holds the preimage, or it is complete. Recovery, interrupted any
    number of times, restores the tree exactly, and it returns when nothing fails. The argument about
    the loop that applies a journal is made once, for every recheck, in the locales of \<open>Commit_Safety\<close> and
    \<open>Recovery_Safety\<close>, and interpreted for plan commits, transactions and compensations.
  \<^item> Documents. Under a collision-free hash a token names one state of one document, the guard accepts
    exactly the current token, and histories stay within their bounds.
  \<^item> Paths. A confined path, with every link of its directories followed, lies in the root.
  \<^item> Native edits. An edit is atomic and recoverable, and a range edit refines compare-and-swap on the
    abstract store of documents; a range of an unchanged document can always be replaced.
  \<^item> Previews and literal edits. Where a preview says an operation's bytes are, they are; a literal edit
    replaces all occurrences, and its preview shows what it leaves.
  \<^item> Handles. The store of handles stays within its caps; a handle is relocated only where that is
    unambiguous, and an edit through it replaces bytes equal to those it was registered for; the matches
    of a result set that resolve are disjoint.
  \<^item> Normalising. The operations a plan stores are bound to hashes or revisions, and their binding is final.
  \<^item> Diagnostics. A finding is withdrawn exactly by complete proof of its own stream; findings and coverage
    about older bytes do not stay current; staged bytes never enter the ledger; a recording is all or
    nothing; pruning bounds the ledger and drops nothing in use; and no client misses a notice without
    being told that its delta is truncated. The comparison of two reports accounts for every finding.
  \<^item> Ordering and spans. The order of operations is a topological order whenever there is one; a diff
    reconstructs the new document; a search finds exactly the leftmost disjoint occurrences; a line
    window is a window of the document's lines.
  \<^item> Scheduling. One canonical write per workspace, bounded sandboxes and providers, and no deadlock.
  \<^item> Deviations. Some theorems exhibit runs in which the code does not do what its documentation says:
    a failed transition can leave memory and disk apart, an expired draft cannot be prepared, a created
    file that is not text blocks its own recovery, a forgotten lane lets two writes race, replaced
    matches misplace the hunks of a preview, and a text indented like the document on its first line
    only is taken for uniformly indented.

  \<^bold>\<open>Parameters and bounds.\<close> SHA-256, the JSON encodings that are hashed, the clock, the stager that fills a
  sandbox, the evaluator of invariants, the listing of a workspace's files (Git), the parser of
  declarations and regular expressions are arguments. What is assumed of them is a named hypothesis (\<open>collision_free\<close> for the hash and
  its encodings), and each has an example. The constants of the code are kept: 255 links on a path, 32
  revisions per document within a budget of 16 MiB, 4096 observed changes with a slack of 512, the first 8 and
  the last 56 events of a plan, 64 bytes of context around a range, 4 MiB for a copied file, 1000 notices, 1000
  inactive findings and 500 unreferenced pieces of evidence in the ledger, 8 references per owner. There is no fuel:
  loops are structural recursions or have a termination proof, except \<open>matchRanges\<close>, which the code
  does not end on an empty literal; it is a partial function proved to return on every other.

  \<^bold>\<open>Not modelled.\<close> Directory listing, search and the parsers of Git's output; sandboxes and process control,
  which are system calls; formatters, linters and tests of the verification pipeline, of which only the
  outcome matters to a plan; the parser of declarations and the analyses over a
  provider's output, which are advisory; the provider process and its pool; registries, receipts and telemetry of the service;
  decoding of requests and rendering of answers. Hash collisions, hard links, other processes writing the
  tree during a call, and file systems that reorder synced writes are outside the model.
\<close>

end
